(* ===== verification/Shop_Prelude.thy ===== *)
theory Shop_Prelude
  imports Complex_Main "HOL-Library.AList" "HOL-Library.Product_Lexorder"
begin

text \<open>
  Shared vocabulary of the development: the effects of the Python code (a state that is passed
  on, an exception that carries the state reached so far), JSON-like dictionaries, the rows of an
  SQLite table, and the list lemmas the component theories use.  Nothing here models a particular
  function of the repository.
\<close>

named_theorems keeps_intros \<open>how an invariant passes through a composed action\<close>
named_theorems triple_intros \<open>how a pre- and postcondition passes through a composed action\<close>
named_theorems row_simps \<open>rows of a table under update and selection\<close>

section \<open>Stateful actions with exceptions\<close>

text \<open>
  An action takes the state and returns the state it leaves together with an exception
  (\<open>Inl\<close>) or a value (\<open>Inr\<close>).  A Python exception does not undo the writes made
  before it, so the state is returned on both branches.
\<close>

type_synonym ('s, 'e, 'a) action = "'s \<Rightarrow> 's \<times> ('e + 'a)"

definition ret :: "'a \<Rightarrow> ('s, 'e, 'a) action" where
  "ret x s = (s, Inr x)"

definition raiseA :: "'e \<Rightarrow> ('s, 'e, 'a) action" where
  "raiseA e s = (s, Inl e)"

definition bindA :: "('s, 'e, 'a) action \<Rightarrow> ('a \<Rightarrow> ('s, 'e, 'b) action) \<Rightarrow> ('s, 'e, 'b) action" where
  "bindA m f s = (case m s of (s', Inl e) \<Rightarrow> (s', Inl e) | (s', Inr x) \<Rightarrow> f x s')"

text \<open>\<open>try: m except e: h e\<close>, the handler running in the state the exception left.\<close>

definition tryA :: "('s, 'e, 'a) action \<Rightarrow> ('e \<Rightarrow> ('s, 'e, 'a) action) \<Rightarrow> ('s, 'e, 'a) action" where
  "tryA m h s = (case m s of (s', Inl e) \<Rightarrow> h e s' | (s', Inr x) \<Rightarrow> (s', Inr x))"

text \<open>A list comprehension whose element expression is an action: left to right, stopping at
  the first exception.\<close>

fun mapA :: "('a \<Rightarrow> ('s, 'e, 'b) action) \<Rightarrow> 'a list \<Rightarrow> ('s, 'e, 'b list) action" where
  "mapA f [] = ret []"
| "mapA f (x # xs) = bindA (f x) (\<lambda>y. bindA (mapA f xs) (\<lambda>ys. ret (y # ys)))"

lemma ret_apply [simp]: "ret x s = (s, Inr x)"
  by (simp add: ret_def)

lemma raiseA_apply [simp]: "raiseA e s = (s, Inl e)"
  by (simp add: raiseA_def)

lemma bindA_Inr [simp]: "m s = (s', Inr x) \<Longrightarrow> bindA m f s = f x s'"
  by (simp add: bindA_def)

lemma bindA_Inl [simp]: "m s = (s', Inl e) \<Longrightarrow> bindA m f s = (s', Inl e)"
  by (simp add: bindA_def)

lemma bindA_eq_Inr:
  "bindA m f s = (s'', Inr y) \<longleftrightarrow> (\<exists>s' x. m s = (s', Inr x) \<and> f x s' = (s'', Inr y))"
  by (auto simp: bindA_def split: prod.splits sum.splits)

lemma tryA_Inr [simp]: "m s = (s', Inr x) \<Longrightarrow> tryA m h s = (s', Inr x)"
  by (simp add: tryA_def)

lemma tryA_Inl [simp]: "m s = (s', Inl e) \<Longrightarrow> tryA m h s = h e s'"
  by (simp add: tryA_def)

text \<open>
  \<open>keeps R m\<close>: whatever \<open>m\<close> does, its start and end states are related by \<open>R\<close>,
  on the normal and on the exceptional branch.  An invariant \<open>I\<close> is the relation
  \<open>\<lambda>s s'. I s \<longrightarrow> I s'\<close>.
\<close>

definition keeps :: "('s \<Rightarrow> 's \<Rightarrow> bool) \<Rightarrow> ('s, 'e, 'a) action \<Rightarrow> bool" where
  "keeps R m \<longleftrightarrow> (\<forall>s. R s (fst (m s)))"

lemma keepsI [intro?]: "(\<And>s. R s (fst (m s))) \<Longrightarrow> keeps R m"
  by (simp add: keeps_def)

lemma keepsD: "keeps R m \<Longrightarrow> R s (fst (m s))"
  by (simp add: keeps_def)

lemma keeps_ret [keeps_intros]: "reflp R \<Longrightarrow> keeps R (ret x)"
  by (simp add: keeps_def reflp_def)

lemma keeps_raise [keeps_intros]: "reflp R \<Longrightarrow> keeps R (raiseA e)"
  by (simp add: keeps_def reflp_def)

lemma keeps_bind [keeps_intros]:
  assumes "transp R" and "keeps R m" and "\<And>x. keeps R (f x)"
  shows "keeps R (bindA m f)"
proof
  fix s
  obtain s' r where m: "m s = (s', r)" by (cases "m s")
  then have 1: "R s s'" using keepsD [OF assms(2), of s] by simp
  show "R s (fst (bindA m f s))"
  proof (cases r)
    case (Inl e)
    with m 1 show ?thesis by simp
  next
    case (Inr x)
    with m have "bindA m f s = f x s'" by simp
    moreover have "R s' (fst (f x s'))" using assms(3) by (rule keepsD)
    ultimately show ?thesis using 1 assms(1) by (auto dest: transpD)
  qed
qed

lemma keeps_try [keeps_intros]:
  assumes "transp R" and "keeps R m" and "\<And>e. keeps R (h e)"
  shows "keeps R (tryA m h)"
proof
  fix s
  obtain s' r where m: "m s = (s', r)" by (cases "m s")
  then have 1: "R s s'" using keepsD [OF assms(2), of s] by simp
  show "R s (fst (tryA m h s))"
  proof (cases r)
    case (Inr x)
    with m 1 show ?thesis by simp
  next
    case (Inl e)
    with m have "tryA m h s = h e s'" by simp
    moreover have "R s' (fst (h e s'))" using assms(3) by (rule keepsD)
    ultimately show ?thesis using 1 assms(1) by (auto dest: transpD)
  qed
qed

lemma keeps_mapA [keeps_intros]:
  assumes "reflp R" and "transp R" and "\<And>x. keeps R (f x)"
  shows "keeps R (mapA f xs)"
  using assms by (induction xs) (auto intro!: keeps_intros)

text \<open>
  \<open>triple P m Q E\<close>: from a state with \<open>P\<close>, a normal end satisfies \<open>Q\<close> and an
  exception ends in a state with \<open>E\<close>.
\<close>

definition triple ::
  "('s \<Rightarrow> bool) \<Rightarrow> ('s, 'e, 'a) action \<Rightarrow> ('a \<Rightarrow> 's \<Rightarrow> bool) \<Rightarrow> ('e \<Rightarrow> 's \<Rightarrow> bool) \<Rightarrow> bool" where
  "triple P m Q E \<longleftrightarrow> (\<forall>s. P s \<longrightarrow> (case m s of (s', Inl e) \<Rightarrow> E e s' | (s', Inr x) \<Rightarrow> Q x s'))"

lemma tripleI: "(\<And>s. P s \<Longrightarrow> case m s of (s', Inl e) \<Rightarrow> E e s' | (s', Inr x) \<Rightarrow> Q x s') \<Longrightarrow> triple P m Q E"
  by (simp add: triple_def)

lemma tripleD: "triple P m Q E \<Longrightarrow> P s \<Longrightarrow> m s = (s', r) \<Longrightarrow> (case r of Inl e \<Rightarrow> E e s' | Inr x \<Rightarrow> Q x s')"
  by (fastforce simp: triple_def split: sum.splits)

lemma triple_ret [triple_intros]: "(\<And>s. P s \<Longrightarrow> Q x s) \<Longrightarrow> triple P (ret x) Q E"
  by (simp add: triple_def)

lemma triple_raise [triple_intros]: "(\<And>s. P s \<Longrightarrow> E e s) \<Longrightarrow> triple P (raiseA e) Q E"
  by (simp add: triple_def)

lemma triple_bind:
  "triple P m R E \<Longrightarrow> (\<And>x. triple (R x) (f x) Q E) \<Longrightarrow> triple P (bindA m f) Q E"
  by (fastforce simp: triple_def bindA_def split: prod.splits sum.splits)

lemma triple_try:
  "triple P m Q R \<Longrightarrow> (\<And>e. triple (R e) (h e) Q E) \<Longrightarrow> triple P (tryA m h) Q E"
  by (fastforce simp: triple_def tryA_def split: prod.splits sum.splits)

lemma triple_mapA: "(\<And>x. triple P (f x) (\<lambda>_. P) E) \<Longrightarrow> triple P (mapA f xs) (\<lambda>_. P) E"
  by (induction xs) (auto intro!: triple_bind triple_ret)

lemma triple_pre: "triple P' m Q E \<Longrightarrow> (\<And>s. P s \<Longrightarrow> P' s) \<Longrightarrow> triple P m Q E"
  by (simp add: triple_def)

lemma triple_post: "triple P m Q' E \<Longrightarrow> (\<And>x s. Q' x s \<Longrightarrow> Q x s) \<Longrightarrow> triple P m Q E"
  by (fastforce simp: triple_def split: prod.splits sum.splits)

lemma triple_ex:
  assumes "\<And>x. triple (P x) m Q E"
  shows "triple (\<lambda>s. \<exists>x. P x s) m Q E"
proof (rule tripleI)
  fix s
  assume "\<exists>x. P x s"
  then obtain x where "P x s" ..
  with assms [of x] show "case m s of (s', Inl e) \<Rightarrow> E e s' | (s', Inr y) \<Rightarrow> Q y s'"
    by (simp add: triple_def)
qed

lemma triple_split: "(\<And>a b. triple P (f a b) Q E) \<Longrightarrow> triple P (case p of (a, b) \<Rightarrow> f a b) Q E"
  by (cases p) simp

lemma triple_case_option:
  "triple P f Q E \<Longrightarrow> (\<And>a. triple P (g a) Q E) \<Longrightarrow> triple P (case p of None \<Rightarrow> f | Some a \<Rightarrow> g a) Q E"
  by (cases p) simp_all

lemma triple_pure: "(b \<Longrightarrow> triple P m Q E) \<Longrightarrow> triple (\<lambda>s. b \<and> P s) m Q E"
  by (simp add: triple_def)

text \<open>A pure loop that stops at the first error.\<close>

fun mapE :: "('a \<Rightarrow> 'e + 'b) \<Rightarrow> 'a list \<Rightarrow> 'e + 'b list" where
  "mapE f [] = Inr []"
| "mapE f (x # xs) =
     (case f x of
        Inl e \<Rightarrow> Inl e
      | Inr y \<Rightarrow> (case mapE f xs of Inl e \<Rightarrow> Inl e | Inr ys \<Rightarrow> Inr (y # ys)))"

lemma mapE_Inr: "(\<And>x. x \<in> set xs \<Longrightarrow> f x = Inr (g x)) \<Longrightarrow> mapE f xs = Inr (map g xs)"
  by (induction xs) auto

lemma mapE_InrD: "mapE f xs = Inr ys \<Longrightarrow> list_all2 (\<lambda>x y. f x = Inr y) xs ys"
  by (induction xs arbitrary: ys) (auto split: sum.splits)

lemma mapE_append:
  "mapE f (xs @ ys) = (case mapE f xs of Inl e \<Rightarrow> Inl e
     | Inr as \<Rightarrow> (case mapE f ys of Inl e \<Rightarrow> Inl e | Inr bs \<Rightarrow> Inr (as @ bs)))"
  by (induction xs) (auto split: sum.splits)

lemma mapE_cong: "(\<And>x. x \<in> set xs \<Longrightarrow> f x = g x) \<Longrightarrow> mapE f xs = mapE g xs"
  by (induction xs) (auto split: sum.splits)

section \<open>JSON values and dictionaries\<close>

text \<open>A Python dict with string keys is an association list in insertion order; \<open>map_of\<close>
  reads it and \<open>AList.update\<close> writes it (in place for a present key, at the end otherwise).  Python's
  JSON has the three non-finite numbers.\<close>

datatype json =
    JNull
  | JBool bool
  | JInt int
  | JNum real
  | JPosInf
  | JNegInf
  | JNaN
  | JStr string
  | JArr "json list"
  | JObj "(string \<times> json) list"

type_synonym dict = "(string \<times> json) list"

text \<open>The values that Python takes for false of a parsed document.\<close>

definition falsy :: "json \<Rightarrow> bool" where
  "falsy j \<longleftrightarrow> (case j of JNull \<Rightarrow> True | JBool b \<Rightarrow> \<not> b | JInt i \<Rightarrow> i = 0 | JNum x \<Rightarrow> x = 0 | JPosInf \<Rightarrow> False | JNegInf \<Rightarrow> False | JNaN \<Rightarrow> False
     | JStr s \<Rightarrow> s = [] | JArr xs \<Rightarrow> xs = [] | JObj d \<Rightarrow> d = [])"

text \<open>\<open>repr\<close> of a Python string over the code points U+0000 to U+00FF: single quotes unless
  the string holds a single and no double quote, the usual escapes, \<open>\xhh\<close> for the rest of
  the unprintable ones.\<close>

definition hex_digit :: "nat \<Rightarrow> char" where
  "hex_digit n = (if n < 10 then char_of (48 + n) else char_of (87 + n))"

definition repr_char :: "char \<Rightarrow> char \<Rightarrow> string" where
  "repr_char q c =
     (let n = (of_char c :: nat) in
      if c = q \<or> n = 92 then [char_of (92::nat), c]
      else if n = 10 then [char_of (92::nat), CHR ''n'']
      else if n = 13 then [char_of (92::nat), CHR ''r'']
      else if n = 9 then [char_of (92::nat), CHR ''t'']
      else if n < 32 \<or> 127 \<le> n \<and> n \<le> 160 \<or> n = 173
        then [char_of (92::nat), CHR ''x'', hex_digit (n div 16), hex_digit (n mod 16)]
      else [c])"

definition py_repr :: "string \<Rightarrow> string" where
  "py_repr s =
     (let q = (if char_of (39::nat) \<in> set s \<and> char_of (34::nat) \<notin> set s
               then char_of (34::nat) else char_of (39::nat))
      in q # concat (map (repr_char q) s) @ [q])"

lemma update_fresh: "map_of al k = None \<Longrightarrow> AList.update k v al = al @ [(k, v)]"
  by (induction al) (auto split: if_splits)

section \<open>Rows of a table\<close>

text \<open>
  A table is the list of its rows in rowid order.  \<open>UPDATE ... WHERE P\<close> rewrites the matching
  rows in place and reports how many matched; \<open>ORDER BY\<close> sorts stably on the key.
\<close>

definition update_rows :: "('r \<Rightarrow> bool) \<Rightarrow> ('r \<Rightarrow> 'r) \<Rightarrow> 'r list \<Rightarrow> 'r list" where
  "update_rows P f rs = map (\<lambda>r. if P r then f r else r) rs"

definition rowcount :: "('r \<Rightarrow> bool) \<Rightarrow> 'r list \<Rightarrow> nat" where
  "rowcount P rs = length (filter P rs)"

definition row_by :: "('r \<Rightarrow> 'k) \<Rightarrow> 'k \<Rightarrow> 'r list \<Rightarrow> 'r option" where
  "row_by key k rs = find (\<lambda>r. key r = k) rs"

definition insert_or_replace :: "('r \<Rightarrow> 'k) \<Rightarrow> 'r \<Rightarrow> 'r list \<Rightarrow> 'r list" where
  "insert_or_replace key r rs = filter (\<lambda>x. key x \<noteq> key r) rs @ [r]"

definition insert_or_ignore :: "('r \<Rightarrow> 'k) \<Rightarrow> 'r \<Rightarrow> 'r list \<Rightarrow> 'r list" where
  "insert_or_ignore key r rs = (if row_by key (key r) rs = None then rs @ [r] else rs)"

text \<open>\<open>SELECT key, COUNT(*) ... GROUP BY key\<close> as a dict: one entry per key that occurs.\<close>

definition group_count :: "('r \<Rightarrow> 'k) \<Rightarrow> 'r list \<Rightarrow> ('k \<times> nat) list" where
  "group_count key rs = map (\<lambda>k. (k, length (filter (\<lambda>r. key r = k) rs))) (remdups (map key rs))"

definition dict_get :: "('k \<times> nat) list \<Rightarrow> 'k \<Rightarrow> nat" where
  "dict_get d k = (case map_of d k of None \<Rightarrow> 0 | Some n \<Rightarrow> n)"

lemma row_by_Nil [row_simps]: "row_by key k [] = None"
  by (simp add: row_by_def)

lemma row_by_Cons [row_simps]:
  "row_by key k (r # rs) = (if key r = k then Some r else row_by key k rs)"
  by (simp add: row_by_def)

lemma row_by_append [row_simps]:
  "row_by key k (xs @ ys) = (case row_by key k xs of None \<Rightarrow> row_by key k ys | Some r \<Rightarrow> Some r)"
  by (induction xs) (auto simp: row_simps)

lemma row_by_SomeD: "row_by key k rs = Some r \<Longrightarrow> r \<in> set rs \<and> key r = k"
  by (induction rs) (auto simp: row_simps split: if_splits)

lemma row_by_None_iff: "row_by key k rs = None \<longleftrightarrow> k \<notin> key ` set rs"
  by (induction rs) (auto simp: row_simps)

lemma row_by_unique:
  "distinct (map key rs) \<Longrightarrow> r \<in> set rs \<Longrightarrow> row_by key (key r) rs = Some r"
  by (induction rs) (auto simp: row_simps)

lemma length_update_rows [simp, row_simps]: "length (update_rows P f rs) = length rs"
  by (simp add: update_rows_def)

lemma map_key_update_rows:
  "(\<And>r. key (f r) = key r) \<Longrightarrow> map key (update_rows P f rs) = map key rs"
  by (auto simp: update_rows_def)

lemma row_by_update_rows:
  assumes "\<And>r. key (f r) = key r"
  shows "row_by key k (update_rows P f rs)
    = map_option (\<lambda>r. if P r then f r else r) (row_by key k rs)"
  using assms by (induction rs) (auto simp: row_simps update_rows_def)

lemma set_update_rows: "set (update_rows P f rs) = (\<lambda>r. if P r then f r else r) ` set rs"
  by (simp add: update_rows_def)

lemma rowcount_unique:
  assumes "distinct (map key rs)" and "row_by key k rs = Some r"
  shows "rowcount (\<lambda>x. key x = k \<and> P x) rs = (if P r then 1 else 0)"
  using assms
proof (induction rs)
  case Nil
  then show ?case by (simp add: row_simps)
next
  case (Cons y ys)
  show ?case
  proof (cases "key y = k")
    case True
    with Cons.prems have [simp]: "y = r" and "k \<notin> key ` set ys" by (auto simp: row_simps)
    then have "filter (\<lambda>x. key x = k \<and> P x) ys = []" by (auto simp: filter_empty_conv)
    with True show ?thesis by (simp add: rowcount_def)
  next
    case False
    with Cons show ?thesis by (simp add: rowcount_def row_simps)
  qed
qed

lemma rowcount_absent: "row_by key k rs = None \<Longrightarrow> rowcount (\<lambda>x. key x = k \<and> P x) rs = 0"
  by (induction rs) (auto simp: rowcount_def row_simps split: if_splits)

lemma sum_list_update_one:
  fixes w :: "'r \<Rightarrow> nat"
  assumes "distinct (map key rs)" and "r \<in> set rs"
  shows "sum_list (map w (update_rows (\<lambda>x. key x = key r) (\<lambda>_. r') rs)) + w r
    = sum_list (map w rs) + w r'"
  using assms
proof (induction rs)
  case Nil
  then show ?case by simp
next
  case (Cons y ys)
  show ?case
  proof (cases "key y = key r")
    case True
    with Cons.prems have "y = r" and no: "key r \<notin> key ` set ys"
      by (auto simp: rev_image_eqI)
    have "update_rows (\<lambda>x. key x = key r) (\<lambda>_. r') ys = ys"
      using no by (auto simp: update_rows_def intro!: map_idI) (metis image_eqI)
    with True \<open>y = r\<close> show ?thesis by (simp add: update_rows_def)
  next
    case False
    with Cons show ?thesis by (auto simp: update_rows_def)
  qed
qed

lemma row_by_filter_distinct:
  "distinct (map key rs) \<Longrightarrow> row_by key k (filter P rs)
    = (case row_by key k rs of None \<Rightarrow> None | Some r \<Rightarrow> if P r then Some r else None)"
  by (induction rs)
    (auto simp: row_simps row_by_None_iff split: option.splits dest!: row_by_SomeD
      intro: rev_image_eqI)

lemma row_by_insert_or_replace:
  "row_by key k (insert_or_replace key r rs) = (if k = key r then Some r else row_by key k rs)"
  by (induction rs) (auto simp: insert_or_replace_def row_simps)

lemma distinct_insert_or_replace:
  "distinct (map key rs) \<Longrightarrow> distinct (map key (insert_or_replace key r rs))"
  by (auto simp: insert_or_replace_def distinct_map inj_on_def)

lemma sum_group_count: "sum_list (map snd (group_count key rs)) = length rs"
proof -
  have "sum_list (map snd (group_count key rs))
      = (\<Sum>k \<in> key ` set rs. length (filter (\<lambda>r. key r = k) rs))"
    by (simp add: group_count_def o_def sum_list_distinct_conv_sum_set)
  also have "\<dots> = (\<Sum>k \<in> key ` set rs. count_list (map key rs) k)"
    by (simp add: count_list_eq_length_filter filter_map o_def eq_commute)
  also have "\<dots> = length (map key rs)"
    using sum_count_set [of "map key rs" "key ` set rs"] by simp
  finally show ?thesis by simp
qed

lemma dict_get_group_count: "dict_get (group_count key rs) k = length (filter (\<lambda>r. key r = k) rs)"
proof (cases "k \<in> key ` set rs")
  case True
  then have "map_of (group_count key rs) k = Some (length (filter (\<lambda>r. key r = k) rs))"
    by (auto simp: group_count_def map_of_map_restrict restrict_map_def)
  then show ?thesis by (simp add: dict_get_def)
next
  case False
  then have "map_of (group_count key rs) k = None"
    by (auto simp: group_count_def map_of_map_restrict restrict_map_def)
  moreover from False have "filter (\<lambda>r. key r = k) rs = []" by (auto simp: filter_empty_conv)
  ultimately show ?thesis by (simp add: dict_get_def)
qed

section \<open>Sorting and selecting\<close>

lemma sort_key_hd:
  assumes "sort_key f xs = y # ys"
  shows "y \<in> set xs" and "\<forall>x \<in> set xs. f y \<le> f x"
proof -
  have s: "set (sort_key f xs) = set xs" by simp
  with assms show "y \<in> set xs" by (metis list.set_intros(1))
  have "sorted (map f (y # ys))" using assms sorted_sort_key [of f xs] by simp
  then have "\<forall>x \<in> set (y # ys). f y \<le> f x" by auto
  with assms s show "\<forall>x \<in> set xs. f y \<le> f x" by metis
qed

lemma sort_key_Nil_iff [simp]: "sort_key f xs = [] \<longleftrightarrow> xs = []"
  by (metis length_0_conv length_sort)

lemma length_filter_update_gain:
  assumes "distinct (map key rs)" and "r \<in> set rs" and "\<not> Q r" and "Q (f r)"
  shows "length (filter Q (update_rows (\<lambda>x. key x = key r) f rs)) = Suc (length (filter Q rs))"
  using assms
proof (induction rs)
  case Nil
  then show ?case by simp
next
  case (Cons y ys)
  show ?case
  proof (cases "key y = key r")
    case True
    with Cons.prems have [simp]: "y = r" and no: "key r \<notin> key ` set ys"
      by (auto simp: rev_image_eqI)
    have "update_rows (\<lambda>x. key x = key r) f ys = ys"
      using no by (auto simp: update_rows_def intro!: map_idI) (metis image_eqI)
    with Cons.prems show ?thesis by (simp add: update_rows_def)
  next
    case False
    with Cons show ?thesis by (auto simp: update_rows_def)
  qed
qed

end
