(* ===== verification/Jobs.thy ===== *)
theory Jobs
  imports Shop_Prelude
begin

text \<open>
  \<^verbatim>\<open>src/shoprl/platform/jobs.py\<close>: the job lifecycle as an explicit transition graph, the
  terminal states, the two transition checks and the \<open>Job\<close> record.  The lemmas show that
  \<open>TERMINAL\<close> is exactly the set of states without a successor and that no state is a trap.
\<close>

datatype job_state =
    PENDING | RUNNING | PAUSED | SUCCEEDED | FAILED | RETRYING | DEAD_LETTER | CANCELLED

fun state_value :: "job_state \<Rightarrow> string" where
  "state_value PENDING = ''pending''"
| "state_value RUNNING = ''running''"
| "state_value PAUSED = ''paused''"
| "state_value SUCCEEDED = ''succeeded''"
| "state_value FAILED = ''failed''"
| "state_value RETRYING = ''retrying''"
| "state_value DEAD_LETTER = ''dead_letter''"
| "state_value CANCELLED = ''cancelled''"

text \<open>\<open>_TRANSITIONS\<close>: the set of successors of each state.\<close>

fun transitions :: "job_state \<Rightarrow> job_state set" where
  "transitions PENDING = {RUNNING, PAUSED, CANCELLED}"
| "transitions RUNNING = {SUCCEEDED, FAILED, PAUSED, CANCELLED}"
| "transitions PAUSED = {PENDING, CANCELLED}"
| "transitions FAILED = {RETRYING, DEAD_LETTER}"
| "transitions RETRYING = {PENDING, DEAD_LETTER}"
| "transitions SUCCEEDED = {}"
| "transitions DEAD_LETTER = {}"
| "transitions CANCELLED = {}"

definition TERMINAL :: "job_state set" where
  "TERMINAL = {SUCCEEDED, DEAD_LETTER, CANCELLED}"

definition can_transition :: "job_state \<Rightarrow> job_state \<Rightarrow> bool" where
  "can_transition src dst \<longleftrightarrow> dst \<in> transitions src"

text \<open>The exceptions of the job store; \<open>IntegrityError\<close> is SQLite's refusal of a duplicate
  primary key and \<open>StillContested\<close> marks a claim loop whose rounds ran out.\<close>

datatype store_error =
    JobNotFound string
  | InvalidTransition job_state job_state
  | ConcurrentModification string
  | IntegrityError string
  | StillContested

definition assert_transition :: "job_state \<Rightarrow> job_state \<Rightarrow> store_error + unit" where
  "assert_transition src dst =
     (if can_transition src dst then Inr () else Inl (InvalidTransition src dst))"

record job =
  job_id :: string
  job_kind :: string
  job_payload :: dict
  job_state :: job_state
  job_attempts :: int
  job_max_attempts :: int
  job_error :: "string option"
  job_resource :: string
  job_priority :: int
  job_created_at :: real
  job_updated_at :: real
  job_lease :: "real option"

text \<open>\<open>Job(kind=..., ...)\<close> with the dataclass defaults for the fields the caller leaves out;
  the fresh id and the clock are arguments.\<close>

definition new_job :: "string \<Rightarrow> real \<Rightarrow> string \<Rightarrow> dict \<Rightarrow> int \<Rightarrow> string \<Rightarrow> int \<Rightarrow> job" where
  "new_job jid now kind payload maxa res prio =
     \<lparr>job_id = jid, job_kind = kind, job_payload = payload, job_state = PENDING,
      job_attempts = 0, job_max_attempts = maxa, job_error = None, job_resource = res,
      job_priority = prio, job_created_at = now, job_updated_at = now, job_lease = None\<rparr>"

definition is_terminal :: "job \<Rightarrow> bool" where
  "is_terminal j \<longleftrightarrow> job_state j \<in> TERMINAL"

section \<open>The graph\<close>

lemma can_transition_simps [simp]:
  "can_transition PENDING d \<longleftrightarrow> d \<in> {RUNNING, PAUSED, CANCELLED}"
  "can_transition RUNNING d \<longleftrightarrow> d \<in> {SUCCEEDED, FAILED, PAUSED, CANCELLED}"
  "can_transition PAUSED d \<longleftrightarrow> d \<in> {PENDING, CANCELLED}"
  "can_transition FAILED d \<longleftrightarrow> d \<in> {RETRYING, DEAD_LETTER}"
  "can_transition RETRYING d \<longleftrightarrow> d \<in> {PENDING, DEAD_LETTER}"
  "can_transition SUCCEEDED d \<longleftrightarrow> False"
  "can_transition DEAD_LETTER d \<longleftrightarrow> False"
  "can_transition CANCELLED d \<longleftrightarrow> False"
  by (simp_all add: can_transition_def)

lemma TERMINAL_simps [simp]:
  "SUCCEEDED \<in> TERMINAL" "DEAD_LETTER \<in> TERMINAL" "CANCELLED \<in> TERMINAL"
  "PENDING \<notin> TERMINAL" "RUNNING \<notin> TERMINAL" "PAUSED \<notin> TERMINAL"
  "FAILED \<notin> TERMINAL" "RETRYING \<notin> TERMINAL"
  by (simp_all add: TERMINAL_def)

lemma terminal_no_edge: "s \<in> TERMINAL \<Longrightarrow> \<not> can_transition s d"
  by (cases s) simp_all

lemma terminal_iff_sink: "s \<in> TERMINAL \<longleftrightarrow> (\<nexists>d. can_transition s d)"
  by (cases s) auto

lemma terminal_rtranclp: "can_transition\<^sup>*\<^sup>* s d \<Longrightarrow> s \<in> TERMINAL \<Longrightarrow> d = s"
  by (induction rule: rtranclp_induct) (auto simp: terminal_no_edge)

lemma reaches_terminal: "\<exists>d \<in> TERMINAL. can_transition\<^sup>*\<^sup>* s d"
proof (cases s)
  case FAILED
  then have "can_transition\<^sup>*\<^sup>* s DEAD_LETTER" by (auto intro: r_into_rtranclp)
  then show ?thesis by (auto simp: TERMINAL_def)
next
  case RETRYING
  then have "can_transition\<^sup>*\<^sup>* s DEAD_LETTER" by (auto intro: r_into_rtranclp)
  then show ?thesis by (auto simp: TERMINAL_def)
qed (auto simp: TERMINAL_def intro: r_into_rtranclp)

lemma running_only_from_pending: "can_transition s RUNNING \<longleftrightarrow> s = PENDING"
  by (cases s) auto

lemma succeeded_only_from_running: "can_transition s SUCCEEDED \<longleftrightarrow> s = RUNNING"
  by (cases s) auto

lemma failed_only_from_running: "can_transition s FAILED \<longleftrightarrow> s = RUNNING"
  by (cases s) auto

text \<open>The terminal states are exactly the states the graph has no way out of, from every
  state a terminal one can be reached, and a path that starts in a terminal state stays there.\<close>

theorem lifecycle_graph:
  "(s \<in> TERMINAL) = (\<nexists>d. can_transition s d) \<and>
   (\<exists>d. d \<in> TERMINAL \<and> can_transition\<^sup>*\<^sup>* s d) \<and>
   {d. s \<in> TERMINAL \<and> can_transition\<^sup>*\<^sup>* s d \<and> d \<noteq> s} = {}"
  using terminal_iff_sink reaches_terminal terminal_rtranclp by blast

end
