(* ===== verification/Job_Store.thy ===== *)
theory Job_Store
  imports Jobs
begin

text \<open>
  \<^verbatim>\<open>src/shoprl/platform/store.py\<close>: the SQLite job store.  The state is the two tables
  (\<open>jobs\<close> in rowid order and the result ledger); every method is an action on it, with the
  clock and the fresh id as arguments.  A connection's calls are atomic here; the interleaving of
  several processes is the subject of the theory \<open>Worker_Pool\<close>.
\<close>

type_synonym ledger_row = "string \<times> dict \<times> real"

record store =
  jobs_table :: "job list"
  ledger :: "ledger_row list"

type_synonym 'a store_action = "(store, store_error, 'a) action"

definition empty_store :: store where
  "empty_store = \<lparr>jobs_table = [], ledger = []\<rparr>"

definition is_pending :: "job \<Rightarrow> bool" where
  "is_pending j \<longleftrightarrow> job_state j = PENDING"

definition is_running :: "job \<Rightarrow> bool" where
  "is_running j \<longleftrightarrow> job_state j = RUNNING"

section \<open>Reads\<close>

definition lookup :: "store \<Rightarrow> string \<Rightarrow> job option" where
  "lookup s jid = row_by job_id jid (jobs_table s)"

definition get_job :: "string \<Rightarrow> job store_action" where
  "get_job jid s = (case lookup s jid of None \<Rightarrow> (s, Inl (JobNotFound jid)) | Some j \<Rightarrow> (s, Inr j))"

definition list_jobs :: "job_state option \<Rightarrow> store \<Rightarrow> job list" where
  "list_jobs st s = (case st of
     None \<Rightarrow> sort_key job_created_at (jobs_table s)
   | Some x \<Rightarrow> sort_key job_created_at (filter (\<lambda>j. job_state j = x) (jobs_table s)))"

definition counts :: "store \<Rightarrow> (job_state \<times> nat) list" where
  "counts s = group_count job_state (jobs_table s)"

definition running_counts_by_resource :: "store \<Rightarrow> (string \<times> nat) list" where
  "running_counts_by_resource s = group_count job_resource (filter is_running (jobs_table s))"

definition pending_counts_by_resource :: "store \<Rightarrow> (string \<times> nat) list" where
  "pending_counts_by_resource s = group_count job_resource (filter is_pending (jobs_table s))"

section \<open>Writes\<close>

text \<open>\<open>UPDATE jobs SET f WHERE id=? AND P\<close>: the new state and \<open>cur.rowcount\<close>.\<close>

definition update_job :: "string \<Rightarrow> (job \<Rightarrow> bool) \<Rightarrow> (job \<Rightarrow> job) \<Rightarrow> store \<Rightarrow> store \<times> nat" where
  "update_job jid P f s =
     (s\<lparr>jobs_table := update_rows (\<lambda>j. job_id j = jid \<and> P j) f (jobs_table s)\<rparr>,
      rowcount (\<lambda>j. job_id j = jid \<and> P j) (jobs_table s))"

definition create ::
  "string \<Rightarrow> real \<Rightarrow> string \<Rightarrow> dict \<Rightarrow> int \<Rightarrow> string \<Rightarrow> int \<Rightarrow> job store_action" where
  "create fresh_id now kind payload max_attempts resource priority s =
     (let job = new_job fresh_id now kind payload max_attempts resource priority in
      if lookup s fresh_id \<noteq> None then (s, Inl (IntegrityError fresh_id))
      else (s\<lparr>jobs_table := jobs_table s @ [job]\<rparr>, Inr job))"

definition set_state :: "job_state \<Rightarrow> int \<Rightarrow> string option \<Rightarrow> real \<Rightarrow> job \<Rightarrow> job" where
  "set_state to atts err now j =
     j\<lparr>job_state := to, job_attempts := atts, job_error := err, job_updated_at := now,
       job_lease := None\<rparr>"

definition transition ::
  "real \<Rightarrow> string \<Rightarrow> job_state \<Rightarrow> string option \<Rightarrow> bool \<Rightarrow> job store_action" where
  "transition now jid to_state err bump_attempt =
     bindA (get_job jid) (\<lambda>job s.
       case assert_transition (job_state job) to_state of
         Inl e \<Rightarrow> (s, Inl e)
       | Inr _ \<Rightarrow>
           (let attempts = job_attempts job + (if bump_attempt then 1 else 0);
                (s', n) = update_job jid (\<lambda>j. job_state j = job_state job)
                            (set_state to_state attempts err now) s
            in if n = 0 then (s', Inl (ConcurrentModification jid)) else get_job jid s'))"

definition update_payload :: "real \<Rightarrow> string \<Rightarrow> dict \<Rightarrow> job store_action" where
  "update_payload now jid payload s =
     (let (s', n) = update_job jid (\<lambda>_. True)
                      (\<lambda>j. j\<lparr>job_payload := payload, job_updated_at := now\<rparr>) s
      in if n = 0 then (s', Inl (JobNotFound jid)) else get_job jid s')"

section \<open>Claiming\<close>

definition set_claimed :: "real \<Rightarrow> real \<Rightarrow> job \<Rightarrow> job" where
  "set_claimed lease now j =
     j\<lparr>job_state := RUNNING, job_lease := Some lease, job_updated_at := now\<rparr>"

text \<open>The guarded update of one candidate: did this connection win it?\<close>

definition try_claim :: "real \<Rightarrow> real \<Rightarrow> string \<Rightarrow> store \<Rightarrow> store \<times> bool" where
  "try_claim lease now jid s =
     (let (s', n) = update_job jid is_pending (set_claimed lease now) s in (s', n = 1))"

text \<open>\<open>for row in rows\<close>: the first candidate that is won is returned, \<open>None\<close> when every
  candidate was contested.\<close>

fun claim_candidates :: "real \<Rightarrow> real \<Rightarrow> string list \<Rightarrow> job option store_action" where
  "claim_candidates lease now [] s = (s, Inr None)"
| "claim_candidates lease now (jid # jids) s =
     (case try_claim lease now jid s of
        (s', True) \<Rightarrow> bindA (get_job jid) (\<lambda>j. ret (Some j)) s'
      | (s', False) \<Rightarrow> claim_candidates lease now jids s')"

text \<open>\<open>while True\<close>: query, stop on an empty result, try the candidates, query again.  The first
  argument bounds the rounds; \<open>claim_rounds_enough\<close> shows that one round always decides.\<close>

fun claim_rounds :: "nat \<Rightarrow> (store \<Rightarrow> string list) \<Rightarrow> real \<Rightarrow> real \<Rightarrow> job option store_action" where
  "claim_rounds 0 query lease now s = (s, Inl StillContested)"
| "claim_rounds (Suc n) query lease now s =
     (case query s of
        [] \<Rightarrow> (s, Inr None)
      | ids \<Rightarrow> (case claim_candidates lease now ids s of
           (s', Inl e) \<Rightarrow> (s', Inl e)
         | (s', Inr (Some j)) \<Rightarrow> (s', Inr (Some j))
         | (s', Inr None) \<Rightarrow> claim_rounds n query lease now s'))"

text \<open>\<open>SELECT id ... WHERE state='pending' [AND kind IN (...)] ORDER BY created_at LIMIT 8\<close>; an
  empty list of kinds is falsy and selects every kind, as \<open>None\<close> does.\<close>

definition claim_query :: "string list option \<Rightarrow> store \<Rightarrow> string list" where
  "claim_query kinds s =
     map job_id (take 8 (sort_key job_created_at
       (filter (\<lambda>j. is_pending j \<and>
          (case kinds of None \<Rightarrow> True | Some ks \<Rightarrow> ks = [] \<or> job_kind j \<in> set ks))
        (jobs_table s))))"

definition claim_priority_query :: "string \<Rightarrow> store \<Rightarrow> string list" where
  "claim_priority_query resource s =
     map job_id (take 8 (sort_key (\<lambda>j. (- job_priority j, job_created_at j))
       (filter (\<lambda>j. is_pending j \<and> job_resource j = resource) (jobs_table s))))"

definition claim :: "string list option \<Rightarrow> real \<Rightarrow> real \<Rightarrow> job option store_action" where
  "claim kinds lease_seconds now =
     claim_rounds 1 (claim_query kinds) (now + lease_seconds) now"

definition claim_priority :: "string \<Rightarrow> real \<Rightarrow> real \<Rightarrow> job option store_action" where
  "claim_priority resource lease_seconds now =
     claim_rounds 1 (claim_priority_query resource) (now + lease_seconds) now"

definition renew_lease :: "string \<Rightarrow> real \<Rightarrow> real \<Rightarrow> job store_action" where
  "renew_lease jid lease_seconds now s =
     (let (s', n) = update_job jid is_running
            (\<lambda>j. j\<lparr>job_lease := Some (now + lease_seconds), job_updated_at := now\<rparr>) s
      in if n = 0 then (s', Inl (ConcurrentModification jid)) else get_job jid s')"

section \<open>Finishing, failing, reaping\<close>

definition complete :: "real \<Rightarrow> string \<Rightarrow> job store_action" where
  "complete now jid = transition now jid SUCCEEDED None False"

definition assert_path :: "job_state \<Rightarrow> job_state \<Rightarrow> store_error + unit" where
  "assert_path src final =
     (case assert_transition src FAILED of
        Inl e \<Rightarrow> Inl e
      | Inr _ \<Rightarrow>
          if final = PENDING then
            (case assert_transition FAILED RETRYING of
               Inl e \<Rightarrow> Inl e
             | Inr _ \<Rightarrow> assert_transition RETRYING PENDING)
          else assert_transition FAILED DEAD_LETTER)"

definition fail :: "real \<Rightarrow> string \<Rightarrow> string \<Rightarrow> job store_action" where
  "fail now jid err =
     bindA (get_job jid) (\<lambda>job s.
       let attempts = job_attempts job + 1;
           final = (if attempts \<ge> job_max_attempts job then DEAD_LETTER else PENDING)
       in case assert_path (job_state job) final of
            Inl e \<Rightarrow> (s, Inl e)
          | Inr _ \<Rightarrow>
              (let (s', n) = update_job jid (\<lambda>j. job_state j = job_state job)
                               (set_state final attempts (Some err) now) s
               in if n = 0 then (s', Inl (ConcurrentModification jid)) else get_job jid s'))"

definition lease_expired :: "real \<Rightarrow> job \<Rightarrow> bool" where
  "lease_expired now j \<longleftrightarrow>
     is_running j \<and> (case job_lease j of None \<Rightarrow> False | Some t \<Rightarrow> t < now)"

definition reap_expired :: "real \<Rightarrow> job list store_action" where
  "reap_expired now s =
     mapA (\<lambda>jid. fail now jid ''lease expired: worker presumed dead'')
       (map job_id (filter (lease_expired now) (jobs_table s))) s"

section \<open>The idempotency ledger\<close>

definition record_result :: "real \<Rightarrow> string \<Rightarrow> dict \<Rightarrow> store \<Rightarrow> store \<times> bool" where
  "record_result now jid result s =
     (s\<lparr>ledger := insert_or_ignore fst (jid, result, now) (ledger s)\<rparr>,
      row_by fst jid (ledger s) = None)"

definition get_result :: "store \<Rightarrow> string \<Rightarrow> dict option" where
  "get_result s jid = map_option (\<lambda>(_, r, _). r) (row_by fst jid (ledger s))"

definition has_result :: "store \<Rightarrow> string \<Rightarrow> bool" where
  "has_result s jid \<longleftrightarrow> row_by fst jid (ledger s) \<noteq> None"

section \<open>Basic facts\<close>

text \<open>The primary key of the table.\<close>

definition pk :: "store \<Rightarrow> bool" where
  "pk s \<longleftrightarrow> distinct (map job_id (jobs_table s))"

lemma get_job_eqs [simp]:
  "lookup s jid = Some j \<Longrightarrow> get_job jid s = (s, Inr j)"
  "lookup s jid = None \<Longrightarrow> get_job jid s = (s, Inl (JobNotFound jid))"
  by (simp_all add: get_job_def)

lemma fst_get_job [simp]: "fst (get_job jid s) = s"
  by (simp add: get_job_def split: option.splits)

lemma lookup_SomeD: "lookup s jid = Some j \<Longrightarrow> j \<in> set (jobs_table s) \<and> job_id j = jid"
  by (auto simp: lookup_def dest: row_by_SomeD)

lemma lookup_in: "pk s \<Longrightarrow> j \<in> set (jobs_table s) \<Longrightarrow> lookup s (job_id j) = Some j"
  by (simp add: lookup_def pk_def row_by_unique)

lemma job_id_setters [simp]:
  "job_id (set_state to atts err now j) = job_id j"
  "job_id (set_claimed lease now j) = job_id j"
  by (simp_all add: set_state_def set_claimed_def)

lemma lookup_update_job:
  assumes "\<And>j. job_id (f j) = job_id j"
  shows "lookup (fst (update_job jid P f s)) k
    = map_option (\<lambda>j. if k = jid \<and> P j then f j else j) (lookup s k)"
  using assms row_by_SomeD [of job_id k "jobs_table s"]
  by (auto simp: lookup_def update_job_def row_by_update_rows intro!: option.map_cong)

lemma update_job_count:
  "pk s \<Longrightarrow> snd (update_job jid P f s)
    = (case lookup s jid of None \<Rightarrow> 0 | Some j \<Rightarrow> if P j then 1 else 0)"
  by (auto simp: update_job_def lookup_def pk_def rowcount_unique rowcount_absent
        split: option.splits)

lemma pk_update_job:
  "(\<And>j. job_id (f j) = job_id j) \<Longrightarrow> pk (fst (update_job jid P f s)) = pk s"
  by (simp add: pk_def update_job_def map_key_update_rows)

lemma update_job_pair: "update_job jid P f s = (fst (update_job jid P f s), snd (update_job jid P f s))"
  by simp

end
