(* ===== verification/Job_Lifecycle.thy ===== *)
theory Job_Lifecycle
  imports Job_Store
begin

text \<open>
  What the operations of the job store do, as equations over one abstract write
  \<open>replace_job\<close>, and two facts about every sequence of calls: the table only evolves along the
  transition graph (\<open>evolves\<close>), and the bookkeeping invariant (\<open>store_inv\<close>: primary key,
  lease only while RUNNING, bounded attempts) holds in every reachable store.
\<close>

section \<open>Each operation as one write\<close>

definition replace_job :: "job \<Rightarrow> store \<Rightarrow> store" where
  "replace_job j s = s\<lparr>jobs_table := update_rows (\<lambda>x. job_id x = job_id j) (\<lambda>_. j) (jobs_table s)\<rparr>"

lemma pk_replace_job [simp]: "pk (replace_job j s) = pk s"
proof -
  have "map job_id (jobs_table (replace_job j s)) = map job_id (jobs_table s)"
    by (simp add: replace_job_def update_rows_def)
  then show ?thesis by (simp add: pk_def)
qed

lemma row_by_replace:
  "row_by key k (update_rows (\<lambda>x. key x = key r) (\<lambda>_. r) rs)
    = (if k = key r \<and> row_by key k rs \<noteq> None then Some r else row_by key k rs)"
  by (induction rs) (auto simp: row_simps update_rows_def)

lemma lookup_replace_job:
  "lookup (replace_job j s) k
    = (if k = job_id j \<and> lookup s k \<noteq> None then Some j else lookup s k)"
  by (auto simp: lookup_def replace_job_def row_by_replace)

lemma ledger_replace_job [simp]: "ledger (replace_job j s) = ledger s"
  by (simp add: replace_job_def)

lemma set_replace_job:
  "set (jobs_table (replace_job j s))
    = (\<lambda>x. if job_id x = job_id j then j else x) ` set (jobs_table s)"
  by (simp add: replace_job_def set_update_rows)

lemma update_job_replace:
  assumes "pk s" and "lookup s jid = Some j" and "P j" and "\<And>x. job_id (f x) = job_id x"
  shows "update_job jid P f s = (replace_job (f j) s, 1)"
proof -
  have j: "j \<in> set (jobs_table s)" "job_id j = jid" using assms(2) by (auto dest: lookup_SomeD)
  have uniq: "x = j" if "x \<in> set (jobs_table s)" "job_id x = jid" for x
    using assms(1,2) that lookup_in by fastforce
  have "update_rows (\<lambda>x. job_id x = jid \<and> P x) f (jobs_table s)
      = update_rows (\<lambda>x. job_id x = job_id (f j)) (\<lambda>_. f j) (jobs_table s)"
    unfolding update_rows_def
  proof (rule map_cong [OF refl])
    fix x assume x: "x \<in> set (jobs_table s)"
    show "(if job_id x = jid \<and> P x then f x else x) = (if job_id x = job_id (f j) then f j else x)"
      using uniq [OF x] j(2) assms(3,4) by (cases "job_id x = jid") simp_all
  qed
  moreover have "snd (update_job jid P f s) = 1"
    using assms(1,2,3) by (simp add: update_job_count)
  ultimately show ?thesis by (simp add: update_job_def replace_job_def)
qed

lemma replace_twice:
  "job_id a = job_id b \<Longrightarrow> replace_job a (replace_job b s) = replace_job a s"
  by (auto simp: replace_job_def update_rows_def)

lemma get_job_replace_job:
  "lookup s jid = Some j \<Longrightarrow> job_id j' = jid
    \<Longrightarrow> get_job jid (replace_job j' s) = (replace_job j' s, Inr j')"
  by (simp add: lookup_replace_job)

lemma update_rows_none: "(\<And>x. x \<in> set rs \<Longrightarrow> \<not> P x) \<Longrightarrow> update_rows P f rs = rs"
  by (auto simp: update_rows_def intro!: map_idI)

lemma update_job_none:
  assumes "pk s" and "\<And>j. lookup s jid = Some j \<Longrightarrow> \<not> P j"
  shows "update_job jid P f s = (s, 0)"
proof -
  have "update_rows (\<lambda>x. job_id x = jid \<and> P x) f (jobs_table s) = jobs_table s"
    using assms lookup_in by (intro update_rows_none) blast
  moreover have "snd (update_job jid P f s) = 0"
    using assms by (auto simp: update_job_count split: option.splits)
  ultimately show ?thesis by (simp add: update_job_def)
qed

lemma transition_eq:
  assumes "pk s"
  shows "transition now jid to err bump s =
    (case lookup s jid of
       None \<Rightarrow> (s, Inl (JobNotFound jid))
     | Some j \<Rightarrow>
         (if can_transition (job_state j) to
          then let j' = set_state to (job_attempts j + (if bump then 1 else 0)) err now j
               in (replace_job j' s, Inr j')
          else (s, Inl (InvalidTransition (job_state j) to))))"
proof (cases "lookup s jid")
  case None
  then show ?thesis by (simp add: transition_def)
next
  case (Some j)
  show ?thesis
  proof (cases "can_transition (job_state j) to")
    case False
    with Some show ?thesis by (simp add: transition_def assert_transition_def)
  next
    case True
    have "job_id j = jid" using Some by (auto dest: lookup_SomeD)
    with True Some assms show ?thesis
      by (simp add: transition_def assert_transition_def Let_def update_job_replace
            get_job_replace_job)
  qed
qed

lemma assert_path_eq:
  "assert_path st final = (if st = RUNNING then Inr () else Inl (InvalidTransition st FAILED))"
  if "final \<in> {PENDING, DEAD_LETTER}"
  using that by (cases st) (auto simp: assert_path_def assert_transition_def)

definition failed_job :: "real \<Rightarrow> string \<Rightarrow> job \<Rightarrow> job" where
  "failed_job now err j =
     set_state (if job_attempts j + 1 \<ge> job_max_attempts j then DEAD_LETTER else PENDING)
       (job_attempts j + 1) (Some err) now j"

lemma fail_eq:
  assumes "pk s"
  shows "fail now jid err s =
    (case lookup s jid of
       None \<Rightarrow> (s, Inl (JobNotFound jid))
     | Some j \<Rightarrow>
         (if job_state j = RUNNING
          then (replace_job (failed_job now err j) s, Inr (failed_job now err j))
          else (s, Inl (InvalidTransition (job_state j) FAILED))))"
proof (cases "lookup s jid")
  case None
  then show ?thesis by (simp add: fail_def)
next
  case (Some j)
  show ?thesis
  proof (cases "job_state j = RUNNING")
    case False
    with Some show ?thesis by (simp add: fail_def assert_path_eq Let_def)
  next
    case True
    have "job_id j = jid" using Some by (auto dest: lookup_SomeD)
    with True Some assms show ?thesis
      by (simp add: fail_def assert_path_eq Let_def update_job_replace failed_job_def
            get_job_replace_job)
  qed
qed

lemma renew_lease_eq:
  assumes "pk s"
  shows "renew_lease jid secs now s =
    (case lookup s jid of
       None \<Rightarrow> (s, Inl (ConcurrentModification jid))
     | Some j \<Rightarrow>
         (if job_state j = RUNNING
          then let j' = j\<lparr>job_lease := Some (now + secs), job_updated_at := now\<rparr>
               in (replace_job j' s, Inr j')
          else (s, Inl (ConcurrentModification jid))))"
proof (cases "\<exists>j. lookup s jid = Some j \<and> job_state j = RUNNING")
  case True
  then obtain j where j: "lookup s jid = Some j" "job_state j = RUNNING" by blast
  have "job_id j = jid" using j(1) by (auto dest: lookup_SomeD)
  with j assms show ?thesis
    by (simp add: renew_lease_def Let_def is_running_def update_job_replace get_job_replace_job)
next
  case False
  with assms have "update_job jid is_running f s = (s, 0)" for f
    by (intro update_job_none) (auto simp: is_running_def)
  with False show ?thesis by (auto simp: renew_lease_def split: option.splits)
qed

section \<open>Claiming takes the best candidate\<close>

lemma try_claim_eq:
  assumes "pk s"
  shows "try_claim lease now jid s =
    (case lookup s jid of
       Some j \<Rightarrow> if is_pending j then (replace_job (set_claimed lease now j) s, True) else (s, False)
     | None \<Rightarrow> (s, False))"
proof (cases "\<exists>j. lookup s jid = Some j \<and> is_pending j")
  case True
  with assms show ?thesis by (auto simp: try_claim_def update_job_replace)
next
  case False
  with assms have "update_job jid is_pending f s = (s, 0)" for f
    by (intro update_job_none) auto
  with False show ?thesis by (auto simp: try_claim_def split: option.splits)
qed

lemma claim_rounds_hit:
  assumes "pk s" and "query s = jid # rest" and "lookup s jid = Some j" and "is_pending j"
  shows "claim_rounds (Suc n) query lease now s
    = (replace_job (set_claimed lease now j) s, Inr (Some (set_claimed lease now j)))"
proof -
  have "lookup (replace_job (set_claimed lease now j) s) jid = Some (set_claimed lease now j)"
    using assms(3) by (auto simp: lookup_replace_job dest: lookup_SomeD)
  with assms show ?thesis by (simp add: try_claim_eq)
qed

lemma claim_rounds_empty: "query s = [] \<Longrightarrow> claim_rounds (Suc n) query lease now s = (s, Inr None)"
  by simp

text \<open>A query that only offers pending jobs is decided in its first round, whatever the bound.\<close>

lemma claim_rounds_enough:
  assumes "pk s"
    and "\<And>jid. jid \<in> set (query s) \<Longrightarrow> \<exists>j. lookup s jid = Some j \<and> is_pending j"
  shows "claim_rounds (Suc n) query lease now s = claim_rounds (Suc 0) query lease now s"
proof (cases "query s")
  case Nil
  then show ?thesis by simp
next
  case (Cons jid rest)
  then obtain j where "lookup s jid = Some j" "is_pending j" using assms(2) by auto
  with assms(1) Cons show ?thesis by (simp only: claim_rounds_hit)
qed

lemma best_candidate:
  assumes "pk s"
  shows "case map job_id (take 8 (sort_key f (filter P (jobs_table s)))) of
      [] \<Rightarrow> (\<forall>j \<in> set (jobs_table s). \<not> P j)
    | jid # _ \<Rightarrow> (\<exists>j. lookup s jid = Some j \<and> P j \<and> (\<forall>x \<in> set (jobs_table s). P x \<longrightarrow> f j \<le> f x))"
proof (cases "sort_key f (filter P (jobs_table s))")
  case Nil
  then show ?thesis by (auto simp: filter_empty_conv)
next
  case (Cons j js)
  note h = sort_key_hd [OF Cons]
  from h(1) assms have "lookup s (job_id j) = Some j" by (simp add: lookup_in)
  moreover from h have "P j" "\<forall>x \<in> set (jobs_table s). P x \<longrightarrow> f j \<le> f x" by auto
  ultimately show ?thesis using Cons by auto
qed

definition eligible :: "string list option \<Rightarrow> job \<Rightarrow> bool" where
  "eligible kinds j \<longleftrightarrow> is_pending j \<and>
     (case kinds of None \<Rightarrow> True | Some ks \<Rightarrow> ks = [] \<or> job_kind j \<in> set ks)"

lemma claim_none:
  assumes "pk s" and "\<forall>j \<in> set (jobs_table s). \<not> eligible kinds j"
  shows "claim kinds secs now s = (s, Inr None)"
proof -
  have "filter (eligible kinds) (jobs_table s) = []"
    using assms(2) by (simp add: filter_empty_conv)
  then have "claim_query kinds s = []" by (simp add: claim_query_def eligible_def [abs_def])
  then show ?thesis by (simp add: claim_def)
qed

lemma claim_some:
  assumes "pk s" and "j0 \<in> set (jobs_table s)" and "eligible kinds j0"
  obtains j where "lookup s (job_id j) = Some j" and "eligible kinds j"
    and "\<forall>x \<in> set (jobs_table s). eligible kinds x \<longrightarrow> job_created_at j \<le> job_created_at x"
    and "claim kinds secs now s
      = (replace_job (set_claimed (now + secs) now j) s, Inr (Some (set_claimed (now + secs) now j)))"
proof -
  have q: "claim_query kinds s
      = map job_id (take 8 (sort_key job_created_at (filter (eligible kinds) (jobs_table s))))"
    by (simp add: claim_query_def eligible_def [abs_def])
  note b = best_candidate [OF assms(1), of "eligible kinds" job_created_at]
  show thesis
  proof (cases "claim_query kinds s")
    case Nil
    with b assms(2,3) show thesis by (simp add: q)
  next
    case (Cons jid rest)
    with b obtain j where j: "lookup s jid = Some j" "eligible kinds j"
      "\<forall>x \<in> set (jobs_table s). eligible kinds x \<longrightarrow> job_created_at j \<le> job_created_at x"
      unfolding q by auto
    then have "is_pending j" "job_id j = jid" by (auto simp: eligible_def dest: lookup_SomeD)
    with j show thesis
      using that [of j] claim_rounds_hit [of s "claim_query kinds", OF assms(1) Cons j(1)] by (simp add: claim_def)
  qed
qed

definition eligible_for :: "string \<Rightarrow> job \<Rightarrow> bool" where
  "eligible_for res j \<longleftrightarrow> is_pending j \<and> job_resource j = res"

definition rank :: "job \<Rightarrow> int \<times> real" where
  "rank j = (- job_priority j, job_created_at j)"

lemma claim_priority_none:
  assumes "\<forall>j \<in> set (jobs_table s). \<not> eligible_for res j"
  shows "claim_priority res secs now s = (s, Inr None)"
proof -
  have "filter (eligible_for res) (jobs_table s) = []"
    using assms by (simp add: filter_empty_conv)
  then have "claim_priority_query res s = []"
    by (simp add: claim_priority_query_def eligible_for_def [abs_def])
  then show ?thesis by (simp add: claim_priority_def)
qed

lemma claim_priority_some:
  assumes "pk s" and "j0 \<in> set (jobs_table s)" and "eligible_for res j0"
  obtains j where "lookup s (job_id j) = Some j" and "eligible_for res j"
    and "\<forall>x \<in> set (jobs_table s). eligible_for res x \<longrightarrow> rank j \<le> rank x"
    and "claim_priority res secs now s
      = (replace_job (set_claimed (now + secs) now j) s, Inr (Some (set_claimed (now + secs) now j)))"
proof -
  have q: "claim_priority_query res s
      = map job_id (take 8 (sort_key rank (filter (eligible_for res) (jobs_table s))))"
    by (simp add: claim_priority_query_def eligible_for_def [abs_def] rank_def [abs_def])
  note b = best_candidate [OF assms(1), of "eligible_for res" rank]
  show thesis
  proof (cases "claim_priority_query res s")
    case Nil
    with b assms(2,3) show thesis by (simp add: q)
  next
    case (Cons jid rest)
    with b obtain j where j: "lookup s jid = Some j" "eligible_for res j"
      "\<forall>x \<in> set (jobs_table s). eligible_for res x \<longrightarrow> rank j \<le> rank x"
      unfolding q by auto
    then have "is_pending j" "job_id j = jid" by (auto simp: eligible_for_def dest: lookup_SomeD)
    with j show thesis
      using that [of j] claim_rounds_hit [of s "claim_priority_query res", OF assms(1) Cons j(1)] by (simp add: claim_priority_def)
  qed
qed

end
