(* ===== verification/Job_Invariants.thy ===== *)
theory Job_Invariants
  imports Job_Lifecycle
begin

text \<open>
  What every sequence of store calls keeps: jobs are never lost and only move along the transition
  graph, the result ledger is written once per job (\<open>evolves\<close>), and the bookkeeping invariant
  \<open>store_inv\<close> (primary key, a lease only while RUNNING, bounded attempts).  \<open>store_step\<close> is
  the relation of the calls that the repository issues; \<open>reachable\<close> its closure from the empty
  database.  The last section is the functional behaviour of the reaper.
\<close>

section \<open>Evolution\<close>

definition job_evolves :: "job \<Rightarrow> job \<Rightarrow> bool" where
  "job_evolves j j' \<longleftrightarrow>
     job_id j' = job_id j \<and> job_kind j' = job_kind j \<and> job_resource j' = job_resource j \<and>
     job_priority j' = job_priority j \<and> job_created_at j' = job_created_at j \<and>
     job_max_attempts j' = job_max_attempts j \<and> job_attempts j \<le> job_attempts j' \<and>
     can_transition\<^sup>*\<^sup>* (job_state j) (job_state j')"

definition evolves :: "store \<Rightarrow> store \<Rightarrow> bool" where
  "evolves s s' \<longleftrightarrow> (pk s \<longrightarrow>
     pk s' \<and>
     (\<forall>jid j. lookup s jid = Some j \<longrightarrow> (\<exists>j'. lookup s' jid = Some j' \<and> job_evolves j j')) \<and>
     (\<forall>jid r. row_by fst jid (ledger s) = Some r \<longrightarrow> row_by fst jid (ledger s') = Some r))"

lemma job_evolves_refl [simp]: "job_evolves j j"
  by (simp add: job_evolves_def)

lemma job_evolves_trans: "job_evolves i j \<Longrightarrow> job_evolves j k \<Longrightarrow> job_evolves i k"
  by (auto simp: job_evolves_def)

lemma reflp_evolves [simp]: "reflp evolves"
  by (auto simp: reflp_def evolves_def)

lemma transp_evolves [simp]: "transp evolves"
  by (rule transpI) (unfold evolves_def, meson job_evolves_trans)

lemma lookup_self: "lookup s jid = Some j \<Longrightarrow> lookup s (job_id j) = Some j"
  by (auto dest: lookup_SomeD)

lemma evolves_replace:
  "lookup s (job_id j') = Some j \<Longrightarrow> job_evolves j j' \<Longrightarrow> evolves s (replace_job j' s)"
  by (auto simp: evolves_def lookup_replace_job)

lemma job_evolves_set_state:
  "can_transition\<^sup>*\<^sup>* (job_state j) to \<Longrightarrow> job_attempts j \<le> atts
    \<Longrightarrow> job_evolves j (set_state to atts err now j)"
  by (simp add: job_evolves_def set_state_def)

lemma fail_path:
  "can_transition\<^sup>*\<^sup>* RUNNING PENDING" "can_transition\<^sup>*\<^sup>* RUNNING DEAD_LETTER"
  by (metis can_transition_simps(2,4,5) insertI1 insertI2 converse_rtranclp_into_rtranclp
      r_into_rtranclp)+

lemma job_evolves_failed: "job_state j = RUNNING \<Longrightarrow> job_evolves j (failed_job now err j)"
  using fail_path by (auto simp: failed_job_def intro: job_evolves_set_state)

lemma job_evolves_claimed: "is_pending j \<Longrightarrow> job_evolves j (set_claimed lease now j)"
  by (auto simp: job_evolves_def set_claimed_def is_pending_def intro: r_into_rtranclp)

lemma evolves_not_pk: "\<not> pk s \<Longrightarrow> evolves s s'"
  by (simp add: evolves_def)

lemma evolvesI: "(pk s \<Longrightarrow> evolves s s') \<Longrightarrow> evolves s s'"
  using evolves_not_pk by blast

lemma evolves_refl [simp]: "evolves s s"
  using reflp_evolves by (rule reflpD)

lemma keeps_transition [keeps_intros]: "keeps evolves (transition now jid to err bump)"
  by (rule keepsI, rule evolvesI)
    (auto simp: transition_eq Let_def split: option.splits
      intro!: evolves_replace job_evolves_set_state r_into_rtranclp lookup_self)

lemma keeps_fail [keeps_intros]: "keeps evolves (fail now jid err)"
  by (rule keepsI, rule evolvesI)
    (auto simp: fail_eq failed_job_def split: option.splits
      intro!: evolves_replace job_evolves_set_state fail_path lookup_self)

lemma keeps_renew [keeps_intros]: "keeps evolves (renew_lease jid secs now)"
  by (rule keepsI, rule evolvesI)
    (auto simp: renew_lease_eq Let_def job_evolves_def split: option.splits
      intro!: evolves_replace lookup_self)

lemma update_payload_eq:
  assumes "pk s"
  shows "update_payload now jid payload s =
    (case lookup s jid of
       None \<Rightarrow> (s, Inl (JobNotFound jid))
     | Some j \<Rightarrow> let j' = j\<lparr>job_payload := payload, job_updated_at := now\<rparr>
                 in (replace_job j' s, Inr j'))"
proof (cases "lookup s jid")
  case None
  with assms have "update_job jid (\<lambda>_. True) f s = (s, 0)" for f
    by (intro update_job_none) auto
  with None show ?thesis by (simp add: update_payload_def)
next
  case (Some j)
  then have "job_id j = jid" by (auto dest: lookup_SomeD)
  with Some assms show ?thesis
    by (simp add: update_payload_def Let_def update_job_replace get_job_replace_job)
qed

lemma keeps_update_payload [keeps_intros]: "keeps evolves (update_payload now jid payload)"
  by (rule keepsI, rule evolvesI)
    (auto simp: update_payload_eq Let_def job_evolves_def split: option.splits
      intro!: evolves_replace lookup_self)

lemma keeps_complete [keeps_intros]: "keeps evolves (complete now jid)"
  by (simp add: complete_def keeps_transition)

lemma lookup_append:
  "lookup (s\<lparr>jobs_table := jobs_table s @ [j]\<rparr>) k
    = (case lookup s k of None \<Rightarrow> if job_id j = k then Some j else None | Some x \<Rightarrow> Some x)"
  by (cases "row_by job_id k (jobs_table s)") (simp_all add: lookup_def row_simps)

lemma pk_append:
  "lookup s (job_id j) = None \<Longrightarrow> pk (s\<lparr>jobs_table := jobs_table s @ [j]\<rparr>) \<longleftrightarrow> pk s"
  by (auto simp: pk_def lookup_def row_by_None_iff)

lemma job_id_new_job [simp]: "job_id (new_job i now kind p m r q) = i"
  by (simp add: new_job_def)

lemma keeps_create [keeps_intros]: "keeps evolves (create fid now kind p m r q)"
  by (rule keepsI, rule evolvesI)
    (auto simp: create_def Let_def evolves_def pk_append lookup_append split: option.splits)

lemma evolves_claimed:
  "lookup s (job_id j) = Some j \<Longrightarrow> is_pending j
    \<Longrightarrow> evolves s (replace_job (set_claimed lease now j) s)"
  by (auto intro!: evolves_replace job_evolves_claimed)

lemma claim_cases:
  assumes "pk s"
  obtains "claim kinds secs now s = (s, Inr None)"
  | j where "lookup s (job_id j) = Some j" and "is_pending j"
    and "claim kinds secs now s
      = (replace_job (set_claimed (now + secs) now j) s, Inr (Some (set_claimed (now + secs) now j)))"
proof (cases "\<exists>j \<in> set (jobs_table s). eligible kinds j")
  case True
  then obtain j0 where "j0 \<in> set (jobs_table s)" "eligible kinds j0" by blast
  with assms show thesis
    by (rule claim_some [where secs = secs and now = now]) (auto simp: eligible_def intro: that)
qed (use assms claim_none that in blast)

lemma claim_priority_cases:
  assumes "pk s"
  obtains "claim_priority res secs now s = (s, Inr None)"
  | j where "lookup s (job_id j) = Some j" and "is_pending j" and "job_resource j = res"
    and "claim_priority res secs now s
      = (replace_job (set_claimed (now + secs) now j) s, Inr (Some (set_claimed (now + secs) now j)))"
proof (cases "\<exists>j \<in> set (jobs_table s). eligible_for res j")
  case True
  then obtain j0 where "j0 \<in> set (jobs_table s)" "eligible_for res j0" by blast
  with assms show thesis
    by (rule claim_priority_some [where secs = secs and now = now])
      (auto simp: eligible_for_def intro: that)
qed (use claim_priority_none that in blast)

lemma keeps_claim [keeps_intros]: "keeps evolves (claim kinds secs now)"
proof (rule keepsI, rule evolvesI)
  fix s assume "pk s"
  then show "evolves s (fst (claim kinds secs now s))"
    by (cases rule: claim_cases [where kinds = kinds and secs = secs and now = now])
      (simp_all add: evolves_claimed)
qed

lemma keeps_claim_priority [keeps_intros]: "keeps evolves (claim_priority res secs now)"
proof (rule keepsI, rule evolvesI)
  fix s assume "pk s"
  then show "evolves s (fst (claim_priority res secs now s))"
    by (cases rule: claim_priority_cases [where res = res and secs = secs and now = now])
      (simp_all add: evolves_claimed)
qed

lemma keeps_reap [keeps_intros]: "keeps evolves (reap_expired now)"
proof
  fix s :: store
  have "keeps evolves (mapA (\<lambda>jid. fail now jid ''lease expired: worker presumed dead'')
    (map job_id (filter (lease_expired now) (jobs_table s))))"
    by (intro keeps_intros reflp_evolves transp_evolves)
  then show "evolves s (fst (reap_expired now s))"
    by (simp add: reap_expired_def keeps_def)
qed

lemma evolves_record: "evolves s (fst (record_result now jid r s))"
  by (auto simp: evolves_def record_result_def insert_or_ignore_def pk_def lookup_def row_simps
        split: option.splits)

section \<open>The bookkeeping invariant\<close>

definition job_ok :: "job \<Rightarrow> bool" where
  "job_ok j \<longleftrightarrow>
     (job_lease j \<noteq> None \<longrightarrow> job_state j = RUNNING) \<and>
     job_state j \<noteq> RETRYING \<and>
     0 \<le> job_attempts j \<and> job_attempts j \<le> job_max_attempts j \<and>
     (job_state j \<in> {PENDING, RUNNING, PAUSED, SUCCEEDED, CANCELLED}
        \<longrightarrow> job_attempts j < job_max_attempts j) \<and>
     (job_state j \<in> {FAILED, DEAD_LETTER} \<longrightarrow> 0 < job_attempts j \<and> job_error j \<noteq> None)"

definition store_inv :: "store \<Rightarrow> bool" where
  "store_inv s \<longleftrightarrow> pk s \<and> (\<forall>j \<in> set (jobs_table s). job_ok j)"

text \<open>The calls the repository issues: \<open>max_attempts\<close> is at least 1 (\<open>JobCreate\<close> of the API
  requires it, the other callers use the default 3), no caller moves a job to RETRYING, and the only
  caller that goes to FAILED or DEAD_LETTER through \<open>transition\<close> is
  \<open>RecoveryController._dead_letter_now\<close>, which bumps on the first step and passes the error.\<close>

inductive store_step :: "store \<Rightarrow> store \<Rightarrow> bool" where
  step_create: "1 \<le> maxa \<Longrightarrow> store_step s (fst (create fid now kind p maxa res prio s))"
| step_move: "to \<notin> {RETRYING, FAILED, DEAD_LETTER}
    \<Longrightarrow> store_step s (fst (transition now jid to err False s))"
| step_failed: "store_step s (fst (transition now jid FAILED (Some err) True s))"
| step_dead: "store_step s (fst (transition now jid DEAD_LETTER (Some err) False s))"
| step_payload: "store_step s (fst (update_payload now jid p s))"
| step_claim: "store_step s (fst (claim kinds secs now s))"
| step_claim_priority: "store_step s (fst (claim_priority res secs now s))"
| step_renew: "store_step s (fst (renew_lease jid secs now s))"
| step_fail: "store_step s (fst (fail now jid err s))"
| step_reap: "store_step s (fst (reap_expired now s))"
| step_record: "store_step s (fst (record_result now jid r s))"

inductive reachable :: "store \<Rightarrow> bool" where
  reachable_init: "reachable empty_store"
| reachable_step: "reachable s \<Longrightarrow> store_step s s' \<Longrightarrow> reachable s'"

inductive_cases store_stepE: "store_step s s'"

lemma store_inv_lookup: "store_inv s \<Longrightarrow> lookup s jid = Some j \<Longrightarrow> job_ok j"
  by (auto simp: store_inv_def dest: lookup_SomeD)

lemma store_inv_replace:
  "store_inv s \<Longrightarrow> job_ok j' \<Longrightarrow> store_inv (replace_job j' s)"
  by (auto simp: store_inv_def set_replace_job)

lemma job_ok_failed: "job_ok j \<Longrightarrow> job_state j = RUNNING \<Longrightarrow> job_ok (failed_job now err j)"
  by (auto simp: job_ok_def failed_job_def set_state_def)

lemma job_ok_claimed: "job_ok j \<Longrightarrow> is_pending j \<Longrightarrow> job_ok (set_claimed lease now j)"
  by (auto simp: job_ok_def set_claimed_def is_pending_def)

lemma job_ok_moved:
  assumes "job_ok j" and "can_transition (job_state j) to"
    and "to \<notin> {RETRYING, FAILED, DEAD_LETTER} \<and> \<not> bump
       \<or> to = FAILED \<and> bump \<and> err \<noteq> None \<or> to = DEAD_LETTER \<and> \<not> bump \<and> err \<noteq> None"
  shows "job_ok (set_state to (job_attempts j + (if bump then 1 else 0)) err now j)"
  using assms by (cases "job_state j") (auto simp: job_ok_def set_state_def)

lemma store_inv_pk: "store_inv s \<Longrightarrow> pk s"
  by (simp add: store_inv_def)

lemma store_inv_transition:
  assumes "store_inv s"
    and "to \<notin> {RETRYING, FAILED, DEAD_LETTER} \<and> \<not> bump
       \<or> to = FAILED \<and> bump \<and> err \<noteq> None \<or> to = DEAD_LETTER \<and> \<not> bump \<and> err \<noteq> None"
  shows "store_inv (fst (transition now jid to err bump s))"
proof (cases "\<exists>j. lookup s jid = Some j \<and> can_transition (job_state j) to")
  case True
  then obtain j where j: "lookup s jid = Some j" "can_transition (job_state j) to" by blast
  have "store_inv (replace_job
      (set_state to (job_attempts j + (if bump then 1 else 0)) err now j) s)"
    using assms j store_inv_lookup by (intro store_inv_replace job_ok_moved) simp_all
  with j assms(1) show ?thesis by (simp add: store_inv_pk transition_eq Let_def)
next
  case False
  with assms(1) show ?thesis
    by (auto simp: store_inv_pk transition_eq split: option.splits)
qed

lemma store_inv_fail:
  assumes "store_inv s" shows "store_inv (fst (fail now jid err s))"
proof (cases "\<exists>j. lookup s jid = Some j \<and> job_state j = RUNNING")
  case True
  then obtain j where j: "lookup s jid = Some j" "job_state j = RUNNING" by blast
  have "store_inv (replace_job (failed_job now err j) s)"
    using assms j store_inv_lookup by (intro store_inv_replace job_ok_failed) simp_all
  with j assms show ?thesis by (simp add: store_inv_pk fail_eq)
next
  case False
  with assms show ?thesis by (auto simp: store_inv_pk fail_eq split: option.splits)
qed

lemma store_inv_renew:
  assumes "store_inv s" shows "store_inv (fst (renew_lease jid secs now s))"
proof (cases "\<exists>j. lookup s jid = Some j \<and> job_state j = RUNNING")
  case True
  then obtain j where j: "lookup s jid = Some j" "job_state j = RUNNING" by blast
  then have "job_ok (j\<lparr>job_lease := Some (now + secs), job_updated_at := now\<rparr>)"
    using store_inv_lookup [OF assms] by (simp add: job_ok_def)
  then have "store_inv (replace_job (j\<lparr>job_lease := Some (now + secs), job_updated_at := now\<rparr>) s)"
    by (rule store_inv_replace [OF assms])
  with j assms show ?thesis by (simp add: store_inv_pk renew_lease_eq Let_def)
next
  case False
  with assms show ?thesis by (auto simp: store_inv_pk renew_lease_eq split: option.splits)
qed

lemma store_inv_update_payload:
  assumes "store_inv s" shows "store_inv (fst (update_payload now jid p s))"
proof (cases "lookup s jid")
  case (Some j)
  then have "job_ok (j\<lparr>job_payload := p, job_updated_at := now\<rparr>)"
    using store_inv_lookup [OF assms] by (simp add: job_ok_def)
  then have "store_inv (replace_job (j\<lparr>job_payload := p, job_updated_at := now\<rparr>) s)"
    by (rule store_inv_replace [OF assms])
  with Some assms show ?thesis by (simp add: store_inv_pk update_payload_eq Let_def)
qed (use assms in \<open>simp add: store_inv_pk update_payload_eq\<close>)

lemma store_inv_create:
  assumes "store_inv s" and "1 \<le> maxa"
  shows "store_inv (fst (create fid now kind p maxa res prio s))"
  using assms
  by (auto simp: create_def Let_def store_inv_def pk_append job_ok_def new_job_def)

lemma store_inv_claimed:
  "store_inv s \<Longrightarrow> lookup s jid = Some j \<Longrightarrow> is_pending j
    \<Longrightarrow> store_inv (replace_job (set_claimed lease now j) s)"
  by (rule store_inv_replace) (auto intro: job_ok_claimed store_inv_lookup)

lemma store_inv_claim: "store_inv s \<Longrightarrow> store_inv (fst (claim kinds secs now s))"
  by (rule claim_cases [OF store_inv_pk, of s kinds secs now]) (simp_all add: store_inv_claimed)

lemma store_inv_claim_priority:
  "store_inv s \<Longrightarrow> store_inv (fst (claim_priority res secs now s))"
  by (rule claim_priority_cases [OF store_inv_pk, of s res secs now])
    (simp_all add: store_inv_claimed)

lemma keeps_inv_iff: "keeps (\<lambda>s s'. I s \<longrightarrow> I s') m \<longleftrightarrow> (\<forall>s. I s \<longrightarrow> I (fst (m s)))"
  by (simp add: keeps_def)

lemma store_inv_reap: "store_inv s \<Longrightarrow> store_inv (fst (reap_expired now s))"
proof -
  have "keeps (\<lambda>s s'. store_inv s \<longrightarrow> store_inv s')
    (mapA (\<lambda>jid. fail now jid ''lease expired: worker presumed dead'') ids)" for ids
    by (intro keeps_mapA)
      (auto simp: reflp_def transp_def keeps_inv_iff intro: store_inv_fail)
  then show "store_inv s \<Longrightarrow> store_inv (fst (reap_expired now s))"
    by (simp add: reap_expired_def keeps_inv_iff)
qed

lemma store_inv_record: "store_inv s \<Longrightarrow> store_inv (fst (record_result now jid r s))"
  by (simp add: record_result_def store_inv_def pk_def)

lemma store_inv_empty: "store_inv empty_store"
  by (simp add: store_inv_def pk_def empty_store_def)

lemma store_inv_step: "store_step s s' \<Longrightarrow> store_inv s \<Longrightarrow> store_inv s'"
  by (induction rule: store_step.induct)
    (auto intro: store_inv_create store_inv_transition store_inv_update_payload store_inv_claim
      store_inv_claim_priority store_inv_renew store_inv_fail store_inv_reap store_inv_record)

lemma evolves_step: "store_step s s' \<Longrightarrow> evolves s s'"
  by (induction rule: store_step.induct) (auto intro: keeps_intros keepsD evolves_record)

lemma reachable_inv: "reachable s \<Longrightarrow> store_inv s"
  by (induction rule: reachable.induct) (auto intro: store_inv_empty store_inv_step)

lemma steps_evolve: "store_step\<^sup>*\<^sup>* s s' \<Longrightarrow> evolves s s'"
proof (induction rule: rtranclp_induct)
  case (step y z)
  then show ?case using evolves_step transpD [OF transp_evolves] by blast
qed simp

section \<open>The reaper\<close>

lemma replace_job_rows:
  assumes "pk s" and "lookup s (job_id j) = Some j" and "job_id (f j) = job_id j"
  shows "replace_job (f j) s = s\<lparr>jobs_table := update_rows (\<lambda>x. job_id x = job_id j) f (jobs_table s)\<rparr>"
proof -
  have "update_rows (\<lambda>x. job_id x = job_id (f j)) (\<lambda>_. f j) (jobs_table s)
      = update_rows (\<lambda>x. job_id x = job_id j) f (jobs_table s)"
    unfolding update_rows_def
  proof (rule map_cong [OF refl])
    fix x assume "x \<in> set (jobs_table s)"
    then have "job_id x = job_id j \<Longrightarrow> x = j" using lookup_in [OF assms(1)] assms(2) by fastforce
    then show "(if job_id x = job_id (f j) then f j else x) = (if job_id x = job_id j then f x else x)"
      using assms(3) by auto
  qed
  then show ?thesis by (simp add: replace_job_def)
qed

lemma update_rows_twice:
  assumes "\<And>x. P (f x) = P x" and "\<And>x. Q (f x) = Q x"
    and "\<And>x. x \<in> set rs \<Longrightarrow> \<not> (P x \<and> Q x)"
  shows "update_rows Q f (update_rows P f rs) = update_rows (\<lambda>x. P x \<or> Q x) f rs"
  using assms by (auto simp: update_rows_def)

lemma job_id_failed [simp]: "job_id (failed_job now err j) = job_id j"
  by (simp add: failed_job_def)

lemma fail_many:
  assumes "pk s" and "distinct (map job_id js)"
    and "\<And>j. j \<in> set js \<Longrightarrow> lookup s (job_id j) = Some j \<and> job_state j = RUNNING"
  shows "mapA (\<lambda>jid. fail now jid err) (map job_id js) s
    = (s\<lparr>jobs_table := update_rows (\<lambda>j. job_id j \<in> job_id ` set js) (failed_job now err) (jobs_table s)\<rparr>,
       Inr (map (failed_job now err) js))"
  using assms
proof (induction js arbitrary: s)
  case Nil
  then show ?case by (simp add: update_rows_def)
next
  case (Cons j js)
  let ?f = "failed_job now err"
  let ?s1 = "replace_job (?f j) s"
  have j: "lookup s (job_id j) = Some j" "job_state j = RUNNING" using Cons.prems(3) by auto
  have step: "fail now (job_id j) err s = (?s1, Inr (?f j))"
    using Cons.prems(1) j by (simp add: fail_eq)
  have other: "x \<in> set js \<Longrightarrow> job_id x \<noteq> job_id j" for x
    using Cons.prems(2) by (metis distinct.simps(2) imageI list.simps(9) list.set_map)
  have ih: "mapA (\<lambda>jid. fail now jid err) (map job_id js) ?s1
    = (?s1\<lparr>jobs_table := update_rows (\<lambda>x. job_id x \<in> job_id ` set js) ?f (jobs_table ?s1)\<rparr>,
       Inr (map ?f js))"
    using Cons.prems other by (intro Cons.IH) (auto simp: lookup_replace_job)
  have s1: "?s1 = s\<lparr>jobs_table := update_rows (\<lambda>x. job_id x = job_id j) ?f (jobs_table s)\<rparr>"
    using Cons.prems(1) j by (intro replace_job_rows) simp_all
  have "update_rows (\<lambda>x. job_id x \<in> job_id ` set js) ?f
      (update_rows (\<lambda>x. job_id x = job_id j) ?f (jobs_table s))
    = update_rows (\<lambda>x. job_id x \<in> job_id ` set (j # js)) ?f (jobs_table s)"
    by (subst update_rows_twice) (auto dest: other)
  then show ?case using step ih by (simp add: s1)
qed

lemma fail_matching:
  assumes "pk s" and run: "\<And>j. P j \<Longrightarrow> job_state j = RUNNING"
  shows "mapA (\<lambda>jid. fail now jid err) (map job_id (filter P (jobs_table s))) s =
    (s\<lparr>jobs_table := update_rows P (failed_job now err) (jobs_table s)\<rparr>,
     Inr (map (failed_job now err) (filter P (jobs_table s))))"
proof -
  let ?js = "filter P (jobs_table s)"
  have d: "distinct (map job_id ?js)" using assms(1) by (simp add: pk_def distinct_map_filter)
  have r: "\<And>j. j \<in> set ?js \<Longrightarrow> lookup s (job_id j) = Some j \<and> job_state j = RUNNING"
    using assms by (auto simp: lookup_in)
  have "x \<in> set (jobs_table s) \<Longrightarrow> job_id x \<in> job_id ` set ?js \<longleftrightarrow> P x" for x
    using lookup_in [OF assms(1)] by (auto, metis option.inject)
  then have "update_rows (\<lambda>j. job_id j \<in> job_id ` set ?js) f (jobs_table s)
      = update_rows P f (jobs_table s)" for f
    by (auto simp: update_rows_def)
  then show ?thesis using fail_many [OF assms(1) d r] by simp
qed

lemma lease_expired_running: "lease_expired now j \<Longrightarrow> job_state j = RUNNING"
  by (simp add: lease_expired_def is_running_def)

lemma reap_expired_eq:
  assumes "pk s"
  shows "reap_expired now s =
    (s\<lparr>jobs_table := update_rows (lease_expired now)
        (failed_job now ''lease expired: worker presumed dead'') (jobs_table s)\<rparr>,
     Inr (map (failed_job now ''lease expired: worker presumed dead'')
        (filter (lease_expired now) (jobs_table s))))"
  unfolding reap_expired_def by (rule fail_matching [OF assms lease_expired_running])

lemma not_expired_failed: "\<not> lease_expired now' (failed_job now err j)"
  by (simp add: lease_expired_def failed_job_def set_state_def)

end
