(* ===== verification/Job_Props.thy ===== *)
theory Job_Props
  imports Job_Invariants
begin

text \<open>
  The properties of the job store (\<^verbatim>\<open>src/shoprl/platform/store.py\<close>): what is true of every
  reachable database, and what \<open>claim\<close>, \<open>claim_priority\<close>, \<open>fail\<close>, \<open>reap_expired\<close>
  and \<open>record_result\<close> do on every branch.
\<close>

definition sample_store :: store where
  "sample_store =
     fst (claim None 30 1
       (fst (create ''b'' 0 ''train'' [] 3 ''gpu'' 5
         (fst (create ''a'' 0 ''eval'' [] 3 ''cpu'' 0 empty_store)))))"

lemma reachable_sample: "reachable sample_store"
  unfolding sample_store_def
  by (intro reachable_step [OF _ step_claim] reachable_step [OF _ step_create] reachable_init) simp_all

lemma sample_rows:
  "jobs_table sample_store =
     [set_claimed 31 1 (new_job ''a'' 0 ''eval'' [] 3 ''cpu'' 0),
      new_job ''b'' 0 ''train'' [] 3 ''gpu'' 5]" "ledger sample_store = []"
  by (simp_all add: sample_store_def create_def claim_def claim_query_def empty_store_def Let_def
      lookup_def row_simps new_job_def is_pending_def try_claim_def update_job_def rowcount_def
      update_rows_def set_claimed_def get_job_def numeral_eq_Suc sort_key_def)

lemma sample_lookup:
  "lookup sample_store ''a'' = Some (set_claimed 31 1 (new_job ''a'' 0 ''eval'' [] 3 ''cpu'' 0))"
  "lookup sample_store ''b'' = Some (new_job ''b'' 0 ''train'' [] 3 ''gpu'' 5)"
  by (simp_all add: lookup_def sample_rows row_simps)

text \<open>C1. In every database the calls of the repository can produce, ids are unique, a lease is
  held only by a RUNNING job, the attempts never exceed the bound, a job that can still be claimed
  has an attempt left, no job rests in RETRYING, and a dead-lettered job records an error.\<close>

theorem job_bookkeeping:
  assumes "reachable s" and "lookup s jid = Some j"
  shows "distinct (map job_id (jobs_table s)) \<and>
    (job_lease j \<noteq> None \<longrightarrow> job_state j = RUNNING) \<and>
    0 \<le> job_attempts j \<and> job_attempts j \<le> job_max_attempts j \<and>
    (job_state j \<in> {PENDING, RUNNING, PAUSED} \<longrightarrow> job_attempts j < job_max_attempts j) \<and>
    job_state j \<noteq> RETRYING \<and>
    (job_state j = DEAD_LETTER \<longrightarrow> job_error j \<noteq> None)"
  using reachable_inv [OF assms(1)] store_inv_lookup [OF _ assms(2)]
  by (auto simp: store_inv_def pk_def job_ok_def)

lemma job_bookkeeping_witness:
  "0 \<le> job_attempts (new_job ''b'' 0 ''train'' [] 3 ''gpu'' 5) \<and>
   distinct (map job_id (jobs_table sample_store))"
  using job_bookkeeping [OF reachable_sample sample_lookup(2)] by blast

text \<open>C2. A job is never lost: after any further calls it is still there, with the same identity,
  kind, resource, priority, creation time and bound, with at least as many attempts, in a state the
  transition graph reaches from the earlier one; a terminal state is final.\<close>

theorem jobs_only_evolve:
  assumes "reachable s" and "store_step\<^sup>*\<^sup>* s s'" and "lookup s jid = Some j"
  shows "\<exists>j'. lookup s' jid = Some j' \<and> job_id j' = jid \<and> job_kind j' = job_kind j \<and>
    job_resource j' = job_resource j \<and> job_priority j' = job_priority j \<and>
    job_created_at j' = job_created_at j \<and> job_max_attempts j' = job_max_attempts j \<and>
    job_attempts j \<le> job_attempts j' \<and> can_transition\<^sup>*\<^sup>* (job_state j) (job_state j') \<and>
    (is_terminal j \<longrightarrow> job_state j' = job_state j)"
proof -
  have "pk s" using assms(1) by (simp add: reachable_inv store_inv_pk)
  then obtain j' where "lookup s' jid = Some j'" "job_evolves j j'"
    using steps_evolve [OF assms(2)] assms(3) unfolding evolves_def by blast
  moreover have "job_id j = jid" using assms(3) by (auto dest: lookup_SomeD)
  ultimately show ?thesis
    by (auto simp: job_evolves_def is_terminal_def dest: terminal_rtranclp)
qed

lemma jobs_only_evolve_witness:
  "\<exists>j'. lookup (fst (fail 2 ''a'' ''boom'' sample_store)) ''a'' = Some j' \<and> job_kind j' = ''eval''"
proof -
  have "store_step\<^sup>*\<^sup>* sample_store (fst (fail 2 ''a'' ''boom'' sample_store))"
    by (rule r_into_rtranclp) (rule step_fail)
  from jobs_only_evolve [OF reachable_sample this sample_lookup(1)] show ?thesis
    by (auto simp: set_claimed_def new_job_def)
qed

text \<open>C3. \<open>fail\<close> is one atomic move of a RUNNING job: the attempt counter goes up by one, the
  error is recorded, the lease is dropped, and the job is back in PENDING or, once the bound is used
  up, in DEAD_LETTER; FAILED and RETRYING are never left in the table, no other row changes, and a
  job that is absent or not RUNNING leaves the store as it was.\<close>

theorem fail_bounded_retry:
  assumes "reachable s"
  shows "case lookup s jid of
      None \<Rightarrow> fail now jid err s = (s, Inl (JobNotFound jid))
    | Some j \<Rightarrow>
        (if job_state j \<noteq> RUNNING
         then fail now jid err s = (s, Inl (InvalidTransition (job_state j) FAILED))
         else \<exists>s' j'. fail now jid err s = (s', Inr j') \<and>
           j' = j\<lparr>job_state := (if job_attempts j + 1 < job_max_attempts j then PENDING else DEAD_LETTER),
                 job_attempts := job_attempts j + 1, job_error := Some err,
                 job_updated_at := now, job_lease := None\<rparr> \<and>
           (\<forall>k. lookup s' k = (if k = jid then Some j' else lookup s k)) \<and> ledger s' = ledger s)"
proof (cases "lookup s jid")
  case None
  with assms show ?thesis by (simp add: fail_eq reachable_inv store_inv_pk)
next
  case (Some j)
  then have "job_id j = jid" by (auto dest: lookup_SomeD)
  with Some assms show ?thesis
    by (auto simp: fail_eq reachable_inv store_inv_pk lookup_replace_job failed_job_def set_state_def)
qed

lemma fail_bounded_retry_witness:
  "\<exists>s' j'. fail 2 ''a'' ''boom'' sample_store = (s', Inr j') \<and> job_state j' = PENDING"
  using fail_bounded_retry [OF reachable_sample, where jid = "''a''" and now = 2 and err = "''boom''"]
  by (auto simp: sample_lookup set_claimed_def new_job_def)

text \<open>C4. \<open>reap_expired\<close> always succeeds: exactly the RUNNING jobs whose lease is over take
  one failed attempt, they are returned in table order, every other job and the ledger stay as they
  were, and a second pass at any later time finds none of them expired again.\<close>

theorem reap_exactly_expired:
  assumes "reachable s"
  shows "\<exists>s' js. reap_expired now s = (s', Inr js) \<and>
    map job_id js = map job_id (filter (lease_expired now) (jobs_table s)) \<and>
    ledger s' = ledger s \<and>
    (\<forall>k. lookup s' k = (case lookup s k of None \<Rightarrow> None | Some j \<Rightarrow>
        if lease_expired now j
        then Some (failed_job now ''lease expired: worker presumed dead'' j) else Some j)) \<and>
    {j. j \<in> set js \<and> (job_state j = RUNNING \<or> job_lease j \<noteq> None)} = {} \<and>
    {j. j \<in> set (jobs_table s') \<and> lease_expired now j} = {}"
proof -
  have "pk s" using assms by (simp add: reachable_inv store_inv_pk)
  note eq = reap_expired_eq [OF this, of now]
  show ?thesis
    unfolding eq
    by (auto simp: lookup_def row_by_update_rows set_update_rows not_expired_failed split: option.splits)
      (auto simp: failed_job_def set_state_def split: if_splits)
qed

lemma reap_exactly_expired_witness:
  "\<exists>s' js. reap_expired 100 sample_store = (s', Inr js) \<and> map job_id js = [''a'']"
proof -
  have "map job_id (filter (lease_expired 100) (jobs_table sample_store)) = [''a'']"
    by (simp add: sample_rows lease_expired_def is_running_def set_claimed_def new_job_def)
  then show ?thesis using reap_exactly_expired [OF reachable_sample, of 100] by auto
qed

text \<open>C5. \<open>claim\<close> decides in its first round whatever bound the loop is given, never raises,
  returns \<open>None\<close> exactly when no pending job has an accepted kind, and otherwise moves the oldest
  such job to RUNNING with the requested lease and touches nothing else.\<close>

theorem claim_oldest:
  assumes "reachable s"
  shows "claim_rounds (Suc n) (claim_query kinds) (now + secs) now s = claim kinds secs now s \<and>
    (case claim kinds secs now s of
       (s', Inl e) \<Rightarrow> False
     | (s', Inr None) \<Rightarrow> s' = s \<and> filter (eligible kinds) (jobs_table s) = []
     | (s', Inr (Some j')) \<Rightarrow> \<exists>j. lookup s (job_id j) = Some j \<and> eligible kinds j \<and>
         filter (\<lambda>x. eligible kinds x \<and> job_created_at x < job_created_at j) (jobs_table s) = [] \<and>
         j' = j\<lparr>job_state := RUNNING, job_lease := Some (now + secs), job_updated_at := now\<rparr> \<and>
         (\<forall>k. lookup s' k = (if k = job_id j then Some j' else lookup s k)) \<and> ledger s' = ledger s)"
proof (rule conjI)
  have pk: "pk s" using assms by (simp add: reachable_inv store_inv_pk)
  have "\<exists>j. lookup s jid = Some j \<and> is_pending j" if "jid \<in> set (claim_query kinds s)" for jid
    using that pk by (auto simp: claim_query_def lookup_in dest!: in_set_takeD)
  then show "claim_rounds (Suc n) (claim_query kinds) (now + secs) now s = claim kinds secs now s"
    unfolding claim_def One_nat_def by (rule claim_rounds_enough [OF pk])
  show "case claim kinds secs now s of
       (s', Inl e) \<Rightarrow> False
     | (s', Inr None) \<Rightarrow> s' = s \<and> filter (eligible kinds) (jobs_table s) = []
     | (s', Inr (Some j')) \<Rightarrow> \<exists>j. lookup s (job_id j) = Some j \<and> eligible kinds j \<and>
         filter (\<lambda>x. eligible kinds x \<and> job_created_at x < job_created_at j) (jobs_table s) = [] \<and>
         j' = j\<lparr>job_state := RUNNING, job_lease := Some (now + secs), job_updated_at := now\<rparr> \<and>
         (\<forall>k. lookup s' k = (if k = job_id j then Some j' else lookup s k)) \<and> ledger s' = ledger s"
  proof (cases "\<exists>j \<in> set (jobs_table s). eligible kinds j")
    case True
    then obtain j0 where "j0 \<in> set (jobs_table s)" "eligible kinds j0" by blast
    then obtain j where j: "lookup s (job_id j) = Some j" "eligible kinds j"
      "\<forall>x \<in> set (jobs_table s). eligible kinds x \<longrightarrow> job_created_at j \<le> job_created_at x"
      "claim kinds secs now s
        = (replace_job (set_claimed (now + secs) now j) s, Inr (Some (set_claimed (now + secs) now j)))"
      by (rule claim_some [OF pk, where secs = secs and now = now])
    from j(3) have "filter (\<lambda>x. eligible kinds x \<and> job_created_at x < job_created_at j) (jobs_table s) = []"
      by (auto simp: filter_empty_conv)
    with j(1,2) show ?thesis
      unfolding j(4) prod.case sum.case option.case
      by (intro exI [of _ j]) (simp add: lookup_replace_job set_claimed_def)
  next
    case False
    with pk show ?thesis by (simp add: claim_none filter_empty_conv)
  qed
qed

lemma claim_oldest_witness:
  "claim_rounds 7 (claim_query (Some [''train''])) (2 + 30) 2 sample_store
    = claim (Some [''train'']) 30 2 sample_store"
  using claim_oldest [OF reachable_sample, where n = 6 and kinds = "Some [''train'']"
      and secs = 30 and now = 2]
  by (simp add: numeral_eq_Suc)

text \<open>The result ledger is written once: after any further calls a recorded result is unchanged;
  \<open>record_result\<close> reports whether it was the first, stores the result then, and keeps the earlier
  one otherwise.\<close>

theorem ledger_write_once:
  assumes "reachable s" and "store_step\<^sup>*\<^sup>* s s'"
  shows "(case get_result s jid of None \<Rightarrow> True | Some r \<Rightarrow> get_result s' jid = Some r) \<and>
    snd (record_result now jid res s) = (\<not> has_result s jid) \<and>
    get_result (fst (record_result now jid res s)) jid
      = Some (case get_result s jid of None \<Rightarrow> res | Some r \<Rightarrow> r)"
proof -
  have "pk s" using assms(1) by (simp add: reachable_inv store_inv_pk)
  then have "row_by fst jid (ledger s) = Some r \<Longrightarrow> row_by fst jid (ledger s') = Some r" for r
    using steps_evolve [OF assms(2)] unfolding evolves_def by blast
  then show ?thesis
    by (auto simp: get_result_def has_result_def record_result_def insert_or_ignore_def row_simps
        split: option.splits)
qed

lemma ledger_write_once_example:
  "get_result (fst (record_result 1 ''a'' [(''x'', JInt 1)] sample_store)) ''a''
    = Some [(''x'', JInt 1)]"
  using ledger_write_once [OF reachable_sample rtranclp.rtrancl_refl, of "''a''" 1 "[(''x'', JInt 1)]"]
  by (simp add: get_result_def sample_rows row_simps)

end
