(* ===== verification/Scheduler.thy ===== *)
theory Scheduler
  imports Job_Props
begin

text \<open>
  \<^verbatim>\<open>src/shoprl/platform/scheduler.py\<close>: admission control.  \<open>admit_while\<close> is the inner loop
  of \<open>Scheduler.schedule\<close> over an abstract claiming operation; the locale \<open>admission_queue\<close>
  states what the loop needs from that operation and proves how much it admits and in which order.
  The job store's \<open>claim_priority\<close> provides the interface, and the properties of \<open>schedule\<close>
  (capacity, work conservation, priority order, idempotence) follow from the interpretation.
\<close>

section \<open>Configuration and operations\<close>

definition GPU :: string where "GPU = ''gpu''"
definition CPU :: string where "CPU = ''cpu''"

record resource_config =
  gpu_slots :: int
  cpu_worker_slots :: int
  max_concurrent_jobs :: int

definition default_config :: resource_config where
  "default_config = \<lparr>gpu_slots = 1, cpu_worker_slots = 4, max_concurrent_jobs = 8\<rparr>"

definition submit :: "string \<Rightarrow> real \<Rightarrow> string \<Rightarrow> dict \<Rightarrow> string \<Rightarrow> int \<Rightarrow> int \<Rightarrow> job store_action" where
  "submit fid now kind payload resource priority maxa =
     create fid now kind payload maxa resource priority"

definition slots :: "resource_config \<Rightarrow> (string \<times> int) list" where
  "slots cfg = [(GPU, gpu_slots cfg), (CPU, cpu_worker_slots cfg)]"

definition slot_of :: "resource_config \<Rightarrow> string \<Rightarrow> int" where
  "slot_of cfg r = (case map_of (slots cfg) r of None \<Rightarrow> 0 | Some n \<Rightarrow> n)"

text \<open>\<open>while free > 0 and tot < max_concurrent_jobs\<close>: claim, stop on \<open>None\<close>, otherwise
  append the job and count it.  The result is the admitted jobs with the new total.\<close>

function admit_while ::
  "('s, 'e, 'j option) action \<Rightarrow> int \<Rightarrow> int \<Rightarrow> int \<Rightarrow> ('s, 'e, 'j list \<times> int) action" where
  "admit_while claim_next free tot cap s =
     (if free > 0 \<and> tot < cap then
        (case claim_next s of
           (s', Inl e) \<Rightarrow> (s', Inl e)
         | (s', Inr None) \<Rightarrow> (s', Inr ([], tot))
         | (s', Inr (Some j)) \<Rightarrow>
             bindA (admit_while claim_next (free - 1) (tot + 1) cap)
               (\<lambda>(js, t). ret (j # js, t)) s')
      else (s, Inr ([], tot)))"
  by pat_completeness auto

termination
  by (relation "measure (\<lambda>(_, free, _, _, _). nat free)") auto

declare admit_while.simps [simp del]

fun admit_classes ::
  "resource_config \<Rightarrow> (string \<times> nat) list \<Rightarrow> real \<Rightarrow> string list \<Rightarrow> int \<Rightarrow> job list store_action" where
  "admit_classes cfg running now [] tot = ret []"
| "admit_classes cfg running now (r # rs) tot =
     bindA (admit_while (claim_priority r 30 now) (slot_of cfg r - int (dict_get running r)) tot
              (max_concurrent_jobs cfg))
       (\<lambda>(js, t). bindA (admit_classes cfg running now rs t) (\<lambda>js'. ret (js @ js')))"

definition schedule :: "resource_config \<Rightarrow> real \<Rightarrow> job list store_action" where
  "schedule cfg now s =
     (let running = running_counts_by_resource s;
          tot = int (sum_list (map snd running))
      in admit_classes cfg running now [GPU, CPU] tot s)"

definition sched_complete :: "real \<Rightarrow> string \<Rightarrow> job store_action" where
  "sched_complete now jid = complete now jid"

definition sched_fail :: "real \<Rightarrow> string \<Rightarrow> string \<Rightarrow> job store_action" where
  "sched_fail now jid err = fail now jid err"

definition cancel :: "real \<Rightarrow> string \<Rightarrow> job store_action" where
  "cancel now jid = bindA (get_job jid) (\<lambda>_. transition now jid CANCELLED None False)"

record class_status =
  st_used :: nat
  st_slots :: int
  st_queued :: nat

record sched_status =
  st_gpu :: class_status
  st_cpu :: class_status
  running_total :: nat
  max_concurrent :: int
  at_capacity :: bool

definition status :: "resource_config \<Rightarrow> store \<Rightarrow> sched_status" where
  "status cfg s =
     (let running = running_counts_by_resource s;
          pending = pending_counts_by_resource s;
          tot = sum_list (map snd running)
      in \<lparr>st_gpu = \<lparr>st_used = dict_get running GPU, st_slots = slot_of cfg GPU,
                    st_queued = dict_get pending GPU\<rparr>,
          st_cpu = \<lparr>st_used = dict_get running CPU, st_slots = slot_of cfg CPU,
                    st_queued = dict_get pending CPU\<rparr>,
          running_total = tot, max_concurrent = max_concurrent_jobs cfg,
          at_capacity = (int tot \<ge> max_concurrent_jobs cfg)\<rparr>)"

section \<open>The admission loop over a queue\<close>

text \<open>
  What the loop needs from the operation it calls: an empty queue answers \<open>None\<close> and changes
  nothing; otherwise the best element leaves the queue and occupies one slot of its class and one of
  the machine, and nothing of the other classes changes.
\<close>

locale admission_queue =
  fixes inv :: "'s \<Rightarrow> bool"
    and queue :: "'s \<Rightarrow> 'j set"
    and key :: "'j \<Rightarrow> 'k::linorder"
    and admitted :: "'j \<Rightarrow> bool"
    and used :: "'s \<Rightarrow> nat"
    and busy :: "'s \<Rightarrow> nat"
    and others :: "'s \<Rightarrow> 'o"
    and active :: "'s \<Rightarrow> 'j set"
    and claim_next :: "('s, 'e, 'j option) action"
  assumes queue_finite: "inv s \<Longrightarrow> finite (queue s)"
    and next_none: "inv s \<Longrightarrow> queue s = {} \<Longrightarrow> claim_next s = (s, Inr None)"
    and next_some: "inv s \<Longrightarrow> queue s \<noteq> {} \<Longrightarrow>
      \<exists>s' j j'. claim_next s = (s', Inr (Some j')) \<and> j \<in> queue s \<and> (\<forall>x \<in> queue s. key j \<le> key x) \<and>
        key j' = key j \<and> admitted j' \<and> inv s' \<and> queue s' = queue s - {j} \<and>
        used s' = Suc (used s) \<and> busy s' = Suc (busy s) \<and> others s' = others s \<and>
        active s' = insert j' (active s) \<and> j' \<notin> active s"
begin

definition room :: "int \<Rightarrow> int \<Rightarrow> int \<Rightarrow> 's \<Rightarrow> nat" where
  "room free tot cap s = min (card (queue s)) (min (nat free) (nat (cap - tot)))"

text \<open>What has happened when the list \<open>js\<close> was admitted between two states.\<close>

definition admits :: "'s \<Rightarrow> 'j list \<Rightarrow> 's \<Rightarrow> bool" where
  "admits s js s' \<longleftrightarrow>
     inv s' \<and> used s' = used s + length js \<and> busy s' = busy s + length js \<and>
     card (queue s) = card (queue s') + length js \<and> queue s' \<subseteq> queue s \<and> others s' = others s \<and>
     active s' = active s \<union> set js \<and> distinct js \<and> set js \<inter> active s = {} \<and>
     (\<forall>j \<in> set js. admitted j) \<and> sorted (map key js) \<and> (\<forall>j \<in> set js. \<forall>x \<in> queue s'. key j \<le> key x) \<and>
     (\<forall>k. (\<forall>x \<in> queue s. k \<le> key x) \<longrightarrow> (\<forall>j \<in> set js. k \<le> key j))"

lemma admits_Nil: "inv s \<Longrightarrow> admits s [] s"
  by (simp add: admits_def)

lemma admits_Cons:
  assumes "inv s" and "j \<in> queue s" and best: "\<forall>x \<in> queue s. key j \<le> key x" and k: "key j' = key j"
    and ad: "admitted j'"
    and q: "queue s1 = queue s - {j}"
    and "used s1 = Suc (used s)" and "busy s1 = Suc (busy s)" and "others s1 = others s"
    and act: "active s1 = insert j' (active s)" "j' \<notin> active s"
    and a: "admits s1 js s2"
  shows "admits s (j' # js) s2"
proof -
  have c: "card (queue s) = Suc (card (queue s1))"
    using assms(1,2) q queue_finite by (simp only: card_Suc_Diff1)
  have low: "\<forall>y \<in> set js. l \<le> key y" if "\<forall>x \<in> queue s1. l \<le> key x" for l
    using a that unfolding admits_def by blast
  have sub: "queue s2 \<subseteq> queue s1" using a unfolding admits_def by blast
  have b1: "\<forall>x \<in> queue s1. key j' \<le> key x" using best k q by simp
  have b0: "\<forall>y \<in> set (j' # js). admitted y" using ad a by (simp add: admits_def)
  have b2: "sorted (map key (j' # js))" using low [OF b1] a by (simp add: admits_def)
  have b3: "\<forall>y \<in> set (j' # js). \<forall>x \<in> queue s2. key y \<le> key x"
    using a b1 sub by (auto simp: admits_def)
  have b4: "\<forall>y \<in> set (j' # js). l \<le> key y" if l: "\<forall>x \<in> queue s. l \<le> key x" for l
    using low [of l] l assms(2) k q by auto
  have b5: "queue s2 \<subseteq> queue s" "card (queue s) = card (queue s2) + length (j' # js)"
    "used s2 = used s + length (j' # js)" "busy s2 = busy s + length (j' # js)"
    "others s2 = others s" "inv s2"
    using a q sub c assms(7-9) by (auto simp: admits_def)
  have b6: "active s2 = active s \<union> set (j' # js)" "distinct (j' # js)" "set (j' # js) \<inter> active s = {}"
    using a act by (auto simp: admits_def)
  show ?thesis unfolding admits_def by (intro conjI b0 b6 b2 b3 b5 allI impI b4)
qed

lemma admit_while_full:
  assumes "inv s"
  shows "\<exists>s' js. admit_while claim_next free tot cap s = (s', Inr (js, tot + int (length js))) \<and>
    admits s js s' \<and> length js = room free tot cap s"
  using assms
proof (induction "nat free" arbitrary: free tot s)
  case 0
  have "admit_while claim_next free tot cap s = (s, Inr ([], tot))"
    using 0 by (subst admit_while.simps) simp
  with 0 show ?case by (intro exI [of _ s] exI [of _ "[]"]) (simp add: room_def admits_Nil)
next
  case (Suc n)
  consider "\<not> tot < cap" | "queue s = {}" | "tot < cap" "queue s \<noteq> {}" by blast
  then show ?case
  proof cases
    case 1
    then have "admit_while claim_next free tot cap s = (s, Inr ([], tot))"
      by (subst admit_while.simps) simp
    with 1 Suc.prems show ?thesis
      by (intro exI [of _ s] exI [of _ "[]"]) (simp add: room_def admits_Nil)
  next
    case 2
    then have "admit_while claim_next free tot cap s = (s, Inr ([], tot))"
      using next_none [OF Suc.prems] by (subst admit_while.simps) simp
    with 2 Suc.prems show ?thesis
      by (intro exI [of _ s] exI [of _ "[]"]) (simp add: room_def admits_Nil)
  next
    case 3
    from next_some [OF Suc.prems 3(2)] obtain s1 j j' where
      t: "claim_next s = (s1, Inr (Some j'))" "j \<in> queue s"
      "\<forall>x \<in> queue s. key j \<le> key x" "key j' = key j" "admitted j'" "inv s1" "queue s1 = queue s - {j}"
      "used s1 = Suc (used s)" "busy s1 = Suc (busy s)" "others s1 = others s"
      "active s1 = insert j' (active s)" "j' \<notin> active s"
      by (elim exE conjE)
    have n: "n = nat (free - 1)" and free: "0 < free" using Suc.hyps(2) by auto
    from Suc.hyps(1) [OF n t(6), of "tot + 1"] obtain s2 js where
      r: "admit_while claim_next (free - 1) (tot + 1) cap s1
        = (s2, Inr (js, tot + 1 + int (length js)))"
      "admits s1 js s2" "length js = room (free - 1) (tot + 1) cap s1"
      by (elim exE conjE)
    have c: "card (queue s) = Suc (card (queue s1))"
      using t(2,7) queue_finite [OF Suc.prems] by (simp only: card_Suc_Diff1)
    have "admit_while claim_next free tot cap s = (s2, Inr (j' # js, tot + int (length (j' # js))))"
      using 3 free t(1) r(1) by (subst admit_while.simps) (simp add: algebra_simps)
    moreover have "admits s (j' # js) s2"
      by (rule admits_Cons [OF Suc.prems t(2,3,4,5,7-12) r(2)])
    moreover have "length (j' # js) = room free tot cap s"
    proof -
      have "nat free = Suc (nat (free - 1))" "nat (cap - tot) = Suc (nat (cap - (tot + 1)))"
        using free 3 by simp_all
      then show ?thesis using r(3) c by (simp add: room_def)
    qed
    ultimately show ?thesis by blast
  qed
qed

lemma admit_while_idle:
  assumes "inv s" and "room free tot cap s = 0"
  shows "admit_while claim_next free tot cap s = (s, Inr ([], tot))"
proof -
  consider "\<not> (free > 0 \<and> tot < cap)" | "queue s = {}"
    using assms queue_finite [OF assms(1)] by (auto simp: room_def min_def split: if_splits)
  then show ?thesis
  proof cases
    case 1
    show ?thesis by (subst admit_while.simps) (rule if_not_P [OF 1])
  next
    case 2
    then show ?thesis using next_none [OF assms(1)] by (subst admit_while.simps) simp
  qed
qed

text \<open>The loop stops only when the queue is empty, the class is full or the machine is full.\<close>

lemma room_exhausted:
  assumes "admits s js s'" and "length js = room free tot cap s"
  shows "card (queue s') = 0 \<or> int (length js) \<ge> free \<or> tot + int (length js) \<ge> cap"
  using assms by (auto simp: admits_def room_def min_def split: if_splits)

lemma room_bounds:
  "length js = room free tot cap s \<Longrightarrow> int (length js) \<le> max 0 free \<and> int (length js) \<le> max 0 (cap - tot)"
  by (auto simp: room_def min_def split: if_splits)

end

section \<open>The job store as an admission queue\<close>

definition waiting :: "string \<Rightarrow> store \<Rightarrow> job set" where
  "waiting r s = {j \<in> set (jobs_table s). eligible_for r j}"

definition running_in :: "string \<Rightarrow> store \<Rightarrow> nat" where
  "running_in r s = length (filter (\<lambda>j. is_running j \<and> job_resource j = r) (jobs_table s))"

definition running_all :: "store \<Rightarrow> nat" where
  "running_all s = length (filter is_running (jobs_table s))"

definition running_jobs :: "store \<Rightarrow> job set" where
  "running_jobs s = {j \<in> set (jobs_table s). is_running j}"

definition other_rows :: "string \<Rightarrow> store \<Rightarrow> job list" where
  "other_rows r s = filter (\<lambda>j. job_resource j \<noteq> r) (jobs_table s)"

lemma running_counts: "dict_get (running_counts_by_resource s) r = running_in r s"
  by (simp add: running_counts_by_resource_def dict_get_group_count running_in_def conj_commute)

lemma running_total: "sum_list (map snd (running_counts_by_resource s)) = running_all s"
  by (simp add: running_counts_by_resource_def sum_group_count running_all_def)

lemma claimed_fields [simp]:
  "job_resource (set_claimed l t j) = job_resource j" "job_state (set_claimed l t j) = RUNNING"
  "rank (set_claimed l t j) = rank j" "is_running (set_claimed l t j)"
  "\<not> is_pending (set_claimed l t j)"
  by (simp_all add: set_claimed_def rank_def is_running_def is_pending_def)

lemma waiting_claimed:
  assumes "pk s" and "lookup s (job_id j) = Some j" and "is_pending j"
  shows "waiting r (replace_job (set_claimed l t j) s) = waiting r s - {j}"
proof -
  have "x = j" if "x \<in> set (jobs_table s)" "job_id x = job_id j" for x
    using lookup_in [OF assms(1) that(1)] that(2) assms(2) by simp
  moreover have "set_claimed l t j \<noteq> j" using assms(3) by (metis claimed_fields(5))
  ultimately show ?thesis by (auto simp: waiting_def set_replace_job eligible_for_def)
qed

lemma running_jobs_replace:
  assumes "pk s" and "lookup s (job_id j) = Some j" and "\<not> is_running j" and "job_id j' = job_id j"
  shows "running_jobs (replace_job j' s) = (if is_running j' then {j'} else {}) \<union> running_jobs s"
    and "j' \<notin> running_jobs s"
proof -
  have eq: "x = j" if "x \<in> set (jobs_table s)" "job_id x = job_id j" for x
    using lookup_in [OF assms(1) that(1)] that(2) assms(2) by simp
  have jin: "j \<in> set (jobs_table s)" using assms(2) by (auto dest: lookup_SomeD)
  show "running_jobs (replace_job j' s) = (if is_running j' then {j'} else {}) \<union> running_jobs s"
    using eq jin assms(3,4) by (auto simp: running_jobs_def set_replace_job)
  show "j' \<notin> running_jobs s" using eq assms(3,4) by (auto simp: running_jobs_def)
qed

lemma count_claimed:
  assumes "pk s" and "lookup s (job_id j) = Some j" and "\<not> Q j" and "Q (set_claimed l t j)"
  shows "length (filter Q (jobs_table (replace_job (set_claimed l t j) s)))
    = Suc (length (filter Q (jobs_table s)))"
proof -
  have "j \<in> set (jobs_table s)" using assms(2) by (auto dest: lookup_SomeD)
  then show ?thesis
    using length_filter_update_gain [of job_id "jobs_table s" j Q "\<lambda>_. set_claimed l t j"] assms
    by (simp add: replace_job_def pk_def)
qed

lemma filter_update_rows_same:
  assumes "\<And>x. x \<in> set rs \<Longrightarrow> P x \<Longrightarrow> \<not> Q x \<and> \<not> Q (f x)"
  shows "filter Q (update_rows P f rs) = filter Q rs"
  using assms by (induction rs) (auto simp: update_rows_def)

lemma other_rows_claimed:
  assumes "pk s" and "lookup s (job_id j) = Some j" and "job_resource j = r"
  shows "other_rows r (replace_job (set_claimed l t j) s) = other_rows r s"
  unfolding other_rows_def replace_job_def
  using assms by (auto intro!: filter_update_rows_same) (metis lookup_in option.inject)

interpretation pri: admission_queue
  store_inv "waiting r" rank "\<lambda>j. job_state j = RUNNING \<and> job_resource j = r" "running_in r" running_all "other_rows r" running_jobs
  "claim_priority r secs now"
  for r :: string and secs now :: real
proof unfold_locales
  fix s
  show "finite (waiting r s)" by (simp add: waiting_def)
  assume inv: "store_inv s"
  note pk = store_inv_pk [OF inv]
  show "claim_priority r secs now s = (s, Inr None)" if "waiting r s = {}"
    using that by (intro claim_priority_none) (auto simp: waiting_def)
  assume "waiting r s \<noteq> {}"
  then obtain j0 where "j0 \<in> set (jobs_table s)" "eligible_for r j0" by (auto simp: waiting_def)
  then obtain j where j: "lookup s (job_id j) = Some j" "eligible_for r j"
    "\<forall>x \<in> set (jobs_table s). eligible_for r x \<longrightarrow> rank j \<le> rank x"
    "claim_priority r secs now s
      = (replace_job (set_claimed (now + secs) now j) s, Inr (Some (set_claimed (now + secs) now j)))"
    by (rule claim_priority_some [OF pk, where secs = secs and now = now])
  let ?j' = "set_claimed (now + secs) now j"
  have pend: "is_pending j" "job_resource j = r" "\<not> is_running j"
    using j(2) by (auto simp: eligible_for_def is_pending_def is_running_def)
  have "j \<in> waiting r s" using j(1,2) by (auto simp: waiting_def dest: lookup_SomeD)
  moreover have "\<forall>x \<in> waiting r s. rank j \<le> rank x" using j(3) by (simp add: waiting_def)
  moreover have "store_inv (replace_job ?j' s)" by (rule store_inv_claimed [OF inv j(1) pend(1)])
  moreover have "waiting r (replace_job ?j' s) = waiting r s - {j}"
    by (rule waiting_claimed [OF pk j(1) pend(1)])
  moreover have "running_in r (replace_job ?j' s) = Suc (running_in r s)"
    unfolding running_in_def by (rule count_claimed [OF pk j(1)]) (simp_all add: pend)
  moreover have "running_all (replace_job ?j' s) = Suc (running_all s)"
    unfolding running_all_def by (rule count_claimed [OF pk j(1)]) (simp_all add: pend)
  moreover have "other_rows r (replace_job ?j' s) = other_rows r s"
    by (rule other_rows_claimed [OF pk j(1) pend(2)])
  moreover have "running_jobs (replace_job ?j' s) = insert ?j' (running_jobs s)"
    "?j' \<notin> running_jobs s"
    using running_jobs_replace [OF pk j(1) pend(3), of ?j'] by simp_all
  ultimately show "\<exists>s' j j'. claim_priority r secs now s = (s', Inr (Some j')) \<and> j \<in> waiting r s \<and>
      (\<forall>x \<in> waiting r s. rank j \<le> rank x) \<and> rank j' = rank j \<and> (job_state j' = RUNNING \<and> job_resource j' = r) \<and> store_inv s' \<and>
      waiting r s' = waiting r s - {j} \<and> running_in r s' = Suc (running_in r s) \<and>
      running_all s' = Suc (running_all s) \<and> other_rows r s' = other_rows r s \<and>
      running_jobs s' = insert j' (running_jobs s) \<and> j' \<notin> running_jobs s"
    using j(4) pend(2) by (intro exI [of _ "replace_job ?j' s"] exI [of _ j] exI [of _ ?j']) simp
qed

text \<open>What another class sees of a pass: nothing.\<close>

lemma other_class:
  assumes "other_rows r s' = other_rows r s" and "q \<noteq> r"
  shows "running_in q s' = running_in q s" and "waiting q s' = waiting q s"
proof -
  have f: "filter (\<lambda>j. P j \<and> job_resource j = q) (jobs_table t)
      = filter (\<lambda>j. P j \<and> job_resource j = q) (other_rows r t)" for P t
    using assms(2) by (auto simp: other_rows_def intro: filter_cong)
  show "running_in q s' = running_in q s" using assms(1) by (simp add: running_in_def f)
  have "waiting q t = set (filter (\<lambda>j. is_pending j \<and> job_resource j = q) (jobs_table t))" for t
    by (auto simp: waiting_def eligible_for_def)
  then show "waiting q s' = waiting q s" using assms(1) by (simp add: f)
qed

text \<open>One pass of \<open>schedule\<close> is a GPU pass followed by a CPU pass.\<close>

lemma schedule_passes:
  assumes "store_inv s"
  obtains s1 s2 gs cs where
    "schedule cfg now s = (s2, Inr (gs @ cs))"
    "pri.admits GPU s gs s1" "pri.admits CPU s1 cs s2"
    "length gs = pri.room GPU (gpu_slots cfg - int (running_in GPU s)) (int (running_all s))
      (max_concurrent_jobs cfg) s"
    "length cs = pri.room CPU (cpu_worker_slots cfg - int (running_in CPU s))
      (int (running_all s) + int (length gs)) (max_concurrent_jobs cfg) s1"
proof -
  let ?fg = "gpu_slots cfg - int (running_in GPU s)"
  let ?fc = "cpu_worker_slots cfg - int (running_in CPU s)"
  let ?n = "int (running_all s)" and ?cap = "max_concurrent_jobs cfg"
  from pri.admit_while_full [OF assms, of GPU 30 now ?fg ?n ?cap] obtain s1 gs where
    g: "admit_while (claim_priority GPU 30 now) ?fg ?n ?cap s = (s1, Inr (gs, ?n + int (length gs)))"
      "pri.admits GPU s gs s1" "length gs = pri.room GPU ?fg ?n ?cap s"
    by (elim exE conjE)
  have inv1: "store_inv s1" using g(2) by (simp add: pri.admits_def)
  from pri.admit_while_full [OF inv1, of CPU 30 now ?fc "?n + int (length gs)" ?cap] obtain s2 cs where
    c: "admit_while (claim_priority CPU 30 now) ?fc (?n + int (length gs)) ?cap s1
        = (s2, Inr (cs, ?n + int (length gs) + int (length cs)))"
      "pri.admits CPU s1 cs s2"
      "length cs = pri.room CPU ?fc (?n + int (length gs)) ?cap s1"
    by (elim exE conjE)
  have "schedule cfg now s = (s2, Inr (gs @ cs))"
    using g(1) c(1)
    by (simp add: schedule_def Let_def running_counts running_total slot_of_def slots_def GPU_def CPU_def)
  then show thesis by (rule that [OF _ g(2) c(2) g(3) c(3)])
qed


end
