(* ===== verification/Scheduler_Props.thy ===== *)
theory Scheduler_Props
  imports Scheduler
begin

text \<open>
  The promises of \<open>Scheduler.schedule\<close> (\<^verbatim>\<open>src/shoprl/platform/scheduler.py\<close>) about every
  reachable job store: capacity, work conservation, priority order and idempotence.
\<close>

lemma admits_counts:
  assumes "pri.admits r s js s'"
  shows "store_inv s'" and "running_in r s' = running_in r s + length js"
    and "running_all s' = running_all s + length js"
    and "q \<noteq> r \<Longrightarrow> running_in q s' = running_in q s"
    and "q \<noteq> r \<Longrightarrow> waiting q s' = waiting q s"
    and "waiting r s' \<subseteq> waiting r s"
    and "\<forall>j \<in> set js. job_state j = RUNNING \<and> job_resource j = r"
    and "\<forall>j \<in> set js. \<forall>x \<in> waiting r s'. rank j \<le> rank x"
    and "sorted (map rank js)"
  using assms other_class [of r s' s q] by (simp_all add: pri.admits_def)

lemma GPU_CPU [simp]: "GPU \<noteq> CPU" "CPU \<noteq> GPU"
  by (simp_all add: GPU_def CPU_def)

lemma waiting_empty_iff: "waiting r s = {} \<longleftrightarrow> card (waiting r s) = 0"
  by (auto simp: waiting_def)

lemma pass_exhausted:
  assumes "schedule cfg now s = (s', Inr js)" and "store_inv s"
  shows "store_inv s'"
    and "waiting GPU s' = {} \<or> gpu_slots cfg \<le> int (running_in GPU s')
      \<or> max_concurrent_jobs cfg \<le> int (running_all s')"
    and "waiting CPU s' = {} \<or> cpu_worker_slots cfg \<le> int (running_in CPU s')
      \<or> max_concurrent_jobs cfg \<le> int (running_all s')"
proof -
  obtain s1 s2 gs cs where p: "schedule cfg now s = (s2, Inr (gs @ cs))"
    "pri.admits GPU s gs s1" "pri.admits CPU s1 cs s2"
    "length gs = pri.room GPU (gpu_slots cfg - int (running_in GPU s)) (int (running_all s))
      (max_concurrent_jobs cfg) s"
    "length cs = pri.room CPU (cpu_worker_slots cfg - int (running_in CPU s))
      (int (running_all s) + int (length gs)) (max_concurrent_jobs cfg) s1"
    by (rule schedule_passes [OF assms(2)])
  have [simp]: "s2 = s'" using p(1) assms(1) by simp
  note g = admits_counts [OF p(2)] and c = admits_counts [OF p(3)]
  note gb = pri.room_exhausted [OF p(2,4)] and cb = pri.room_exhausted [OF p(3,5)]
  have w: "waiting GPU s' = waiting GPU s1" "running_in GPU s' = running_in GPU s1"
    using c(4,5) [of GPU] by simp_all
  have r: "running_in CPU s1 = running_in CPU s" using g(4) by simp
  show "store_inv s'" using c(1) by simp
  show "waiting GPU s' = {} \<or> gpu_slots cfg \<le> int (running_in GPU s')
      \<or> max_concurrent_jobs cfg \<le> int (running_all s')"
    using gb g(2,3) c(3) w by (auto simp: waiting_empty_iff)
  show "waiting CPU s' = {} \<or> cpu_worker_slots cfg \<le> int (running_in CPU s')
      \<or> max_concurrent_jobs cfg \<le> int (running_all s')"
    using cb g(3) c(2,3) r by (auto simp: waiting_empty_iff)
qed



text \<open>\<open>schedule\<close> is idempotent: a second pass at any time, with nothing submitted or
  finished in between, starts no job and leaves the store as it is.\<close>

theorem schedule_idempotent:
  assumes "reachable s"
  shows "schedule cfg later (fst (schedule cfg now s)) = (fst (schedule cfg now s), Inr [])"
proof -
  obtain s' js where sch: "schedule cfg now s = (s', Inr js)"
    by (rule schedule_passes [OF reachable_inv [OF assms]])
  note p = sch pass_exhausted [OF sch reachable_inv [OF assms]]
  have g: "admit_while (claim_priority GPU 30 later) (gpu_slots cfg - int (running_in GPU s'))
      (int (running_all s')) (max_concurrent_jobs cfg) s' = (s', Inr ([], int (running_all s')))"
    using p(3) by (intro pri.admit_while_idle p(2)) (auto simp: pri.room_def)
  have c: "admit_while (claim_priority CPU 30 later) (cpu_worker_slots cfg - int (running_in CPU s'))
      (int (running_all s')) (max_concurrent_jobs cfg) s' = (s', Inr ([], int (running_all s')))"
    using p(4) by (intro pri.admit_while_idle p(2)) (auto simp: pri.room_def)
  have "schedule cfg later s' = (s', Inr [])"
    using g c
    by (simp add: schedule_def Let_def running_counts running_total slot_of_def slots_def GPU_def CPU_def)
  then show ?thesis by (simp add: p(1))
qed

lemma sample_running: "running_in GPU sample_store = 0" "running_all sample_store = 1"
  by (simp_all add: running_in_def running_all_def sample_rows is_running_def set_claimed_def
      new_job_def GPU_def)


lemma sample_waiting: "waiting GPU sample_store = {new_job ''b'' 0 ''train'' [] 3 ''gpu'' 5}"
  by (auto simp: waiting_def eligible_for_def sample_rows is_pending_def set_claimed_def new_job_def
      GPU_def)


lemma schedule_idempotent_example:
  "schedule default_config 9 (fst (schedule default_config 5 sample_store))
    = (fst (schedule default_config 5 sample_store), Inr [])"
  by (rule schedule_idempotent [OF reachable_sample])

end
