(* ===== verification/Workers.thy ===== *)
theory Workers
  imports Job_Props
begin

text \<open>
  \<^verbatim>\<open>src/shoprl/platform/workers.py\<close>: the queue worker.  A handler is a parameter: it receives
  the job and the store (while it runs, other processes may have written to the database) and ends
  in a result, an exception, or an abort of the process.  The model of \<open>run_once\<close> covers every
  branch, the store errors that the surrounding \<open>try\<close> turns into a failure included;
  \<open>run_forever\<close> is the worker loop with fuel, shown to be enough in \<open>drain_terminates\<close>.
\<close>

section \<open>Handlers and one turn of the worker\<close>

datatype outcome =
    HReturn "dict option"
  | HRaise string
  | HAbort

type_synonym handler = "job \<Rightarrow> store \<Rightarrow> store \<times> outcome"

datatype worker_exc = WStore store_error | WAbort

definition as_worker :: "'a store_action \<Rightarrow> (store, worker_exc, 'a option) action" where
  "as_worker m s = (case m s of (s', Inl e) \<Rightarrow> (s', Inl (WStore e)) | (s', Inr x) \<Rightarrow> (s', Inr (Some x)))"

definition no_handler_message :: "string \<Rightarrow> string" where
  "no_handler_message kind = ''no handler for kind='' @ py_repr kind"

text \<open>The arguments are the \<open>repr\<close> of a store exception, the handlers by kind, the lease
  length, the accepted kinds and the clock at the claim and at the end of the job.\<close>

definition run_once ::
  "(store_error \<Rightarrow> string) \<Rightarrow> (string \<Rightarrow> handler option) \<Rightarrow> real \<Rightarrow> string list option \<Rightarrow> real \<Rightarrow> real
    \<Rightarrow> (store, worker_exc, job option) action" where
  "run_once repr_exc handlers lease kinds t0 t1 s =
     (case claim kinds lease t0 s of
        (s1, Inl e) \<Rightarrow> (s1, Inl (WStore e))
      | (s1, Inr None) \<Rightarrow> (s1, Inr None)
      | (s1, Inr (Some job)) \<Rightarrow>
          (if has_result s1 (job_id job) then as_worker (complete t1 (job_id job)) s1
           else (case handlers (job_kind job) of
              None \<Rightarrow> as_worker (fail t1 (job_id job) (no_handler_message (job_kind job))) s1
            | Some h \<Rightarrow>
                (case h job s1 of
                   (s2, HReturn r) \<Rightarrow>
                     (let result = (case r of None \<Rightarrow> [] | Some d \<Rightarrow> d);
                          s3 = fst (record_result t1 (job_id job) result s2)
                      in (case complete t1 (job_id job) s3 of
                            (s4, Inr j) \<Rightarrow> (s4, Inr (Some j))
                          | (s4, Inl e) \<Rightarrow> as_worker (fail t1 (job_id job) (repr_exc e)) s4))
                 | (s2, HRaise msg) \<Rightarrow> as_worker (fail t1 (job_id job) msg) s2
                 | (s2, HAbort) \<Rightarrow> (s2, Inl WAbort)))))"

section \<open>The loop\<close>

datatype loop_exit = Stopped | Drained | StillRunning

text \<open>\<open>stop n\<close> is what \<open>stop.is_set()\<close> answers at the \<open>n\<close>-th turn, \<open>clock n\<close> the two
  clock readings of that turn; \<open>time.sleep\<close> does not touch the store.\<close>

fun run_forever ::
  "nat \<Rightarrow> (store_error \<Rightarrow> string) \<Rightarrow> (string \<Rightarrow> handler option) \<Rightarrow> real \<Rightarrow> string list option \<Rightarrow>
    (nat \<Rightarrow> bool) \<Rightarrow> (nat \<Rightarrow> real \<times> real) \<Rightarrow> bool \<Rightarrow> nat \<Rightarrow> (store, worker_exc, loop_exit) action" where
  "run_forever 0 re hs lease kinds stop clock drain n s = (s, Inr StillRunning)"
| "run_forever (Suc fuel) re hs lease kinds stop clock drain n s =
     (if stop n then (s, Inr Stopped)
      else (case run_once re hs lease kinds (fst (clock n)) (snd (clock n)) s of
              (s', Inl e) \<Rightarrow> (s', Inl e)
            | (s', Inr None) \<Rightarrow>
                (if drain then (s', Inr Drained)
                 else run_forever fuel re hs lease kinds stop clock drain (Suc n) s')
            | (s', Inr (Some _)) \<Rightarrow> run_forever fuel re hs lease kinds stop clock drain (Suc n) s'))"

text \<open>\<open>_echo_handler\<close>, the registry, and \<open>_resolve_handler\<close>: a spec with a colon names a
  function to import, any other one is looked up in the registry (a missing name is a KeyError).\<close>

definition echo_handler :: "job \<Rightarrow> outcome" where
  "echo_handler j =
     HReturn (Some [(''echoed'', JObj (job_payload j)), (''kind'', JStr (job_kind j))])"

definition HANDLER_REGISTRY :: "(string \<times> (job \<Rightarrow> outcome)) list" where
  "HANDLER_REGISTRY = [(''echo'', echo_handler)]"

datatype resolved =
    Imported string string
  | Registered "job \<Rightarrow> outcome"
  | HandlerKeyError string

definition resolve_handler :: "string \<Rightarrow> resolved" where
  "resolve_handler spec =
     (if CHR '':'' \<in> set spec
      then Imported (takeWhile (\<lambda>c. c \<noteq> CHR '':'') spec) (tl (dropWhile (\<lambda>c. c \<noteq> CHR '':'') spec))
      else (case map_of HANDLER_REGISTRY spec of
              None \<Rightarrow> HandlerKeyError spec | Some h \<Rightarrow> Registered h))"

text \<open>Handlers that leave the database alone, the ordinary case.\<close>

definition quiet :: "(string \<Rightarrow> (job \<Rightarrow> outcome) option) \<Rightarrow> string \<Rightarrow> handler option" where
  "quiet fs k = map_option (\<lambda>f j s. (s, f j)) (fs k)"

section \<open>What one turn does to the claimed job\<close>

lemma replace_job_ledger:
  "replace_job j (s\<lparr>ledger := l\<rparr>) = (replace_job j s)\<lparr>ledger := l\<rparr>"
  by (simp add: replace_job_def)

definition finished :: "real \<Rightarrow> job \<Rightarrow> job" where
  "finished t1 j = j\<lparr>job_state := SUCCEEDED, job_error := None, job_updated_at := t1, job_lease := None\<rparr>"

text \<open>What the turn makes of the claimed job: its final row and the ledger.\<close>

definition verdict ::
  "(string \<Rightarrow> (job \<Rightarrow> outcome) option) \<Rightarrow> real \<Rightarrow> real \<Rightarrow> real \<Rightarrow> store \<Rightarrow> job \<Rightarrow> outcome \<times> job" where
  "verdict fs lease t0 t1 s j =
     (let j1 = set_claimed (t0 + lease) t0 j;
          out = (if has_result s (job_id j) then HReturn None
                 else (case fs (job_kind j) of
                         None \<Rightarrow> HRaise (no_handler_message (job_kind j)) | Some f \<Rightarrow> f j1))
      in (out, (case out of HReturn _ \<Rightarrow> finished t1 j | HRaise msg \<Rightarrow> failed_job t1 msg j | HAbort \<Rightarrow> j1)))"

lemma complete_running:
  assumes "pk s" and "lookup s jid = Some j" and "job_state j = RUNNING"
  shows "complete t jid s = (replace_job (finished t j) s, Inr (finished t j))"
  using assms by (simp add: complete_def transition_eq set_state_def finished_def Let_def)

lemma finished_claimed [simp]: "finished t (set_claimed l t0 j) = finished t j"
  by (simp add: finished_def set_claimed_def)

lemma failed_claimed [simp]: "failed_job t e (set_claimed l t0 j) = failed_job t e j"
  by (simp add: failed_job_def set_state_def set_claimed_def)

lemma job_id_finished [simp]: "job_id (finished t j) = job_id j"
  by (simp add: finished_def)

lemma claimed_state [simp]: "job_state (set_claimed l t j) = RUNNING"
  "job_kind (set_claimed l t j) = job_kind j"
  by (simp_all add: set_claimed_def)

lemma has_result_replace [simp]: "has_result (replace_job j s) k = has_result s k"
  by (simp add: has_result_def)

lemma lookup_ledger [simp]: "lookup (s\<lparr>ledger := l\<rparr>) k = lookup s k" "pk (s\<lparr>ledger := l\<rparr>) = pk s"
  by (simp_all add: lookup_def pk_def)

lemma run_once_idle:
  assumes "pk s" and "\<forall>j \<in> set (jobs_table s). \<not> eligible kinds j"
  shows "run_once re hs lease kinds t0 t1 s = (s, Inr None)"
  using claim_none [OF assms] by (simp add: run_once_def)

lemma run_once_claimed:
  assumes pk: "pk s" and "j0 \<in> set (jobs_table s)" and "eligible kinds j0"
  obtains j where "lookup s (job_id j) = Some j" and "eligible kinds j"
    and "run_once re (quiet fs) lease kinds t0 t1 s =
      (case verdict fs lease t0 t1 s j of
         (HAbort, j') \<Rightarrow> (replace_job j' s, Inl WAbort)
       | (HRaise msg, j') \<Rightarrow> (replace_job j' s, Inr (Some j'))
       | (HReturn r, j') \<Rightarrow>
           (replace_job j' (if has_result s (job_id j) then s
              else fst (record_result t1 (job_id j) (case r of None \<Rightarrow> [] | Some d \<Rightarrow> d) s)), Inr (Some j')))"
proof -
  obtain j where j: "lookup s (job_id j) = Some j" "eligible kinds j"
    and c: "claim kinds lease t0 s
      = (replace_job (set_claimed (t0 + lease) t0 j) s, Inr (Some (set_claimed (t0 + lease) t0 j)))"
    by (rule claim_some [OF assms, where secs = lease and now = t0])
  let ?j1 = "set_claimed (t0 + lease) t0 j"
  let ?s1 = "replace_job ?j1 s"
  have pk1: "pk ?s1" using pk by simp
  have l1: "lookup ?s1 (job_id j) = Some ?j1" using j(1) by (simp add: lookup_replace_job)
  have comp: "complete t1 (job_id j) ?s1 = (replace_job (finished t1 j) s, Inr (finished t1 j))"
    using complete_running [OF pk1 l1] by (simp add: replace_twice)
  have compl: "complete t1 (job_id j) (?s1\<lparr>ledger := l\<rparr>)
      = (replace_job (finished t1 j) (s\<lparr>ledger := l\<rparr>), Inr (finished t1 j))" for l
    using complete_running [of "?s1\<lparr>ledger := l\<rparr>" "job_id j" ?j1] pk1 l1
    by (simp add: replace_twice replace_job_ledger)
  have fl: "fail t1 (job_id j) msg ?s1 = (replace_job (failed_job t1 msg j) s, Inr (failed_job t1 msg j))" for msg
    using pk1 l1 by (simp add: fail_eq replace_twice)
  show thesis
  proof (rule that [OF j])
    show "run_once re (quiet fs) lease kinds t0 t1 s =
      (case verdict fs lease t0 t1 s j of
         (HAbort, j') \<Rightarrow> (replace_job j' s, Inl WAbort)
       | (HRaise msg, j') \<Rightarrow> (replace_job j' s, Inr (Some j'))
       | (HReturn r, j') \<Rightarrow>
           (replace_job j' (if has_result s (job_id j) then s
              else fst (record_result t1 (job_id j) (case r of None \<Rightarrow> [] | Some d \<Rightarrow> d) s)), Inr (Some j')))"
    proof (cases "has_result s (job_id j)")
      case True
      then show ?thesis by (simp add: run_once_def c verdict_def as_worker_def comp)
    next
      case False
      show ?thesis
      proof (cases "fs (job_kind j)")
        case None
        with False show ?thesis
          by (simp add: run_once_def c verdict_def as_worker_def fl quiet_def)
      next
        case (Some f)
        with False show ?thesis
          by (cases "f ?j1")
            (simp_all add: run_once_def c verdict_def as_worker_def fl quiet_def record_result_def compl
              Let_def)
      qed
    qed
  qed
qed

end
