(* ===== verification/Worker_Props.thy ===== *)
theory Worker_Props
  imports Workers
begin

text \<open>
  The properties of the worker (\<^verbatim>\<open>src/shoprl/platform/workers.py\<close>): what becomes of a claimed
  job, deduplication through the result ledger, termination of a drain, and the behaviour of a worker
  whose lease was lost while its handler ran.
\<close>

section \<open>Progress of a drain\<close>

definition pending_work :: "string list option \<Rightarrow> store \<Rightarrow> nat" where
  "pending_work kinds s =
     sum_list (map (\<lambda>j. if eligible kinds j then nat (job_max_attempts j - job_attempts j) else 0)
       (jobs_table s))"

text \<open>How the accepted jobs of \<open>s\<close> look later: still waiting, or done with; every other row is
  untouched.\<close>

definition settles :: "string list option \<Rightarrow> store \<Rightarrow> store \<Rightarrow> bool" where
  "settles kinds s s' \<longleftrightarrow> (\<forall>k. case lookup s k of
       None \<Rightarrow> lookup s' k = None
     | Some j \<Rightarrow> if eligible kinds j
         then \<exists>j'. lookup s' k = Some j' \<and>
           (eligible kinds j' \<or> job_state j' = SUCCEEDED \<or> job_state j' = DEAD_LETTER)
         else lookup s' k = Some j)"

lemma not_eligible_done:
  "job_state j = SUCCEEDED \<or> job_state j = DEAD_LETTER \<or> job_state j = RUNNING \<Longrightarrow> \<not> eligible kinds j"
  by (auto simp: eligible_def is_pending_def)

lemma settles_refl: "settles kinds s s"
  by (auto simp: settles_def split: option.splits)

lemma settles_trans:
  assumes "settles kinds s t" and "settles kinds t u" shows "settles kinds s u"
  unfolding settles_def
proof
  fix k
  have 1: "case lookup s k of None \<Rightarrow> lookup t k = None
     | Some j \<Rightarrow> if eligible kinds j
         then \<exists>j'. lookup t k = Some j' \<and>
           (eligible kinds j' \<or> job_state j' = SUCCEEDED \<or> job_state j' = DEAD_LETTER)
         else lookup t k = Some j" using assms(1) by (simp add: settles_def)
  have 2: "case lookup t k of None \<Rightarrow> lookup u k = None
     | Some j \<Rightarrow> if eligible kinds j
         then \<exists>j'. lookup u k = Some j' \<and>
           (eligible kinds j' \<or> job_state j' = SUCCEEDED \<or> job_state j' = DEAD_LETTER)
         else lookup u k = Some j" using assms(2) by (simp add: settles_def)
  show "case lookup s k of None \<Rightarrow> lookup u k = None
     | Some j \<Rightarrow> if eligible kinds j
         then \<exists>j'. lookup u k = Some j' \<and>
           (eligible kinds j' \<or> job_state j' = SUCCEEDED \<or> job_state j' = DEAD_LETTER)
         else lookup u k = Some j"
    using 1 2 by (auto split: option.splits if_splits)
qed

definition never_aborts :: "(string \<Rightarrow> (job \<Rightarrow> outcome) option) \<Rightarrow> bool" where
  "never_aborts fs \<longleftrightarrow> (\<forall>k f j. fs k = Some f \<longrightarrow> f j \<noteq> HAbort)"

lemma verdict_never_aborts:
  "never_aborts fs \<Longrightarrow> fst (verdict fs lease t0 t1 s j) \<noteq> HAbort"
  by (auto simp: verdict_def never_aborts_def Let_def split: option.splits)

lemma failed_fields [simp]:
  "job_attempts (failed_job t e j) = job_attempts j + 1"
  "job_max_attempts (failed_job t e j) = job_max_attempts j"
  "job_kind (failed_job t e j) = job_kind j"
  "job_state (failed_job t e j)
    = (if job_max_attempts j \<le> job_attempts j + 1 then DEAD_LETTER else PENDING)"
  by (simp_all add: failed_job_def set_state_def)

lemma eligible_failed:
  "eligible kinds j \<Longrightarrow> eligible kinds (failed_job t e j) \<longleftrightarrow> job_attempts j + 1 < job_max_attempts j"
  by (auto simp: eligible_def is_pending_def split: option.splits)

lemma store_inv_settled:
  assumes "store_inv s" and "lookup s k = Some j" and "eligible kinds j"
  shows "store_inv (replace_job (failed_job t e j) s)" and "store_inv (replace_job (finished t j) s)"
proof -
  have ok: "job_ok j" by (rule store_inv_lookup [OF assms(1,2)])
  have p: "is_pending j" using assms(3) by (simp add: eligible_def)
  have "job_ok (failed_job t e (set_claimed 0 0 j))"
    by (rule job_ok_failed [OF job_ok_claimed [OF ok p]]) simp
  then show "store_inv (replace_job (failed_job t e j) s)"
    using store_inv_replace [OF assms(1)] by simp
  have "job_ok (finished t j)" using ok p by (auto simp: job_ok_def finished_def is_pending_def)
  then show "store_inv (replace_job (finished t j) s)" by (rule store_inv_replace [OF assms(1)])
qed

lemma replace_settles:
  assumes "lookup s (job_id j) = Some j" and "eligible kinds j" and "job_id j' = job_id j"
    and "eligible kinds j' \<or> job_state j' = SUCCEEDED \<or> job_state j' = DEAD_LETTER"
    and "\<And>k. lookup t k = lookup (replace_job j' s) k"
  shows "settles kinds s t"
  using assms by (auto simp: settles_def lookup_replace_job split: option.splits)

lemma pending_work_replace:
  assumes "pk s" and "lookup s (job_id j) = Some j" and "job_id j' = job_id j"
  shows "pending_work kinds (replace_job j' s)
      + (if eligible kinds j then nat (job_max_attempts j - job_attempts j) else 0)
    = pending_work kinds s
      + (if eligible kinds j' then nat (job_max_attempts j' - job_attempts j') else 0)"
proof -
  have "j \<in> set (jobs_table s)" using assms(2) by (auto dest: lookup_SomeD)
  then show ?thesis
    using sum_list_update_one [of job_id "jobs_table s" j
        "\<lambda>j. if eligible kinds j then nat (job_max_attempts j - job_attempts j) else 0" j'] assms(1,3)
    by (simp add: pending_work_def replace_job_def pk_def)
qed

text \<open>One turn of the worker, seen from outside: the queue was empty, or one job went a step.\<close>

lemma run_once_progress:
  assumes inv: "store_inv s" and na: "never_aborts fs"
    and el: "\<exists>j \<in> set (jobs_table s). eligible kinds j"
  obtains s' j' where "run_once re (quiet fs) lease kinds t0 t1 s = (s', Inr (Some j'))"
    and "store_inv s'" and "settles kinds s s'" and "pending_work kinds s' < pending_work kinds s"
proof -
  note pk = store_inv_pk [OF inv]
  from el obtain j0 where "j0 \<in> set (jobs_table s)" "eligible kinds j0" by blast
  then obtain j where j: "lookup s (job_id j) = Some j" "eligible kinds j"
    and r: "run_once re (quiet fs) lease kinds t0 t1 s =
      (case verdict fs lease t0 t1 s j of
         (HAbort, j') \<Rightarrow> (replace_job j' s, Inl WAbort)
       | (HRaise msg, j') \<Rightarrow> (replace_job j' s, Inr (Some j'))
       | (HReturn r, j') \<Rightarrow>
           (replace_job j' (if has_result s (job_id j) then s
              else fst (record_result t1 (job_id j) (case r of None \<Rightarrow> [] | Some d \<Rightarrow> d) s)), Inr (Some j')))"
    by (rule run_once_claimed [OF pk])
  have "job_ok j" by (rule store_inv_lookup [OF inv j(1)])
  then have att: "job_attempts j < job_max_attempts j"
    using j(2) by (simp add: job_ok_def eligible_def is_pending_def)
  show thesis
  proof (cases "fst (verdict fs lease t0 t1 s j)")
    case HAbort
    with verdict_never_aborts [OF na] show thesis by blast
  next
    case (HRaise msg)
    then have v: "verdict fs lease t0 t1 s j = (HRaise msg, failed_job t1 msg j)"
      by (auto simp: verdict_def Let_def)
    have "pending_work kinds (replace_job (failed_job t1 msg j) s) < pending_work kinds s"
      using pending_work_replace [OF pk j(1), of "failed_job t1 msg j" kinds] j(2) att
      by (auto simp: eligible_failed split: if_splits)
    moreover have "settles kinds s (replace_job (failed_job t1 msg j) s)"
      using att j(2) by (intro replace_settles [OF j]) (auto simp: eligible_failed)
    ultimately show thesis
      using that r v store_inv_settled(1) [OF inv j] by simp
  next
    case (HReturn res)
    then have v: "verdict fs lease t0 t1 s j = (HReturn res, finished t1 j)"
      by (auto simp: verdict_def Let_def)
    let ?s' = "replace_job (finished t1 j) (if has_result s (job_id j) then s
              else fst (record_result t1 (job_id j) (case res of None \<Rightarrow> [] | Some d \<Rightarrow> d) s))"
    have tab: "jobs_table ?s' = jobs_table (replace_job (finished t1 j) s)"
      by (simp add: record_result_def replace_job_def)
    then have look: "lookup ?s' k = lookup (replace_job (finished t1 j) s) k" for k
      by (simp add: lookup_def)
    have ne: "\<not> eligible kinds (finished t1 j)" by (rule not_eligible_done) (simp add: finished_def)
    have "pending_work kinds ?s' = pending_work kinds (replace_job (finished t1 j) s)"
      by (simp only: pending_work_def tab)
    then have "pending_work kinds ?s' < pending_work kinds s"
      using pending_work_replace [OF pk j(1), of "finished t1 j" kinds] j(2) att ne
      by (simp split: if_splits)
    moreover have "settles kinds s ?s'"
      using look by (intro replace_settles [OF j, of "finished t1 j"]) (auto simp: finished_def)
    moreover have "store_inv ?s'"
      using store_inv_settled(2) [OF inv j, of t1] tab by (simp add: store_inv_def pk_def)
    ultimately show thesis using that r v by simp
  qed
qed

section \<open>The properties\<close>

lemma ledger_record: "ledger (fst (record_result t k r s)) = insert_or_ignore fst (k, r, t) (ledger s)"
  by (simp add: record_result_def)

lemma get_result_recorded:
  "\<not> has_result s k \<Longrightarrow> get_result (fst (record_result t k r s)) k = Some r"
  by (simp add: get_result_def has_result_def record_result_def insert_or_ignore_def row_simps)

lemma lookup_record [simp]: "lookup (fst (record_result t k r s)) i = lookup s i"
  by (simp add: record_result_def)

lemma get_result_replace [simp]: "get_result (replace_job j s) k = get_result s k"
  by (simp add: get_result_def)

text \<open>C12. One turn of a worker whose handlers leave the database alone takes the oldest accepted
  job, if there is one, all the way: a job with a recorded result is completed without running its
  handler, a job without a handler and a job whose handler raises take one failed attempt, a job
  whose handler returns is SUCCEEDED with its result in the ledger, and only an abort of the process
  leaves it RUNNING, then under a lease the reaper finds; nothing else changes.\<close>

theorem worker_turn:
  assumes "reachable s"
  shows "case run_once re (quiet fs) lease kinds t0 t1 s of
      (s', Inr None) \<Rightarrow> s' = s \<and> filter (eligible kinds) (jobs_table s) = []
    | (s', Inr (Some j')) \<Rightarrow> \<exists>j. lookup s (job_id j) = Some j \<and> eligible kinds j \<and>
        (\<forall>k. lookup s' k = (if k = job_id j then Some j' else lookup s k)) \<and>
        (if has_result s (job_id j) then j' = finished t1 j \<and> ledger s' = ledger s
         else (case fs (job_kind j) of
             None \<Rightarrow> j' = failed_job t1 (no_handler_message (job_kind j)) j \<and> ledger s' = ledger s
           | Some f \<Rightarrow> (case f (set_claimed (t0 + lease) t0 j) of
               HReturn r \<Rightarrow> j' = finished t1 j \<and>
                 get_result s' (job_id j) = Some (case r of None \<Rightarrow> [] | Some d \<Rightarrow> d)
             | HRaise msg \<Rightarrow> j' = failed_job t1 msg j \<and> ledger s' = ledger s
             | HAbort \<Rightarrow> False)))
    | (s', Inl WAbort) \<Rightarrow> \<exists>j j'. lookup s (job_id j) = Some j \<and> eligible kinds j \<and>
        lookup s' (job_id j) = Some j' \<and> job_state j' = RUNNING \<and>
        lease_expired (t0 + lease + 1) j'
    | (s', Inl (WStore e)) \<Rightarrow> False"
proof -
  have pk: "pk s" using assms by (simp add: reachable_inv store_inv_pk)
  show ?thesis
  proof (cases "\<exists>j \<in> set (jobs_table s). eligible kinds j")
    case False
    with pk show ?thesis by (simp add: run_once_idle filter_empty_conv)
  next
    case True
    then obtain j0 where "j0 \<in> set (jobs_table s)" "eligible kinds j0" by blast
    then obtain j where j: "lookup s (job_id j) = Some j" "eligible kinds j"
      and r: "run_once re (quiet fs) lease kinds t0 t1 s =
        (case verdict fs lease t0 t1 s j of
           (HAbort, j') \<Rightarrow> (replace_job j' s, Inl WAbort)
         | (HRaise msg, j') \<Rightarrow> (replace_job j' s, Inr (Some j'))
         | (HReturn r, j') \<Rightarrow>
             (replace_job j' (if has_result s (job_id j) then s
                else fst (record_result t1 (job_id j) (case r of None \<Rightarrow> [] | Some d \<Rightarrow> d) s)), Inr (Some j')))"
      by (rule run_once_claimed [OF pk])
    show ?thesis
    proof (cases "fst (verdict fs lease t0 t1 s j)")
      case HAbort
      then have v: "verdict fs lease t0 t1 s j = (HAbort, set_claimed (t0 + lease) t0 j)"
        by (auto simp: verdict_def Let_def)
      show ?thesis unfolding r v
        using j by (simp add: lookup_replace_job)
          (intro exI [of _ j], simp add: lease_expired_def is_running_def set_claimed_def)
    next
      case (HRaise msg)
      then have v: "verdict fs lease t0 t1 s j = (HRaise msg, failed_job t1 msg j)"
        by (auto simp: verdict_def Let_def)
      show ?thesis unfolding r v prod.case outcome.case sum.case option.case
        using j HRaise
        by (intro exI [of _ j])
          (auto simp: lookup_replace_job verdict_def Let_def split: option.splits if_splits)
    next
      case (HReturn res)
      then have v: "verdict fs lease t0 t1 s j = (HReturn res, finished t1 j)"
        by (auto simp: verdict_def Let_def)
      show ?thesis unfolding r v prod.case outcome.case sum.case option.case
        using j HReturn
        by (intro exI [of _ j])
          (auto simp: lookup_replace_job verdict_def Let_def get_result_recorded
            split: option.splits if_splits)
    qed
  qed
qed

text \<open>C13. A job that already has a recorded result is completed without running any handler: two
  workers with entirely different handlers take the same turn, and the ledger is untouched.\<close>

theorem recorded_job_not_rerun:
  assumes "reachable s" and "claim kinds lease t0 s = (s1, Inr (Some job))"
    and "has_result s (job_id job)"
  shows "run_once re hs lease kinds t0 t1 s = run_once re' hs' lease kinds t0 t1 s \<and>
    (\<exists>s' j'. run_once re hs lease kinds t0 t1 s = (s', Inr (Some j')) \<and> job_id j' = job_id job \<and>
      job_state j' = SUCCEEDED \<and> ledger s' = ledger s)"
proof -
  have pk: "pk s" using assms(1) by (simp add: reachable_inv store_inv_pk)
  obtain j where j: "lookup s (job_id j) = Some j"
    and c: "s1 = replace_job (set_claimed (t0 + lease) t0 j) s" "job = set_claimed (t0 + lease) t0 j"
    by (rule claim_cases [OF pk, of kinds lease t0]) (use assms(2) in auto)
  have "has_result s1 (job_id job)" using assms(3) c by simp
  then have r: "run_once re hs lease kinds t0 t1 s = as_worker (complete t1 (job_id job)) s1" for re hs
    by (simp add: run_once_def assms(2))
  have "lookup s1 (job_id job) = Some job" using j c by (simp add: lookup_replace_job)
  then have "complete t1 (job_id job) s1 = (replace_job (finished t1 job) s1, Inr (finished t1 job))"
    using pk c by (intro complete_running) simp_all
  then show ?thesis unfolding r by (simp add: as_worker_def finished_def c)
qed

lemma drain_enough:
  assumes "store_inv s" and "never_aborts fs" and "pending_work kinds s < fuel"
  shows "\<exists>s'. run_forever fuel re (quiet fs) lease kinds (\<lambda>_. False) clock True n s = (s', Inr Drained) \<and>
    settles kinds s s' \<and> filter (eligible kinds) (jobs_table s') = [] \<and> store_inv s'"
  using assms
proof (induction fuel arbitrary: s n)
  case 0
  then show ?case by simp
next
  case (Suc fuel)
  show ?case
  proof (cases "\<exists>j \<in> set (jobs_table s). eligible kinds j")
    case False
    then show ?thesis
      using Suc.prems(1) store_inv_pk [OF Suc.prems(1)]
      by (simp add: run_once_idle settles_refl filter_empty_conv)
  next
    case True
    obtain s1 j1 where r: "run_once re (quiet fs) lease kinds (fst (clock n)) (snd (clock n)) s
        = (s1, Inr (Some j1))"
      and s1: "store_inv s1" "settles kinds s s1" "pending_work kinds s1 < pending_work kinds s"
      by (rule run_once_progress [OF Suc.prems(1,2) True])
    have "pending_work kinds s1 < fuel" using s1(3) Suc.prems(3) by simp
    from Suc.IH [OF s1(1) Suc.prems(2) this, of "Suc n"] r s1(2) show ?thesis
      by (auto intro: settles_trans)
  qed
qed

text \<open>A worker started with \<open>drain_and_exit\<close> terminates: with handlers that leave the
  database alone and do not abort the process, as many turns as there are attempts left, plus one,
  are enough; then no accepted job is pending, each of them ended SUCCEEDED or DEAD_LETTER, and every
  other job is as before.\<close>

theorem drain_terminates:
  assumes "reachable s" and "never_aborts fs" and "pending_work kinds s < fuel"
  shows "\<exists>s'. run_forever fuel re (quiet fs) lease kinds (\<lambda>_. False) clock True n s = (s', Inr Drained) \<and>
    (\<forall>k. case lookup s k of
       None \<Rightarrow> lookup s' k = None
     | Some j \<Rightarrow> (if eligible kinds j
         then \<exists>j'. lookup s' k = Some j' \<and> (job_state j' = SUCCEEDED \<or> job_state j' = DEAD_LETTER)
         else lookup s' k = Some j))"
proof -
  obtain s' where s': "run_forever fuel re (quiet fs) lease kinds (\<lambda>_. False) clock True n s = (s', Inr Drained)"
    "settles kinds s s'" "filter (eligible kinds) (jobs_table s') = []"
    using drain_enough [OF reachable_inv [OF assms(1)] assms(2,3)] by blast
  have no: "lookup s' k = Some j' \<Longrightarrow> \<not> eligible kinds j'" for k j'
    using s'(3) by (auto simp: filter_empty_conv dest: lookup_SomeD)
  have "case lookup s k of
       None \<Rightarrow> lookup s' k = None
     | Some j \<Rightarrow> (if eligible kinds j
         then \<exists>j'. lookup s' k = Some j' \<and> (job_state j' = SUCCEEDED \<or> job_state j' = DEAD_LETTER)
         else lookup s' k = Some j)" for k
    using s'(2) [unfolded settles_def, rule_format, of k] no [of k]
    by (cases "lookup s k") (auto split: if_splits)
  with s'(1) show ?thesis by (intro exI [of _ s'] conjI allI)
qed

text \<open>A worker whose job was settled by somebody else while its handler ran (its lease
  expired, the job was reaped, claimed again and finished, or it was cancelled) cannot change the
  job any more, but the store error escapes from \<open>run_once\<close>: the refused completion is turned into
  a \<open>fail\<close>, which is refused as well.\<close>

theorem lost_job_raises:
  assumes "claim kinds lease t0 s = (s1, Inr (Some job))" and "\<not> has_result s1 (job_id job)"
    and "handlers (job_kind job) = Some h" and "h job s1 = (s2, HReturn r)" and "reachable s2"
    and "lookup s2 (job_id job) = Some j2" and "job_state j2 \<noteq> RUNNING"
  shows "\<exists>s3. run_once re handlers lease kinds t0 t1 s
      = (s3, Inl (WStore (InvalidTransition (job_state j2) FAILED))) \<and>
    jobs_table s3 = jobs_table s2"
proof -
  let ?s3 = "fst (record_result t1 (job_id job) (case r of None \<Rightarrow> [] | Some d \<Rightarrow> d) s2)"
  have pk: "pk ?s3" using assms(5) by (simp add: reachable_inv store_inv_pk record_result_def)
  have l: "lookup ?s3 (job_id job) = Some j2" using assms(6) by simp
  have nc: "\<not> can_transition (job_state j2) SUCCEEDED"
    using assms(7) succeeded_only_from_running by blast
  have c: "complete t1 (job_id job) ?s3 = (?s3, Inl (InvalidTransition (job_state j2) SUCCEEDED))"
    using pk l nc by (simp add: complete_def transition_eq)
  have f: "fail t1 (job_id job) msg ?s3 = (?s3, Inl (InvalidTransition (job_state j2) FAILED))" for msg
    using pk l assms(7) by (simp add: fail_eq)
  have "run_once re handlers lease kinds t0 t1 s
      = (?s3, Inl (WStore (InvalidTransition (job_state j2) FAILED)))"
    using assms(1-4) c f by (simp add: run_once_def as_worker_def Let_def)
  then show ?thesis by (simp add: record_result_def)
qed

section \<open>Witnesses\<close>

definition sample_handlers :: "string \<Rightarrow> (job \<Rightarrow> outcome) option" where
  "sample_handlers k = (if k = ''train'' then Some echo_handler else None)"

lemma sample_never_aborts: "never_aborts sample_handlers"
  by (auto simp: never_aborts_def sample_handlers_def echo_handler_def split: if_splits)

lemma sample_claim:
  "claim None 30 2 sample_store
    = (replace_job (set_claimed 32 2 (new_job ''b'' 0 ''train'' [] 3 ''gpu'' 5)) sample_store,
       Inr (Some (set_claimed 32 2 (new_job ''b'' 0 ''train'' [] 3 ''gpu'' 5))))"
  by (simp add: claim_def claim_query_def sample_rows is_pending_def set_claimed_def new_job_def
      sort_key_def try_claim_def update_job_def rowcount_def update_rows_def get_job_def lookup_def
      row_simps replace_job_def numeral_eq_Suc)

lemma worker_turn_witness:
  "case run_once (\<lambda>_. ''e'') (quiet sample_handlers) 30 None 2 3 sample_store of
     (s', Inl (WStore e)) \<Rightarrow> False | _ \<Rightarrow> True"
  using worker_turn [OF reachable_sample, where re = "\<lambda>_. ''e''" and fs = sample_handlers
      and lease = 30 and kinds = None and ?t0.0 = 2 and ?t1.0 = 3]
  by (auto split: prod.splits sum.splits option.splits worker_exc.splits)

lemma drain_terminates_example:
  "\<exists>s'. run_forever 4 (\<lambda>_. ''e'') (quiet sample_handlers) 30 None (\<lambda>_. False) (\<lambda>_. (2, 3)) True 0
      sample_store = (s', Inr Drained)"
proof -
  have "pending_work None sample_store < 4"
    by (simp add: pending_work_def sample_rows eligible_def is_pending_def set_claimed_def new_job_def)
  from drain_terminates [OF reachable_sample sample_never_aborts this] show ?thesis by blast
qed

definition recorded_store :: store where
  "recorded_store = fst (record_result 1 ''b'' [] sample_store)"

lemma reachable_recorded: "reachable recorded_store"
  unfolding recorded_store_def by (rule reachable_step [OF reachable_sample step_record])

lemma claim_recorded:
  "claim None 30 2 recorded_store
    = (replace_job (set_claimed 32 2 (new_job ''b'' 0 ''train'' [] 3 ''gpu'' 5)) recorded_store,
       Inr (Some (set_claimed 32 2 (new_job ''b'' 0 ''train'' [] 3 ''gpu'' 5))))"
  by (simp add: recorded_store_def record_result_def claim_def claim_query_def sample_rows
      is_pending_def set_claimed_def new_job_def
      sort_key_def try_claim_def update_job_def rowcount_def update_rows_def get_job_def lookup_def
      row_simps replace_job_def numeral_eq_Suc)

lemma recorded_job_not_rerun_witness:
  "run_once (\<lambda>_. ''e'') (\<lambda>_. None) 30 None 2 3 recorded_store
    = run_once (\<lambda>_. ''f'') (quiet sample_handlers) 30 None 2 3 recorded_store"
proof -
  have "has_result recorded_store
      (job_id (set_claimed 32 2 (new_job ''b'' 0 ''train'' [] 3 ''gpu'' 5)))"
    by (simp add: recorded_store_def record_result_def insert_or_ignore_def sample_rows row_simps
        has_result_def)
  from recorded_job_not_rerun [OF reachable_recorded claim_recorded this] show ?thesis by blast
qed

definition cancelling_handler :: handler where
  "cancelling_handler j s = (fst (transition 5 (job_id j) CANCELLED None False s), HReturn None)"

lemma transition_lookup:
  assumes "pk s" and "lookup s jid = Some j" and "can_transition (job_state j) to"
  shows "lookup (fst (transition now jid to err False s)) jid
    = Some (set_state to (job_attempts j) err now j)"
  using assms by (auto simp: transition_eq Let_def lookup_replace_job dest: lookup_SomeD)

lemma lost_job_raises_example:
  "\<exists>s3. run_once (\<lambda>_. ''e'') (\<lambda>_. Some cancelling_handler) 30 None 2 6 sample_store
    = (s3, Inl (WStore (InvalidTransition CANCELLED FAILED)))"
proof -
  let ?b = "set_claimed 32 2 (new_job ''b'' 0 ''train'' [] 3 ''gpu'' 5)"
  let ?s1 = "replace_job ?b sample_store"
  have s1: "?s1 = fst (claim None 30 2 sample_store)" by (simp add: sample_claim)
  have r1: "reachable ?s1" unfolding s1 by (rule reachable_step [OF reachable_sample step_claim])
  have r2: "reachable (fst (cancelling_handler ?b ?s1))"
    unfolding cancelling_handler_def fst_conv by (rule reachable_step [OF r1 step_move]) simp
  have l1: "lookup ?s1 ''b'' = Some ?b" by (simp add: lookup_replace_job sample_lookup)
  have l2: "lookup (fst (cancelling_handler ?b ?s1)) (job_id ?b) = Some (set_state CANCELLED 0 None 5 ?b)"
    unfolding cancelling_handler_def fst_conv
    using transition_lookup [OF store_inv_pk [OF reachable_inv [OF r1]] l1, of CANCELLED 5 None]
    by (simp add: new_job_def set_claimed_def)
  have nr: "\<not> has_result ?s1 (job_id ?b)" by (simp add: has_result_def sample_rows row_simps)
  have h: "cancelling_handler ?b ?s1 = (fst (cancelling_handler ?b ?s1), HReturn None)"
    by (simp add: cancelling_handler_def)
  have hs: "(\<lambda>_. Some cancelling_handler) (job_kind ?b) = Some cancelling_handler" by (rule refl)
  have st: "job_state (set_state CANCELLED 0 None 5 ?b) = CANCELLED" by (simp add: set_state_def)
  show ?thesis
    using lost_job_raises [where handlers = "\<lambda>_. Some cancelling_handler" and re = "\<lambda>_. ''e''"
        and ?t1.0 = 6, OF sample_claim nr hs h r2 l2]
    unfolding st by blast
qed

end
