(* ===== verification/Worker_Pool.thy ===== *)
theory Worker_Pool
  imports Worker_Props
begin

text \<open>
  \<open>run_local_pool\<close> of \<^verbatim>\<open>src/shoprl/platform/workers.py\<close>: several worker processes on one job
  database.  A worker is the program of \<open>_pool_worker_entry\<close> (\<open>run_forever\<close> with
  \<open>drain_and_exit\<close>) cut at its database calls; the query of \<open>claim\<close> and its guarded updates are
  separate steps, so that another worker can win a candidate in between.  A schedule says which
  worker moves next and what the clock reads; every interleaving is a schedule.  The handlers write to
  a store of their own, the world.
\<close>

section \<open>Workers and their steps\<close>

datatype phase =
    Asking
  | Trying real "string list"
  | Claimed string
  | Holding job
  | Executing job
  | Recording job dict
  | Completing job
  | Closing job
  | Failing job string
  | Died job
  | Crashed store_error
  | Gone

record 'w pool_env =
  pe_repr :: "store_error \<Rightarrow> string"
  pe_handlers :: "string \<Rightarrow> (job \<Rightarrow> 'w \<Rightarrow> 'w \<times> outcome) option"
  pe_lease :: real

text \<open>One round of the loop in \<open>claim\<close>: the clock is read once, before the first query.\<close>

definition query_step :: "real \<Rightarrow> store \<Rightarrow> phase" where
  "query_step t s = (case claim_query None s of [] \<Rightarrow> Gone | ids \<Rightarrow> Trying t ids)"

fun worker_step :: "'w pool_env \<Rightarrow> real \<Rightarrow> phase \<Rightarrow> store \<Rightarrow> 'w \<Rightarrow> phase \<times> store \<times> 'w" where
  "worker_step env now Asking s w = (query_step now s, s, w)"
| "worker_step env now (Trying t []) s w = (query_step t s, s, w)"
| "worker_step env now (Trying t (jid # ids)) s w =
     (case try_claim (t + pe_lease env) t jid s of
        (s', True) \<Rightarrow> (Claimed jid, s', w) | (s', False) \<Rightarrow> (Trying t ids, s', w))"
| "worker_step env now (Claimed jid) s w =
     (case get_job jid s of (s', Inl e) \<Rightarrow> (Crashed e, s', w) | (s', Inr j) \<Rightarrow> (Holding j, s', w))"
| "worker_step env now (Holding j) s w =
     (if has_result s (job_id j) then (Closing j, s, w) else (Executing j, s, w))"
| "worker_step env now (Executing j) s w =
     (case pe_handlers env (job_kind j) of
        None \<Rightarrow> (Failing j (no_handler_message (job_kind j)), s, w)
      | Some h \<Rightarrow> (case h j w of
          (w', HReturn r) \<Rightarrow> (Recording j (case r of None \<Rightarrow> [] | Some d \<Rightarrow> d), s, w')
        | (w', HRaise msg) \<Rightarrow> (Failing j msg, s, w')
        | (w', HAbort) \<Rightarrow> (Died j, s, w')))"
| "worker_step env now (Recording j d) s w = (Completing j, fst (record_result now (job_id j) d s), w)"
| "worker_step env now (Completing j) s w =
     (case complete now (job_id j) s of
        (s', Inl e) \<Rightarrow> (Failing j (pe_repr env e), s', w) | (s', Inr _) \<Rightarrow> (Asking, s', w))"
| "worker_step env now (Closing j) s w =
     (case complete now (job_id j) s of (s', Inl e) \<Rightarrow> (Crashed e, s', w) | (s', Inr _) \<Rightarrow> (Asking, s', w))"
| "worker_step env now (Failing j msg) s w =
     (case fail now (job_id j) msg s of (s', Inl e) \<Rightarrow> (Crashed e, s', w) | (s', Inr _) \<Rightarrow> (Asking, s', w))"
| "worker_step env now (Died j) s w = (Died j, s, w)"
| "worker_step env now (Crashed e) s w = (Crashed e, s, w)"
| "worker_step env now Gone s w = (Gone, s, w)"

section \<open>The pool\<close>

record 'w pool =
  pl_store :: store
  pl_world :: 'w
  pl_workers :: "phase list"

definition start_pool :: "nat \<Rightarrow> store \<Rightarrow> 'w \<Rightarrow> 'w pool" where
  "start_pool n s w = \<lparr>pl_store = s, pl_world = w, pl_workers = replicate n Asking\<rparr>"

definition move :: "'w pool_env \<Rightarrow> nat \<times> real \<Rightarrow> 'w pool \<Rightarrow> 'w pool" where
  "move env turn p =
     (let (i, now) = turn in
      if i < length (pl_workers p)
      then (let (ph, s, w) = worker_step env now (pl_workers p ! i) (pl_store p) (pl_world p)
            in \<lparr>pl_store = s, pl_world = w, pl_workers = (pl_workers p)[i := ph]\<rparr>)
      else p)"

definition run_pool :: "'w pool_env \<Rightarrow> (nat \<times> real) list \<Rightarrow> 'w pool \<Rightarrow> 'w pool" where
  "run_pool env sched p = fold (move env) sched p"

text \<open>\<open>join\<close>: every process has left its loop.\<close>

definition joined :: "'w pool \<Rightarrow> bool" where
  "joined p \<longleftrightarrow> list_all (\<lambda>ph. ph = Gone) (pl_workers p)"

fun holds :: "phase \<Rightarrow> string option" where
  "holds (Claimed jid) = Some jid"
| "holds (Holding j) = Some (job_id j)"
| "holds (Executing j) = Some (job_id j)"
| "holds (Recording j d) = Some (job_id j)"
| "holds (Completing j) = Some (job_id j)"
| "holds (Closing j) = Some (job_id j)"
| "holds (Failing j msg) = Some (job_id j)"
| "holds (Died j) = Some (job_id j)"
| "holds ph = None"

fun job_of :: "phase \<Rightarrow> job option" where
  "job_of (Holding j) = Some j"
| "job_of (Executing j) = Some j"
| "job_of (Recording j d) = Some j"
| "job_of (Completing j) = Some j"
| "job_of (Closing j) = Some j"
| "job_of (Failing j msg) = Some j"
| "job_of (Died j) = Some j"
| "job_of ph = None"

fun crashed :: "phase \<Rightarrow> bool" where
  "crashed (Crashed e) = True"
| "crashed ph = False"

text \<open>What a worker knows about the database: the job it holds is RUNNING, and its copy of the row
  is up to date.\<close>

definition phase_ok :: "store \<Rightarrow> phase \<Rightarrow> bool" where
  "phase_ok s ph \<longleftrightarrow> \<not> crashed ph \<and>
     (\<forall>k. holds ph = Some k \<longrightarrow> (\<exists>j. lookup s k = Some j \<and> job_state j = RUNNING \<and>
        (case job_of ph of None \<Rightarrow> True | Some x \<Rightarrow> x = j)))"

section \<open>The three kinds of steps\<close>

inductive step_kind :: "store \<Rightarrow> phase \<Rightarrow> store \<Rightarrow> phase \<Rightarrow> bool" where
  quiet_step: "jobs_table s' = jobs_table s \<Longrightarrow> holds ph' = holds ph \<Longrightarrow> phase_ok s ph'
    \<Longrightarrow> ph' = Gone \<longrightarrow> ph = Gone \<or> (\<forall>j \<in> set (jobs_table s). \<not> is_pending j) \<Longrightarrow> step_kind s ph s' ph'"
| claim_step: "lookup s jid = Some j \<Longrightarrow> is_pending j
    \<Longrightarrow> step_kind s (Trying t (jid # ids)) (replace_job (set_claimed lease t j) s) (Claimed jid)"
| release_step: "job_of ph = Some j \<Longrightarrow> lookup s (job_id j) = Some j \<Longrightarrow> job_state j = RUNNING
    \<Longrightarrow> j' = finished now j \<or> j' = failed_job now msg j
    \<Longrightarrow> step_kind s ph (replace_job j' s) Asking"

lemma query_step_kind:
  assumes "pk s" and "holds ph = None"
  shows "step_kind s ph s (query_step t s)"
proof (cases "claim_query None s")
  case Nil
  have "\<forall>j \<in> set (jobs_table s). \<not> is_pending j"
    using best_candidate [OF assms(1), where f = job_created_at and P = is_pending] Nil
    by (simp add: claim_query_def)
  with Nil assms(2) show ?thesis
    by (auto simp: query_step_def phase_ok_def intro: quiet_step)
next
  case (Cons jid ids)
  with assms(2) show ?thesis
    by (auto simp: query_step_def phase_ok_def intro: quiet_step)
qed

lemma worker_step_kind:
  assumes pk: "pk s" and ok: "phase_ok s ph" and st: "worker_step env now ph s w = (ph', s', w')"
  shows "step_kind s ph s' ph'"
proof -
  show ?thesis
  proof (cases ph)
    case Asking
    with st query_step_kind [OF pk, of ph now] show ?thesis by auto
  next
    case (Trying t ids)
    show ?thesis
    proof (cases ids)
      case Nil
      with st Trying query_step_kind [OF pk, of ph t] show ?thesis by auto
    next
      case (Cons jid rest)
      have "step_kind s (Trying t (jid # rest)) s (Trying t rest)"
        by (rule quiet_step) (simp_all add: phase_ok_def)
      with Cons st Trying pk show ?thesis
        by (cases "lookup s jid") (auto simp: try_claim_eq split: if_splits intro: claim_step)
    qed
  next
    case (Claimed jid)
    have "job_id j = jid" if "lookup s jid = Some j" for j using that by (auto dest: lookup_SomeD)
    with Claimed st ok show ?thesis by (auto simp: phase_ok_def lookup_self intro!: quiet_step)
  next
    case (Holding j)
    with st ok show ?thesis by (auto simp: phase_ok_def split: if_splits intro!: quiet_step)
  next
    case (Executing j)
    with st ok show ?thesis
      by (auto simp: phase_ok_def split: option.splits prod.splits outcome.splits intro!: quiet_step)
  next
    case (Recording j d)
    with st ok show ?thesis by (auto simp: phase_ok_def record_result_def intro!: quiet_step)
  next
    case (Completing j)
    then have j: "lookup s (job_id j) = Some j" "job_state j = RUNNING" using ok by (auto simp: phase_ok_def)
    with st Completing pk show ?thesis by (auto simp: complete_running intro: release_step)
  next
    case (Closing j)
    then have j: "lookup s (job_id j) = Some j" "job_state j = RUNNING" using ok by (auto simp: phase_ok_def)
    with st Closing pk show ?thesis by (auto simp: complete_running intro: release_step)
  next
    case (Failing j msg)
    then have j: "lookup s (job_id j) = Some j" "job_state j = RUNNING" using ok by (auto simp: phase_ok_def)
    with st Failing pk show ?thesis by (auto simp: fail_eq intro: release_step)
  next
    case (Died j)
    with st ok show ?thesis by (auto intro!: quiet_step)
  next
    case (Crashed e)
    with ok show ?thesis by (simp add: phase_ok_def)
  next
    case Gone
    with st ok show ?thesis by (auto intro: quiet_step)
  qed
qed

end
