(* ===== verification/Pool_Props.thy ===== *)
theory Pool_Props
  imports Worker_Pool
begin

text \<open>
  What holds of a pool of workers under every interleaving: no job has two workers, no store error
  escapes, no other job is touched, and the pool comes to an end.
\<close>

section \<open>The invariant\<close>

definition exclusive :: "phase list \<Rightarrow> bool" where
  "exclusive ws \<longleftrightarrow> (\<forall>i < length ws. \<forall>k < length ws. \<forall>jid.
     holds (ws ! i) = Some jid \<longrightarrow> holds (ws ! k) = Some jid \<longrightarrow> i = k)"

definition held :: "phase list \<Rightarrow> string \<Rightarrow> bool" where
  "held ws jid \<longleftrightarrow> (\<exists>ph \<in> set ws. holds ph = Some jid)"

text \<open>The rows of the jobs that were waiting when the pool started, and of the others.\<close>

definition accounted :: "store \<Rightarrow> store \<Rightarrow> phase list \<Rightarrow> bool" where
  "accounted s0 s ws \<longleftrightarrow> (\<forall>k. case lookup s0 k of
       None \<Rightarrow> lookup s k = None \<and> \<not> held ws k
     | Some j \<Rightarrow> if is_pending j
         then \<exists>j'. lookup s k = Some j' \<and>
           (is_pending j' \<or> job_state j' = SUCCEEDED \<or> job_state j' = DEAD_LETTER \<or> held ws k)
         else lookup s k = Some j \<and> \<not> held ws k)"

definition pool_inv :: "store \<Rightarrow> 'w pool \<Rightarrow> bool" where
  "pool_inv s0 p \<longleftrightarrow>
     store_inv (pl_store p) \<and> (\<forall>ph \<in> set (pl_workers p). phase_ok (pl_store p) ph) \<and>
     exclusive (pl_workers p) \<and> accounted s0 (pl_store p) (pl_workers p) \<and>
     (pl_workers p \<noteq> [] \<and> joined p \<longrightarrow> (\<forall>j \<in> set (jobs_table (pl_store p)). \<not> is_pending j))"

lemma accounted_waiting:
  "accounted s0 s ws \<Longrightarrow> lookup s0 k = Some j \<Longrightarrow> is_pending j \<Longrightarrow>
     \<exists>j'. lookup s k = Some j' \<and>
       (is_pending j' \<or> job_state j' = SUCCEEDED \<or> job_state j' = DEAD_LETTER \<or> held ws k)"
  unfolding accounted_def by (drule spec [of _ k]) simp

lemma in_set_update: "ph \<in> set (ws[i := x]) \<Longrightarrow> i < length ws \<Longrightarrow> ph = x \<or> (\<exists>k < length ws. k \<noteq> i \<and> ph = ws ! k)"
  by (auto simp: in_set_conv_nth nth_list_update split: if_splits)

lemma held_nth: "held ws jid \<longleftrightarrow> (\<exists>k < length ws. holds (ws ! k) = Some jid)"
  unfolding held_def by (metis in_set_conv_nth)

lemma held_split: "i < length ws \<Longrightarrow>
    held ws jid \<longleftrightarrow> holds (ws ! i) = Some jid \<or> (\<exists>k < length ws. k \<noteq> i \<and> holds (ws ! k) = Some jid)"
  unfolding held_nth by blast

lemma held_update: "i < length ws \<Longrightarrow>
    held (ws[i := x]) jid \<longleftrightarrow> holds x = Some jid \<or> (\<exists>k < length ws. k \<noteq> i \<and> holds (ws ! k) = Some jid)"
  unfolding held_nth by (simp add: nth_list_update) metis

lemma held_same: "i < length ws \<Longrightarrow> holds x = holds (ws ! i) \<Longrightarrow> held (ws[i := x]) jid = held ws jid"
  using held_update [of i ws x jid] held_split [of i ws jid] by simp

lemma phase_ok_cong:
  "phase_ok s ph \<Longrightarrow> (\<And>k. holds ph = Some k \<Longrightarrow> lookup s' k = lookup s k) \<Longrightarrow> phase_ok s' ph"
  by (simp add: phase_ok_def)

lemma exclusive_update:
  assumes "exclusive ws" and "i < length ws"
    and "\<And>k jid. holds x = Some jid \<Longrightarrow> k < length ws \<Longrightarrow> k \<noteq> i \<Longrightarrow> holds (ws ! k) \<noteq> Some jid"
  shows "exclusive (ws[i := x])"
  using assms unfolding exclusive_def by (simp add: nth_list_update) metis

lemma lookup_table: "jobs_table s' = jobs_table s \<Longrightarrow> lookup s' k = lookup s k"
  by (simp add: lookup_def)

section \<open>Preservation\<close>

lemma start_inv:
  assumes "store_inv s0"
  shows "pool_inv s0 (start_pool n s0 w)"
  using assms
  by (auto simp: pool_inv_def start_pool_def phase_ok_def exclusive_def accounted_def held_def joined_def
      list_all_iff split: option.splits)

text \<open>A step that rewrites the row of a job no other worker holds.\<close>

lemma rewrite_inv:
  assumes inv: "pool_inv s0 \<lparr>pl_store = s, pl_world = w, pl_workers = ws\<rparr>" and i: "i < length ws"
    and row: "lookup s jid = Some j" "job_id j' = jid" "store_inv (replace_job j' s)"
    and others: "\<And>k. k < length ws \<Longrightarrow> k \<noteq> i \<Longrightarrow> holds (ws ! k) \<noteq> Some jid"
    and own: "\<And>x. holds (ws ! i) = Some x \<Longrightarrow> x = jid" "\<And>x. holds ph' = Some x \<Longrightarrow> x = jid"
    and ok': "phase_ok (replace_job j' s) ph'" "ph' \<noteq> Gone"
    and now: "is_pending j' \<or> job_state j' = SUCCEEDED \<or> job_state j' = DEAD_LETTER \<or> holds ph' = Some jid"
    and was: "is_pending j \<or> holds (ws ! i) = Some jid"
  shows "pool_inv s0 \<lparr>pl_store = replace_job j' s, pl_world = w', pl_workers = ws[i := ph']\<rparr>"
proof -
  have look: "lookup (replace_job j' s) k = (if k = jid then Some j' else lookup s k)" for k
    using row by (auto simp: lookup_replace_job)
  have "phase_ok (replace_job j' s) ph" if "ph \<in> set (ws[i := ph'])" for ph
    using in_set_update [OF that i]
  proof
    assume "\<exists>k < length ws. k \<noteq> i \<and> ph = ws ! k"
    then obtain k where k: "k < length ws" "k \<noteq> i" "ph = ws ! k" by blast
    then have "phase_ok s ph" using inv by (simp add: pool_inv_def)
    then show ?thesis by (rule phase_ok_cong) (use others k in \<open>auto simp: look\<close>)
  qed (use ok' in simp)
  moreover have "exclusive (ws[i := ph'])"
  proof (rule exclusive_update [OF _ i])
    show "exclusive ws" using inv by (simp add: pool_inv_def)
    show "holds (ws ! k) \<noteq> Some x" if "holds ph' = Some x" "k < length ws" "k \<noteq> i" for k x
      using own(2) [OF that(1)] others [OF that(2,3)] by simp
  qed
  moreover have "accounted s0 (replace_job j' s) (ws[i := ph'])"
  proof -
    have ac: "accounted s0 s ws" using inv by (simp add: pool_inv_def)
    have keep: "held (ws[i := ph']) k = held ws k" if "k \<noteq> jid" for k
    proof -
      have "holds ph' \<noteq> Some k" and "holds (ws ! i) \<noteq> Some k" using own that by blast+
      then show ?thesis using held_update [OF i, of ph' k] held_split [OF i, of k] by simp
    qed
    have hj: "held (ws[i := ph']) jid" if "holds ph' = Some jid"
      using that held_update [OF i, of ph' jid] by simp
    have ph: "held ws jid" if "holds (ws ! i) = Some jid"
      using that held_split [OF i, of jid] by simp
    have acj: "case lookup s0 jid of None \<Rightarrow> lookup s jid = None \<and> \<not> held ws jid
     | Some j0 \<Rightarrow> if is_pending j0
         then \<exists>j'. lookup s jid = Some j' \<and>
           (is_pending j' \<or> job_state j' = SUCCEEDED \<or> job_state j' = DEAD_LETTER \<or> held ws jid)
         else lookup s jid = Some j0 \<and> \<not> held ws jid"
      using ac by (simp add: accounted_def)
    obtain j0 where j0: "lookup s0 jid = Some j0" "is_pending j0"
    proof (cases "lookup s0 jid")
      case None
      with acj row(1) show thesis by simp
    next
      case (Some j0)
      have "is_pending j0"
      proof (rule ccontr)
        assume "\<not> is_pending j0"
        with acj Some row(1) have "j0 = j" "\<not> held ws jid" by simp_all
        with \<open>\<not> is_pending j0\<close> was ph show False by blast
      qed
      with Some show thesis by (rule that)
    qed
    show ?thesis
      unfolding accounted_def
    proof
      fix k
      show "case lookup s0 k of
           None \<Rightarrow> lookup (replace_job j' s) k = None \<and> \<not> held (ws[i := ph']) k
         | Some j \<Rightarrow> if is_pending j
             then \<exists>j''. lookup (replace_job j' s) k = Some j'' \<and>
               (is_pending j'' \<or> job_state j'' = SUCCEEDED \<or> job_state j'' = DEAD_LETTER \<or> held (ws[i := ph']) k)
             else lookup (replace_job j' s) k = Some j \<and> \<not> held (ws[i := ph']) k"
      proof (cases "k = jid")
        case True
        with j0 now hj show ?thesis by (auto simp: look)
      next
        case False
        have "case lookup s0 k of None \<Rightarrow> lookup s k = None \<and> \<not> held ws k
         | Some j0 \<Rightarrow> if is_pending j0
             then \<exists>j'. lookup s k = Some j' \<and>
               (is_pending j' \<or> job_state j' = SUCCEEDED \<or> job_state j' = DEAD_LETTER \<or> held ws k)
             else lookup s k = Some j0 \<and> \<not> held ws k"
          using ac by (simp add: accounted_def)
        then show ?thesis by (simp only: keep [OF False] look if_not_P [OF False])
      qed
    qed
  qed
  moreover have "\<not> list_all (\<lambda>ph. ph = Gone) (ws[i := ph'])"
    using i ok'(2) by (auto simp: list_all_iff set_update_memI)
  ultimately show ?thesis using row(3) by (auto simp: pool_inv_def joined_def)
qed

lemma step_inv:
  assumes inv: "pool_inv s0 \<lparr>pl_store = s, pl_world = w, pl_workers = ws\<rparr>" and i: "i < length ws"
    and st: "step_kind s (ws ! i) s' ph'"
  shows "pool_inv s0 \<lparr>pl_store = s', pl_world = w', pl_workers = ws[i := ph']\<rparr>"
proof -
  have si: "store_inv s" and ok: "\<And>k. k < length ws \<Longrightarrow> phase_ok s (ws ! k)" and ex: "exclusive ws"
    and ac: "accounted s0 s ws"
    and dr: "list_all (\<lambda>ph. ph = Gone) ws \<Longrightarrow> \<forall>j \<in> set (jobs_table s). \<not> is_pending j"
    using inv i by (auto simp: pool_inv_def joined_def)
  have run: "\<exists>j. lookup s jid = Some j \<and> job_state j = RUNNING" if "k < length ws" "holds (ws ! k) = Some jid" for k jid
    using ok [OF that(1)] that(2) by (auto simp: phase_ok_def)
  from st show ?thesis
  proof cases
    case quiet_step
    note look = lookup_table [OF quiet_step(1)]
    have "phase_ok s' ph" if "ph \<in> set (ws[i := ph'])" for ph
      using in_set_update [OF that i] ok quiet_step(3) by (auto intro: phase_ok_cong look)
    moreover have "exclusive (ws[i := ph'])"
      by (rule exclusive_update [OF ex i]) (use ex i quiet_step(2) in \<open>auto simp: exclusive_def\<close>)
    moreover have "accounted s0 s' (ws[i := ph'])"
      using ac unfolding accounted_def held_same [OF i quiet_step(2)] look .
    moreover have "store_inv s'" using si quiet_step(1) by (simp add: store_inv_def pk_def)
    moreover have "\<forall>j \<in> set (jobs_table s'). \<not> is_pending j" if "list_all (\<lambda>ph. ph = Gone) (ws[i := ph'])"
    proof -
      from that i have "ph' = Gone" by (auto simp: list_all_iff set_update_memI)
      then consider "ws ! i = Gone" | "\<forall>j \<in> set (jobs_table s). \<not> is_pending j" using quiet_step(4) by blast
      then show ?thesis
      proof cases
        case 1
        then have "ws[i := ph'] = ws" using \<open>ph' = Gone\<close> by (metis list_update_id)
        then show ?thesis using dr that i quiet_step(1) by auto
      qed (use quiet_step(1) in simp)
    qed
    ultimately show ?thesis by (auto simp: pool_inv_def joined_def)
  next
    case (claim_step jid j t ids lease)
    have jid: "job_id j = jid" using claim_step(4) by (auto dest: lookup_SomeD)
    have free: "holds (ws ! k) \<noteq> Some jid" if "k < length ws" for k
      using run [OF that] claim_step(4,5) by (auto simp: is_pending_def)
    have "lookup (replace_job (set_claimed lease t j) s) jid = Some (set_claimed lease t j)"
      using claim_step(4) jid by (simp add: lookup_replace_job)
    then have "phase_ok (replace_job (set_claimed lease t j) s) (Claimed jid)"
      by (simp add: phase_ok_def)
    moreover have "store_inv (replace_job (set_claimed lease t j) s)"
      using store_inv_replace [OF si job_ok_claimed] store_inv_lookup [OF si claim_step(4)] claim_step(5) by simp
    ultimately show ?thesis
      unfolding claim_step
      using claim_step(1,4,5) free jid by (intro rewrite_inv [OF inv i]) auto
  next
    case (release_step j j' now msg)
    note j = release_step(4,5)
    have h: "holds (ws ! i) = Some (job_id j)" using release_step(3) by (cases "ws ! i") auto
    have id: "job_id j' = job_id j" using release_step(6) by (auto simp: failed_job_def)
    have okj: "job_ok j" by (rule store_inv_lookup [OF si j(1)])
    then have "job_ok (finished now j)" using j(2) by (auto simp: job_ok_def finished_def)
    then have "store_inv (replace_job j' s)"
      using release_step(6) store_inv_replace [OF si] job_ok_failed [OF okj j(2)] by auto
    moreover have "is_pending j' \<or> job_state j' = SUCCEEDED \<or> job_state j' = DEAD_LETTER"
      using release_step(6) by (auto simp: finished_def is_pending_def split: if_splits)
    moreover have "holds (ws ! k) \<noteq> Some (job_id j)" if "k < length ws" "k \<noteq> i" for k
      using ex h that i by (auto simp: exclusive_def)
    ultimately show ?thesis
      unfolding release_step(1,2)
      using j h id by (intro rewrite_inv [OF inv i]) (auto simp: phase_ok_def)
  qed
qed

lemma move_inv:
  assumes "pool_inv s0 p"
  shows "pool_inv s0 (move env (i, now) p)"
proof (cases p)
  case (fields s w ws)
  show ?thesis
  proof (cases "i < length ws")
    case True
    obtain ph s' w' where st: "worker_step env now (ws ! i) s w = (ph, s', w')"
      by (cases "worker_step env now (ws ! i) s w") auto
    have "step_kind s (ws ! i) s' ph"
      using assms True fields by (intro worker_step_kind [OF _ _ st]) (auto simp: pool_inv_def store_inv_pk)
    then have "pool_inv s0 \<lparr>pl_store = s', pl_world = w', pl_workers = ws[i := ph]\<rparr>"
      by (rule step_inv [OF assms [unfolded fields] True])
    with True st fields show ?thesis by (simp add: move_def)
  qed (use assms fields in \<open>simp add: move_def\<close>)
qed

lemma run_inv: "pool_inv s0 p \<Longrightarrow> pool_inv s0 (run_pool env sched p)"
  by (induction sched arbitrary: p) (auto simp: run_pool_def move_inv)

section \<open>A bound on the moves\<close>

text \<open>The work left in a row, in claims and releases.\<close>

definition row_work :: "job \<Rightarrow> nat" where
  "row_work j =
     (if is_pending j then 2 * nat (job_max_attempts j - job_attempts j)
      else if job_state j = RUNNING then 2 * nat (job_max_attempts j - job_attempts j) - 1 else 0)"

definition pool_work :: "store \<Rightarrow> nat" where
  "pool_work s = sum_list (map row_work (jobs_table s))"

text \<open>How many moves a worker can make before the next claim or release; the candidates of a query
  are stale once none of them is pending any more.\<close>

fun phase_rank :: "store \<Rightarrow> phase \<Rightarrow> nat" where
  "phase_rank s Asking = 10"
| "phase_rank s (Trying t ids) =
     length ids + (if \<exists>jid \<in> set ids. \<exists>j. lookup s jid = Some j \<and> is_pending j then 0 else 10)"
| "phase_rank s (Claimed jid) = 16"
| "phase_rank s (Holding j) = 15"
| "phase_rank s (Executing j) = 14"
| "phase_rank s (Recording j d) = 13"
| "phase_rank s (Completing j) = 12"
| "phase_rank s (Closing j) = 12"
| "phase_rank s (Failing j msg) = 11"
| "phase_rank s ph = 0"

fun active :: "phase \<Rightarrow> bool" where
  "active Gone = False"
| "active (Died j) = False"
| "active (Crashed e) = False"
| "active ph = True"

lemma work_replace:
  assumes "pk s" and "lookup s (job_id j) = Some j" and "job_id j' = job_id j"
  shows "pool_work (replace_job j' s) + row_work j = pool_work s + row_work j'"
proof -
  have "j \<in> set (jobs_table s)" using assms(2) by (auto dest: lookup_SomeD)
  then show ?thesis
    using sum_list_update_one [of job_id "jobs_table s" j row_work j'] assms(1,3)
    by (simp add: pool_work_def replace_job_def pk_def)
qed

lemma query_rank:
  assumes "pk s"
  shows "phase_rank s (query_step t s) < 10"
proof (cases "claim_query None s")
  case Nil
  then show ?thesis by (simp add: query_step_def)
next
  case (Cons jid ids)
  have "length (claim_query None s) \<le> 8" by (simp add: claim_query_def)
  moreover have "\<exists>j. lookup s jid = Some j \<and> is_pending j"
    using best_candidate [OF assms, where f = job_created_at and P = is_pending] Cons
    by (auto simp: claim_query_def)
  ultimately show ?thesis using Cons by (simp add: query_step_def)
qed

lemma rank_le: "phase_rank s ph \<le> phase_rank s0 ph + 10"
  by (cases ph) auto

text \<open>Either the rows stay and the worker's rank falls, or the work does.\<close>

lemma claim_work:
  assumes "store_inv s" and "lookup s jid = Some j" and "is_pending j"
  shows "pool_work (replace_job (set_claimed l t j) s) < pool_work s"
proof -
  have "job_ok j" by (rule store_inv_lookup [OF assms(1,2)])
  then have "row_work (set_claimed l t j) < row_work j"
    using assms(3) by (auto simp: row_work_def job_ok_def set_claimed_def is_pending_def)
  then show ?thesis
    using work_replace [OF store_inv_pk [OF assms(1)] lookup_self [OF assms(2)], of "set_claimed l t j"] by simp
qed

lemma release_work:
  assumes "store_inv s" and "lookup s (job_id j) = Some j" and "job_state j = RUNNING"
  shows "pool_work (replace_job (finished t j) s) < pool_work s"
    and "pool_work (replace_job (failed_job t msg j) s) < pool_work s"
proof -
  have ok: "job_ok j" by (rule store_inv_lookup [OF assms(1,2)])
  have "row_work (finished t j) < row_work j" and "row_work (failed_job t msg j) < row_work j"
    using ok assms(3) by (auto simp: row_work_def job_ok_def finished_def is_pending_def)
  then show "pool_work (replace_job (finished t j) s) < pool_work s"
    and "pool_work (replace_job (failed_job t msg j) s) < pool_work s"
    using work_replace [OF store_inv_pk [OF assms(1)] assms(2), of "finished t j"]
      work_replace [OF store_inv_pk [OF assms(1)] assms(2), of "failed_job t msg j"] by simp_all
qed

lemma step_measure:
  assumes inv: "store_inv s" and ok: "phase_ok s ph" and st: "worker_step env now ph s w = (ph', s', w')"
    and act: "active ph"
  shows "(jobs_table s' = jobs_table s \<and> phase_rank s ph' < phase_rank s ph) \<or>
    (pool_work s' < pool_work s \<and> phase_rank s' ph' \<le> 16)"
proof -
  note pk = store_inv_pk [OF inv]
  have run: "lookup s (job_id j) = Some j \<and> job_state j = RUNNING" if "job_of ph = Some j" for j
    using ok that by (cases ph) (auto simp: phase_ok_def)
  show ?thesis
  proof (cases ph)
    case Asking
    with st query_rank [OF pk, of now] show ?thesis by auto
  next
    case (Trying t ids)
    show ?thesis
    proof (cases ids)
      case Nil
      with Trying st query_rank [OF pk, of t] show ?thesis by auto
    next
      case (Cons jid rest)
      show ?thesis
      proof (cases "\<exists>j. lookup s jid = Some j \<and> is_pending j")
        case True
        then obtain j where "lookup s jid = Some j" "is_pending j" by blast
        with Trying Cons st claim_work [OF inv this] show ?thesis by (auto simp: try_claim_eq [OF pk])
      next
        case False
        with Trying Cons st have "ph' = Trying t rest" "s' = s"
          by (auto simp: try_claim_eq [OF pk] split: option.splits if_splits)
        with Trying Cons False show ?thesis by auto
      qed
    qed
  next
    case (Completing j)
    with st run [of j] pk release_work(1) [OF inv, of j now] show ?thesis by (auto simp: complete_running)
  next
    case (Closing j)
    with st run [of j] pk release_work(1) [OF inv, of j now] show ?thesis by (auto simp: complete_running)
  next
    case (Failing j msg)
    with st run [of j] pk release_work(2) [OF inv, of j now msg] show ?thesis by (auto simp: fail_eq)
  next
    case (Executing j)
    with st show ?thesis by (auto split: option.splits prod.splits outcome.splits)
  qed (use st ok act in \<open>auto simp: phase_ok_def record_result_def split: if_splits\<close>)
qed

definition potential :: "'w pool \<Rightarrow> nat" where
  "potential p = sum_list (map (phase_rank (pl_store p)) (pl_workers p)) +
     (10 * length (pl_workers p) + 17) * pool_work (pl_store p)"

lemma sum_map_update:
  fixes f :: "'b \<Rightarrow> nat"
  assumes "i < length xs"
  shows "sum_list (map f (xs[i := x])) + f (xs ! i) = sum_list (map f xs) + f x"
  using assms by (induction xs arbitrary: i) (auto split: nat.splits)

lemma rank_table: "jobs_table s' = jobs_table s \<Longrightarrow> phase_rank s' ph = phase_rank s ph"
  by (cases ph) (simp_all add: lookup_def)

lemma sum_rank_le: "sum_list (map (phase_rank s') ws) \<le> sum_list (map (phase_rank s) ws) + 10 * length ws"
proof (induction ws)
  case (Cons ph ws)
  then show ?case using rank_le [of s' ph s] by simp
qed simp

lemma move_potential:
  assumes inv: "pool_inv s0 p" and i: "i < length (pl_workers p)" and act: "active (pl_workers p ! i)"
  shows "potential (move env (i, now) p) < potential p"
proof -
  let ?s = "pl_store p" and ?ws = "pl_workers p"
  obtain ph s' w' where st: "worker_step env now (?ws ! i) ?s (pl_world p) = (ph, s', w')"
    by (cases "worker_step env now (?ws ! i) ?s (pl_world p)") auto
  have m: "move env (i, now) p = \<lparr>pl_store = s', pl_world = w', pl_workers = ?ws[i := ph]\<rparr>"
    using i st by (simp add: move_def)
  have sum: "sum_list (map (phase_rank s') (?ws[i := ph])) + phase_rank s' (?ws ! i)
      = sum_list (map (phase_rank s') ?ws) + phase_rank s' ph"
    by (rule sum_map_update [OF i])
  have "store_inv ?s" and "phase_ok ?s (?ws ! i)" using inv i by (auto simp: pool_inv_def)
  then consider "jobs_table s' = jobs_table ?s" "phase_rank ?s ph < phase_rank ?s (?ws ! i)"
    | "pool_work s' < pool_work ?s" "phase_rank s' ph \<le> 16"
    using step_measure [OF _ _ st act] by blast
  then show ?thesis
  proof cases
    case 1
    have r: "phase_rank s' = phase_rank ?s" by (rule ext) (rule rank_table [OF 1(1)])
    have w: "pool_work s' = pool_work ?s" using 1(1) by (simp add: pool_work_def)
    show ?thesis using sum 1(2) by (simp add: potential_def m r w)
  next
    case 2
    let ?c = "10 * length ?ws + 17"
    have "sum_list (map (phase_rank s') (?ws[i := ph])) < sum_list (map (phase_rank ?s) ?ws) + ?c"
      using sum sum_rank_le [of s' ?ws ?s] 2(2) by simp
    moreover have "?c * pool_work s' + ?c \<le> ?c * pool_work ?s"
      using mult_le_mono2 [of "Suc (pool_work s')" "pool_work ?s" ?c] 2(1) by simp
    ultimately show ?thesis by (simp add: potential_def m)
  qed
qed

text \<open>How many turns of a schedule go to a worker that still does something.\<close>

fun busy_turns :: "'w pool_env \<Rightarrow> (nat \<times> real) list \<Rightarrow> 'w pool \<Rightarrow> nat" where
  "busy_turns env [] p = 0"
| "busy_turns env ((i, now) # rest) p =
     (if i < length (pl_workers p) \<and> active (pl_workers p ! i) then 1 else 0)
     + busy_turns env rest (move env (i, now) p)"

lemma idle_move:
  "\<not> active ph \<Longrightarrow> worker_step env now ph s w = (ph, s, w)"
  by (cases ph) simp_all

lemma idle_turn: "\<not> (i < length (pl_workers p) \<and> active (pl_workers p ! i)) \<Longrightarrow> move env (i, now) p = p"
  by (cases p) (auto simp: move_def idle_move)

lemma busy_bound: "pool_inv s0 p \<Longrightarrow> busy_turns env sched p + potential (run_pool env sched p) \<le> potential p"
proof (induction sched arbitrary: p)
  case Nil
  then show ?case by (simp add: run_pool_def)
next
  case (Cons turn rest)
  obtain i now where t: "turn = (i, now)" by fastforce
  have "busy_turns env rest (move env turn p) + potential (run_pool env rest (move env turn p))
      \<le> potential (move env turn p)"
    unfolding t by (rule Cons.IH [unfolded t]) (rule move_inv [OF Cons.prems])
  then show ?case
    using move_potential [OF Cons.prems, of i env now] idle_turn [of i p env now]
    by (cases "i < length (pl_workers p) \<and> active (pl_workers p ! i)") (auto simp: t run_pool_def)
qed

section \<open>The properties\<close>

lemma set_map_filter_holds: "jid \<in> set (List.map_filter holds ws) \<longleftrightarrow> held ws jid"
  by (induction ws) (auto simp: held_def List.map_filter_simps split: option.splits)

lemma exclusive_Cons: "exclusive (ph # ws) \<Longrightarrow> exclusive ws \<and> (\<forall>jid. holds ph = Some jid \<longrightarrow> \<not> held ws jid)"
  unfolding exclusive_def held_nth by (metis Suc_less_eq Suc_inject length_Cons nat.distinct(1) nth_Cons_0 nth_Cons_Suc zero_less_Suc)

lemma exclusive_distinct: "exclusive ws \<Longrightarrow> distinct (List.map_filter holds ws)"
proof (induction ws)
  case Nil
  then show ?case by (simp add: List.map_filter_simps)
next
  case (Cons ph ws)
  then show ?case
    using exclusive_Cons [OF Cons.prems]
    by (auto simp: List.map_filter_simps set_map_filter_holds split: option.splits)
qed

lemma length_move [simp]: "length (pl_workers (move env turn p)) = length (pl_workers p)"
  by (simp add: move_def split: prod.splits)

lemma length_run [simp]: "length (pl_workers (run_pool env sched p)) = length (pl_workers p)"
  unfolding run_pool_def by (induction sched arbitrary: p) simp_all

lemma length_start [simp]: "length (pl_workers (start_pool n s w)) = n"
  by (simp add: start_pool_def)

text \<open>C8. Whatever the interleaving of a pool of draining workers on one database, at every moment
  no two workers hold the same job, a held job is RUNNING, no store error has escaped from a worker,
  the jobs that were not waiting at the start are untouched, and those that were are waiting, held or
  settled; once every worker has left, each of them is SUCCEEDED or DEAD_LETTER.\<close>

theorem pool_exclusive:
  assumes "reachable s0" and "0 < n"
  shows "let p = run_pool env sched (start_pool n s0 w); s = pl_store p; working = List.map_filter holds (pl_workers p) in
    list_all (\<lambda>ph. \<not> crashed ph) (pl_workers p) \<and> distinct working \<and>
    (\<forall>k. case lookup s0 k of
       None \<Rightarrow> lookup s k = None
     | Some j \<Rightarrow>
         if job_state j \<noteq> PENDING then lookup s k = Some j
         else \<exists>j'. lookup s k = Some j' \<and>
           (if k \<in> set working then job_state j' = RUNNING
            else job_state j' = SUCCEEDED \<or> job_state j' = DEAD_LETTER \<or> job_state j' = PENDING \<and> \<not> joined p))"
proof -
  define p where "p = run_pool env sched (start_pool n s0 w)"
  let ?s = "pl_store p" and ?ws = "pl_workers p"
  have inv: "pool_inv s0 p"
    unfolding p_def by (intro run_inv start_inv reachable_inv [OF assms(1)])
  have "length ?ws = n" by (simp add: p_def)
  then have "?ws \<noteq> []" using assms(2) by auto
  then have none: "joined p \<Longrightarrow> lookup ?s k = Some j \<Longrightarrow> job_state j \<noteq> PENDING" for j k
    using inv by (auto simp: pool_inv_def is_pending_def dest: lookup_SomeD)
  have run: "\<exists>j. lookup ?s k = Some j \<and> job_state j = RUNNING" if "held ?ws k" for k
  proof -
    from that obtain ph where "ph \<in> set ?ws" "holds ph = Some k" unfolding held_def by blast
    moreover have "\<forall>ph \<in> set ?ws. phase_ok ?s ph" using inv by (simp add: pool_inv_def)
    ultimately show ?thesis unfolding phase_ok_def by blast
  qed
  have "case lookup s0 k of
       None \<Rightarrow> lookup ?s k = None
     | Some j \<Rightarrow>
         if job_state j \<noteq> PENDING then lookup ?s k = Some j
         else \<exists>j'. lookup ?s k = Some j' \<and>
           (if k \<in> set (List.map_filter holds ?ws) then job_state j' = RUNNING
            else job_state j' = SUCCEEDED \<or> job_state j' = DEAD_LETTER \<or> job_state j' = PENDING \<and> \<not> joined p)" for k
  proof -
    have "case lookup s0 k of
       None \<Rightarrow> lookup ?s k = None \<and> \<not> held ?ws k
     | Some j \<Rightarrow> if is_pending j
         then \<exists>j'. lookup ?s k = Some j' \<and>
           (is_pending j' \<or> job_state j' = SUCCEEDED \<or> job_state j' = DEAD_LETTER \<or> held ?ws k)
         else lookup ?s k = Some j \<and> \<not> held ?ws k"
      using inv by (simp add: pool_inv_def accounted_def)
    then show ?thesis
      using run [of k] none [where k = k] 
      by (auto simp: set_map_filter_holds is_pending_def split: option.splits if_splits)
  qed
  moreover have "list_all (\<lambda>ph. \<not> crashed ph) ?ws"
    using inv by (auto simp: pool_inv_def phase_ok_def list_all_iff)
  moreover have "distinct (List.map_filter holds ?ws)"
    using inv by (simp add: pool_inv_def exclusive_distinct)
  ultimately show ?thesis unfolding Let_def p_def [symmetric] by blast
qed

text \<open>C9. A pool comes to an end under every schedule: the turns that go to a worker that has not
  left (or died in a handler) are bounded by the number of workers and the attempts that are left, so a
  schedule that keeps giving turns to such workers cannot go on for ever, contested claims included.\<close>

theorem pool_terminates:
  assumes "reachable s0"
  shows "busy_turns env sched (start_pool n s0 w) \<le> 10 * n + (10 * n + 17) * pool_work s0"
proof -
  have "sum_list (map (phase_rank s0) (replicate n Asking)) = 10 * n"
    by (induction n) simp_all
  then have "potential (start_pool n s0 w) = 10 * n + (10 * n + 17) * pool_work s0"
    by (simp add: potential_def start_pool_def)
  then show ?thesis
    using busy_bound [OF start_inv [OF reachable_inv [OF assms]], of env sched n w] by simp
qed

section \<open>Witnesses\<close>

lemma pool_exclusive_witness:
  "let p = run_pool \<lparr>pe_repr = \<lambda>_. ''e'', pe_handlers = \<lambda>_. None, pe_lease = 30\<rparr> [(0, 2), (1, 3), (0, 4), (1, 5)]
      (start_pool 2 sample_store ())
   in distinct (List.map_filter holds (pl_workers p))"
  using pool_exclusive [OF reachable_sample, of 2 "\<lparr>pe_repr = \<lambda>_. ''e'', pe_handlers = \<lambda>_. None, pe_lease = 30\<rparr>"
      "[(0, 2), (1, 3), (0, 4), (1, 5)]" "()"]
  by (simp add: Let_def)

lemma pool_terminates_witness:
  "busy_turns \<lparr>pe_repr = \<lambda>_. ''e'', pe_handlers = \<lambda>_. None, pe_lease = 30\<rparr> (replicate 1000 (0, 2))
     (start_pool 2 sample_store ()) \<le> 20 + 37 * pool_work sample_store"
  using pool_terminates [OF reachable_sample, of "\<lparr>pe_repr = \<lambda>_. ''e'', pe_handlers = \<lambda>_. None, pe_lease = 30\<rparr>"
      "replicate 1000 (0, 2)" 2 "()"] by simp

end
