(* ===== verification/Pool_Once.thy ===== *)
theory Pool_Once
  imports Pool_Props
begin

text \<open>
  When the handlers do not raise, a pool runs each waiting job exactly once, whatever the schedule:
  the jobs run are read off the schedule (\<open>executed\<close>), and the world is what running the handlers
  one after the other in that order makes of it.
\<close>

section \<open>The jobs a schedule runs\<close>

fun runs_now :: "'w pool_env \<Rightarrow> phase \<Rightarrow> job list" where
  "runs_now env (Executing j) = (if pe_handlers env (job_kind j) = None then [] else [j])"
| "runs_now env ph = []"

fun executed :: "'w pool_env \<Rightarrow> (nat \<times> real) list \<Rightarrow> 'w pool \<Rightarrow> job list" where
  "executed env [] p = []"
| "executed env ((i, now) # rest) p =
     (if i < length (pl_workers p) then runs_now env (pl_workers p ! i) else [])
     @ executed env rest (move env (i, now) p)"

definition run_handler :: "'w pool_env \<Rightarrow> job \<Rightarrow> 'w \<Rightarrow> 'w" where
  "run_handler env j w = (case pe_handlers env (job_kind j) of None \<Rightarrow> w | Some h \<Rightarrow> fst (h j w))"

lemma world_step:
  assumes "worker_step env now ph s w = (ph', s', w')"
  shows "w' = fold (run_handler env) (runs_now env ph) w"
proof (cases ph)
  case (Executing j)
  with assms show ?thesis
    by (auto simp: run_handler_def split: option.splits prod.splits outcome.splits)
next
  case (Trying t ids)
  with assms show ?thesis by (cases ids) (auto split: prod.splits bool.splits)
qed (use assms in \<open>auto split: prod.splits sum.splits if_splits\<close>)

lemma world_executed: "pl_world (run_pool env sched p) = fold (run_handler env) (executed env sched p) (pl_world p)"
proof (induction sched arbitrary: p)
  case Nil
  then show ?case by (simp add: run_pool_def)
next
  case (Cons turn rest)
  obtain i now where t: "turn = (i, now)" by fastforce
  have "pl_world (move env (i, now) p)
      = fold (run_handler env) (if i < length (pl_workers p) then runs_now env (pl_workers p ! i) else []) (pl_world p)"
    by (auto simp: move_def split: prod.splits dest: world_step)
  with Cons.IH [of "move env turn p"] show ?case by (simp add: t run_pool_def)
qed

section \<open>Handlers that return\<close>

text \<open>A job is still to be run: waiting, or taken by a worker that has not run it.\<close>

fun before_run :: "phase \<Rightarrow> string option" where
  "before_run (Claimed jid) = Some jid"
| "before_run (Holding j) = Some (job_id j)"
| "before_run (Executing j) = Some (job_id j)"
| "before_run ph = None"

fun after_run :: "phase \<Rightarrow> bool" where
  "after_run (Failing j msg) = False"
| "after_run (Died j) = False"
| "after_run ph = True"

definition runnable :: "'w pool \<Rightarrow> string \<Rightarrow> bool" where
  "runnable p k \<longleftrightarrow> (\<exists>j. lookup (pl_store p) k = Some j \<and> is_pending j) \<or>
     (\<exists>ph \<in> set (pl_workers p). before_run ph = Some k)"

text \<open>The handlers return on every waiting job, and none of these has a recorded result.\<close>

definition serves :: "'w pool_env \<Rightarrow> store \<Rightarrow> bool" where
  "serves env s \<longleftrightarrow> (\<forall>k j. lookup s k = Some j \<and> is_pending j \<longrightarrow> \<not> has_result s k \<and>
     (\<exists>h. pe_handlers env (job_kind j) = Some h \<and>
        (\<forall>l t w. \<exists>w' r. h (set_claimed l t j) w = (w', HReturn r))))"

text \<open>The row of a job still to be run is the one of the start, or that one claimed.\<close>

definition row_from :: "store \<Rightarrow> store \<Rightarrow> string \<Rightarrow> bool" where
  "row_from s0 s k \<longleftrightarrow> (\<exists>j. lookup s0 k = Some j \<and> is_pending j \<and>
     (lookup s k = Some j \<or> (\<exists>l t. lookup s k = Some (set_claimed l t j))))"

text \<open>The invariant of a run without failures.\<close>

definition once_inv :: "store \<Rightarrow> 'w pool \<Rightarrow> bool" where
  "once_inv s0 p \<longleftrightarrow> (\<forall>ph \<in> set (pl_workers p). after_run ph) \<and>
     (\<forall>k. runnable p k \<longrightarrow> \<not> has_result (pl_store p) k \<and> row_from s0 (pl_store p) k)"

section \<open>One move\<close>

definition waits :: "store \<Rightarrow> string \<Rightarrow> bool" where
  "waits s k \<longleftrightarrow> (\<exists>j. lookup s k = Some j \<and> is_pending j)"

definition dead :: "store \<Rightarrow> string \<Rightarrow> bool" where
  "dead s k \<longleftrightarrow> (\<exists>j. lookup s k = Some j \<and> job_state j = DEAD_LETTER)"

text \<open>What a move does to the jobs still to be run, seen from the moving worker.\<close>

definition good_move :: "'w pool_env \<Rightarrow> store \<Rightarrow> phase \<Rightarrow> store \<Rightarrow> phase \<Rightarrow> bool" where
  "good_move env s ph s' ph' \<longleftrightarrow>
     after_run ph' \<and>
     (\<forall>k. waits s' k \<or> before_run ph' = Some k \<longleftrightarrow>
        (waits s k \<or> before_run ph = Some k) \<and> k \<notin> job_id ` set (runs_now env ph)) \<and>
     (\<forall>k \<in> job_id ` set (runs_now env ph). before_run ph = Some k) \<and>
     (\<forall>k. has_result s' k \<longrightarrow> has_result s k \<or> holds ph = Some k \<and> before_run ph = None) \<and>
     (\<forall>k. lookup s' k = lookup s k \<or> holds ph = Some k \<and> before_run ph = None \<or>
        (\<exists>l t j. lookup s k = Some j \<and> is_pending j \<and> lookup s' k = Some (set_claimed l t j))) \<and>
     (\<forall>k. dead s' k \<longrightarrow> dead s k)"

lemma waits_replace:
  "lookup s (job_id j') = Some j \<Longrightarrow>
    waits (replace_job j' s) k \<longleftrightarrow> (if k = job_id j' then is_pending j' else waits s k)"
  by (auto simp: waits_def lookup_replace_job)

lemma dead_replace:
  "lookup s (job_id j') = Some j \<Longrightarrow> job_state j' \<noteq> DEAD_LETTER \<Longrightarrow> dead (replace_job j' s) k \<Longrightarrow> dead s k"
  by (auto simp: dead_def lookup_replace_job split: if_splits)

lemma has_result_table [simp]: "has_result (replace_job j s) k = has_result s k"
  by (simp add: has_result_def)

lemma quiet_good:
  "after_run ph' \<Longrightarrow> before_run ph' = before_run ph \<Longrightarrow> runs_now env ph = [] \<Longrightarrow> good_move env s ph s ph'"
  by (simp add: good_move_def)

lemma query_good: "before_run ph = None \<Longrightarrow> runs_now env ph = [] \<Longrightarrow> good_move env s ph s (query_step t s)"
  by (rule quiet_good) (auto simp: query_step_def split: list.splits)

lemma finish_good:
  assumes "lookup s (job_id j) = Some j" and "job_state j = RUNNING" and "holds ph = Some (job_id j)"
    and "before_run ph = None" and "runs_now env ph = []"
  shows "good_move env s ph (replace_job (finished t j) s) Asking"
  using assms dead_replace [of s "finished t j" j]
  by (auto simp: good_move_def waits_replace lookup_replace_job)
    (auto simp: finished_def is_pending_def waits_def)

lemma claim_good:
  assumes "lookup s jid = Some j" and "is_pending j"
  shows "good_move env s (Trying t (jid # ids)) (replace_job (set_claimed l t j) s) (Claimed jid)"
proof -
  have id: "job_id j = jid" using assms(1) by (auto dest: lookup_SomeD)
  have "waits (replace_job (set_claimed l t j) s) k \<longleftrightarrow> (if k = jid then False else waits s k)" for k
    using waits_replace [of s "set_claimed l t j" j k] assms(1) id by (simp add: is_pending_def)
  then show ?thesis
    using assms id dead_replace [of s "set_claimed l t j" j]
    by (auto simp: good_move_def lookup_replace_job) (simp add: waits_def)
qed

lemma once_step:
  assumes pk: "pk s" and ok: "phase_ok s ph" and ar: "after_run ph" and sv: "serves env s0"
    and bf: "\<And>k. before_run ph = Some k \<Longrightarrow> \<not> has_result s k \<and> row_from s0 s k"
    and st: "worker_step env now ph s w = (ph', s', w')"
  shows "good_move env s ph s' ph'"
proof -
  have run: "lookup s (job_id j) = Some j \<and> job_state j = RUNNING" if "job_of ph = Some j" for j
    using ok that by (cases ph) (auto simp: phase_ok_def)
  show ?thesis
  proof (cases ph)
    case Asking
    with st query_good [of ph env s now] show ?thesis by auto
  next
    case (Trying t ids)
    show ?thesis
    proof (cases ids)
      case Nil
      with Trying st query_good [of ph env s t] show ?thesis by auto
    next
      case (Cons jid rest)
      have "good_move env s (Trying t (jid # rest)) s (Trying t rest)" by (rule quiet_good) simp_all
      with Cons Trying st claim_good [of s jid _ env t rest "t + pe_lease env"] show ?thesis
        by (cases "lookup s jid") (auto simp: try_claim_eq [OF pk] split: if_splits)
    qed
  next
    case (Claimed jid)
    then obtain j where "lookup s jid = Some j" using ok by (auto simp: phase_ok_def)
    then have "ph' = Holding j" "s' = s" "job_id j = jid" using Claimed st by (auto dest: lookup_SomeD)
    with Claimed show ?thesis using quiet_good [of "Holding j" "Claimed jid" env s] by simp
  next
    case (Holding j)
    then have "ph' = Executing j" "s' = s" using st bf by auto
    with Holding show ?thesis using quiet_good [of "Executing j" "Holding j" env s] by simp
  next
    case (Executing j)
    then obtain j0 l t where j0: "lookup s0 (job_id j) = Some j0" "is_pending j0" "j = set_claimed l t j0"
      using bf [of "job_id j"] run [of j] by (auto simp: row_from_def is_pending_def)
    then obtain h where h: "pe_handlers env (job_kind j) = Some h"
      and r: "\<exists>w1 r. h j w = (w1, HReturn r)"
      using sv unfolding serves_def by (metis claimed_state(2))
    then have "\<exists>d. ph' = Recording j d" "s' = s" using st Executing by (auto split: prod.splits)
    then obtain d where "ph' = Recording j d" "s' = s" by blast
    then show ?thesis
      using Executing h run [of j] by (auto simp: good_move_def waits_def is_pending_def)
  next
    case (Recording j d)
    let ?s = "fst (record_result now (job_id j) d s)"
    have "has_result s k \<or> k = job_id j" if "has_result ?s k" for k
      using that by (auto simp: has_result_def record_result_def insert_or_ignore_def row_simps split: if_splits option.splits)
    then have "good_move env s (Recording j d) ?s (Completing j)"
      unfolding good_move_def by (simp add: waits_def dead_def) blast
    then show ?thesis using Recording st by auto
  next
    case (Completing j)
    with st run [of j] finish_good [of s j ph env now] show ?thesis by (auto simp: complete_running [OF pk])
  next
    case (Closing j)
    with st run [of j] finish_good [of s j ph env now] show ?thesis by (auto simp: complete_running [OF pk])
  next
    case (Crashed e)
    with ok show ?thesis by (simp add: phase_ok_def)
  next
    case Gone
    with st show ?thesis by (auto intro: quiet_good)
  qed (use ar in auto)
qed

lemma before_holds: "before_run ph = Some k \<Longrightarrow> holds ph = Some k"
  by (cases ph) simp_all

lemma runnable_nth:
  "runnable \<lparr>pl_store = s, pl_world = w, pl_workers = ws\<rparr> k \<longleftrightarrow>
     waits s k \<or> (\<exists>m < length ws. before_run (ws ! m) = Some k)"
  unfolding runnable_def waits_def by (simp add: Bex_def in_set_conv_nth) blast

lemma runnable_split:
  assumes "i < length ws"
  shows "runnable \<lparr>pl_store = s, pl_world = w, pl_workers = ws[i := x]\<rparr> k \<longleftrightarrow>
     (waits s k \<or> before_run x = Some k) \<or> (\<exists>m < length ws. m \<noteq> i \<and> before_run (ws ! m) = Some k)"
  using assms unfolding runnable_nth by (simp add: nth_list_update) metis

lemma once_move:
  fixes i :: nat and p :: "'w pool"
  assumes inv: "pool_inv s0 p" and once: "once_inv s0 p" and sv: "serves env s0"
  defines "e \<equiv> (if i < length (pl_workers p) then runs_now env (pl_workers p ! i) else [])"
  shows "once_inv s0 (move env (i, now) p)"
    and "runnable (move env (i, now) p) k \<longleftrightarrow> runnable p k \<and> k \<notin> job_id ` set e"
    and "job_id ` set e \<subseteq> {k. runnable p k}"
    and "dead (pl_store (move env (i, now) p)) k \<Longrightarrow> dead (pl_store p) k"
proof -
  obtain s w ws where p: "p = \<lparr>pl_store = s, pl_world = w, pl_workers = ws\<rparr>" by (cases p)
  have goal: "once_inv s0 (move env (i, now) p) \<and>
    (\<forall>k. runnable (move env (i, now) p) k \<longleftrightarrow> runnable p k \<and> k \<notin> job_id ` set e) \<and> job_id ` set e \<subseteq> {k. runnable p k} \<and>
    (\<forall>k. dead (pl_store (move env (i, now) p)) k \<longrightarrow> dead (pl_store p) k)"
  proof (cases "i < length ws")
    case False
    with once show ?thesis by (simp add: p e_def move_def)
  next
    case i: True
    obtain ph s' w' where st: "worker_step env now (ws ! i) s w = (ph, s', w')"
      by (cases "worker_step env now (ws ! i) s w") auto
    have mv: "move env (i, now) p = \<lparr>pl_store = s', pl_world = w', pl_workers = ws[i := ph]\<rparr>"
      using i st by (simp add: move_def p)
    have ok: "phase_ok s (ws ! m)" if "m < length ws" for m using inv that by (simp add: pool_inv_def p)
    have ex: "exclusive ws" and si: "store_inv s" using inv by (simp_all add: pool_inv_def p)
    have r0: "runnable p k \<longleftrightarrow> (waits s k \<or> before_run (ws ! i) = Some k) \<or>
        (\<exists>m < length ws. m \<noteq> i \<and> before_run (ws ! m) = Some k)" for k
      using runnable_split [OF i, of s w "ws ! i" k] by (simp add: p)
    have o: "\<not> has_result s k \<and> row_from s0 s k" if "runnable p k" for k
      using once that by (simp add: once_inv_def p)
    have g: "good_move env s (ws ! i) s' ph"
      using once i o r0 by (intro once_step [OF store_inv_pk [OF si] ok [OF i] _ sv _ st]) (auto simp: once_inv_def p)
    have e: "e = runs_now env (ws ! i)" using i by (simp add: e_def p)
    have own: "before_run (ws ! m) \<noteq> Some k" if "m < length ws" "m \<noteq> i" "holds (ws ! i) = Some k" for m k
      using ex that i before_holds [of "ws ! m" k] by (auto simp: exclusive_def)
    have r1: "runnable (move env (i, now) p) k \<longleftrightarrow> runnable p k \<and> k \<notin> job_id ` set e" for k
    proof -
      have "k \<notin> job_id ` set e" if "m < length ws" "m \<noteq> i" "before_run (ws ! m) = Some k" for m
        using g own [OF that(1,2), of k] that(3) before_holds [of "ws ! i" k] unfolding good_move_def e by blast
      moreover have "waits s' k \<or> before_run ph = Some k \<longleftrightarrow>
          (waits s k \<or> before_run (ws ! i) = Some k) \<and> k \<notin> job_id ` set e"
        using g unfolding good_move_def e by blast
      ultimately show ?thesis unfolding mv runnable_split [OF i] r0 by blast
    qed
    have sub: "job_id ` set e \<subseteq> {k. runnable p k}" using g r0 unfolding good_move_def e by blast
    have nores: "\<not> has_result s' k" if "runnable p k" for k
    proof
      assume "has_result s' k"
      with g o [OF that] have h: "holds (ws ! i) = Some k" and b: "before_run (ws ! i) = None"
        unfolding good_move_def by blast+
      have "\<not> waits s k" using ok [OF i] h by (auto simp: phase_ok_def waits_def is_pending_def)
      with that r0 [of k] b own [OF _ _ h] show False by auto
    qed
    have row: "row_from s0 s' k" if r: "runnable (move env (i, now) p) k" for k
    proof -
      have rk: "runnable p k" using r r1 by blast
      have "\<not> (holds (ws ! i) = Some k \<and> before_run (ws ! i) = None)"
      proof
        assume h: "holds (ws ! i) = Some k \<and> before_run (ws ! i) = None"
        have "\<not> waits s k" using ok [OF i] h by (auto simp: phase_ok_def waits_def is_pending_def)
        with rk r0 [of k] h own [of _ k] show False by auto
      qed
      then consider "lookup s' k = lookup s k" | l t j where "lookup s k = Some j" "is_pending j"
          "lookup s' k = Some (set_claimed l t j)"
        using g unfolding good_move_def by blast
      then show ?thesis
      proof cases
        case 1
        then show ?thesis using o [OF rk] by (simp add: row_from_def)
      next
        case (2 l t j)
        then show ?thesis using o [OF rk] by (auto simp: row_from_def is_pending_def)
      qed
    qed
    have "after_run ph" using g unfolding good_move_def by blast
    then have "\<forall>x \<in> set (ws[i := ph]). after_run x"
      using once in_set_update [OF _ i] by (fastforce simp: once_inv_def p)
    then have "once_inv s0 (move env (i, now) p)"
      using r1 nores row by (simp add: once_inv_def) (simp add: mv)
    moreover have "\<forall>k. dead (pl_store (move env (i, now) p)) k \<longrightarrow> dead (pl_store p) k"
      using g by (simp add: good_move_def mv) (simp add: p)
    ultimately show ?thesis using r1 sub by blast
  qed
  then show "once_inv s0 (move env (i, now) p)"
    and "runnable (move env (i, now) p) k \<longleftrightarrow> runnable p k \<and> k \<notin> job_id ` set e"
    and "job_id ` set e \<subseteq> {k. runnable p k}"
    and "dead (pl_store (move env (i, now) p)) k \<Longrightarrow> dead (pl_store p) k" by blast+
qed

lemma executed_once:
  assumes "pool_inv s0 p" and "once_inv s0 p" and "serves env s0"
  shows "distinct (map job_id (executed env sched p)) \<and>
    set (map job_id (executed env sched p)) \<subseteq> {k. runnable p k} \<and>
    (\<forall>k. runnable (run_pool env sched p) k \<longleftrightarrow> runnable p k \<and> k \<notin> set (map job_id (executed env sched p))) \<and>
    once_inv s0 (run_pool env sched p) \<and>
    (\<forall>k. dead (pl_store (run_pool env sched p)) k \<longrightarrow> dead (pl_store p) k)"
  using assms
proof (induction sched arbitrary: p)
  case Nil
  then show ?case by (simp add: run_pool_def)
next
  case (Cons turn rest)
  obtain i now where t: "turn = (i, now)" by fastforce
  let ?e = "if i < length (pl_workers p) then runs_now env (pl_workers p ! i) else []"
  let ?p = "move env (i, now) p"
  note m = once_move [OF Cons.prems(1,2,3), where i = i]
  have IH: "distinct (map job_id (executed env rest ?p)) \<and>
    set (map job_id (executed env rest ?p)) \<subseteq> {k. runnable ?p k} \<and>
    (\<forall>k. runnable (run_pool env rest ?p) k \<longleftrightarrow> runnable ?p k \<and> k \<notin> set (map job_id (executed env rest ?p))) \<and>
    once_inv s0 (run_pool env rest ?p) \<and>
    (\<forall>k. dead (pl_store (run_pool env rest ?p)) k \<longrightarrow> dead (pl_store ?p) k)"
    by (rule Cons.IH [OF move_inv [OF Cons.prems(1)] m(1) Cons.prems(3)])
  have de: "distinct (map job_id ?e)" by (cases "pl_workers p ! i") auto
  have "run_pool env (turn # rest) p = run_pool env rest ?p" by (simp add: run_pool_def t)
  moreover have "executed env (turn # rest) p = ?e @ executed env rest ?p" by (simp add: t)
  moreover have "distinct (map job_id (?e @ executed env rest ?p))"
    using IH de m(2) by (auto simp del: executed.simps)
  moreover have "set (map job_id (?e @ executed env rest ?p)) \<subseteq> {k. runnable p k}"
    using IH m(2,3) by auto
  moreover have "runnable (run_pool env rest ?p) k \<longleftrightarrow>
      runnable p k \<and> k \<notin> set (map job_id (?e @ executed env rest ?p))" for k
    using IH m(2) by auto
  moreover have "dead (pl_store (run_pool env rest ?p)) k \<Longrightarrow> dead (pl_store p) k" for k
    using IH m(4) by blast
  ultimately show ?case using IH by simp
qed

section \<open>The property\<close>

lemma start_once: "serves env s0 \<Longrightarrow> once_inv s0 (start_pool n s0 w)"
  by (auto simp: once_inv_def start_pool_def runnable_def serves_def row_from_def)

lemma runnable_start: "runnable (start_pool n s0 w) k \<longleftrightarrow> waits s0 k"
  by (auto simp: runnable_def start_pool_def waits_def)

lemma pool_once_facts:
  assumes "store_inv s0" and "serves env s0" and "0 < n"
    and p: "p = run_pool env sched (start_pool n s0 w)" and js: "js = executed env sched (start_pool n s0 w)"
  shows "pl_world p = fold (run_handler env) js w" and "distinct (map job_id js)"
    and "set (map job_id js) \<subseteq> {k. waits s0 k}" and "pool_inv s0 p"
    and "joined p \<Longrightarrow> set (map job_id js) = {k. waits s0 k}"
    and "joined p \<Longrightarrow> waits s0 k \<Longrightarrow> map_option job_state (lookup (pl_store p) k) = Some SUCCEEDED"
proof -
  have inv: "pool_inv s0 (start_pool n s0 w)" by (rule start_inv [OF assms(1)])
  have once: "distinct (map job_id js)" "set (map job_id js) \<subseteq> {k. waits s0 k}"
    "\<And>k. runnable p k \<longleftrightarrow> waits s0 k \<and> k \<notin> set (map job_id js)" "\<And>k. dead (pl_store p) k \<Longrightarrow> dead s0 k"
    using executed_once [OF inv start_once [OF assms(2)] assms(2), of sched]
    by (simp_all add: p js runnable_start) (simp_all add: start_pool_def)
  then show "distinct (map job_id js)" "set (map job_id js) \<subseteq> {k. waits s0 k}" by blast+
  show "pl_world p = fold (run_handler env) js w"
    using world_executed [of env sched "start_pool n s0 w"] by (simp add: p js start_pool_def)
  show fin: "pool_inv s0 p" unfolding p by (rule run_inv [OF inv])
  have "length (pl_workers p) = n" by (simp add: p)
  then have ne: "pl_workers p \<noteq> []" using assms(3) by auto
  have gone: "\<forall>ph \<in> set (pl_workers p). ph = Gone" and nw: "\<not> waits (pl_store p) k" if "joined p" for k
    using that fin ne by (auto simp: joined_def list_all_iff pool_inv_def waits_def dest: lookup_SomeD)
  show "set (map job_id js) = {k. waits s0 k}" if j: "joined p"
  proof -
    have "\<not> runnable p k" for k using gone [OF j] nw [OF j] by (auto simp: runnable_def waits_def)
    then show ?thesis using once(2,3) by blast
  qed
  show "map_option job_state (lookup (pl_store p) k) = Some SUCCEEDED" if j: "joined p" and w: "waits s0 k"
  proof -
    obtain j0 where j0: "lookup s0 k = Some j0" "is_pending j0" using w by (auto simp: waits_def)
    have "\<not> held (pl_workers p) k" using gone [OF j] by (auto simp: held_def)
    moreover have "\<exists>j'. lookup (pl_store p) k = Some j' \<and> (is_pending j' \<or> job_state j' = SUCCEEDED \<or>
        job_state j' = DEAD_LETTER \<or> held (pl_workers p) k)"
      using fin j0 by (intro accounted_waiting) (simp_all add: pool_inv_def)
    ultimately obtain j' where j': "lookup (pl_store p) k = Some j'" "job_state j' = SUCCEEDED \<or> job_state j' = DEAD_LETTER"
      using nw [OF j] by (auto simp: waits_def)
    moreover have "\<not> dead s0 k" using j0 by (auto simp: dead_def is_pending_def)
    ultimately show ?thesis using once(4) [of k] by (auto simp: dead_def)
  qed
qed

text \<open>C10. If every waiting job has a handler that returns on it and no recorded result, a pool runs no job twice and no job that was not waiting, and the world is what the handlers
  make of it one after the other, whatever the schedule; once all workers have left, exactly the
  waiting jobs have been run, and all of them are SUCCEEDED.\<close>

theorem pool_runs_once:
  assumes "reachable s0" and "serves env s0" and "0 < n"
  shows "let p = run_pool env sched (start_pool n s0 w); js = executed env sched (start_pool n s0 w);
      waiting = map job_id (filter is_pending (jobs_table s0)) in
    pl_world p = fold (run_handler env) js w \<and> distinct (map job_id js) \<and>
    set (map job_id js) \<subseteq> set waiting \<and>
    (if joined p then set (map job_id js) = set waiting \<and>
       list_all (\<lambda>k. map_option job_state (lookup (pl_store p) k) = Some SUCCEEDED) waiting else True)"
proof -
  define p where "p = run_pool env sched (start_pool n s0 w)"
  define js where "js = executed env sched (start_pool n s0 w)"
  note inv = reachable_inv [OF assms(1)]
  have "k \<in> set (map job_id (filter is_pending (jobs_table s0))) \<longleftrightarrow> waits s0 k" for k
    using lookup_in [OF store_inv_pk [OF inv]] by (auto simp: waits_def dest: lookup_SomeD)
  then have waiting: "set (map job_id (filter is_pending (jobs_table s0))) = {k. waits s0 k}" by blast
  note facts = pool_once_facts [OF inv assms(2,3) p_def js_def]
  show ?thesis
    unfolding Let_def p_def [symmetric] js_def [symmetric] list_all_iff waiting
  proof (intro conjI)
    show "if joined p then set (map job_id js) = {k. waits s0 k} \<and>
        (\<forall>k \<in> {k. waits s0 k}. map_option job_state (lookup (pl_store p) k) = Some SUCCEEDED) else True"
      using facts(5,6) by (simp only: mem_Collect_eq Ball_def split: if_split) blast
  qed (rule facts(1-3))+
qed

definition counting_env :: "nat pool_env" where
  "counting_env = \<lparr>pe_repr = \<lambda>_. ''e'', pe_handlers = \<lambda>_. Some (\<lambda>_ w. (Suc w, HReturn None)), pe_lease = 30\<rparr>"

lemma pool_runs_once_witness:
  "let p = run_pool counting_env (replicate 40 (0, 2) @ replicate 40 (1, 3)) (start_pool 2 sample_store 0)
   in if joined p then map_option job_state (lookup (pl_store p) ''b'') = Some SUCCEEDED else True"
proof -
  have "serves counting_env sample_store"
    by (auto simp: serves_def counting_env_def has_result_def sample_rows row_simps)
  then show ?thesis
    using pool_runs_once [OF reachable_sample, of counting_env 2 "replicate 40 (0, 2) @ replicate 40 (1, 3)" 0]
    by (auto simp: Let_def sample_rows is_pending_def set_claimed_def new_job_def split: if_splits)
qed

end
