(* ===== verification/Advantages.thy ===== *)
theory Advantages
  imports Shop_Prelude
begin

text \<open>
  \<^verbatim>\<open>src/shoprl/grpo/advantages.py\<close>, \<^verbatim>\<open>src/shoprl/rl/rloo.py\<close>, \<^verbatim>\<open>src/shoprl/rl/grpo.py\<close> and the
  batch advantages of \<^verbatim>\<open>src/shoprl/rl/ppo.py\<close>, over exact reals.  The locale \<open>advantage_estimator\<close>
  is what the shared learner step expects of a group estimator.
\<close>

section \<open>The interface\<close>

locale advantage_estimator =
  fixes adv :: "real list \<Rightarrow> real list"
    and scale :: "real list \<Rightarrow> real"
  assumes centered: "adv rs = map (\<lambda>r. scale rs * (r - sum_list rs / real (length rs))) rs"
    and scale_pos: "2 \<le> length rs \<Longrightarrow> 0 < scale rs"
    and scale_nonneg: "0 \<le> scale rs"
begin

lemma length_adv [simp]: "length (adv rs) = length rs"
  by (simp add: centered)

lemma sum_centered:
  fixes m :: real
  shows "sum_list (map (\<lambda>r. c * (r - m)) rs) = c * (sum_list rs - real (length rs) * m)"
  by (induction rs) (simp_all add: algebra_simps)

lemma adv_sum_zero: "sum_list (adv rs) = 0"
proof (cases "rs = []")
  case False
  then have "real (length rs) * (sum_list rs / real (length rs)) = sum_list rs" by simp
  then show ?thesis unfolding centered sum_centered by simp
qed (simp add: centered)

lemma adv_flat: "rs = replicate n r \<Longrightarrow> adv rs = replicate n 0"
  by (cases "n = 0") (simp_all add: centered sum_list_replicate)

lemma adv_order:
  assumes "2 \<le> length rs" and "i < length rs" and "j < length rs"
  shows "adv rs ! i < adv rs ! j \<longleftrightarrow> rs ! i < rs ! j"
  using scale_pos [OF assms(1)] assms(2,3) by (simp add: centered)

lemma adv_shift: "scale (map (\<lambda>r. r + c) rs) = scale rs \<Longrightarrow> adv (map (\<lambda>r. r + c) rs) = adv rs"
proof (cases "rs = []")
  case False
  assume s: "scale (map (\<lambda>r. r + c) rs) = scale rs"
  have "sum_list (map (\<lambda>r. r + c) rs) = sum_list rs + real (length rs) * c"
    by (induction rs) (simp_all add: algebra_simps)
  then have "sum_list (map (\<lambda>r. r + c) rs) / real (length rs) = sum_list rs / real (length rs) + c"
    using False by (simp add: add_divide_distrib)
  then show ?thesis by (simp add: centered s)
qed (simp add: centered)

end

section \<open>The estimators\<close>

definition list_mean :: "real list \<Rightarrow> real" where
  "list_mean rs = sum_list rs / real (length rs)"

text \<open>\<open>statistics.pstdev\<close>.\<close>

definition pstdev :: "real list \<Rightarrow> real" where
  "pstdev rs = sqrt (sum_list (map (\<lambda>r. (r - list_mean rs)\<^sup>2) rs) / real (length rs))"

definition group_advantages :: "real list \<Rightarrow> real \<Rightarrow> bool \<Rightarrow> real list" where
  "group_advantages rewards eps standardize =
     (let n = length rewards in
      if n = 0 then []
      else (let mean = sum_list rewards / real n; centered = map (\<lambda>r. r - mean) rewards in
        if \<not> standardize then centered
        else (let std = pstdev rewards in map (\<lambda>c. c / (std + eps)) centered)))"

definition batch_group_advantages :: "real list list \<Rightarrow> real \<Rightarrow> bool \<Rightarrow> real list list" where
  "batch_group_advantages groups eps standardize = map (\<lambda>g. group_advantages g eps standardize) groups"

definition rloo_advantages :: "real list \<Rightarrow> real list" where
  "rloo_advantages rewards =
     (let g = length rewards in
      if g \<le> 1 then replicate g 0
      else (let total = sum_list rewards in map (\<lambda>r. r - (total - r) / (real g - 1)) rewards))"

text \<open>PPO: the reward minus the critic's value, standardized with the sample standard deviation of the
  batch; \<open>None\<close> is the NaN of a batch of one (or none), whose deviation torch leaves undefined.\<close>

definition ppo_advantages :: "real list \<Rightarrow> real list \<Rightarrow> real list option" where
  "ppo_advantages rewards values =
     (let adv = map2 (-) rewards values; n = length adv; mean = sum_list adv / real n in
      if n \<le> 1 then None
      else (let std = sqrt (sum_list (map (\<lambda>a. (a - mean)\<^sup>2) adv) / (real n - 1))
            in Some (map (\<lambda>a. (a - mean) / (std + 1 / 10 ^ 4)) adv)))"

section \<open>They implement the interface\<close>

lemma pstdev_nonneg: "0 \<le> pstdev rs"
proof -
  have "0 \<le> sum_list (map (\<lambda>r. (r - m)\<^sup>2) rs)" for m by (rule sum_list_nonneg) auto
  then show ?thesis by (simp add: pstdev_def)
qed

interpretation grpo: advantage_estimator "\<lambda>rs. group_advantages rs (1 / 10 ^ 4) True"
    "\<lambda>rs. 1 / (pstdev rs + 1 / 10 ^ 4)"
proof (unfold_locales, goal_cases)
  case (1 rs)
  then show ?case by (cases rs) (simp_all add: group_advantages_def Let_def)
next
  case (2 rs)
  show ?case using pstdev_nonneg [of rs] by (intro divide_pos_pos add_nonneg_pos) simp_all
next
  case (3 rs)
  show ?case using pstdev_nonneg [of rs] by (intro divide_nonneg_nonneg add_nonneg_nonneg) simp_all
qed

interpretation grpo_raw: advantage_estimator "\<lambda>rs. group_advantages rs eps False" "\<lambda>rs. 1"
  by unfold_locales (auto simp: group_advantages_def Let_def)

lemma rloo_scaled:
  "rloo_advantages rs = map (\<lambda>r. (if length rs \<le> 1 then 0 else real (length rs) / (real (length rs) - 1))
      * (r - sum_list rs / real (length rs))) rs"
proof (cases "length rs \<le> 1")
  case True
  then show ?thesis by (simp add: rloo_advantages_def map_replicate_const)
next
  case False
  then have g: "real (length rs) - 1 \<noteq> 0" "real (length rs) \<noteq> 0" by auto
  have "r - (t - r) / (g - 1) = g / (g - 1) * (r - t / g)" if "g - 1 \<noteq> 0" "g \<noteq> 0" for r t g :: real
    using that by (simp add: field_simps)
  with g False show ?thesis by (simp add: rloo_advantages_def Let_def)
qed

interpretation rloo: advantage_estimator rloo_advantages
    "\<lambda>rs. if length rs \<le> 1 then 0 else real (length rs) / (real (length rs) - 1)"
  by unfold_locales (auto simp: rloo_scaled intro!: divide_pos_pos)

section \<open>Properties\<close>

lemma pstdev_shift: "pstdev (map (\<lambda>r. r + c) rs) = pstdev rs"
proof (cases "rs = []")
  case False
  have "sum_list (map (\<lambda>r. r + c) rs) = sum_list rs + real (length rs) * c"
    by (induction rs) (simp_all add: algebra_simps)
  then have "list_mean (map (\<lambda>r. r + c) rs) = list_mean rs + c"
    using False by (simp add: list_mean_def add_divide_distrib)
  then show ?thesis by (simp add: pstdev_def comp_def)
qed (simp add: pstdev_def)

lemma sum_list_replaced: "i < length rs \<Longrightarrow> sum_list (rs[i := x]) = sum_list rs - rs ! i + (x :: real)"
  by (induction rs arbitrary: i) (auto split: nat.splits)

lemma rloo_from_centered:
  assumes "2 \<le> length rs"
  shows "rloo_advantages rs
    = map (\<lambda>a. real (length rs) / (real (length rs) - 1) * a) (group_advantages rs eps False)"
  using assms by (auto simp: rloo_scaled group_advantages_def Let_def)

lemma grpo_from_rloo:
  assumes "2 \<le> length rs"
  shows "group_advantages rs (1 / 10 ^ 4) True
    = map (\<lambda>a. (real (length rs) - 1) / real (length rs) / (pstdev rs + 1 / 10 ^ 4) * a) (rloo_advantages rs)"
proof -
  have "(g - 1) / g / s * (g / (g - 1) * c) = c / s" if "1 < g" for g s c :: real
  proof -
    have "(g - 1) / g / s * (g / (g - 1) * c) = ((g - 1) / g * (g / (g - 1))) * (c / s)" by simp
    also have "(g - 1) / g * (g / (g - 1)) = 1" using that by simp
    finally show ?thesis by simp
  qed
  moreover have "1 < real (length rs)" "rs \<noteq> []" using assms by auto
  ultimately show ?thesis
    using assms by (simp add: rloo_scaled group_advantages_def Let_def)
qed

lemma rloo_baseline_independent:
  assumes "2 \<le> length rs" and "i < length rs"
  shows "x - rloo_advantages (rs[i := x]) ! i = rs ! i - rloo_advantages rs ! i"
  using assms sum_list_replaced [OF assms(2), of x] by (simp add: rloo_advantages_def Let_def)

text \<open>C30. The critic-free estimators on a group of at least two rewards: leave-one-out is the
  mean-centred advantage scaled by g/(g-1), and GRPO's standardized advantage is the leave-one-out one
  scaled by a positive factor, so the two always agree on which of two samples is better, add up to
  zero over the group, give a flat group no gradient and ignore a reward that is added to every
  sample; only the leave-one-out baseline of a sample is independent of that sample's own reward, while
  the group mean moves with it.\<close>

theorem estimators_compared:
  assumes "2 \<le> length rs" and "i < length rs" and "j < length rs" and "x \<noteq> rs ! i"
  shows "rloo_advantages rs
      = map (\<lambda>a. real (length rs) / (real (length rs) - 1) * a) (group_advantages rs eps False) \<and>
    group_advantages rs (1 / 10 ^ 4) True
      = map (\<lambda>a. (real (length rs) - 1) / real (length rs) / (pstdev rs + 1 / 10 ^ 4) * a) (rloo_advantages rs) \<and>
    (group_advantages rs (1 / 10 ^ 4) True ! i < group_advantages rs (1 / 10 ^ 4) True ! j)
      = (rloo_advantages rs ! i < rloo_advantages rs ! j) \<and>
    (rloo_advantages rs ! i < rloo_advantages rs ! j) = (rs ! i < rs ! j) \<and>
    sum_list (group_advantages rs (1 / 10 ^ 4) True) = 0 \<and> sum_list (rloo_advantages rs) = 0 \<and>
    group_advantages (replicate n c) (1 / 10 ^ 4) True = replicate n 0 \<and>
    rloo_advantages (replicate n c) = replicate n 0 \<and>
    group_advantages (map (\<lambda>r. r + c) rs) (1 / 10 ^ 4) True = group_advantages rs (1 / 10 ^ 4) True \<and>
    rloo_advantages (map (\<lambda>r. r + c) rs) = rloo_advantages rs \<and>
    x - rloo_advantages (rs[i := x]) ! i = rs ! i - rloo_advantages rs ! i \<and>
    x - group_advantages (rs[i := x]) eps False ! i \<noteq> rs ! i - group_advantages rs eps False ! i"
proof -
  have "x - group_advantages (rs[i := x]) eps False ! i = (sum_list rs - rs ! i + x) / real (length rs)"
    "rs ! i - group_advantages rs eps False ! i = sum_list rs / real (length rs)"
    using assms(2) sum_list_replaced [OF assms(2), of x] by (auto simp: group_advantages_def Let_def)
  then have m: "x - group_advantages (rs[i := x]) eps False ! i \<noteq> rs ! i - group_advantages rs eps False ! i"
    using assms(2,4) by (cases "rs = []") (simp_all add: divide_cancel_right)
  show ?thesis
    using rloo_from_centered [OF assms(1), of eps] grpo_from_rloo [OF assms(1)]
      grpo.adv_order [OF assms(1-3)] rloo.adv_order [OF assms(1-3)] grpo.adv_sum_zero [of rs]
      rloo.adv_sum_zero [of rs] grpo.adv_flat [OF refl, of n c] rloo.adv_flat [OF refl, of n c]
      grpo.adv_shift [of c rs] rloo.adv_shift [of c rs] rloo_baseline_independent [OF assms(1,2), of x] m
    by (simp add: pstdev_shift)
qed

lemma estimators_compared_witness:
  "sum_list (rloo_advantages [0, 1/2, 1]) = 0 \<and>
    (rloo_advantages [0, 1/2, 1] ! 0 < rloo_advantages [0, 1/2, 1] ! 2) = True"
  using estimators_compared [of "[0, 1/2, 1]" 0 2 5] by simp

end
