(* ===== verification/Text.thy ===== *)
theory Text
  imports Shop_Prelude "HOL-Library.Char_ord" "HOL-Library.List_Lexorder"
begin

text \<open>
  The string operations of Python that the components use, over the code points U+0000 to U+00FF:
  decimal rendering and \<open>int()\<close>, stripping, character classes, prefix and substring tests, joining
  and splitting.
\<close>

section \<open>Characters\<close>

definition code :: "char \<Rightarrow> nat" where
  "code c = of_char c"

text \<open>\<open>str.isspace\<close> of one character.\<close>

definition is_space :: "char \<Rightarrow> bool" where
  "is_space c = (let n = code c in 9 \<le> n \<and> n \<le> 13 \<or> 28 \<le> n \<and> n \<le> 32 \<or> n = 133 \<or> n = 160)"

definition is_digit :: "char \<Rightarrow> bool" where
  "is_digit c \<longleftrightarrow> 48 \<le> code c \<and> code c \<le> 57"

definition digit_value :: "char \<Rightarrow> nat" where
  "digit_value c = code c - 48"

text \<open>\<open>str.lower\<close>: A to Z and the Latin-1 capitals.\<close>

definition lower_char :: "char \<Rightarrow> char" where
  "lower_char c =
     (let n = code c in
      if 65 \<le> n \<and> n \<le> 90 \<or> 192 \<le> n \<and> n \<le> 222 \<and> n \<noteq> 215 then char_of (n + 32) else c)"

definition lower :: "string \<Rightarrow> string" where
  "lower s = map lower_char s"

section \<open>Strings\<close>

definition lstrip :: "string \<Rightarrow> string" where
  "lstrip s = dropWhile is_space s"

definition strip :: "string \<Rightarrow> string" where
  "strip s = rev (dropWhile is_space (rev (lstrip s)))"

definition starts_with :: "string \<Rightarrow> string \<Rightarrow> bool" where
  "starts_with p s \<longleftrightarrow> take (length p) s = p"

text \<open>\<open>sub in s\<close>.\<close>

fun contains :: "string \<Rightarrow> string \<Rightarrow> bool" where
  "contains sub [] \<longleftrightarrow> sub = []"
| "contains sub (c # cs) \<longleftrightarrow> starts_with sub (c # cs) \<or> contains sub cs"

fun join :: "string \<Rightarrow> string list \<Rightarrow> string" where
  "join sep [] = []"
| "join sep [x] = x"
| "join sep (x # y # ys) = x @ sep @ join sep (y # ys)"

text \<open>\<open>s.split(c)\<close> for a single character.\<close>

fun split_on :: "char \<Rightarrow> string \<Rightarrow> string list" where
  "split_on c [] = [[]]"
| "split_on c (x # xs) =
     (if x = c then [] # split_on c xs
      else (case split_on c xs of [] \<Rightarrow> [[x]] | w # ws \<Rightarrow> (x # w) # ws))"

section \<open>Numbers\<close>

fun show_nat :: "nat \<Rightarrow> string" where
  "show_nat n = (if n < 10 then [char_of (48 + n)] else show_nat (n div 10) @ [char_of (48 + n mod 10)])"

declare show_nat.simps [simp del]

definition show_int :: "int \<Rightarrow> string" where
  "show_int i = (if i < 0 then CHR ''-'' # show_nat (nat (- i)) else show_nat (nat i))"

text \<open>\<open>f"{i:06d}"\<close>: the sign first, zeros up to the width.\<close>

definition show_padded :: "nat \<Rightarrow> int \<Rightarrow> string" where
  "show_padded w i =
     (let sign = (if i < 0 then ''-'' else ''''); d = show_nat (nat \<bar>i\<bar>)
      in sign @ replicate (w - length sign - length d) (CHR ''0'') @ d)"

definition digits_value :: "string \<Rightarrow> nat" where
  "digits_value s = foldl (\<lambda>a c. 10 * a + digit_value c) 0 s"

text \<open>The digits of an \<open>int()\<close> literal: single underscores may separate digits.\<close>

fun int_digits :: "string \<Rightarrow> string option" where
  "int_digits [] = None"
| "int_digits [c] = (if is_digit c then Some [c] else None)"
| "int_digits (c # d # cs) =
     (if \<not> is_digit c then None
      else if d = CHR ''_'' then map_option ((#) c) (int_digits cs)
      else map_option ((#) c) (int_digits (d # cs)))"

text \<open>\<open>int(s)\<close>; \<open>None\<close> is its ValueError.\<close>

definition py_int :: "string \<Rightarrow> int option" where
  "py_int s =
     (case strip s of
        [] \<Rightarrow> None
      | c # cs \<Rightarrow>
          (if c = CHR ''-'' then map_option (\<lambda>d. - int (digits_value d)) (int_digits cs)
           else if c = CHR ''+'' then map_option (\<lambda>d. int (digits_value d)) (int_digits cs)
           else map_option (\<lambda>d. int (digits_value d)) (int_digits (c # cs))))"

text \<open>\<open>s.isdigit()\<close> over the ASCII digits and the three Latin-1 superscripts.\<close>

definition isdigit :: "string \<Rightarrow> bool" where
  "isdigit s \<longleftrightarrow> s \<noteq> [] \<and> list_all (\<lambda>c. is_digit c \<or> code c \<in> {178, 179, 185}) s"

section \<open>Rendering and reading back\<close>

lemma code_char_of [simp]: "n < (256::nat) \<Longrightarrow> code (char_of n) = n"
  by (simp add: code_def)

lemma is_digit_render [simp]: "n < (10::nat) \<Longrightarrow> is_digit (char_of (48 + n))"
  by (simp add: is_digit_def)

lemma digit_value_render [simp]: "n < (10::nat) \<Longrightarrow> digit_value (char_of (48 + n)) = n"
  by (simp add: digit_value_def)

lemma digits_value_append: "digits_value (s @ [c]) = 10 * digits_value s + digit_value c"
  by (simp add: digits_value_def)

lemma show_nat_digits: "list_all is_digit (show_nat n)"
proof (induction n rule: show_nat.induct)
  case (1 n)
  then show ?case by (subst show_nat.simps) simp
qed

lemma show_nat_nonempty [simp]: "show_nat n \<noteq> []"
  by (subst show_nat.simps) simp

lemma digits_value_show: "digits_value (show_nat n) = n"
proof (induction n rule: show_nat.induct)
  case (1 n)
  show ?case
  proof (cases "n < 10")
    case True
    then show ?thesis by (subst show_nat.simps) (simp add: digits_value_def)
  next
    case False
    with 1 have "digits_value (show_nat (n div 10)) = n div 10" by simp
    with False show ?thesis by (subst show_nat.simps) (simp add: digits_value_append)
  qed
qed

lemma digit_not_underscore: "is_digit c \<Longrightarrow> c \<noteq> CHR ''_'' \<and> c \<noteq> CHR ''-'' \<and> c \<noteq> CHR ''+''"
  by (auto simp: is_digit_def code_def)

lemma int_digits_plain: "s \<noteq> [] \<Longrightarrow> list_all is_digit s \<Longrightarrow> int_digits s = Some s"
  by (induction s rule: int_digits.induct) (auto dest: digit_not_underscore)

lemma digit_not_space: "is_digit c \<Longrightarrow> \<not> is_space c"
  by (auto simp: is_digit_def is_space_def Let_def)

lemma strip_no_space:
  assumes "s \<noteq> [] \<Longrightarrow> \<not> is_space (hd s)" and "s \<noteq> [] \<Longrightarrow> \<not> is_space (last s)"
  shows "strip s = s"
proof -
  have "lstrip s = s" using assms(1) by (cases s) (simp_all add: lstrip_def)
  moreover have "dropWhile is_space (rev s) = rev s"
    using assms(2) by (cases s rule: rev_cases) simp_all
  ultimately show ?thesis by (simp add: strip_def)
qed

lemma show_nat_ends: "is_digit (hd (show_nat n))" "is_digit (last (show_nat n))"
  using show_nat_digits [of n] show_nat_nonempty [of n] by (auto simp: list_all_iff)

lemma py_int_show: "py_int (show_int i) = Some i"
proof (cases "i < 0")
  case True
  have "strip (CHR ''-'' # show_nat (nat (- i))) = CHR ''-'' # show_nat (nat (- i))"
    using show_nat_ends [of "nat (- i)"] digit_not_space
    by (intro strip_no_space) (auto simp: is_space_def code_def Let_def)
  with True show ?thesis
    by (simp add: show_int_def py_int_def int_digits_plain show_nat_digits digits_value_show)
next
  case False
  have s: "strip (show_nat (nat i)) = show_nat (nat i)"
    using show_nat_ends [of "nat i"] digit_not_space by (intro strip_no_space) auto
  obtain c cs where c: "show_nat (nat i) = c # cs" by (cases "show_nat (nat i)") auto
  then have "is_digit c" using show_nat_ends(1) [of "nat i"] by simp
  then have "c \<noteq> CHR ''-''" "c \<noteq> CHR ''+''" by (auto dest: digit_not_underscore)
  moreover have "int_digits (c # cs) = Some (c # cs)"
    using show_nat_digits [of "nat i"] c by (intro int_digits_plain) auto
  moreover have "digits_value (c # cs) = nat i" using digits_value_show [of "nat i"] c by simp
  ultimately show ?thesis using False s by (simp add: show_int_def py_int_def c)
qed

lemma show_int_inject: "show_int i = show_int j \<longleftrightarrow> i = j"
  using py_int_show by (metis option.inject)

lemma isdigit_show_nat: "isdigit (show_nat n)"
  using show_nat_digits [of n] by (auto simp: isdigit_def list_all_iff)

lemma contains_append_left: "contains sub (pre @ sub @ post)"
proof (induction pre)
  case Nil
  have "contains [] post" by (cases post) (simp_all add: starts_with_def)
  then show ?case by (cases sub) (simp_all add: starts_with_def)
qed simp

text \<open>\<open>os.path.join\<close> of two parts, and \<open>/\<close> on paths.\<close>

definition path_join :: "string \<Rightarrow> string \<Rightarrow> string" where
  "path_join a b =
     (if starts_with ''/'' b then b
      else if a = [] \<or> last a = CHR ''/'' then a @ b else a @ ''/'' @ b)"

end
