(* ===== verification/Trajectory.thy ===== *)
theory Trajectory
  imports Text
begin

text \<open>
  \<^verbatim>\<open>src/shoprl/platform/trajectory.py\<close>: the trajectory schema with its validators.  The
  constructors take Python floats, which may be infinite or NaN, and a validated trajectory holds
  real numbers; \<open>None\<close> is pydantic's ValidationError.
\<close>

section \<open>Python floats\<close>

datatype pyfloat = Fin real | PosInf | NegInf | NaN

definition isfinite :: "pyfloat \<Rightarrow> bool" where
  "isfinite x \<longleftrightarrow> (case x of Fin _ \<Rightarrow> True | _ \<Rightarrow> False)"

text \<open>\<open>_finite\<close>: an absent value passes, a present one must be finite.\<close>

definition finite_field :: "pyfloat option \<Rightarrow> real option option" where
  "finite_field v = (case v of None \<Rightarrow> Some None | Some (Fin r) \<Rightarrow> Some (Some r) | Some _ \<Rightarrow> None)"

section \<open>The schema\<close>

record traj_step =
  st_index :: int
  st_action :: string
  st_observation :: string
  st_reward :: "real option"
  st_logprob :: "real option"

record lineage =
  ln_policy_id :: string
  ln_job_id :: "string option"
  ln_prompt_id :: "string option"
  ln_seed :: "int option"
  ln_parent_id :: "string option"

datatype traj_kind = SingleTurn | MultiTurn

record trajectory =
  tr_id :: string
  tr_kind :: traj_kind
  tr_prompt :: string
  tr_steps :: "traj_step list"
  tr_reward :: "real option"
  tr_lineage :: lineage
  tr_created_at :: real
  tr_meta :: dict

definition make_step ::
  "int \<Rightarrow> string \<Rightarrow> string \<Rightarrow> pyfloat option \<Rightarrow> pyfloat option \<Rightarrow> traj_step option" where
  "make_step index action observation reward logprob =
     (if index < 0 then None
      else (case finite_field reward of
          None \<Rightarrow> None
        | Some r \<Rightarrow>
            (case finite_field logprob of
               None \<Rightarrow> None
             | Some l \<Rightarrow> Some \<lparr>st_index = index, st_action = action, st_observation = observation,
                             st_reward = r, st_logprob = l\<rparr>)))"

text \<open>\<open>_check_steps\<close>.\<close>

definition steps_ok :: "traj_step list \<Rightarrow> bool" where
  "steps_ok steps \<longleftrightarrow> steps \<noteq> [] \<and> map st_index steps = map int [0..<length steps]"

definition make_trajectory ::
  "string \<Rightarrow> traj_kind \<Rightarrow> string \<Rightarrow> traj_step list \<Rightarrow> pyfloat option \<Rightarrow> lineage \<Rightarrow> real \<Rightarrow> dict
    \<Rightarrow> trajectory option" where
  "make_trajectory tid kind prompt steps reward lin now meta =
     (case finite_field reward of
        None \<Rightarrow> None
      | Some r \<Rightarrow>
          if steps_ok steps
          then Some \<lparr>tr_id = tid, tr_kind = kind, tr_prompt = prompt, tr_steps = steps,
                     tr_reward = r, tr_lineage = lin, tr_created_at = now, tr_meta = meta\<rparr>
          else None)"

definition num_steps :: "trajectory \<Rightarrow> nat" where
  "num_steps t = length (tr_steps t)"

text \<open>\<open>from_completion\<close>: the completion is its prompt and text.\<close>

definition from_completion ::
  "string \<Rightarrow> real \<Rightarrow> string \<Rightarrow> string \<Rightarrow> pyfloat option \<Rightarrow> lineage \<Rightarrow> string option \<Rightarrow> trajectory option" where
  "from_completion tid now prompt completion_text reward lin prompt_id =
     (let lin' = (if prompt_id \<noteq> None \<and> ln_prompt_id lin = None
                  then lin\<lparr>ln_prompt_id := prompt_id\<rparr> else lin)
      in case make_step 0 completion_text '''' reward None of
           None \<Rightarrow> None
         | Some st \<Rightarrow> make_trajectory tid SingleTurn prompt [st] reward lin' now [])"

text \<open>\<open>derive\<close>: the overrides are a function on the lineage applied after the parent is set;
  \<open>model_copy\<close> does not validate again.\<close>

definition derive :: "string \<Rightarrow> real \<Rightarrow> (lineage \<Rightarrow> lineage) \<Rightarrow> trajectory \<Rightarrow> trajectory" where
  "derive new_id now overrides t =
     t\<lparr>tr_id := new_id, tr_lineage := overrides ((tr_lineage t)\<lparr>ln_parent_id := Some (tr_id t)\<rparr>),
       tr_created_at := now\<rparr>"

section \<open>Validity\<close>

definition valid_trajectory :: "trajectory \<Rightarrow> bool" where
  "valid_trajectory t \<longleftrightarrow> steps_ok (tr_steps t)"

lemma make_trajectory_valid: "make_trajectory i k p st r l n m = Some t \<Longrightarrow> valid_trajectory t"
  by (auto simp: make_trajectory_def valid_trajectory_def split: option.splits if_splits)

lemma from_completion_valid: "from_completion i n p c r l pid = Some t \<Longrightarrow> valid_trajectory t"
  by (auto simp: from_completion_def Let_def split: option.splits dest: make_trajectory_valid)

lemma derive_valid: "valid_trajectory t \<Longrightarrow> valid_trajectory (derive i n f t)"
  by (simp add: valid_trajectory_def derive_def)

lemma from_completion_iff:
  "from_completion i n p c r l pid = None \<longleftrightarrow> (\<exists>x. r = Some x \<and> \<not> isfinite x)"
  by (auto simp: from_completion_def make_step_def make_trajectory_def finite_field_def steps_ok_def
      isfinite_def Let_def split: option.splits pyfloat.splits)

end
