(* ===== verification/Traj_Store.thy ===== *)
theory Traj_Store
  imports Trajectory
begin

text \<open>
  \<^verbatim>\<open>src/shoprl/platform/traj_store.py\<close>: the trajectory store.  A row is the stored trajectory (the
  indexed columns are projections of it, and the JSON text is the trajectory); rows are in rowid
  order, a replaced row moves to the end.  The locale \<open>keyed_store\<close> states the get/put interface
  that this store and the experiment registry share.
\<close>

section \<open>The get/put interface\<close>

locale keyed_store =
  fixes get :: "'s \<Rightarrow> 'k \<Rightarrow> 'v option"
    and put :: "'v \<Rightarrow> 's \<Rightarrow> 's"
    and key :: "'v \<Rightarrow> 'k"
  assumes get_put: "get (put v s) k = (if k = key v then Some v else get s k)"
begin

lemma get_put_same: "get (put v s) (key v) = Some v"
  by (simp add: get_put)

lemma get_put_other: "k \<noteq> key v \<Longrightarrow> get (put v s) k = get s k"
  by (simp add: get_put)

lemma get_put_twice: "key v = key w \<Longrightarrow> get (put w (put v s)) k = get (put w s) k"
  by (simp add: get_put)

text \<open>After a sequence of writes the last one with the key counts.\<close>

lemma get_puts: "get (fold put vs s) k = (case find (\<lambda>v. key v = k) (rev vs) of None \<Rightarrow> get s k | Some v \<Rightarrow> Some v)"
proof (induction vs rule: rev_induct)
  case Nil
  then show ?case by simp
next
  case (snoc v vs)
  then show ?case by (simp add: get_put)
qed

end

section \<open>The store\<close>

type_synonym traj_table = "trajectory list"

definition traj_put :: "trajectory \<Rightarrow> traj_table \<Rightarrow> traj_table" where
  "traj_put t rows = insert_or_replace tr_id t rows"

definition traj_get :: "traj_table \<Rightarrow> string \<Rightarrow> trajectory option" where
  "traj_get rows tid = row_by tr_id tid rows"

definition traj_query :: "(trajectory \<Rightarrow> bool) \<Rightarrow> traj_table \<Rightarrow> trajectory list" where
  "traj_query P rows = sort_key tr_created_at (filter P rows)"

definition by_job :: "string \<Rightarrow> traj_table \<Rightarrow> trajectory list" where
  "by_job jid = traj_query (\<lambda>t. ln_job_id (tr_lineage t) = Some jid)"

definition by_policy :: "string \<Rightarrow> traj_table \<Rightarrow> trajectory list" where
  "by_policy pid = traj_query (\<lambda>t. ln_policy_id (tr_lineage t) = pid)"

definition traj_children :: "string \<Rightarrow> traj_table \<Rightarrow> trajectory list" where
  "traj_children pid = traj_query (\<lambda>t. ln_parent_id (tr_lineage t) = Some pid)"

lemma traj_get_in: "traj_get rows tid = Some t \<Longrightarrow> t \<in> set rows \<and> tr_id t = tid"
  by (auto simp: traj_get_def dest: row_by_SomeD)

text \<open>The loop of \<open>ancestry\<close>, which collects the chain leaf-first; \<open>Inl\<close> is
  TrajectoryNotFound.\<close>

function ancestry_walk :: "traj_table \<Rightarrow> string list \<Rightarrow> string option \<Rightarrow> string + trajectory list" where
  "ancestry_walk rows seen None = Inr []"
| "ancestry_walk rows seen (Some cur) =
     (if cur \<in> set seen then Inr []
      else (case traj_get rows cur of
          None \<Rightarrow> Inl cur
        | Some t \<Rightarrow>
            (case ancestry_walk rows (cur # seen) (ln_parent_id (tr_lineage t)) of
               Inl e \<Rightarrow> Inl e
             | Inr chain \<Rightarrow> Inr (t # chain))))"
  by pat_completeness auto

termination
proof (relation "measure (\<lambda>(rows, seen, _). card (tr_id ` set rows - set seen))", goal_cases)
  case 1
  then show ?case by simp
next
  case (2 rows seen cur t)
  have "cur \<in> tr_id ` set rows - set seen" using 2 traj_get_in by fastforce
  then have "tr_id ` set rows - set (cur # seen) \<subset> tr_id ` set rows - set seen" by auto
  then have "card (tr_id ` set rows - set (cur # seen)) < card (tr_id ` set rows - set seen)"
    by (intro psubset_card_mono) auto
  then show ?case by simp
qed

definition ancestry :: "traj_table \<Rightarrow> string \<Rightarrow> string + trajectory list" where
  "ancestry rows tid =
     (case ancestry_walk rows [] (Some tid) of Inl e \<Rightarrow> Inl e | Inr chain \<Rightarrow> Inr (rev chain))"

definition traj_count :: "traj_table \<Rightarrow> nat" where
  "traj_count rows = length rows"

text \<open>\<open>recent\<close>: \<open>ORDER BY created_at DESC LIMIT n\<close>.\<close>

definition recent :: "nat \<Rightarrow> traj_table \<Rightarrow> trajectory list" where
  "recent n rows = take n (sort_key (\<lambda>t. - tr_created_at t) rows)"

text \<open>\<open>prune\<close>: \<open>Inl ()\<close> is the ValueError; the value is the number of rows deleted.\<close>

definition traj_prune :: "int \<Rightarrow> (traj_table, unit, nat) action" where
  "traj_prune keep rows =
     (if keep < 0 then (rows, Inl ())
      else (let kept = map tr_id (recent (nat keep) rows);
                rows' = filter (\<lambda>t. tr_id t \<in> set kept) rows
            in (rows', Inr (length rows - length rows'))))"

record reward_summary =
  rs_count :: nat
  rs_min :: real
  rs_mean :: real
  rs_max :: real

definition rewards :: "traj_table \<Rightarrow> real list" where
  "rewards rows = List.map_filter tr_reward rows"

definition reward_stats :: "traj_table \<Rightarrow> reward_summary option" where
  "reward_stats rows =
     (let vals = rewards rows in
      if vals = [] then None
      else Some \<lparr>rs_count = length vals, rs_min = Min (set vals),
                 rs_mean = sum_list vals / real (length vals), rs_max = Max (set vals)\<rparr>)"

text \<open>\<open>GROUP BY policy_id ORDER BY MIN(created_at)\<close> over the rows with a reward.\<close>

definition reward_by_policy :: "traj_table \<Rightarrow> (string \<times> real \<times> nat) list" where
  "reward_by_policy rows =
     (let scored = filter (\<lambda>t. tr_reward t \<noteq> None) rows;
          group = (\<lambda>p. filter (\<lambda>t. ln_policy_id (tr_lineage t) = p) scored);
          pols = sort_key (\<lambda>p. Min (set (map tr_created_at (group p))))
                   (remdups (map (\<lambda>t. ln_policy_id (tr_lineage t)) scored))
      in map (\<lambda>p. (p, sum_list (rewards (group p)) / real (length (group p)), length (group p))) pols)"

section \<open>Facts\<close>

definition traj_pk :: "traj_table \<Rightarrow> bool" where
  "traj_pk rows \<longleftrightarrow> distinct (map tr_id rows)"

lemma traj_pk_put: "traj_pk rows \<Longrightarrow> traj_pk (traj_put t rows)"
  by (simp add: traj_pk_def traj_put_def distinct_insert_or_replace)

interpretation traj: keyed_store traj_get traj_put tr_id
  by unfold_locales (simp add: traj_get_def traj_put_def row_by_insert_or_replace)

text \<open>What a finished walk returned.\<close>

fun linked :: "trajectory list \<Rightarrow> bool" where
  "linked [] \<longleftrightarrow> True"
| "linked [t] \<longleftrightarrow> True"
| "linked (t # u # ts) \<longleftrightarrow> ln_parent_id (tr_lineage t) = Some (tr_id u) \<and> linked (u # ts)"

lemma ancestry_walk_chain:
  "ancestry_walk rows seen cur = Inr chain \<Longrightarrow>
    linked chain \<and> set chain \<subseteq> set rows \<and> distinct (map tr_id chain) \<and>
    tr_id ` set chain \<inter> set seen = {} \<and>
    (case chain of [] \<Rightarrow> cur = None \<or> (\<exists>c. cur = Some c \<and> c \<in> set seen) | t # _ \<Rightarrow> cur = Some (tr_id t)) \<and>
    (chain \<noteq> [] \<longrightarrow> (case ln_parent_id (tr_lineage (last chain)) of
        None \<Rightarrow> True | Some p \<Rightarrow> p \<in> set seen \<or> p \<in> tr_id ` set chain))"
proof (induction rows seen cur arbitrary: chain rule: ancestry_walk.induct)
  case (1 rows seen)
  then show ?case by simp
next
  case (2 rows seen cur)
  show ?case
  proof (cases "cur \<in> set seen")
    case True
    with "2.prems" show ?thesis by simp
  next
    case False
    with "2.prems" obtain t where t: "traj_get rows cur = Some t" by (auto split: option.splits)
    with False "2.prems" obtain c where
      c: "ancestry_walk rows (cur # seen) (ln_parent_id (tr_lineage t)) = Inr c" "chain = t # c"
      by (auto split: sum.splits)
    have tt: "t \<in> set rows" "tr_id t = cur" using traj_get_in [OF t] by auto
    note ih = "2.IH" [OF False t c(1)]
    show ?thesis
    proof (cases c)
      case Nil
      with ih tt c(2) False show ?thesis by (auto split: option.splits)
    next
      case (Cons u us)
      with ih tt c(2) False show ?thesis by (auto split: option.splits)
    qed
  qed
qed

end
