(* ===== verification/Exp_Registry.thy ===== *)
theory Exp_Registry
  imports Traj_Store
begin

text \<open>
  \<^verbatim>\<open>src/shoprl/platform/registry.py\<close>: the experiment registry.  A row is the stored run record (the
  columns are projections of it).  The hash and the JSON text of a configuration, and the commit that
  git reports, are parameters.
\<close>

section \<open>Records\<close>

datatype run_status = RsCreated | RsRunning | RsSucceeded | RsFailed | RsCancelled

fun run_status_value :: "run_status \<Rightarrow> string" where
  "run_status_value RsCreated = ''created''"
| "run_status_value RsRunning = ''running''"
| "run_status_value RsSucceeded = ''succeeded''"
| "run_status_value RsFailed = ''failed''"
| "run_status_value RsCancelled = ''cancelled''"

record run_record =
  rr_id :: string
  rr_algorithm :: string
  rr_config_hash :: string
  rr_model :: string
  rr_dataset_version :: string
  rr_reward_version :: string
  rr_git_commit :: "string option"
  rr_status :: run_status
  rr_started_at :: "real option"
  rr_ended_at :: "real option"
  rr_best_checkpoint :: "string option"
  rr_policy_version :: "int option"
  rr_eval_result :: "dict option"
  rr_cost_estimate :: "dict option"
  rr_created_at :: real
  rr_meta :: dict

text \<open>What the registry reads of a configuration; the two JSON texts that are hashed come with it.\<close>

record run_config =
  rc_algorithm :: string
  rc_model_name :: string
  rc_catalog_size :: int
  rc_seed :: int
  rc_json :: string
  rc_reward_json :: string

definition config_hash :: "(string \<Rightarrow> string) \<Rightarrow> run_config \<Rightarrow> string" where
  "config_hash sha cfg = take 12 (sha (rc_json cfg))"

definition dataset_version :: "run_config \<Rightarrow> string" where
  "dataset_version cfg =
     ''catalog'' @ show_int (rc_catalog_size cfg) @ ''-seed'' @ show_int (rc_seed cfg)"

definition reward_version :: "(string \<Rightarrow> string) \<Rightarrow> run_config \<Rightarrow> string" where
  "reward_version sha cfg = ''rw-'' @ take 8 (sha (rc_reward_json cfg))"

definition new_run ::
  "string \<Rightarrow> real \<Rightarrow> string \<Rightarrow> string \<Rightarrow> string \<Rightarrow> string \<Rightarrow> string \<Rightarrow> string option \<Rightarrow> run_record" where
  "new_run fresh now alg ch model dv rv commit =
     \<lparr>rr_id = fresh, rr_algorithm = alg, rr_config_hash = ch, rr_model = model,
      rr_dataset_version = dv, rr_reward_version = rv, rr_git_commit = commit,
      rr_status = RsCreated, rr_started_at = None, rr_ended_at = None, rr_best_checkpoint = None,
      rr_policy_version = None, rr_eval_result = None, rr_cost_estimate = None,
      rr_created_at = now, rr_meta = []\<rparr>"

definition record_from_config ::
  "(string \<Rightarrow> string) \<Rightarrow> string option \<Rightarrow> string \<Rightarrow> real \<Rightarrow> run_config \<Rightarrow> (run_record \<Rightarrow> run_record) \<Rightarrow> run_record" where
  "record_from_config sha commit fresh now cfg over =
     over (new_run fresh now (rc_algorithm cfg) (config_hash sha cfg) (rc_model_name cfg)
             (dataset_version cfg) (reward_version sha cfg) commit)"

section \<open>The store\<close>

type_synonym run_table = "run_record list"

datatype run_error = RunNotFound string

definition run_save :: "run_record \<Rightarrow> run_table \<Rightarrow> run_table" where
  "run_save r rows = insert_or_replace rr_id r rows"

definition run_get :: "run_table \<Rightarrow> string \<Rightarrow> run_record option" where
  "run_get rows rid = row_by rr_id rid rows"

interpretation runs: keyed_store run_get run_save rr_id
  by unfold_locales (simp add: run_get_def run_save_def row_by_insert_or_replace)

definition run_list :: "string option \<Rightarrow> run_status option \<Rightarrow> run_table \<Rightarrow> run_record list" where
  "run_list alg st rows =
     sort_key rr_created_at (filter (\<lambda>r.
       (case alg of None \<Rightarrow> True | Some a \<Rightarrow> a = [] \<or> rr_algorithm r = a) \<and>
       (case st of None \<Rightarrow> True | Some x \<Rightarrow> rr_status r = x)) rows)"

text \<open>\<open>now or time.time()\<close>: a zero is falsy.\<close>

definition now_or :: "real option \<Rightarrow> real \<Rightarrow> real" where
  "now_or now clock = (case now of None \<Rightarrow> clock | Some t \<Rightarrow> if t = 0 then clock else t)"

definition run_update :: "(run_record \<Rightarrow> run_record) \<Rightarrow> string \<Rightarrow> (run_table, run_error, run_record) action" where
  "run_update f rid rows =
     (case run_get rows rid of
        None \<Rightarrow> (rows, Inl (RunNotFound rid))
      | Some r \<Rightarrow> (run_save (f r) rows, Inr (f r)))"

definition run_start :: "real option \<Rightarrow> real \<Rightarrow> string \<Rightarrow> (run_table, run_error, run_record) action" where
  "run_start now clock =
     run_update (\<lambda>r. r\<lparr>rr_status := RsRunning, rr_started_at := Some (now_or now clock)\<rparr>)"

definition finish_with ::
  "run_status \<Rightarrow> dict option \<Rightarrow> string option \<Rightarrow> dict option \<Rightarrow> real \<Rightarrow> run_record \<Rightarrow> run_record" where
  "finish_with st ev ckpt cost t r =
     r\<lparr>rr_status := st, rr_ended_at := Some t,
       rr_eval_result := (if ev \<noteq> None then ev else rr_eval_result r),
       rr_best_checkpoint := (case ckpt of None \<Rightarrow> rr_best_checkpoint r
                                | Some c \<Rightarrow> if c = [] then rr_best_checkpoint r else Some c),
       rr_cost_estimate := (if cost \<noteq> None then cost else rr_cost_estimate r)\<rparr>"

definition run_finish ::
  "real option \<Rightarrow> real \<Rightarrow> run_status \<Rightarrow> dict option \<Rightarrow> string option \<Rightarrow> dict option \<Rightarrow> string
    \<Rightarrow> (run_table, run_error, run_record) action" where
  "run_finish now clock st ev ckpt cost = run_update (finish_with st ev ckpt cost (now_or now clock))"

section \<open>Comparing runs\<close>

record compare_row =
  cr_run_id :: string
  cr_algorithm :: string
  cr_status :: string
  cr_config_hash :: string
  cr_git_commit :: "string option"
  cr_reward_gain :: "json option"
  cr_final_kl :: "json option"
  cr_max_kl :: "json option"
  cr_cost_usd :: "json option"
  cr_best_checkpoint :: "string option"

definition or_empty :: "dict option \<Rightarrow> dict" where
  "or_empty d = (case d of None \<Rightarrow> [] | Some x \<Rightarrow> x)"

definition row_of :: "run_record \<Rightarrow> compare_row" where
  "row_of r =
     (let ev = or_empty (rr_eval_result r) in
      \<lparr>cr_run_id = rr_id r, cr_algorithm = rr_algorithm r, cr_status = run_status_value (rr_status r),
       cr_config_hash = rr_config_hash r, cr_git_commit = rr_git_commit r,
       cr_reward_gain = map_of ev ''reward_gain'', cr_final_kl = map_of ev ''final_kl'',
       cr_max_kl = map_of ev ''max_kl'',
       cr_cost_usd = map_of (or_empty (rr_cost_estimate r)) ''usd'',
       cr_best_checkpoint = rr_best_checkpoint r\<rparr>)"

record comparison =
  cmp_rows :: "compare_row list"
  cmp_comparable :: bool
  cmp_dataset_versions :: "string list"
  cmp_reward_versions :: "string list"

definition run_compare :: "run_table \<Rightarrow> string list \<Rightarrow> run_error + comparison" where
  "run_compare rows ids =
     (case mapE (\<lambda>rid. case run_get rows rid of None \<Rightarrow> Inl (RunNotFound rid) | Some r \<Rightarrow> Inr r) ids of
        Inl e \<Rightarrow> Inl e
      | Inr recs \<Rightarrow>
          (let dvs = remdups (map rr_dataset_version recs);
               rvs = remdups (map rr_reward_version recs)
           in Inr \<lparr>cmp_rows = map row_of recs,
                   cmp_comparable = (length dvs \<le> 1 \<and> length rvs \<le> 1),
                   cmp_dataset_versions = sort dvs, cmp_reward_versions = sort rvs\<rparr>))"

section \<open>Importing a result\<close>

definition get_or_null :: "dict \<Rightarrow> string \<Rightarrow> json" where
  "get_or_null d k = (case map_of d k of None \<Rightarrow> JNull | Some v \<Rightarrow> v)"

text \<open>\<open>(result.get(k) or {}).get("reward_mean")\<close> for an entry that is an object or absent.\<close>

definition held_out_mean :: "dict \<Rightarrow> string \<Rightarrow> json" where
  "held_out_mean d k =
     (case map_of d k of Some (JObj o') \<Rightarrow> get_or_null o' ''reward_mean'' | _ \<Rightarrow> JNull)"

definition str_or :: "dict \<Rightarrow> string \<Rightarrow> string \<Rightarrow> string" where
  "str_or d k dflt = (case map_of d k of Some (JStr s) \<Rightarrow> s | _ \<Rightarrow> dflt)"

definition result_eval :: "dict \<Rightarrow> dict" where
  "result_eval result =
     [(''reward_gain'', get_or_null result ''reward_gain''),
      (''final_kl'', get_or_null result ''final_kl''),
      (''max_kl'', get_or_null result ''max_kl''),
      (''reward_before'', held_out_mean result ''held_out_before''),
      (''reward_after'', held_out_mean result ''held_out_after''),
      (''stability_failures'', get_or_null result ''stability_failures'')]"

definition register_rl_result ::
  "(string \<Rightarrow> string) \<Rightarrow> string option \<Rightarrow> string \<Rightarrow> real \<Rightarrow> real \<Rightarrow> dict \<Rightarrow> run_config option \<Rightarrow> dict option
    \<Rightarrow> run_table \<Rightarrow> run_table \<times> run_record" where
  "register_rl_result sha commit fresh now now' result cfg cost rows =
     (let base = (case cfg of
            Some c \<Rightarrow> (record_from_config sha commit fresh now c (\<lambda>r. r))
                        \<lparr>rr_algorithm := str_or result ''algorithm'' (rc_algorithm c)\<rparr>
          | None \<Rightarrow> new_run fresh now (str_or result ''algorithm'' ''unknown'') ''imported''
                      (str_or result ''model'' ''unknown'') ''imported'' ''imported'' commit);
          rec = base\<lparr>rr_status := RsSucceeded, rr_started_at := Some (rr_created_at base),
                     rr_ended_at := Some now', rr_eval_result := Some (result_eval result),
                     rr_cost_estimate := cost\<rparr>
      in (run_save rec rows, rec))"

end
