(* ===== verification/Config.thy ===== *)
theory Config
  imports Exp_Registry
begin

text \<open>
  \<^verbatim>\<open>src/shoprl/config.py\<close>: the experiment configuration, its defaults and its validation.  The YAML
  parser and pydantic's reading of a parsed document are parameters of \<open>load_config\<close>.
\<close>

section \<open>Sections of a configuration\<close>

record experiment_config =
  xc_name :: string
  xc_seed :: int

datatype device = DevAuto | DevCpu | DevMps | DevCuda

record model_config =
  mc_name :: string
  mc_dtype :: string
  mc_device :: device

datatype engine_kind = EngStub | EngHf | EngVllm

fun engine_value :: "engine_kind \<Rightarrow> string" where
  "engine_value EngStub = ''stub''"
| "engine_value EngHf = ''hf''"
| "engine_value EngVllm = ''vllm''"

record rollout_config =
  ro_engine :: engine_kind
  ro_max_new_tokens :: int
  ro_temperature :: real
  ro_top_p :: real
  ro_num_samples :: int

record training_config =
  tc_steps :: int
  tc_prompts_per_step :: int
  tc_lr :: real
  tc_clip_eps :: real
  tc_beta :: real
  tc_max_grad_norm :: real
  tc_lora_r :: int
  tc_lora_alpha :: int
  tc_catalog_size :: int
  tc_shortlist :: int
  tc_ckpt_dir :: string
  tc_save_every :: int

record reward_config =
  wc_weights :: "(string \<times> real) list"
  wc_penalty :: real

datatype algorithm = Grpo | Rloo | Ppo

fun algorithm_value :: "algorithm \<Rightarrow> string" where
  "algorithm_value Grpo = ''grpo''"
| "algorithm_value Rloo = ''rloo''"
| "algorithm_value Ppo = ''ppo''"

record config =
  cf_experiment :: experiment_config
  cf_model :: model_config
  cf_algorithm :: algorithm
  cf_rollout :: rollout_config
  cf_training :: training_config
  cf_rewards :: reward_config

section \<open>Defaults\<close>

definition default_experiment :: experiment_config where
  "default_experiment = \<lparr>xc_name = ''shoprl-dev'', xc_seed = 0\<rparr>"

definition default_model :: model_config where
  "default_model = \<lparr>mc_name = ''Qwen/Qwen3-0.6B'', mc_dtype = ''auto'', mc_device = DevAuto\<rparr>"

definition default_rollout :: rollout_config where
  "default_rollout =
     \<lparr>ro_engine = EngHf, ro_max_new_tokens = 128, ro_temperature = 8/10, ro_top_p = 95/100,
      ro_num_samples = 4\<rparr>"

definition default_training :: training_config where
  "default_training =
     \<lparr>tc_steps = 3, tc_prompts_per_step = 1, tc_lr = 1 / 10 ^ 5, tc_clip_eps = 2/10, tc_beta = 4/100,
      tc_max_grad_norm = 1, tc_lora_r = 8, tc_lora_alpha = 16, tc_catalog_size = 300,
      tc_shortlist = 6, tc_ckpt_dir = ''checkpoints'', tc_save_every = 50\<rparr>"

definition default_rewards :: reward_config where
  "default_rewards =
     \<lparr>wc_weights = [(''budget'', 25/100), (''groundedness'', 25/100), (''coverage'', 25/100),
        (''quality_format'', 15/100), (''quality_comparison'', 10/100)],
      wc_penalty = 50/100\<rparr>"

definition default_settings :: config where
  "default_settings =
     \<lparr>cf_experiment = default_experiment, cf_model = default_model, cf_algorithm = Grpo,
      cf_rollout = default_rollout, cf_training = default_training, cf_rewards = default_rewards\<rparr>"

section \<open>Validation and loading\<close>

text \<open>The \<open>ge=1\<close> bounds of the fields.\<close>

definition config_valid :: "config \<Rightarrow> bool" where
  "config_valid c \<longleftrightarrow>
     1 \<le> ro_num_samples (cf_rollout c) \<and> 1 \<le> tc_steps (cf_training c)
     \<and> 1 \<le> tc_prompts_per_step (cf_training c)"

datatype config_error = ConfigNotFound string | YamlError | ValidationError

text \<open>\<open>files\<close> are the readable files.  \<open>yaml.safe_load(f) or {}\<close>: a falsy document is an empty one.\<close>

definition load_config ::
  "(string \<Rightarrow> json option) \<Rightarrow> (json \<Rightarrow> config option) \<Rightarrow> (string \<Rightarrow> string option) \<Rightarrow> string
    \<Rightarrow> config_error + config" where
  "load_config safe_load read_config files path =
     (case files path of
        None \<Rightarrow> Inl (ConfigNotFound path)
      | Some txt' \<Rightarrow>
          (case safe_load txt' of
             None \<Rightarrow> Inl YamlError
           | Some raw \<Rightarrow>
               (case read_config (if falsy raw then JObj [] else raw) of
                  None \<Rightarrow> Inl ValidationError
                | Some c \<Rightarrow> if config_valid c then Inr c else Inl ValidationError)))"

lemma load_config_valid: "load_config sl rd files path = Inr c \<Longrightarrow> config_valid c"
  by (auto simp: load_config_def split: option.splits if_splits)

lemma default_settings_valid: "config_valid default_settings"
  by (simp add: config_valid_def default_settings_def default_rollout_def default_training_def)

text \<open>What the experiment registry reads of a configuration.\<close>

definition run_config_of :: "(config \<Rightarrow> string) \<Rightarrow> (reward_config \<Rightarrow> string) \<Rightarrow> config \<Rightarrow> run_config" where
  "run_config_of dump dump_rewards c =
     \<lparr>rc_algorithm = algorithm_value (cf_algorithm c), rc_model_name = mc_name (cf_model c),
      rc_catalog_size = tc_catalog_size (cf_training c), rc_seed = xc_seed (cf_experiment c),
      rc_json = dump c, rc_reward_json = dump_rewards (cf_rewards c)\<rparr>"

end
