(* ===== verification/Grpo_Loss.thy ===== *)
theory Grpo_Loss
  imports Shop_Prelude
begin

text \<open>
  \<^verbatim>\<open>src/shoprl/grpo/loss.py\<close>, \<^verbatim>\<open>src/shoprl/grpo/kl.py\<close> and \<^verbatim>\<open>src/shoprl/grpo/logprobs.py\<close>: the
  values the tensor code computes, over exact reals.  A tensor of shape [B, T] is a list of rows;
  \<open>detach\<close> and \<open>no_grad\<close> concern the gradient only and leave the values alone.
\<close>

section \<open>KL estimate\<close>

definition token_kl :: "real \<Rightarrow> real \<Rightarrow> real" where
  "token_kl logp_policy logp_ref = (let delta = logp_ref - logp_policy in exp delta - delta - 1)"

section \<open>Loss\<close>

record token =
  tk_policy :: real
  tk_old :: real
  tk_ref :: real
  tk_adv :: real
  tk_mask :: real

text \<open>The tokens of a batch: the per-sequence advantage is broadcast over its row.\<close>

definition row_tokens :: "real \<Rightarrow> real list \<Rightarrow> real list \<Rightarrow> real list \<Rightarrow> real list \<Rightarrow> token list" where
  "row_tokens adv pol old ref msk =
     map (\<lambda>(p, q, r, m). \<lparr>tk_policy = p, tk_old = q, tk_ref = r, tk_adv = adv, tk_mask = m\<rparr>)
       (zip pol (zip old (zip ref msk)))"

definition batch_tokens ::
  "real list list \<Rightarrow> real list list \<Rightarrow> real list list \<Rightarrow> real list \<Rightarrow> real list list \<Rightarrow> token list" where
  "batch_tokens pol old ref adv msk =
     concat (map (\<lambda>(a, p, q, r, m). row_tokens a p q r m) (zip adv (zip pol (zip old (zip ref msk)))))"

definition ratio :: "token \<Rightarrow> real" where
  "ratio t = exp (tk_policy t - tk_old t)"

definition unclipped :: "token \<Rightarrow> real" where
  "unclipped t = ratio t * tk_adv t"

definition clipped :: "real \<Rightarrow> token \<Rightarrow> real" where
  "clipped eps t = min (max (ratio t) (1 - eps)) (1 + eps) * tk_adv t"

definition surrogate :: "real \<Rightarrow> token \<Rightarrow> real" where
  "surrogate eps t = min (unclipped t) (clipped eps t)"

definition per_token :: "real \<Rightarrow> real \<Rightarrow> token \<Rightarrow> real" where
  "per_token eps beta t = surrogate eps t - beta * token_kl (tk_policy t) (tk_ref t)"

definition denom :: "token list \<Rightarrow> real" where
  "denom ts = max 1 (sum_list (map tk_mask ts))"

definition masked_mean :: "(token \<Rightarrow> real) \<Rightarrow> token list \<Rightarrow> real" where
  "masked_mean f ts = sum_list (map (\<lambda>t. f t * tk_mask t) ts) / denom ts"

record grpo_stats =
  gs_loss :: real
  gs_mean_kl :: real
  gs_mean_ratio :: real
  gs_clip_fraction :: real
  gs_mean_advantage :: real

definition grpo_loss ::
  "real list list \<Rightarrow> real list list \<Rightarrow> real list list \<Rightarrow> real list \<Rightarrow> real list list \<Rightarrow> real \<Rightarrow> real \<Rightarrow> grpo_stats" where
  "grpo_loss logp_policy logp_old logp_ref advantages msk clip_eps beta =
     (let ts = batch_tokens logp_policy logp_old logp_ref advantages msk in
      \<lparr>gs_loss = - masked_mean (per_token clip_eps beta) ts,
       gs_mean_kl = masked_mean (\<lambda>t. token_kl (tk_policy t) (tk_ref t)) ts,
       gs_mean_ratio = masked_mean ratio ts,
       gs_clip_fraction = masked_mean (\<lambda>t. if unclipped t \<noteq> clipped clip_eps t then 1 else 0) ts,
       gs_mean_advantage = sum_list advantages / real (length advantages)\<rparr>)"

section \<open>Log-probabilities and batches\<close>

definition logsumexp :: "real list \<Rightarrow> real" where
  "logsumexp xs = ln (sum_list (map exp xs))"

text \<open>One row: \<open>logits[:, :-1]\<close> against the next ids.\<close>

definition token_logprobs :: "real list list \<Rightarrow> nat list \<Rightarrow> real list" where
  "token_logprobs logits ids = map2 (\<lambda>l x. l ! x - logsumexp l) (butlast logits) (tl ids)"

text \<open>\<open>mean_entropy\<close> over the rows that the mask selects.\<close>

definition entropy_of :: "real list \<Rightarrow> real" where
  "entropy_of l = - sum_list (map (\<lambda>x. exp (x - logsumexp l) * (x - logsumexp l)) l)"

definition mean_entropy :: "real list list list \<Rightarrow> real list list \<Rightarrow> real" where
  "mean_entropy logits mask_shift =
     (let sel = map fst (filter (\<lambda>(_, m). m \<noteq> 0)
                  (concat (map2 (\<lambda>rows ms. zip (butlast rows) ms) logits mask_shift)))
      in if sel = [] then 0 else sum_list (map entropy_of sel) / real (length sel))"

record completion =
  co_prompt :: string
  co_text :: string
  co_prompt_ids :: "nat list"
  co_ids :: "nat list"

definition pad_to :: "nat \<Rightarrow> 'a \<Rightarrow> 'a list \<Rightarrow> 'a list" where
  "pad_to n x xs = xs @ replicate (n - length xs) x"

text \<open>\<open>build_batch\<close>; \<open>None\<close> is the ValueError of \<open>max\<close> over an empty batch.\<close>

definition build_batch ::
  "completion list \<Rightarrow> nat \<Rightarrow> (nat list list \<times> nat list list \<times> real list list) option" where
  "build_batch completions pad_id =
     (if completions = [] then None
      else
        (let seqs = map (\<lambda>c. co_prompt_ids c @ co_ids c) completions;
             cmasks = map (\<lambda>c. replicate (length (co_prompt_ids c)) 0 @ replicate (length (co_ids c)) 1) completions;
             T = Max (set (map length seqs))
         in Some (map (pad_to T pad_id) seqs, map (\<lambda>s. pad_to T 0 (replicate (length s) 1)) seqs,
                  map (pad_to T 0) cmasks)))"

section \<open>Facts\<close>

lemma token_kl_nonneg: "0 \<le> token_kl p r"
  unfolding token_kl_def Let_def using exp_ge_add_one_self [of "r - p"] by linarith

lemma token_kl_zero: "token_kl p r = 0 \<longleftrightarrow> p = r"
proof
  assume "token_kl p r = 0"
  then have "ln (exp (r - p)) = exp (r - p) - 1" by (simp add: token_kl_def Let_def)
  then have "exp (r - p) = 1" by (intro ln_eq_minus_one) simp_all
  then show "p = r" by simp
qed (simp add: token_kl_def)

lemma sum_exp_pos: "l \<noteq> [] \<Longrightarrow> 0 < sum_list (map exp (l :: real list))"
proof (induction l)
  case (Cons x l)
  have "0 \<le> sum_list (map exp l)" by (rule sum_list_nonneg) auto
  then show ?case by (simp add: add_pos_nonneg)
qed simp

lemma softmax_sums_to_one:
  assumes "l \<noteq> []"
  shows "sum_list (map (\<lambda>x. exp (x - logsumexp l)) l) = 1"
proof -
  have p: "0 < sum_list (map exp l)" using assms by (rule sum_exp_pos)
  then have "exp (x - logsumexp l) = exp x * (1 / sum_list (map exp l))" for x
    by (simp add: logsumexp_def exp_diff)
  then have "sum_list (map (\<lambda>x. exp (x - logsumexp l)) l) = sum_list (map exp l) * (1 / sum_list (map exp l))"
    by (simp only: sum_list_mult_const)
  with p show ?thesis by simp
qed

lemma logprob_nonpos: "x \<in> set l \<Longrightarrow> x - logsumexp l \<le> 0"
proof -
  assume x: "x \<in> set l"
  then have "exp x \<le> sum_list (map exp l)" by (intro member_le_sum_list) auto
  then have "ln (exp x) \<le> ln (sum_list (map exp l))" by (subst ln_le_cancel_iff) (auto intro!: sum_exp_pos)
  then show ?thesis by (simp add: logsumexp_def)
qed

lemma entropy_nonneg: "0 \<le> entropy_of l"
proof -
  have "0 \<le> - (exp (x - logsumexp l) * (x - logsumexp l))" if "x \<in> set l" for x
    using logprob_nonpos [OF that] by (simp add: mult_nonneg_nonpos)
  then have "0 \<le> sum_list (map (\<lambda>x. - (exp (x - logsumexp l) * (x - logsumexp l))) l)"
    by (intro sum_list_nonneg) auto
  then show ?thesis by (simp add: entropy_of_def uminus_sum_list_map comp_def)
qed

lemma masked_mean_cong:
  assumes "list_all2 (\<lambda>t u. tk_mask t = tk_mask u \<and> (tk_mask t = 0 \<or> t = u)) ts us"
  shows "masked_mean f ts = masked_mean f us"
proof -
  have "map tk_mask ts = map tk_mask us"
    using assms by (induction rule: list_all2_induct) auto
  moreover have "map (\<lambda>t. f t * tk_mask t) ts = map (\<lambda>t. f t * tk_mask t) us"
    using assms by (induction rule: list_all2_induct) auto
  ultimately show ?thesis by (simp only: masked_mean_def denom_def)
qed

lemma denom_pos: "0 < denom ts"
  by (simp add: denom_def)

lemma masked_mean_mono:
  assumes "\<And>t. t \<in> set ts \<Longrightarrow> f t \<le> g t" and "list_all (\<lambda>t. 0 \<le> tk_mask t) ts"
  shows "masked_mean f ts \<le> masked_mean g ts"
proof -
  have "sum_list (map (\<lambda>t. f t * tk_mask t) ts) \<le> sum_list (map (\<lambda>t. g t * tk_mask t) ts)"
    using assms by (intro sum_list_mono mult_right_mono) (auto simp: list_all_iff)
  then show ?thesis using denom_pos [of ts] by (simp add: masked_mean_def divide_right_mono)
qed

lemma masked_mean_linear:
  "masked_mean (\<lambda>t. f t - c * g t) ts = masked_mean f ts - c * masked_mean g ts"
proof -
  have "sum_list (map (\<lambda>t. (f t - c * g t) * tk_mask t) ts)
      = sum_list (map (\<lambda>t. f t * tk_mask t) ts) - c * sum_list (map (\<lambda>t. g t * tk_mask t) ts)"
    by (induction ts) (simp_all add: algebra_simps)
  then show ?thesis by (simp add: masked_mean_def diff_divide_distrib)
qed

lemma masked_mean_one: "list_all (\<lambda>t. 0 \<le> tk_mask t) ts \<Longrightarrow> masked_mean (\<lambda>_. 1) ts \<le> 1"
  by (simp add: masked_mean_def denom_def)

lemma masked_mean_zero: "masked_mean (\<lambda>_. 0) ts = 0"
  by (simp add: masked_mean_def sum_list_0)

lemma on_policy_tokens: "t \<in> set (batch_tokens pol pol ref adv m) \<Longrightarrow> tk_old t = tk_policy t"
  by (auto simp: batch_tokens_def row_tokens_def set_zip)

lemma on_policy_token:
  assumes "tk_old t = tk_policy t" and "0 \<le> eps"
  shows "clipped eps t = unclipped t" and "surrogate eps t = tk_adv t"
  using assms by (simp_all add: surrogate_def unclipped_def clipped_def ratio_def)

lemma on_policy_unclipped:
  assumes "0 \<le> eps"
  shows "gs_clip_fraction (grpo_loss pol pol ref adv m eps beta) = 0"
proof -
  let ?on = "batch_tokens pol pol ref adv m"
  have "masked_mean (\<lambda>t. if unclipped t \<noteq> clipped eps t then 1 else 0) ?on = masked_mean (\<lambda>_. 0) ?on"
    unfolding masked_mean_def using on_policy_tokens [of _ pol ref adv m] on_policy_token(1) [OF _ assms]
    by (intro arg_cong2 [where f = "(/)"] arg_cong [where f = sum_list] map_cong) auto
  then show ?thesis by (simp add: grpo_loss_def Let_def masked_mean_zero)
qed

lemma mean_kl_nonneg:
  "list_all (\<lambda>t. 0 \<le> tk_mask t) (batch_tokens pol old ref adv m) \<Longrightarrow>
    0 \<le> gs_mean_kl (grpo_loss pol old ref adv m eps beta)"
  using masked_mean_mono [of "batch_tokens pol old ref adv m" "\<lambda>_. 0" "\<lambda>t. token_kl (tk_policy t) (tk_ref t)"]
    token_kl_nonneg
  by (simp add: grpo_loss_def Let_def masked_mean_zero)

lemma in_set_tl: "x \<in> set (tl xs) \<Longrightarrow> x \<in> set xs"
  by (cases xs) auto

text \<open>The masks of a batch are zeros and ones.\<close>

lemma batch_mask_nonneg:
  assumes "build_batch cs pad = Some (ids, attn, cmask)"
  shows "list_all (\<lambda>t. 0 \<le> tk_mask t) (batch_tokens pol old ref adv (map tl cmask))"
proof -
  have "\<forall>row \<in> set cmask. \<forall>x \<in> set row. 0 \<le> x"
    using assms by (auto simp: build_batch_def pad_to_def Let_def split: if_splits)
  then have "\<forall>row \<in> set (map tl cmask). \<forall>x \<in> set row. 0 \<le> x"
    by (auto dest: in_set_tl)
  then show ?thesis
    by (auto simp: list_all_iff batch_tokens_def row_tokens_def dest!: set_zip_leftD set_zip_rightD)
qed



end
