(* ===== verification/Lexing.thy ===== *)
theory Lexing
  imports Text
begin

text \<open>
  What the shopping components use of Python's text and number handling beyond \<open>Text\<close>: upper
  case, line splitting, slices, rounding, decimal literals, and the leftmost-greedy search of the small
  regular expressions in \<^verbatim>\<open>reward/parse.py\<close> and \<^verbatim>\<open>env/shopenv.py\<close>.
  Floats are exact reals here.  The two letters whose capital lies beyond U+00FF (U+00B5 and
  U+00FF) are left as they are by \<open>upper\<close>.
\<close>

section \<open>Case, lines, slices\<close>

definition upper_char :: "char \<Rightarrow> string" where
  "upper_char c =
     (let n = code c in
      if 97 \<le> n \<and> n \<le> 122 \<or> 224 \<le> n \<and> n \<le> 254 \<and> n \<noteq> 247 then [char_of (n - 32)]
      else if n = 223 then ''SS'' else [c])"

definition upper :: "string \<Rightarrow> string" where
  "upper s = concat (map upper_char s)"

definition is_newline :: "char \<Rightarrow> bool" where
  "is_newline c = (let n = code c in 10 \<le> n \<and> n \<le> 13 \<or> 28 \<le> n \<and> n \<le> 30 \<or> n = 133)"

text \<open>\<open>str.splitlines\<close>: a carriage return with its line feed is one boundary, and no empty
  line follows a final boundary.\<close>

fun splitlines_acc :: "string \<Rightarrow> string \<Rightarrow> string list" where
  "splitlines_acc acc [] = (if acc = [] then [] else [rev acc])"
| "splitlines_acc acc (c # cs) =
     (if is_newline c
      then rev acc # (case cs of
             [] \<Rightarrow> []
           | d # ds \<Rightarrow> if code c = 13 \<and> code d = 10 then splitlines_acc [] ds
                       else splitlines_acc [] (d # ds))
      else splitlines_acc (c # acc) cs)"

definition splitlines :: "string \<Rightarrow> string list" where
  "splitlines s = splitlines_acc [] s"

text \<open>\<open>xs[:n]\<close> with a possibly negative bound.\<close>

definition slice_to :: "int \<Rightarrow> 'a list \<Rightarrow> 'a list" where
  "slice_to n xs = (if 0 \<le> n then take (nat n) xs else take (length xs - nat (- n)) xs)"

section \<open>Rounding\<close>

definition round_half_even :: "real \<Rightarrow> int" where
  "round_half_even x =
     (let f = \<lfloor>x\<rfloor>; d = x - of_int f in
      if d < 1/2 then f else if d > 1/2 then f + 1 else if even f then f else f + 1)"

text \<open>\<open>round(x, n)\<close>, and \<open>f"{x:.0f}"\<close>.\<close>

definition py_round :: "nat \<Rightarrow> real \<Rightarrow> real" where
  "py_round n x = of_int (round_half_even (x * 10 ^ n)) / 10 ^ n"

definition show_real0 :: "real \<Rightarrow> string" where
  "show_real0 x =
     (if round_half_even x = 0 \<and> x < 0 then ''-0'' else show_int (round_half_even x))"

text \<open>\<open>f"{x:.nf}"\<close> for a positive number of digits.\<close>

definition show_fixed :: "nat \<Rightarrow> real \<Rightarrow> string" where
  "show_fixed n x =
     (let k = nat (round_half_even (\<bar>x\<bar> * 10 ^ n)) in
      (if x < 0 then ''-'' else '''') @ show_nat (k div 10 ^ n) @ ''.'' @ show_padded n (int (k mod 10 ^ n)))"

lemma round_half_even_int [simp]: "round_half_even (of_int i) = i"
  by (simp add: round_half_even_def)

lemma round_half_even_bounds: "x - 1/2 \<le> of_int (round_half_even x) \<and> of_int (round_half_even x) \<le> x + 1/2"
  unfolding round_half_even_def Let_def by (simp, linarith)

lemma round_half_even_mono: "x \<le> y \<Longrightarrow> round_half_even x \<le> round_half_even y"
proof (cases "\<lfloor>x\<rfloor> = \<lfloor>y\<rfloor>")
  case False
  assume "x \<le> y"
  with False have "\<lfloor>x\<rfloor> + 1 \<le> \<lfloor>y\<rfloor>" using floor_mono by force
  then show ?thesis by (auto simp: round_half_even_def Let_def)
qed (auto simp: round_half_even_def Let_def)

lemma py_round_mono: "x \<le> y \<Longrightarrow> py_round n x \<le> py_round n y"
  unfolding py_round_def by (intro divide_right_mono) (simp_all add: round_half_even_mono)

lemma py_round_exact: "x * 10 ^ n = of_int i \<Longrightarrow> py_round n x = x"
  by (simp add: py_round_def field_simps)

lemma py_round_of_int [simp]: "py_round n (of_int i) = of_int i"
  by (rule py_round_exact [of _ _ "i * 10 ^ n"]) simp

lemma py_round_nonneg: "0 \<le> x \<Longrightarrow> 0 \<le> py_round n x"
  using py_round_mono [of 0 x n] py_round_of_int [of n 0] by simp

lemma py_round_le_1: "x \<le> 1 \<Longrightarrow> py_round n x \<le> 1"
  using py_round_mono [of x 1 n] py_round_of_int [of n 1] by simp

section \<open>Decimal literals\<close>

text \<open>\<open>float(s)\<close> of a literal made of digits and points only; \<open>None\<close> is the ValueError.\<close>

definition decimal :: "string \<Rightarrow> real option" where
  "decimal s =
     (case split_on (CHR ''.'') s of
        [w] \<Rightarrow> if w \<noteq> [] \<and> list_all is_digit w then Some (real (digits_value w)) else None
      | [w, f] \<Rightarrow>
          if (w \<noteq> [] \<or> f \<noteq> []) \<and> list_all is_digit w \<and> list_all is_digit f
          then Some (real (digits_value w) + real (digits_value f) / 10 ^ length f) else None
      | _ \<Rightarrow> None)"

section \<open>Regular expressions\<close>

text \<open>\<open>p\<close> matched without regard to case at the front of \<open>s\<close> (\<open>p\<close> in lower case ASCII).\<close>

definition starts_ci :: "string \<Rightarrow> string \<Rightarrow> bool" where
  "starts_ci p s \<longleftrightarrow> lower (take (length p) s) = p"

text \<open>\<open>C+(?:\.\d+)?\<close> for a character class \<open>C\<close>: the matched number and the rest.\<close>

definition number_at :: "(char \<Rightarrow> bool) \<Rightarrow> string \<Rightarrow> (string \<times> string) option" where
  "number_at C s =
     (let w = takeWhile C s; r = dropWhile C s in
      if w = [] then None
      else (case r of
          c # f # fs \<Rightarrow>
            if c = CHR ''.'' \<and> is_digit f
            then Some (w @ c # takeWhile is_digit (f # fs), dropWhile is_digit (f # fs))
            else Some (w, r)
        | _ \<Rightarrow> Some (w, r)))"

text \<open>\<open>re.search\<close>: the first position where the matcher succeeds.\<close>

fun search :: "(string \<Rightarrow> 'a option) \<Rightarrow> string \<Rightarrow> 'a option" where
  "search m [] = m []"
| "search m (c # cs) = (case m (c # cs) of Some x \<Rightarrow> Some x | None \<Rightarrow> search m cs)"

lemma search_None: "search m s = None \<longleftrightarrow> (\<forall>pre suf. s = pre @ suf \<longrightarrow> m suf = None)"
proof (induction s)
  case Nil
  then show ?case by simp
next
  case (Cons c cs)
  have "(\<forall>pre suf. c # cs = pre @ suf \<longrightarrow> m suf = None)
      \<longleftrightarrow> m (c # cs) = None \<and> (\<forall>pre suf. cs = pre @ suf \<longrightarrow> m suf = None)"
    by (metis append_Cons append_Nil list.inject neq_Nil_conv)
  with Cons show ?case by (auto split: option.splits)
qed

lemma search_SomeD: "search m s = Some x \<Longrightarrow> \<exists>pre suf. s = pre @ suf \<and> m suf = Some x"
proof (induction s)
  case Nil
  then show ?case by auto
next
  case (Cons c cs)
  then show ?case by (auto split: option.splits) (metis append_Cons append_Nil)+
qed

end
