(* ===== verification/Catalog.thy ===== *)
theory Catalog
  imports Lexing
begin

text \<open>
  \<^verbatim>\<open>src/shoprl/data/catalog.py\<close>, \<^verbatim>\<open>src/shoprl/data/prompts.py\<close> and \<^verbatim>\<open>src/shoprl/task.py\<close>: the synthetic
  catalog, the prompts with their ground truth, and the text of a task.  \<open>random.Random\<close> is a
  parameter: a state that its methods read and advance (\<open>rng\<close>) with the ranges that the library
  documents (\<open>rng_ok\<close>); so is the shortest decimal rendering of a float (\<open>show_float\<close>).
\<close>

section \<open>The random source\<close>

record 'g rng =
  rg_randint :: "int \<Rightarrow> int \<Rightarrow> 'g \<Rightarrow> int \<times> 'g"
  rg_index :: "nat \<Rightarrow> 'g \<Rightarrow> nat \<times> 'g"
  rg_sample :: "nat \<Rightarrow> nat \<Rightarrow> 'g \<Rightarrow> nat list \<times> 'g"
  rg_uniform :: "real \<Rightarrow> real \<Rightarrow> 'g \<Rightarrow> real \<times> 'g"
  rg_shuffle :: "nat \<Rightarrow> 'g \<Rightarrow> nat list \<times> 'g"

text \<open>\<open>choice\<close> and \<open>shuffle\<close> on a list, \<open>sample\<close> from one.\<close>

definition rng_choice :: "'g rng \<Rightarrow> 'a list \<Rightarrow> 'g \<Rightarrow> 'a \<times> 'g" where
  "rng_choice rg xs g = (let (i, g') = rg_index rg (length xs) g in (xs ! i, g'))"

definition rng_shuffle :: "'g rng \<Rightarrow> 'a list \<Rightarrow> 'g \<Rightarrow> 'a list \<times> 'g" where
  "rng_shuffle rg xs g = (let (is, g') = rg_shuffle rg (length xs) g in (map ((!) xs) is, g'))"

definition rng_sample :: "'g rng \<Rightarrow> 'a list \<Rightarrow> nat \<Rightarrow> 'g \<Rightarrow> 'a list \<times> 'g" where
  "rng_sample rg xs k g = (let (is, g') = rg_sample rg (length xs) k g in (map ((!) xs) is, g'))"

definition rng_ok :: "'g rng \<Rightarrow> bool" where
  "rng_ok rg \<longleftrightarrow>
     (\<forall>a b g. a \<le> b \<longrightarrow> a \<le> fst (rg_randint rg a b g) \<and> fst (rg_randint rg a b g) \<le> b) \<and>
     (\<forall>n g. 0 < n \<longrightarrow> fst (rg_index rg n g) < n) \<and>
     (\<forall>n k g. k \<le> n \<longrightarrow> length (fst (rg_sample rg n k g)) = k \<and> distinct (fst (rg_sample rg n k g)) \<and>
        set (fst (rg_sample rg n k g)) \<subseteq> {..<n}) \<and>
     (\<forall>a b g. a \<le> b \<longrightarrow> a \<le> fst (rg_uniform rg a b g) \<and> fst (rg_uniform rg a b g) \<le> b) \<and>
     (\<forall>n g. distinct (fst (rg_shuffle rg n g)) \<and> set (fst (rg_shuffle rg n g)) = {..<n})"

section \<open>The catalog\<close>

record product =
  p_sku :: string
  p_name :: string
  p_price :: real
  p_ram :: int
  p_weight :: real
  p_battery :: int
  p_brand :: string

definition BRANDS :: "string list" where
  "BRANDS = [''Acer'', ''Dell'', ''Lenovo'', ''HP'', ''Asus'', ''Apple'', ''Framework'', ''Razer'']"

definition LINES :: "string list" where
  "LINES = [''UltraBook'', ''ProBook'', ''ZenSlim'', ''AeroLite'', ''PowerLine'', ''NoteMax'']"

definition RAM_OPTIONS :: "int list" where
  "RAM_OPTIONS = [8, 16, 32, 64]"

definition product_sku :: "int \<Rightarrow> string" where
  "product_sku i = ''LAP-'' @ show_padded 4 i"

definition make_product :: "'g rng \<Rightarrow> int \<Rightarrow> 'g \<Rightarrow> product \<times> 'g" where
  "make_product rg i g0 =
     (let (brand, g1) = rng_choice rg BRANDS g0;
          (line, g2) = rng_choice rg LINES g1;
          (screen, g3) = rng_choice rg [13, 14, 15, 16] g2;
          (ram, g4) = rng_choice rg RAM_OPTIONS g3;
          (w, g5) = rg_uniform rg 2 6 g4;
          weight = py_round 1 w;
          (battery, g6) = rg_randint rg 4 20 g5;
          (noise, g7) = rg_uniform rg (- 120) 120 g6;
          price = 350 + of_int ram * 22 + of_int battery * 18 + (6 - weight) * 90 + noise
      in (\<lparr>p_sku = product_sku i, p_name = brand @ '' '' @ line @ '' '' @ show_int screen @ [CHR 0x22],
           p_price = py_round 2 (max 300 price), p_ram = ram, p_weight = weight,
           p_battery = battery, p_brand = brand\<rparr>, g7))"

fun make_products :: "'g rng \<Rightarrow> nat \<Rightarrow> nat \<Rightarrow> 'g \<Rightarrow> product list \<times> 'g" where
  "make_products rg i 0 g = ([], g)"
| "make_products rg i (Suc n) g =
     (let (p, g1) = make_product rg (int i) g; (ps, g2) = make_products rg (Suc i) n g1 in (p # ps, g2))"

definition generate_catalog :: "'g rng \<Rightarrow> (string \<Rightarrow> 'g) \<Rightarrow> nat \<Rightarrow> int \<Rightarrow> product list" where
  "generate_catalog rg mk n seed = fst (make_products rg 1 n (mk (''catalog-'' @ show_int seed)))"

definition catalog_index :: "product list \<Rightarrow> string \<Rightarrow> product option" where
  "catalog_index ps = fold (\<lambda>p m. m(p_sku p \<mapsto> p)) ps (\<lambda>_. None)"

section \<open>Constraints and prompts\<close>

type_synonym constraints = "(string \<times> real) list"

definition CONSTRAINT_KEYS :: "string list" where
  "CONSTRAINT_KEYS = [''max_price'', ''min_ram'', ''max_weight'', ''min_battery'']"

text \<open>An absent constraint violates nothing.\<close>

definition violates :: "constraints \<Rightarrow> string \<Rightarrow> (real \<Rightarrow> bool) \<Rightarrow> bool" where
  "violates cs k bad = (case map_of cs k of None \<Rightarrow> False | Some v \<Rightarrow> bad v)"

definition satisfies :: "product \<Rightarrow> constraints \<Rightarrow> bool" where
  "satisfies p cs =
     (if violates cs ''max_price'' (\<lambda>v. p_price p > v) then False
      else if violates cs ''min_ram'' (\<lambda>v. of_int (p_ram p) < v) then False
      else if violates cs ''max_weight'' (\<lambda>v. p_weight p > v) then False
      else if violates cs ''min_battery'' (\<lambda>v. of_int (p_battery p) < v) then False
      else True)"

definition threshold_choices :: "string \<Rightarrow> real list" where
  "threshold_choices key =
     (if key = ''max_price'' then [800, 1000, 1200, 1500, 2000]
      else if key = ''min_ram'' then [8, 16, 32]
      else if key = ''max_weight'' then [3, 3.5, 4, 4.5]
      else [8, 10, 12, 15])"

fun sample_thresholds :: "'g rng \<Rightarrow> string list \<Rightarrow> 'g \<Rightarrow> constraints \<times> 'g" where
  "sample_thresholds rg [] g = ([], g)"
| "sample_thresholds rg (k # ks) g =
     (let (v, g1) = rng_choice rg (threshold_choices k) g; (out, g2) = sample_thresholds rg ks g1
      in ((k, v) # out, g2))"

definition sample_constraints :: "'g rng \<Rightarrow> 'g \<Rightarrow> constraints \<times> 'g" where
  "sample_constraints rg g =
     (let (k, g1) = rg_randint rg 1 4 g; (keys, g2) = rng_sample rg CONSTRAINT_KEYS (nat k) g1
      in sample_thresholds rg keys g2)"

text \<open>\<open>int(x)\<close> truncates.\<close>

definition py_trunc :: "real \<Rightarrow> int" where
  "py_trunc x = (if x < 0 then \<lceil>x\<rceil> else \<lfloor>x\<rfloor>)"

definition phrase_part :: "constraints \<Rightarrow> string \<Rightarrow> (real \<Rightarrow> string) \<Rightarrow> string list" where
  "phrase_part cs k f = (case map_of cs k of None \<Rightarrow> [] | Some v \<Rightarrow> [f v])"

text \<open>\<open>_phrase\<close>; \<open>None\<close> is the IndexError of an empty constraint set.\<close>

definition phrase :: "(real \<Rightarrow> string) \<Rightarrow> constraints \<Rightarrow> string option" where
  "phrase show_float cs =
     (let parts = phrase_part cs ''max_price'' (\<lambda>v. ''under $'' @ show_int (py_trunc v))
          @ phrase_part cs ''min_ram'' (\<lambda>v. ''at least '' @ show_int (py_trunc v) @ ''GB of RAM'')
          @ phrase_part cs ''max_weight'' (\<lambda>v. ''weighing no more than '' @ show_float v @ '' lbs'')
          @ phrase_part cs ''min_battery'' (\<lambda>v. ''with '' @ show_int (py_trunc v) @ ''+ hours of battery'')
      in if parts = [] then None
         else if length parts = 1 then Some (hd parts)
         else Some (join '', '' (butlast parts) @ '', and '' @ last parts))"

definition TEMPLATES :: "(string \<times> string) list" where
  "TEMPLATES =
     [(''I'' @ [CHR 0x27] @ ''m shopping for a laptop '', ''. Recommend one and explain why.''),
      (''Looking for a laptop '', ''. Which would you suggest?''),
      (''Help me pick a laptop '', ''. Give your top recommendation.''),
      (''Need a new laptop '', ''. What should I buy?'')]"

record prompt_example =
  pe_id :: string
  pe_prompt :: string
  pe_constraints :: constraints
  pe_answers :: "string list"

definition answer_skus :: "product list \<Rightarrow> constraints \<Rightarrow> string list" where
  "answer_skus catalog cs = map p_sku (filter (\<lambda>p. satisfies p cs) catalog)"

text \<open>The loop over \<open>max_tries\<close>; \<open>None\<close> when it never runs, so that the constraints stay
  unbound.\<close>

fun sample_until :: "'g rng \<Rightarrow> product list \<Rightarrow> bool \<Rightarrow> nat \<Rightarrow> 'g \<Rightarrow> constraints option \<times> 'g" where
  "sample_until rg catalog req 0 g = (None, g)"
| "sample_until rg catalog req (Suc t) g =
     (let (cs, g1) = sample_constraints rg g in
      if answer_skus catalog cs \<noteq> [] \<or> \<not> req \<or> t = 0 then (Some cs, g1)
      else sample_until rg catalog req t g1)"

fun prompts_from ::
  "'g rng \<Rightarrow> (real \<Rightarrow> string) \<Rightarrow> product list \<Rightarrow> bool \<Rightarrow> nat \<Rightarrow> nat \<Rightarrow> nat \<Rightarrow> 'g \<Rightarrow> prompt_example list option" where
  "prompts_from rg show_float catalog req tries i 0 g = Some []"
| "prompts_from rg show_float catalog req tries i (Suc n) g =
     (case sample_until rg catalog req tries g of
        (None, _) \<Rightarrow> None
      | (Some cs, g1) \<Rightarrow>
          (let (template, g2) = rng_choice rg TEMPLATES g1 in
           case phrase show_float cs of
             None \<Rightarrow> None
           | Some spec \<Rightarrow>
               map_option ((#) \<lparr>pe_id = ''P-'' @ show_padded 4 (int i),
                   pe_prompt = fst template @ spec @ snd template,
                   pe_constraints = cs, pe_answers = answer_skus catalog cs\<rparr>)
                 (prompts_from rg show_float catalog req tries (Suc i) n g2)))"

definition generate_prompts ::
  "'g rng \<Rightarrow> (string \<Rightarrow> 'g) \<Rightarrow> (real \<Rightarrow> string) \<Rightarrow> product list \<Rightarrow> nat \<Rightarrow> int \<Rightarrow> bool \<Rightarrow> nat
    \<Rightarrow> prompt_example list option" where
  "generate_prompts rg mk show_float catalog n seed req tries =
     prompts_from rg show_float catalog req tries 1 n (mk (''prompts-'' @ show_int seed))"

section \<open>Tasks\<close>

definition build_shortlist ::
  "'g rng \<Rightarrow> (string \<Rightarrow> 'g) \<Rightarrow> prompt_example \<Rightarrow> product list \<Rightarrow> int \<Rightarrow> int \<Rightarrow> string list" where
  "build_shortlist rg mk ex catalog k seed =
     (let g0 = mk (''shortlist-'' @ pe_id ex @ ''-'' @ show_int seed);
          (good, g1) = rng_shuffle rg (filter (\<lambda>p. satisfies p (pe_constraints ex)) catalog) g0;
          (bad, g2) = rng_shuffle rg (filter (\<lambda>p. \<not> satisfies p (pe_constraints ex)) catalog) g1;
          n_good = min (int (length good)) (max 1 (k div 2));
          n_bad = min (int (length bad)) (k - n_good);
          (picks, _) = rng_shuffle rg (slice_to n_good good @ slice_to n_bad bad) g2
      in map p_sku picks)"

datatype task_error = UnknownSku string | EmptyShortlist

definition REC_FORMAT :: string where
  "REC_FORMAT = ''REC: <SKU> | $<price> | <RAM>GB | <weight>lbs | <battery>hrs | <one-sentence reason>''"

definition candidate_line :: "(real \<Rightarrow> string) \<Rightarrow> string \<Rightarrow> product \<Rightarrow> string" where
  "candidate_line show_float sku p =
     ''- '' @ sku @ '': '' @ p_name p @ '' | $'' @ show_real0 (p_price p) @ '' | '' @ show_int (p_ram p)
     @ ''GB RAM | '' @ show_float (p_weight p) @ ''lbs | '' @ show_int (p_battery p) @ ''hrs battery | ''
     @ p_brand p"

definition example_line :: "(real \<Rightarrow> string) \<Rightarrow> string \<Rightarrow> product \<Rightarrow> string" where
  "example_line show_float sku p =
     ''REC: '' @ sku @ '' | $'' @ show_real0 (p_price p) @ '' | '' @ show_int (p_ram p) @ ''GB | ''
     @ show_float (p_weight p) @ ''lbs | '' @ show_int (p_battery p)
     @ ''hrs | cheaper and lighter than the alternative''"

definition build_task_prompt ::
  "(real \<Rightarrow> string) \<Rightarrow> prompt_example \<Rightarrow> (string \<Rightarrow> product option) \<Rightarrow> string list \<Rightarrow> task_error + string" where
  "build_task_prompt show_float ex idx shortlist =
     (case mapE (\<lambda>sku. case idx sku of None \<Rightarrow> Inl (UnknownSku sku)
                        | Some p \<Rightarrow> Inr (candidate_line show_float sku p)) shortlist of
        Inl e \<Rightarrow> Inl e
      | Inr lines \<Rightarrow>
          (case shortlist of
             [] \<Rightarrow> Inl EmptyShortlist
           | sku # _ \<Rightarrow>
               (case idx sku of
                  None \<Rightarrow> Inl (UnknownSku sku)
                | Some ep \<Rightarrow>
                    Inr (join [CHR 0x0A]
                      ([''You are a shopping assistant. Recommend a laptop for the customer, choosing ONLY from the catalog below.'',
                        '''', ''Customer request: '' @ pe_prompt ex, '''', ''Catalog:'']
                       @ lines @
                       ['''',
                        ''Recommend the 2 best options. Copy each product'' @ [CHR 0x27]
                        @ ''s SKU and specs EXACTLY from the catalog, and in the reason compare them on price, RAM, weight, or battery. Output ONLY the REC lines, then stop.'',
                        '''', ''Format (one line per recommendation):'', REC_FORMAT, ''Example:'',
                        example_line show_float sku ep])))))"

end
