(* ===== verification/Catalog_Props.thy ===== *)
theory Catalog_Props
  imports Catalog "HOL-Library.Multiset"
begin

text \<open>
  The generated data: unique SKUs, specs in their ranges, prompts whose answers are exactly what the
  catalog offers for their constraints, and shortlists with a mix of candidates.
\<close>

section \<open>Draws\<close>

lemma rng_choice_in: "rng_ok rg \<Longrightarrow> xs \<noteq> [] \<Longrightarrow> rng_choice rg xs g = (x, g') \<Longrightarrow> x \<in> set xs"
  by (auto simp: rng_choice_def rng_ok_def split: prod.splits) (metis fst_conv length_greater_0_conv nth_mem)

lemma rng_randint_range:
  "rng_ok rg \<Longrightarrow> a \<le> b \<Longrightarrow> rg_randint rg a b g = (x, g') \<Longrightarrow> a \<le> x \<and> x \<le> b"
  unfolding rng_ok_def by (metis fst_conv)

lemma rng_uniform_range:
  "rng_ok rg \<Longrightarrow> a \<le> b \<Longrightarrow> rg_uniform rg a b g = (x, g') \<Longrightarrow> a \<le> x \<and> x \<le> b"
  unfolding rng_ok_def by (metis fst_conv)

lemma rng_shuffle_mset:
  assumes "rng_ok rg" and "rng_shuffle rg xs g = (ys, g')"
  shows "mset ys = mset xs"
proof -
  let ?is = "fst (rg_shuffle rg (length xs) g)"
  have "distinct ?is" "set ?is = {..<length xs}" using assms(1) by (simp_all add: rng_ok_def)
  then have "mset ?is = mset [0..<length xs]"
    by (intro iffD1 [OF set_eq_iff_mset_eq_distinct]) (auto simp: lessThan_atLeast0)
  then have "mset (map ((!) xs) ?is) = mset (map ((!) xs) [0..<length xs])" by simp
  moreover have "ys = map ((!) xs) ?is"
    using assms(2) by (auto simp: rng_shuffle_def split: prod.splits)
  ultimately show ?thesis by (simp only: map_nth)
qed

lemma rng_sample_facts:
  assumes "rng_ok rg" and "rng_sample rg xs k g = (ys, g')" and "k \<le> length xs" and "distinct xs"
  shows "length ys = k \<and> distinct ys \<and> set ys \<subseteq> set xs"
proof -
  let ?is = "fst (rg_sample rg (length xs) k g)"
  have i: "length ?is = k" "distinct ?is" "set ?is \<subseteq> {..<length xs}"
    using assms(1,3) by (simp_all add: rng_ok_def)
  have y: "ys = map ((!) xs) ?is" using assms(2) by (auto simp: rng_sample_def split: prod.splits)
  have "inj_on ((!) xs) (set ?is)"
    using assms(4) i(3) by (auto simp: inj_on_def nth_eq_iff_index_eq subset_iff)
  with i show ?thesis unfolding y by (auto simp: distinct_map)
qed

section \<open>Padded numbers\<close>

lemma digits_value_zeros: "digits_value (replicate k (CHR ''0'') @ d) = digits_value d"
proof -
  have "foldl (\<lambda>a c. 10 * a + digit_value c) 0 (replicate k (CHR ''0'')) = 0"
    by (induction k) (simp_all add: digit_value_def code_def)
  then show ?thesis by (simp add: digits_value_def)
qed

lemma show_padded_inject: "0 \<le> i \<Longrightarrow> 0 \<le> j \<Longrightarrow> show_padded w i = show_padded w j \<Longrightarrow> i = j"
  by (drule arg_cong [where f = digits_value])
    (simp add: show_padded_def Let_def digits_value_zeros digits_value_show)

section \<open>Products\<close>

definition in_range :: "product \<Rightarrow> bool" where
  "in_range p \<longleftrightarrow> 300 \<le> p_price p \<and> 2 \<le> p_weight p \<and> p_weight p \<le> 6 \<and> p_ram p \<in> set RAM_OPTIONS \<and>
     4 \<le> p_battery p \<and> p_battery p \<le> 20 \<and> p_brand p \<in> set BRANDS"

lemma make_product_facts:
  assumes "rng_ok rg" and "make_product rg i g = (p, g')"
  shows "p_sku p = product_sku i" and "in_range p"
proof -
  obtain b g1 l g2 s g3 r g4 w g5 bt g6 x g7 where
    d: "rng_choice rg BRANDS g = (b, g1)" "rng_choice rg LINES g1 = (l, g2)"
      "rng_choice rg [13, 14, 15, 16] g2 = (s, g3)" "rng_choice rg RAM_OPTIONS g3 = (r, g4)"
      "rg_uniform rg 2 6 g4 = (w, g5)" "rg_randint rg 4 20 g5 = (bt, g6)"
      "rg_uniform rg (- 120) 120 g6 = (x, g7)"
    and p: "p = \<lparr>p_sku = product_sku i, p_name = b @ '' '' @ l @ '' '' @ show_int s @ [CHR 0x22],
      p_price = py_round 2 (max 300 (350 + of_int r * 22 + of_int bt * 18 + (6 - py_round 1 w) * 90 + x)),
      p_ram = r, p_weight = py_round 1 w, p_battery = bt, p_brand = b\<rparr>"
    using assms(2) unfolding make_product_def Let_def by (auto split: prod.splits)
  show "p_sku p = product_sku i" using p by simp
  have "2 \<le> w" "w \<le> 6" using rng_uniform_range [OF assms(1) _ d(5)] by simp_all
  then have w: "2 \<le> py_round 1 w" "py_round 1 w \<le> 6"
    using py_round_mono [of 2 w 1] py_round_mono [of w 6 1] py_round_of_int [of 1 2]
      py_round_of_int [of 1 6] by simp_all
  have pr: "300 \<le> py_round 2 (max 300 y)" for y
    using py_round_mono [of 300 "max 300 y" 2] py_round_of_int [of 2 300] by simp
  show "in_range p"
    using w pr rng_choice_in [OF assms(1) _ d(1)] rng_choice_in [OF assms(1) _ d(4)]
      rng_randint_range [OF assms(1) _ d(6)]
    by (simp add: in_range_def p BRANDS_def RAM_OPTIONS_def)
qed

lemma make_products_facts:
  assumes "rng_ok rg"
  shows "map p_sku (fst (make_products rg i n g)) = map (\<lambda>k. product_sku (int k)) [i..<i + n] \<and>
    list_all in_range (fst (make_products rg i n g))"
proof (induction n arbitrary: i g)
  case 0
  then show ?case by simp
next
  case (Suc n)
  obtain p g1 where p: "make_product rg (int i) g = (p, g1)" by fastforce
  obtain ps g2 where ps: "make_products rg (Suc i) n g1 = (ps, g2)" by fastforce
  have "[i..<i + Suc n] = i # [Suc i..<Suc i + n]" by (simp add: upt_conv_Cons)
  then show ?case
    using make_product_facts [OF assms p] Suc [of "Suc i" g1] by (simp add: p ps)
qed

lemma product_sku_inject: "0 \<le> i \<Longrightarrow> 0 \<le> j \<Longrightarrow> product_sku i = product_sku j \<longleftrightarrow> i = j"
  using show_padded_inject [of i j 4] by (auto simp: product_sku_def)

lemma generate_catalog_facts:
  assumes "rng_ok rg"
  shows "map p_sku (generate_catalog rg mk n seed) = map (\<lambda>k. product_sku (int k)) [1..<Suc n]"
    and "list_all in_range (generate_catalog rg mk n seed)"
    and "distinct (map p_sku (generate_catalog rg mk n seed))"
proof -
  show sk: "map p_sku (generate_catalog rg mk n seed) = map (\<lambda>k. product_sku (int k)) [1..<Suc n]"
    and "list_all in_range (generate_catalog rg mk n seed)"
    using make_products_facts [OF assms, of 1 n] by (simp_all add: generate_catalog_def)
  show "distinct (map p_sku (generate_catalog rg mk n seed))"
    unfolding sk by (simp add: distinct_map inj_on_def product_sku_inject)
qed

lemma catalog_index_fold:
  "fold (\<lambda>p m. m(p_sku p \<mapsto> p)) ps m s = (case find (\<lambda>p. p_sku p = s) (rev ps) of None \<Rightarrow> m s | Some p \<Rightarrow> Some p)"
proof (induction ps rule: rev_induct)
  case Nil
  then show ?case by simp
next
  case (snoc p ps)
  then show ?case by simp
qed

lemma catalog_index_SomeD: "catalog_index ps s = Some p \<Longrightarrow> p \<in> set ps \<and> p_sku p = s"
  unfolding catalog_index_def catalog_index_fold
  by (auto split: option.splits simp: find_Some_iff) (metis length_rev nth_mem set_rev)

lemma catalog_index_distinct:
  assumes "distinct (map p_sku ps)"
  shows "catalog_index ps s = Some p \<longleftrightarrow> p \<in> set ps \<and> p_sku p = s"
proof
  assume h: "p \<in> set ps \<and> p_sku p = s"
  then obtain q where q: "catalog_index ps s = Some q"
    unfolding catalog_index_def catalog_index_fold
    by (cases "find (\<lambda>p. p_sku p = s) (rev ps)") (auto simp: find_None_iff)
  with h assms show "catalog_index ps s = Some p"
    using catalog_index_SomeD [OF q] by (auto simp: distinct_map inj_on_def)
qed (rule catalog_index_SomeD)

section \<open>Prompts\<close>

definition constraints_ok :: "constraints \<Rightarrow> bool" where
  "constraints_ok cs \<longleftrightarrow> cs \<noteq> [] \<and> distinct (map fst cs) \<and> set (map fst cs) \<subseteq> set CONSTRAINT_KEYS \<and>
     list_all (\<lambda>(k, v). v \<in> set (threshold_choices k)) cs"

lemma sample_thresholds_facts:
  assumes "rng_ok rg"
  shows "map fst (fst (sample_thresholds rg ks g)) = ks \<and>
    list_all (\<lambda>(k, v). v \<in> set (threshold_choices k)) (fst (sample_thresholds rg ks g))"
proof (induction ks arbitrary: g)
  case Nil
  then show ?case by simp
next
  case (Cons k ks)
  obtain v g1 where v: "rng_choice rg (threshold_choices k) g = (v, g1)" by fastforce
  obtain out g2 where o: "sample_thresholds rg ks g1 = (out, g2)" by fastforce
  have "v \<in> set (threshold_choices k)"
    by (rule rng_choice_in [OF assms _ v]) (simp add: threshold_choices_def)
  then show ?case using Cons [of g1] by (simp add: v o)
qed

lemma sample_constraints_ok:
  assumes "rng_ok rg" and "sample_constraints rg g = (cs, g')"
  shows "constraints_ok cs"
proof -
  obtain k g1 where k: "rg_randint rg 1 4 g = (k, g1)" by fastforce
  obtain ks g2 where ks: "rng_sample rg CONSTRAINT_KEYS (nat k) g1 = (ks, g2)" by fastforce
  have "1 \<le> k \<and> k \<le> 4" by (rule rng_randint_range [OF assms(1) _ k]) simp
  then have "nat k \<le> 4" "nat k \<noteq> 0" by linarith+
  then have "nat k \<le> length CONSTRAINT_KEYS" "nat k \<noteq> 0" by (simp_all add: CONSTRAINT_KEYS_def)
  moreover have "distinct CONSTRAINT_KEYS" by (simp add: CONSTRAINT_KEYS_def)
  ultimately have f: "length ks = nat k" "distinct ks" "set ks \<subseteq> set CONSTRAINT_KEYS" "ks \<noteq> []"
    using rng_sample_facts [OF assms(1) ks] by auto
  have "cs = fst (sample_thresholds rg ks g2)" using assms(2) k ks by (simp add: sample_constraints_def)
  then have "map fst cs = ks" "list_all (\<lambda>(k, v). v \<in> set (threshold_choices k)) cs"
    using sample_thresholds_facts [OF assms(1)] by simp_all
  with f show ?thesis unfolding constraints_ok_def by (metis list.map_disc_iff)
qed

lemma sample_until_ok:
  assumes "rng_ok rg"
  shows "0 < t \<Longrightarrow> \<exists>cs g'. sample_until rg catalog req t g = (Some cs, g') \<and> constraints_ok cs"
proof (induction t arbitrary: g)
  case (Suc t)
  obtain cs g1 where cs: "sample_constraints rg g = (cs, g1)" by fastforce
  show ?case
  proof (cases "answer_skus catalog cs \<noteq> [] \<or> \<not> req \<or> t = 0")
    case True
    with cs sample_constraints_ok [OF assms cs] show ?thesis by auto
  next
    case False
    with Suc.IH [of g1] cs show ?thesis by auto
  qed
qed simp

lemma phrase_some: "constraints_ok cs \<Longrightarrow> \<exists>s. phrase sf cs = Some s"
proof -
  assume "constraints_ok cs"
  then obtain k v cs' where "cs = (k, v) # cs'" "k \<in> set CONSTRAINT_KEYS"
    by (cases cs) (auto simp: constraints_ok_def)
  then show ?thesis by (auto simp: phrase_def phrase_part_def CONSTRAINT_KEYS_def Let_def)
qed

lemma prompts_from_ok:
  assumes "rng_ok rg" and "0 < tries"
  shows "\<exists>exs. prompts_from rg sf catalog req tries i n g = Some exs \<and>
    map pe_id exs = map (\<lambda>k. ''P-'' @ show_padded 4 (int k)) [i..<i + n] \<and>
    list_all (\<lambda>ex. constraints_ok (pe_constraints ex) \<and>
      pe_answers ex = answer_skus catalog (pe_constraints ex)) exs"
proof (induction n arbitrary: i g)
  case 0
  then show ?case by simp
next
  case (Suc n)
  obtain cs g1 where c: "sample_until rg catalog req tries g = (Some cs, g1)" "constraints_ok cs"
    using sample_until_ok [OF assms] by blast
  obtain t g2 where t: "rng_choice rg TEMPLATES g1 = (t, g2)" by fastforce
  obtain s where s: "phrase sf cs = Some s" using phrase_some [OF c(2)] ..
  obtain exs where e: "prompts_from rg sf catalog req tries (Suc i) n g2 = Some exs"
    "map pe_id exs = map (\<lambda>k. ''P-'' @ show_padded 4 (int k)) [Suc i..<Suc i + n]"
    "list_all (\<lambda>ex. constraints_ok (pe_constraints ex) \<and>
      pe_answers ex = answer_skus catalog (pe_constraints ex)) exs"
    using Suc by blast
  have "[i..<i + Suc n] = i # [Suc i..<Suc i + n]" by (simp add: upt_conv_Cons)
  then show ?case using c(2) e by (simp add: c(1) t s)
qed

lemma prompt_ids_distinct: "distinct (map (\<lambda>k. ''P-'' @ show_padded 4 (int k)) [i..<j])"
proof -
  have "inj_on (\<lambda>k. ''P-'' @ show_padded 4 (int k)) {i..<j}"
    by (rule inj_onI) (use show_padded_inject [of "int _" "int _" 4] in simp)
  then show ?thesis by (simp only: distinct_map distinct_upt set_upt)
qed

lemma constraints_at_most_four: "constraints_ok cs \<Longrightarrow> length cs \<le> 4"
proof -
  assume h: "constraints_ok cs"
  then have "card (set (map fst cs)) \<le> card (set CONSTRAINT_KEYS)"
    unfolding constraints_ok_def by (intro card_mono) simp_all
  moreover have "card (set CONSTRAINT_KEYS) \<le> 4"
    using card_length [of CONSTRAINT_KEYS] by (simp add: CONSTRAINT_KEYS_def)
  moreover have "card (set (map fst cs)) = length cs"
    using h distinct_card [of "map fst cs"] by (simp only: constraints_ok_def length_map)
  ultimately show ?thesis by simp
qed

lemma answer_skus_index:
  assumes "distinct (map p_sku catalog)"
  shows "set (answer_skus catalog cs) = {s. case catalog_index catalog s of None \<Rightarrow> False
      | Some p \<Rightarrow> satisfies p cs}"
proof (intro set_eqI)
  fix s
  have "s \<in> set (answer_skus catalog cs) \<longleftrightarrow> (\<exists>p. (p \<in> set catalog \<and> p_sku p = s) \<and> satisfies p cs)"
    by (auto simp: answer_skus_def)
  also have "\<dots> \<longleftrightarrow> (\<exists>p. catalog_index catalog s = Some p \<and> satisfies p cs)"
    by (simp only: catalog_index_distinct [OF assms])
  finally show "s \<in> set (answer_skus catalog cs) \<longleftrightarrow> s \<in> {s. case catalog_index catalog s of None \<Rightarrow> False
      | Some p \<Rightarrow> satisfies p cs}" by (simp split: option.splits)
qed

text \<open>C25. The ground truth of the data: a generated catalog has the requested number of products
  with pairwise different SKUs and specs in their ranges; prompt generation over it succeeds, gives
  the requested number of prompts with different ids and one to four known constraints each, and the
  answers of a prompt are exactly the SKUs whose catalog entry satisfies its constraints.\<close>

theorem generated_ground_truth:
  assumes "rng_ok rg" and "0 < tries" and "catalog = generate_catalog rg mk n seed"
  shows "length catalog = n \<and> distinct (map p_sku catalog) \<and> list_all in_range catalog \<and>
    (\<exists>exs. generate_prompts rg mk sf catalog m seed req tries = Some exs \<and> length exs = m \<and>
      distinct (map pe_id exs) \<and>
      list_all (\<lambda>ex. constraints_ok (pe_constraints ex) \<and> length (pe_constraints ex) \<le> 4 \<and>
        set (pe_answers ex) = {s. case catalog_index catalog s of None \<Rightarrow> False
                                   | Some p \<Rightarrow> satisfies p (pe_constraints ex)}) exs)"
proof -
  have cat: "distinct (map p_sku catalog)" "list_all in_range catalog"
    "map p_sku catalog = map (\<lambda>k. product_sku (int k)) [1..<Suc n]"
    using generate_catalog_facts [OF assms(1)] assms(3) by simp_all
  have len: "length catalog = n"
    using arg_cong [OF cat(3), of length] by (simp only: length_map length_upt)
  obtain exs where e: "generate_prompts rg mk sf catalog m seed req tries = Some exs"
    "map pe_id exs = map (\<lambda>k. ''P-'' @ show_padded 4 (int k)) [1..<1 + m]"
    "list_all (\<lambda>ex. constraints_ok (pe_constraints ex) \<and>
      pe_answers ex = answer_skus catalog (pe_constraints ex)) exs"
    using prompts_from_ok [OF assms(1,2)] unfolding generate_prompts_def by metis
  have ids: "distinct (map pe_id exs)" unfolding e(2) by (rule prompt_ids_distinct)
  have lm: "length exs = m" using arg_cong [OF e(2), of length] by (simp only: length_map length_upt)
  have "list_all (\<lambda>ex. constraints_ok (pe_constraints ex) \<and> length (pe_constraints ex) \<le> 4 \<and>
        set (pe_answers ex) = {s. case catalog_index catalog s of None \<Rightarrow> False
                                   | Some p \<Rightarrow> satisfies p (pe_constraints ex)}) exs"
    by (rule list.pred_mono_strong [OF e(3)]) (simp add: constraints_at_most_four answer_skus_index [OF cat(1)])
  with len cat(1,2) e(1) lm ids show ?thesis by (intro conjI exI [of _ exs])
qed

definition sample_rng :: "nat rng" where
  "sample_rng = \<lparr>rg_randint = (\<lambda>a b g. (a, g)), rg_index = (\<lambda>n g. (g mod n, Suc g)),
     rg_sample = (\<lambda>n k g. ([0..<k], g)), rg_uniform = (\<lambda>a b g. (a, g)),
     rg_shuffle = (\<lambda>n g. ([0..<n], g))\<rparr>"

lemma sample_rng_ok: "rng_ok sample_rng"
  by (auto simp: rng_ok_def sample_rng_def)

lemma generated_ground_truth_witness:
  "length (generate_catalog sample_rng length 3 0) = 3 \<and>
    (\<exists>exs. generate_prompts sample_rng length show_real0 (generate_catalog sample_rng length 3 0) 2 0 True 50
       = Some exs \<and> length exs = 2)"
  using generated_ground_truth [OF sample_rng_ok _ refl, of 50 length 3 0 show_real0 2 True] by auto

section \<open>Shortlists\<close>

lemma set_take_nonempty: "0 < n \<Longrightarrow> xs \<noteq> [] \<Longrightarrow> \<exists>x. x \<in> set (take n xs) \<and> x \<in> set xs"
  by (cases xs; cases n) auto

text \<open>A shortlist of \<open>k\<close> candidates from a catalog with different SKUs holds as many as the
  catalog can give with at most half of them (but at least one) fitting, none twice, each of them from
  the catalog; it holds a product that satisfies the constraints whenever there is one, and a
  violating one whenever there is one and two are asked for, so the rewards can vary.\<close>

theorem shortlist_mix:
  assumes "rng_ok rg" and "distinct (map p_sku catalog)" and "1 \<le> k"
    and "good = {p \<in> set catalog. satisfies p (pe_constraints ex)}" and "bad = set catalog - good"
    and "picks = build_shortlist rg mk ex catalog k seed"
  shows "distinct picks \<and> set picks \<subseteq> p_sku ` set catalog \<and>
    int (card (set picks \<inter> p_sku ` good)) = min (int (card good)) (max 1 (k div 2)) \<and>
    int (card (set picks \<inter> p_sku ` bad)) = min (int (card bad)) (k - min (int (card good)) (max 1 (k div 2))) \<and>
    int (length picks) \<le> k"
proof -
  let ?G = "filter (\<lambda>p. satisfies p (pe_constraints ex)) catalog"
  let ?B = "filter (\<lambda>p. \<not> satisfies p (pe_constraints ex)) catalog"
  obtain gs g1 where gs: "rng_shuffle rg ?G (mk (''shortlist-'' @ pe_id ex @ ''-'' @ show_int seed)) = (gs, g1)"
    by fastforce
  obtain bs g2 where bs: "rng_shuffle rg ?B g1 = (bs, g2)" by fastforce
  define ng nb where "ng = min (int (length gs)) (max 1 (k div 2))" and "nb = min (int (length bs)) (k - ng)"
  obtain ps g3 where ps: "rng_shuffle rg (slice_to ng gs @ slice_to nb bs) g2 = (ps, g3)" by fastforce
  have picks: "picks = map p_sku ps"
    using gs bs ps by (simp add: assms(6) build_shortlist_def ng_def nb_def Let_def)
  have cat: "distinct catalog" "inj_on p_sku (set catalog)" using assms(2) by (simp_all add: distinct_map)
  have mg: "mset gs = mset ?G" and mb: "mset bs = mset ?B"
    and mp: "mset ps = mset (slice_to ng gs @ slice_to nb bs)"
    using rng_shuffle_mset [OF assms(1)] gs bs ps by blast+
  have sg: "set gs = good" "distinct gs" and sb: "set bs = bad" "distinct bs"
    using mset_eq_setD [OF mg] mset_eq_setD [OF mb] mset_eq_imp_distinct_iff [OF mg]
      mset_eq_imp_distinct_iff [OF mb] cat(1) by (auto simp: assms(4,5))
  have "k div 2 \<le> k" using assms(3) by linarith
  then have k: "0 \<le> ng" "ng \<le> k" "0 \<le> nb" using assms(3) by (auto simp: ng_def nb_def)
  let ?tg = "take (nat ng) gs" and ?tb = "take (nat nb) bs"
  have sl: "slice_to ng gs = ?tg" "slice_to nb bs = ?tb" using k by (simp_all add: slice_to_def)
  have sps: "set ps = set ?tg \<union> set ?tb" using mset_eq_setD [OF mp] by (simp add: sl)
  have tg: "set ?tg \<subseteq> good" and tb: "set ?tb \<subseteq> bad"
    using set_take_subset [of "nat ng" gs] set_take_subset [of "nat nb" bs] sg(1) sb(1) by simp_all
  have gb: "good \<inter> bad = {}" "good \<subseteq> set catalog" "bad \<subseteq> set catalog" by (auto simp: assms(4,5))
  have dps: "distinct ps"
    using mset_eq_imp_distinct_iff [OF mp] sg(2) sb(2) tg tb gb(1) by (auto simp: sl)
  have inj: "inj_on p_sku (set ps)" by (rule inj_on_subset [OF cat(2)]) (use sps tg tb gb in blast)
  have ig: "p_sku ` set ps \<inter> p_sku ` good = p_sku ` set ?tg"
    and ib: "p_sku ` set ps \<inter> p_sku ` bad = p_sku ` set ?tb"
    unfolding sps using tg tb gb cat(2)
    by (auto simp: image_Un dest!: inj_onD [OF cat(2)])
  have card: "card (p_sku ` set xs) = length xs" if "distinct xs" "set xs \<subseteq> set catalog" for xs
    using that distinct_card card_image [OF inj_on_subset [OF cat(2)]] by metis
  have cg: "card (p_sku ` set ?tg) = min (length gs) (nat ng)"
    and cb: "card (p_sku ` set ?tb) = min (length bs) (nat nb)"
    using card [of ?tg] card [of ?tb] sg sb tg tb gb by (simp_all add: distinct_take min.commute)
  have lg: "length gs = card good" and lb: "length bs = card bad"
    using sg sb distinct_card by metis+
  have "length ps = length ?tg + length ?tb" using arg_cong [OF mp, of size] by (simp add: sl)
  then have "int (length picks) \<le> k" using k by (simp add: picks nb_def)
  moreover have "distinct picks" using dps inj by (simp add: picks distinct_map)
  moreover have "set picks \<subseteq> p_sku ` set catalog" unfolding picks set_map sps using tg tb gb by blast
  moreover have "int (card (set picks \<inter> p_sku ` good)) = min (int (card good)) (max 1 (k div 2))"
    unfolding picks set_map ig cg using k by (simp add: lg [symmetric] ng_def)
  moreover have "int (card (set picks \<inter> p_sku ` bad)) = min (int (card bad)) (k - min (int (card good)) (max 1 (k div 2)))"
    unfolding picks set_map ib cb lg [symmetric] lb [symmetric] ng_def [symmetric] nb_def [symmetric]
    using k by (simp add: nb_def)
  ultimately show ?thesis by blast
qed

lemma shortlist_example:
  "distinct (build_shortlist sample_rng length
     \<lparr>pe_id = ''P-0001'', pe_prompt = '''', pe_constraints = [], pe_answers = []\<rparr>
     (generate_catalog sample_rng length 3 0) 2 0)"
  using shortlist_mix [OF sample_rng_ok generate_catalog_facts(3) [OF sample_rng_ok] _ refl refl refl, of 2] by simp

end
