(* ===== verification/Stub_Engine.thy ===== *)
theory Stub_Engine
  imports Grpo_Loss Catalog_Props
begin

text \<open>
  \<^verbatim>\<open>src/shoprl/rollout/base.py\<close> and \<^verbatim>\<open>src/shoprl/rollout/stub.py\<close>: groups of completions and the
  deterministic engine without a model.  One of its canned sentences has a dash beyond the code
  points of \<open>char\<close>; its rendering \<open>dash\<close> is a parameter.
\<close>

record rollout_group =
  gr_prompt :: string
  gr_completions :: "completion list"

definition group_len :: "rollout_group \<Rightarrow> nat" where
  "group_len g = length (gr_completions g)"

definition CANNED :: "string \<Rightarrow> (string \<times> string) list" where
  "CANNED dash =
     [(''I recommend the '', '' for its great value.''),
      (''Consider the '', ''; it fits your budget and needs.''),
      (''The '', '' is a top pick based on reviews.''),
      (''Go with the '', '' '' @ dash @ '' reliable and well rated.''),
      (''For you, the '', '' is the best match.'')]"

definition PRODUCTS :: "string list" where
  "PRODUCTS = [''AcmeWidget X1'', ''NovaBuds Pro'', ''TerraBottle 1L'', ''PixelCase'', ''GlowLamp Mini'']"

definition plain_completion :: "string \<Rightarrow> string \<Rightarrow> completion" where
  "plain_completion prompt txt' =
     \<lparr>co_prompt = prompt, co_text = txt', co_prompt_ids = [], co_ids = []\<rparr>"

fun stub_completions :: "'g rng \<Rightarrow> string \<Rightarrow> string \<Rightarrow> nat \<Rightarrow> 'g \<Rightarrow> completion list" where
  "stub_completions rg dash prompt 0 g = []"
| "stub_completions rg dash prompt (Suc n) g =
     (let (template, g1) = rng_choice rg (CANNED dash) g;
          (prod', g2) = rng_choice rg PRODUCTS g1
      in plain_completion prompt (fst template @ prod' @ snd template)
         # stub_completions rg dash prompt n g2)"

definition stub_group :: "'g rng \<Rightarrow> (string \<Rightarrow> 'g) \<Rightarrow> string \<Rightarrow> int \<Rightarrow> int \<Rightarrow> nat \<Rightarrow> string \<Rightarrow> rollout_group" where
  "stub_group rg mk dash base n i prompt =
     \<lparr>gr_prompt = prompt,
      gr_completions = stub_completions rg dash prompt (nat n) (mk (show_int base @ ''-'' @ show_int (int i)))\<rparr>"

definition stub_generate ::
  "'g rng \<Rightarrow> (string \<Rightarrow> 'g) \<Rightarrow> string \<Rightarrow> int \<Rightarrow> string list \<Rightarrow> int \<Rightarrow> int option \<Rightarrow> rollout_group list" where
  "stub_generate rg mk dash self_seed prompts num_samples seed =
     (let base = (case seed of None \<Rightarrow> self_seed | Some s \<Rightarrow> s)
      in map (\<lambda>(i, prompt). stub_group rg mk dash base num_samples i prompt) (enumerate 0 prompts))"

section \<open>Facts\<close>

lemma length_stub_completions [simp]: "length (stub_completions rg dash prompt n g) = n"
  by (induction n arbitrary: g) (simp_all add: Let_def split: prod.split)

lemma length_stub_generate: "length (stub_generate rg mk dash self prompts n seed) = length prompts"
  by (simp add: stub_generate_def Let_def)

lemma lstrip_nil_iff: "lstrip s = [] \<longleftrightarrow> list_all is_space s"
  by (simp add: lstrip_def dropWhile_eq_Nil_conv list_all_iff)

lemma strip_nonempty:
  assumes "x \<in> set s" and "\<not> is_space x"
  shows "strip s \<noteq> []"
proof -
  have "lstrip s \<noteq> []" using assms by (auto simp: lstrip_nil_iff list_all_iff)
  then have "\<not> is_space (hd (lstrip s))" and "hd (lstrip s) \<in> set (rev (lstrip s))"
    using hd_dropWhile [of is_space s] by (simp_all add: lstrip_def)
  then have "lstrip (rev (lstrip s)) \<noteq> []" by (auto simp: lstrip_nil_iff list_all_iff)
  then show ?thesis unfolding strip_def lstrip_def by simp
qed

lemma stub_text_nonblank:
  assumes "rng_ok rg"
  shows "c \<in> set (stub_completions rg dash prompt n g) \<Longrightarrow> strip (co_text c) \<noteq> []"
proof (induction n arbitrary: g)
  case (Suc n)
  obtain t g1 where t: "rng_choice rg (CANNED dash) g = (t, g1)" by fastforce
  obtain p g2 where p: "rng_choice rg PRODUCTS g1 = (p, g2)" by fastforce
  have "t \<in> set (CANNED dash)" using rng_choice_in [OF assms _ t] by (simp add: CANNED_def)
  then have "\<exists>x \<in> set (fst t). \<not> is_space x" by (auto simp: CANNED_def is_space_def code_def)
  then obtain x where "x \<in> set (fst t @ p @ snd t)" and "\<not> is_space x" by auto
  then have "strip (fst t @ p @ snd t) \<noteq> []" by (rule strip_nonempty)
  then show ?case using Suc t p by (auto simp: plain_completion_def)
qed simp

lemma stub_counts:
  "rng_ok rg \<Longrightarrow> length (filter (\<lambda>c. strip (co_text c) \<noteq> []) (stub_completions rg dash prompt n g)) = n"
  by (subst filter_True) (auto dest: stub_text_nonblank)

end
