(* ===== verification/Reward_Parse.thy ===== *)
theory Reward_Parse
  imports Lexing
begin

text \<open>
  \<^verbatim>\<open>src/shoprl/reward/parse.py\<close>: the claims a response makes.  The five regular expressions are
  matchers on the rest of the text; no alternative that backtracking could reach matches where the
  greedy run fails, because the character after a shortened run is again one of the run.  \<open>None\<close> is the
  ValueError of \<open>float\<close>.
\<close>

section \<open>Matchers\<close>

definition sku_at :: "string \<Rightarrow> (string \<times> string) option" where
  "sku_at s =
     (let d = takeWhile is_digit (drop 4 s) in
      if starts_ci ''lap-'' s \<and> d \<noteq> [] then Some (take 4 s @ d, dropWhile is_digit (drop 4 s)) else None)"

definition price_at :: "string \<Rightarrow> string option" where
  "price_at s =
     (case s of
        [] \<Rightarrow> None
      | c # cs \<Rightarrow>
          if c = CHR ''$''
          then map_option fst (number_at (\<lambda>d. is_digit d \<or> d = CHR '','') (dropWhile is_space cs))
          else None)"

text \<open>Digits, blanks, a unit.\<close>

definition int_unit_at :: "string list \<Rightarrow> string \<Rightarrow> string option" where
  "int_unit_at units s =
     (let w = takeWhile is_digit s; r = dropWhile is_space (dropWhile is_digit s) in
      if w \<noteq> [] \<and> list_ex (\<lambda>u. starts_ci u r) units then Some w else None)"

definition ram_at :: "string \<Rightarrow> string option" where
  "ram_at = int_unit_at [''gb'']"

definition battery_at :: "string \<Rightarrow> string option" where
  "battery_at = int_unit_at [''hr'', ''hour'']"

definition weight_at :: "string \<Rightarrow> string option" where
  "weight_at s =
     (case number_at is_digit s of
        None \<Rightarrow> None
      | Some (w, r) \<Rightarrow> if starts_ci ''lb'' (dropWhile is_space r) then Some w else None)"

text \<open>\<open>SKU_RE.findall\<close>.\<close>

lemma sku_at_shorter: "sku_at s = Some (m, r) \<Longrightarrow> length r < length s"
proof -
  assume h: "sku_at s = Some (m, r)"
  then have ne: "takeWhile is_digit (drop 4 s) \<noteq> []" and r: "r = dropWhile is_digit (drop 4 s)"
    by (auto simp: sku_at_def Let_def split: if_splits)
  have "length r \<le> length (drop 4 s)" unfolding r by (rule length_dropWhile_le)
  moreover have "drop 4 s \<noteq> []" using ne by auto
  ultimately show ?thesis by simp
qed

function find_skus :: "string \<Rightarrow> string list" where
  "find_skus [] = []"
| "find_skus (c # cs) =
     (case sku_at (c # cs) of
        Some mr \<Rightarrow> fst mr # find_skus (snd mr)
      | None \<Rightarrow> find_skus cs)"
  by pat_completeness auto
termination
  by (relation "measure length") (auto dest: sku_at_shorter)

section \<open>Claims\<close>

record specs =
  stated_price :: "real option"
  stated_ram :: "int option"
  stated_weight :: "real option"
  stated_battery :: "int option"

record parsed_rec = specs +
  pr_sku :: string

definition num_specs_stated :: "parsed_rec \<Rightarrow> nat" where
  "num_specs_stated r =
     length (filter id [stated_price r \<noteq> None, stated_ram r \<noteq> None, stated_weight r \<noteq> None,
                        stated_battery r \<noteq> None])"

definition int_group :: "string \<Rightarrow> int" where
  "int_group w = int (digits_value w)"

definition extract_specs :: "string \<Rightarrow> specs option" where
  "extract_specs text =
     (let ram = map_option int_group (search ram_at text);
          battery = map_option int_group (search battery_at text);
          weight = (case search weight_at text of None \<Rightarrow> None | Some w \<Rightarrow> decimal w)
      in case search price_at text of
           None \<Rightarrow> Some \<lparr>stated_price = None, stated_ram = ram, stated_weight = weight,
                        stated_battery = battery\<rparr>
         | Some w \<Rightarrow>
             (case decimal (filter (\<lambda>c. c \<noteq> CHR '','') w) of
                None \<Rightarrow> None
              | Some p \<Rightarrow> Some \<lparr>stated_price = Some p, stated_ram = ram, stated_weight = weight,
                              stated_battery = battery\<rparr>))"

text \<open>The SKUs of a line, and its text without the trailing reason.\<close>

definition line_skus :: "string \<Rightarrow> string list" where
  "line_skus line = map upper (find_skus line)"

definition spec_text :: "string \<Rightarrow> string" where
  "spec_text line =
     (if CHR ''|'' \<in> set line then join ''|'' (butlast (split_on (CHR ''|'') line)) else line)"

definition new_rec :: "specs \<Rightarrow> string \<Rightarrow> parsed_rec" where
  "new_rec sp sku =
     \<lparr>stated_price = stated_price sp, stated_ram = stated_ram sp, stated_weight = stated_weight sp,
      stated_battery = stated_battery sp, pr_sku = sku\<rparr>"

definition or_else :: "'a option \<Rightarrow> 'a option \<Rightarrow> 'a option" where
  "or_else old new = (if new \<noteq> None \<and> old = None then new else old)"

definition backfill :: "specs \<Rightarrow> parsed_rec \<Rightarrow> parsed_rec" where
  "backfill sp r =
     r\<lparr>stated_price := or_else (stated_price r) (stated_price sp),
       stated_ram := or_else (stated_ram r) (stated_ram sp),
       stated_weight := or_else (stated_weight r) (stated_weight sp),
       stated_battery := or_else (stated_battery r) (stated_battery sp)\<rparr>"

definition claim_sku :: "specs \<Rightarrow> string \<Rightarrow> parsed_rec list \<Rightarrow> parsed_rec list" where
  "claim_sku sp sku recs =
     (if sku \<in> set (map pr_sku recs)
      then map (\<lambda>r. if pr_sku r = sku then backfill sp r else r) recs
      else recs @ [new_rec sp sku])"

fun parse_lines :: "string list \<Rightarrow> parsed_rec list \<Rightarrow> parsed_rec list option" where
  "parse_lines [] recs = Some recs"
| "parse_lines (line # lines) recs =
     (let skus = line_skus line in
      if skus = [] then parse_lines lines recs
      else (case extract_specs (spec_text line) of
          None \<Rightarrow> None
        | Some sp \<Rightarrow> parse_lines lines (fold (claim_sku sp) skus recs)))"

definition parse_response :: "string \<Rightarrow> parsed_rec list option" where
  "parse_response response = parse_lines (splitlines response) []"

section \<open>A reference description\<close>

text \<open>First-seen order without repetition, the specs that the lines naming a SKU state, and the
  first value stated for each field.\<close>

definition first_seen :: "'a list \<Rightarrow> 'a list" where
  "first_seen xs = rev (remdups (rev xs))"

definition line_specs :: "string list \<Rightarrow> string \<Rightarrow> specs list" where
  "line_specs lines sku =
     List.map_filter (\<lambda>l. if sku \<in> set (line_skus l) then extract_specs (spec_text l) else None) lines"

definition first_some :: "'a option list \<Rightarrow> 'a option" where
  "first_some xs = (case find (\<lambda>x. x \<noteq> None) xs of None \<Rightarrow> None | Some x \<Rightarrow> x)"

definition described_rec :: "string list \<Rightarrow> string \<Rightarrow> parsed_rec" where
  "described_rec lines sku =
     (let sps = line_specs lines sku in
      \<lparr>stated_price = first_some (map stated_price sps), stated_ram = first_some (map stated_ram sps),
       stated_weight = first_some (map stated_weight sps),
       stated_battery = first_some (map stated_battery sps), pr_sku = sku\<rparr>)"

definition unreadable :: "string \<Rightarrow> bool" where
  "unreadable line \<longleftrightarrow> line_skus line \<noteq> [] \<and> extract_specs (spec_text line) = None"

lemma first_seen_snoc: "first_seen (xs @ [x]) = (if x \<in> set xs then first_seen xs else first_seen xs @ [x])"
  by (simp add: first_seen_def)

lemma set_first_seen [simp]: "set (first_seen xs) = set xs"
  by (simp add: first_seen_def)

lemma distinct_first_seen [simp]: "distinct (first_seen xs)"
  by (simp add: first_seen_def)

lemma first_some_snoc: "first_some (xs @ [x]) = or_else (first_some xs) x"
  by (induction xs) (auto simp: first_some_def or_else_def split: option.splits)

lemma backfill_idem: "backfill sp (backfill sp r) = backfill sp r"
  by (simp add: backfill_def or_else_def)

definition bare_rec :: "string \<Rightarrow> parsed_rec" where
  "bare_rec sku = new_rec \<lparr>stated_price = None, stated_ram = None, stated_weight = None, stated_battery = None\<rparr> sku"

lemma new_rec_backfill: "new_rec sp sku = backfill sp (bare_rec sku)"
  by (simp add: new_rec_def bare_rec_def backfill_def or_else_def)

lemma described_snoc:
  "described_rec (ls @ [l]) s
    = (case (if s \<in> set (line_skus l) then extract_specs (spec_text l) else None) of
         None \<Rightarrow> described_rec ls s | Some sp \<Rightarrow> backfill sp (described_rec ls s))"
  by (auto simp: described_rec_def line_specs_def map_filter_def Let_def first_some_snoc backfill_def
      split: option.splits)

lemma described_fresh: "s \<notin> set (concat (map line_skus ls)) \<Longrightarrow> described_rec ls s = bare_rec s"
proof -
  assume "s \<notin> set (concat (map line_skus ls))"
  then have "line_specs ls s = []" by (auto simp: line_specs_def map_filter_def filter_empty_conv)
  then show ?thesis by (simp add: described_rec_def bare_rec_def new_rec_def first_some_def)
qed

lemma described_sku [simp]: "pr_sku (described_rec ls s) = s"
  by (simp add: described_rec_def Let_def)

lemma backfill_sku [simp]: "pr_sku (backfill sp r) = pr_sku r"
  by (simp add: backfill_def)

lemma claim_sku_map:
  assumes "\<And>t. pr_sku (R t) = t" and "s \<notin> set xs \<Longrightarrow> R s = bare_rec s"
  shows "claim_sku sp s (map R (first_seen xs)) = map (R(s := backfill sp (R s))) (first_seen (xs @ [s]))"
proof (cases "s \<in> set xs")
  case True
  then show ?thesis using assms(1) by (auto simp: claim_sku_def first_seen_snoc comp_def)
next
  case False
  then have "map (R(s := backfill sp (R s))) (first_seen xs) = map R (first_seen xs)" by simp
  with False show ?thesis
    using assms by (simp add: claim_sku_def first_seen_snoc new_rec_backfill comp_def)
qed

lemma claim_skus_map:
  assumes "\<And>t. pr_sku (R t) = t" and "\<And>s. s \<notin> set xs \<Longrightarrow> R s = bare_rec s"
  shows "fold (claim_sku sp) ss (map R (first_seen xs))
    = map (\<lambda>t. if t \<in> set ss then backfill sp (R t) else R t) (first_seen (xs @ ss))"
  using assms
proof (induction ss arbitrary: R xs)
  case Nil
  then show ?case by simp
next
  case (Cons s ss)
  let ?R = "R(s := backfill sp (R s))"
  have "fold (claim_sku sp) (s # ss) (map R (first_seen xs))
      = fold (claim_sku sp) ss (map ?R (first_seen (xs @ [s])))"
    using claim_sku_map [OF Cons.prems(1) Cons.prems(2)] by simp
  also have "\<dots> = map (\<lambda>t. if t \<in> set ss then backfill sp (?R t) else ?R t) (first_seen ((xs @ [s]) @ ss))"
    by (rule Cons.IH) (use Cons.prems in auto)
  also have "\<dots> = map (\<lambda>t. if t \<in> set (s # ss) then backfill sp (R t) else R t) (first_seen (xs @ s # ss))"
    by (auto simp: backfill_idem)
  finally show ?case .
qed

lemma parse_lines_append:
  "parse_lines (ls @ ms) recs = (case parse_lines ls recs of None \<Rightarrow> None | Some r \<Rightarrow> parse_lines ms r)"
  by (induction ls arbitrary: recs) (auto simp: Let_def split: option.splits)


end
