(* ===== verification/Rewards.thy ===== *)
theory Rewards
  imports Reward_Parse Catalog
begin

text \<open>
  \<^verbatim>\<open>src/shoprl/reward/functions.py\<close> and \<^verbatim>\<open>src/shoprl/reward/composite.py\<close>: the component rewards
  and the composite.  Scores are exact reals; \<open>None\<close> is the ValueError of the parser.
\<close>

section \<open>Context\<close>

record reward_ctx =
  ctx_catalog :: "string \<Rightarrow> product option"
  ctx_constraints :: constraints

definition PRICE_TOL :: real where "PRICE_TOL = 1"

definition WEIGHT_TOL :: real where "WEIGHT_TOL = 1 / 10"

definition COMPARISON_WORDS :: "string list" where
  "COMPARISON_WORDS =
     [''compared'', ''comparison'', ''whereas'', ''however'', ''better'', ''best'', ''than'',
      ''versus'', '' vs'', ''trade-off'', ''tradeoff'', ''on the other hand'', ''while'', ''but'']"

definition DIM_KEYWORDS :: "(string \<times> string list) list" where
  "DIM_KEYWORDS =
     [(''price'', [''price'', ''cheap'', ''expensive'', ''budget'', ''cost'', ''afford'', ''value'', ''pricier'']),
      (''ram'', [''ram'', ''memory'']),
      (''weight'', [''weight'', ''light'', ''heav'', ''portab'']),
      (''battery'', [''battery'', ''hour'', ''charge'', ''lasts'', ''lasting''])]"

definition grounded :: "reward_ctx \<Rightarrow> parsed_rec list \<Rightarrow> parsed_rec list" where
  "grounded ctx recs = filter (\<lambda>r. ctx_catalog ctx (pr_sku r) \<noteq> None) recs"

definition differs :: "'a option \<Rightarrow> ('a \<Rightarrow> bool) \<Rightarrow> bool" where
  "differs v bad = (case v of None \<Rightarrow> False | Some x \<Rightarrow> bad x)"

definition specs_consistent :: "parsed_rec \<Rightarrow> product \<Rightarrow> bool" where
  "specs_consistent r p =
     (if differs (stated_price r) (\<lambda>x. \<bar>x - p_price p\<bar> > PRICE_TOL) then False
      else if differs (stated_ram r) (\<lambda>x. x \<noteq> p_ram p) then False
      else if differs (stated_weight r) (\<lambda>x. \<bar>x - p_weight p\<bar> > WEIGHT_TOL) then False
      else if differs (stated_battery r) (\<lambda>x. x \<noteq> p_battery p) then False
      else True)"

definition in_catalog :: "reward_ctx \<Rightarrow> (product \<Rightarrow> bool) \<Rightarrow> parsed_rec \<Rightarrow> bool" where
  "in_catalog ctx ok r = (case ctx_catalog ctx (pr_sku r) of None \<Rightarrow> False | Some p \<Rightarrow> ok p)"

definition fraction :: "('a \<Rightarrow> bool) \<Rightarrow> 'a list \<Rightarrow> real" where
  "fraction ok xs = real (length (filter ok xs)) / real (length xs)"

section \<open>Components\<close>

definition budget_compliance :: "string \<Rightarrow> reward_ctx \<Rightarrow> real option" where
  "budget_compliance response ctx =
     (case map_of (ctx_constraints ctx) ''max_price'' of
        None \<Rightarrow> Some 1
      | Some cap \<Rightarrow>
          (case parse_response response of
             None \<Rightarrow> None
           | Some recs \<Rightarrow>
               (let gr = grounded ctx recs in
                if gr = [] then Some 0
                else Some (fraction (in_catalog ctx (\<lambda>p. p_price p \<le> cap)) gr))))"

definition clean :: "reward_ctx \<Rightarrow> parsed_rec \<Rightarrow> bool" where
  "clean ctx r = in_catalog ctx (specs_consistent r) r"

definition catalog_groundedness :: "string \<Rightarrow> reward_ctx \<Rightarrow> real option" where
  "catalog_groundedness response ctx =
     (case parse_response response of
        None \<Rightarrow> None
      | Some recs \<Rightarrow> if recs = [] then Some 0 else Some (fraction (clean ctx) recs))"

definition is_hallucinated :: "string \<Rightarrow> reward_ctx \<Rightarrow> bool option" where
  "is_hallucinated response ctx =
     (case parse_response response of
        None \<Rightarrow> None | Some recs \<Rightarrow> Some (list_ex (\<lambda>r. \<not> clean ctx r) recs))"

definition attribute_coverage :: "string \<Rightarrow> reward_ctx \<Rightarrow> real option" where
  "attribute_coverage response ctx =
     (case parse_response response of
        None \<Rightarrow> None
      | Some recs \<Rightarrow>
          (let gr = grounded ctx recs in
           if gr = [] then Some 0
           else if ctx_constraints ctx = [] then Some 1
           else Some (fraction (in_catalog ctx (\<lambda>p. satisfies p (ctx_constraints ctx))) gr)))"

definition reasoning_part :: "string \<Rightarrow> string" where
  "reasoning_part line =
     (if search sku_at line \<noteq> None
      then (if CHR ''|'' \<in> set line then last (split_on (CHR ''|'') line) else line)
      else line)"

definition reasoning_text :: "string \<Rightarrow> string" where
  "reasoning_text response = lower (join '' '' (map reasoning_part (splitlines response)))"

definition comparison_score :: "nat \<Rightarrow> string \<Rightarrow> real" where
  "comparison_score n_grounded reasoning =
     (let breadth = real (min n_grounded 2) / 2;
          has_language = list_ex (\<lambda>w. contains w reasoning) COMPARISON_WORDS;
          n_dims = length (filter (\<lambda>(_, kws). list_ex (\<lambda>k. contains k reasoning) kws) DIM_KEYWORDS);
          dim_score = real (min n_dims 2) / 2;
          content = 5 / 10 * (if has_language then 1 else 0) + 5 / 10 * dim_score
      in breadth * (4 / 10 + 6 / 10 * content))"

definition response_quality :: "string \<Rightarrow> reward_ctx \<Rightarrow> (real \<times> real) option" where
  "response_quality response ctx =
     (case parse_response response of
        None \<Rightarrow> None
      | Some recs \<Rightarrow>
          if recs = [] then Some (0, 0)
          else (let fmt = sum_list (map (\<lambda>r. real (num_specs_stated r) / 4) recs) / real (length recs);
                    gr = grounded ctx recs
                in if gr = [] then Some (fmt, 0)
                   else Some (fmt, comparison_score (length gr) (reasoning_text response))))"

section \<open>The composite\<close>

definition WEIGHTS :: "(string \<times> real) list" where
  "WEIGHTS = [(''budget'', 25/100), (''groundedness'', 25/100), (''coverage'', 25/100),
     (''quality_format'', 15/100), (''quality_comparison'', 10/100)]"

definition HALLUCINATION_PENALTY :: real where "HALLUCINATION_PENALTY = 50/100"

record reward_breakdown =
  rb_budget :: real
  rb_groundedness :: real
  rb_coverage :: real
  rb_quality_format :: real
  rb_quality_comparison :: real
  rb_hallucinated :: bool
  rb_total :: real

datatype reward_error = BadNumber | MissingWeight string

definition weighted :: "(string \<times> real) list \<Rightarrow> (string \<times> real) list \<Rightarrow> reward_error + real" where
  "weighted w terms =
     (case mapE (\<lambda>(k, x). case map_of w k of None \<Rightarrow> Inl (MissingWeight k) | Some c \<Rightarrow> Inr (c * x)) terms of
        Inl e \<Rightarrow> Inl e | Inr xs \<Rightarrow> Inr (sum_list xs))"

definition compute_reward ::
  "string \<Rightarrow> reward_ctx \<Rightarrow> (string \<times> real) list option \<Rightarrow> real option \<Rightarrow> reward_error + reward_breakdown" where
  "compute_reward response ctx weights hallucination_penalty =
     (let w = (case weights of None \<Rightarrow> WEIGHTS | Some x \<Rightarrow> x);
          penalty = (case hallucination_penalty of None \<Rightarrow> HALLUCINATION_PENALTY | Some x \<Rightarrow> x)
      in case (budget_compliance response ctx, catalog_groundedness response ctx,
               attribute_coverage response ctx, response_quality response ctx,
               is_hallucinated response ctx) of
           (Some b, Some g, Some c, Some (f, q), Some h) \<Rightarrow>
             (case weighted w [(''budget'', b), (''groundedness'', g), (''coverage'', c),
                               (''quality_format'', f), (''quality_comparison'', q)] of
                Inl e \<Rightarrow> Inl e
              | Inr tot \<Rightarrow>
                  Inr \<lparr>rb_budget = b, rb_groundedness = g, rb_coverage = c, rb_quality_format = f,
                       rb_quality_comparison = q, rb_hallucinated = h,
                       rb_total = tot - penalty * (if h then 1 else 0)\<rparr>)
         | _ \<Rightarrow> Inl BadNumber)"

end
