(* ===== verification/Preflight.thy ===== *)
theory Preflight
  imports Config Stub_Engine Rewards Catalog_Props
begin

text \<open>
  \<^verbatim>\<open>src/shoprl/platform/preflight.py\<close>: the checks that run before a GPU is allocated.  The detail of a
  check is the data that its message renders.  A rollout and a backward step that the caller injects,
  and torch's own tiny step, are results given as arguments.
\<close>

section \<open>Reports\<close>

datatype config_problem = SmallGroup int | BadLr real | NegativeBeta real | NoRewardSignal

datatype detail =
    ConfigOk
  | ConfigProblems "config_problem list"
  | Answers nat nat nat
  | NoAnswers
  | Estimate real
  | EstimateVsBudget real real real bool
  | Produced string nat int
  | Scored nat
  | NonFiniteReward
  | TorchMissing
  | Healthy "pyfloat option" "pyfloat option"
  | Unhealthy "pyfloat option" "pyfloat option"

record mem_estimate =
  me_weights :: real
  me_logits :: real
  me_activations :: real
  me_overhead :: real
  me_total :: real
  me_bytes :: nat

datatype check_data =
    ConfigData string int
  | DatasetData nat nat nat
  | MemoryData mem_estimate int int real "real option"
  | RolloutData string nat
  | RewardData "real option" "real option" "real option"
  | BackwardData "pyfloat option" "pyfloat option"
  | NoData

record check_result =
  ch_name :: string
  ch_ok :: bool
  ch_detail :: detail
  ch_skipped :: bool
  ch_data :: check_data

type_synonym report = "check_result list"

definition report_ok :: "report \<Rightarrow> bool" where
  "report_ok rep \<longleftrightarrow> list_all ch_ok rep"

definition first_failure :: "report \<Rightarrow> check_result option" where
  "first_failure rep = find (\<lambda>c. \<not> ch_ok c) rep"

text \<open>\<open>raise_if_failed\<close>: \<open>Inl\<close> is the PreflightError of the failing check.\<close>

definition raise_if_failed :: "report \<Rightarrow> check_result + report" where
  "raise_if_failed rep = (case first_failure rep of Some c \<Rightarrow> Inl c | None \<Rightarrow> Inr rep)"

section \<open>The memory estimate\<close>

text \<open>\<open>(\d+\.?\d*)\s*([bBmM])\<close> at the front of a string: the number and the unit.\<close>

definition param_count_at :: "string \<Rightarrow> (string \<times> char) option" where
  "param_count_at s =
     (let w = takeWhile is_digit s; r = dropWhile is_digit s;
          (num, r2) = (case r of
              c # cs \<Rightarrow> if c = CHR ''.'' then (w @ c # takeWhile is_digit cs, dropWhile is_digit cs) else (w, r)
            | [] \<Rightarrow> (w, r))
      in if w = [] then None
         else (case lstrip r2 of
             u # _ \<Rightarrow> if u \<in> set ''bBmM'' then Some (num, u) else None
           | [] \<Rightarrow> None))"

definition infer_param_count :: "string \<Rightarrow> real" where
  "infer_param_count name =
     (case search param_count_at name of
        None \<Rightarrow> 6 / 10 * 10 ^ 9
      | Some (num, u) \<Rightarrow>
          (case decimal num of None \<Rightarrow> 0 | Some v \<Rightarrow> v * (if lower_char u = CHR ''b'' then 10 ^ 9 else 10 ^ 6)))"

definition QWEN3_VOCAB :: int where "QWEN3_VOCAB = 151936"

definition gb :: "real \<Rightarrow> real" where
  "gb x = py_round 2 (x / 10 ^ 9)"

definition estimate_peak_mem_gb :: "real \<Rightarrow> int \<Rightarrow> int \<Rightarrow> string \<Rightarrow> int \<Rightarrow> int \<Rightarrow> int \<Rightarrow> mem_estimate" where
  "estimate_peak_mem_gb n_params batch seq_len dtype vocab hidden layers =
     (let bytes_per = (if dtype \<in> {''float32'', ''fp32'', ''f32''} then 4 else 2 :: nat);
          weights = n_params * real bytes_per;
          logits = of_int (batch * seq_len * vocab) * real bytes_per;
          activations = of_int (batch * seq_len * hidden * layers * 2) * real bytes_per;
          overhead = 10 ^ 9;
          tot = weights + logits + activations + overhead
      in \<lparr>me_weights = gb weights, me_logits = gb logits, me_activations = gb activations,
          me_overhead = gb overhead, me_total = gb tot, me_bytes = bytes_per\<rparr>)"

section \<open>The checks\<close>

definition config_problems :: "config \<Rightarrow> config_problem list" where
  "config_problems cfg =
     (if ro_num_samples (cf_rollout cfg) < 2 then [SmallGroup (ro_num_samples (cf_rollout cfg))] else [])
     @ (if tc_lr (cf_training cfg) \<le> 0 then [BadLr (tc_lr (cf_training cfg))] else [])
     @ (if tc_beta (cf_training cfg) < 0 then [NegativeBeta (tc_beta (cf_training cfg))] else [])
     @ (if sum_list (map snd (wc_weights (cf_rewards cfg))) \<le> 0 then [NoRewardSignal] else [])"

definition check_config :: "config \<Rightarrow> check_result" where
  "check_config cfg =
     (let problems = config_problems cfg; ok = (problems = []) in
      \<lparr>ch_name = ''config'', ch_ok = ok,
       ch_detail = (if ok then ConfigOk else ConfigProblems problems), ch_skipped = False,
       ch_data = ConfigData (algorithm_value (cf_algorithm cfg)) (ro_num_samples (cf_rollout cfg))\<rparr>)"

text \<open>The sources of the synthetic data: the random source, its seeding and the rendering of floats
  and of the dash of the stub's sentences.\<close>

record 'g gen_env =
  ge_rng :: "'g rng"
  ge_mk :: "string \<Rightarrow> 'g"
  ge_show :: "real \<Rightarrow> string"
  ge_dash :: string

definition catalog_of :: "'g gen_env \<Rightarrow> config \<Rightarrow> int \<Rightarrow> product list" where
  "catalog_of ge cfg seed = generate_catalog (ge_rng ge) (ge_mk ge) (nat (tc_catalog_size (cf_training cfg))) seed"

text \<open>\<open>generate_prompts\<close> with its default arguments.\<close>

definition prompts_of :: "'g gen_env \<Rightarrow> product list \<Rightarrow> int \<Rightarrow> int \<Rightarrow> prompt_example list option" where
  "prompts_of ge catalog n seed =
     generate_prompts (ge_rng ge) (ge_mk ge) (ge_show ge) catalog (nat n) seed True 50"

definition check_dataset :: "'g gen_env \<Rightarrow> config \<Rightarrow> int \<Rightarrow> check_result option" where
  "check_dataset ge cfg seed =
     (let catalog = catalog_of ge cfg seed; n = max (tc_prompts_per_step (cf_training cfg)) 8 in
      case prompts_of ge catalog n seed of
        None \<Rightarrow> None
      | Some prompts \<Rightarrow>
          (let with_answers = filter (\<lambda>p. pe_answers p \<noteq> []) prompts;
               ok = (0 < length with_answers)
           in Some \<lparr>ch_name = ''dataset'', ch_ok = ok,
                ch_detail = (if ok then Answers (length with_answers) (length prompts) (length catalog)
                             else NoAnswers),
                ch_skipped = False,
                ch_data = DatasetData (length catalog) (length prompts) (length with_answers)\<rparr>))"

definition check_memory :: "config \<Rightarrow> real option \<Rightarrow> real option \<Rightarrow> check_result" where
  "check_memory cfg gpu_mem_gb n_params =
     (let batch = tc_prompts_per_step (cf_training cfg) * ro_num_samples (cf_rollout cfg);
          seq_len = ro_max_new_tokens (cf_rollout cfg) + 128;
          params = (case n_params of None \<Rightarrow> infer_param_count (mc_name (cf_model cfg)) | Some p \<Rightarrow> p);
          est = estimate_peak_mem_gb params batch seq_len (mc_dtype (cf_model cfg)) QWEN3_VOCAB 1024 28
      in case gpu_mem_gb of
           None \<Rightarrow> \<lparr>ch_name = ''memory'', ch_ok = True, ch_detail = Estimate (me_total est),
                     ch_skipped = True, ch_data = MemoryData est batch seq_len params None\<rparr>
         | Some budget \<Rightarrow>
             (let ok = (me_total est \<le> budget) in
              \<lparr>ch_name = ''memory'', ch_ok = ok,
               ch_detail = EstimateVsBudget (me_total est) budget (me_logits est) ok,
               ch_skipped = False, ch_data = MemoryData est batch seq_len params (Some budget)\<rparr>))"

datatype 'e preflight_exn =
    GenerationRaised
  | RolloutRaised 'e
  | RewardRaised reward_error
  | BackwardRaised 'e

definition STUB_PROMPT :: string where
  "STUB_PROMPT = ''find a laptop under $1200 with 16GB RAM''"

definition check_rollout ::
  "'g gen_env \<Rightarrow> config \<Rightarrow> ('e + completion list) option \<Rightarrow> int
    \<Rightarrow> 'e preflight_exn + check_result \<times> completion list" where
  "check_rollout ge cfg rollout_fn seed =
     (let num = ro_num_samples (cf_rollout cfg);
          result = (\<lambda>engine comps.
            let nonempty = filter (\<lambda>c. strip (co_text c) \<noteq> []) comps;
                ok = (int (length nonempty) = num \<and> 0 < length nonempty)
            in (\<lparr>ch_name = ''rollout'', ch_ok = ok, ch_detail = Produced engine (length nonempty) num,
                 ch_skipped = False, ch_data = RolloutData engine (length comps)\<rparr>, comps))
      in case rollout_fn of
           None \<Rightarrow>
             Inr (result ''stub'' (gr_completions (hd
               (stub_generate (ge_rng ge) (ge_mk ge) (ge_dash ge) seed [STUB_PROMPT] num (Some seed)))))
         | Some (Inl e) \<Rightarrow> Inl (RolloutRaised e)
         | Some (Inr comps) \<Rightarrow> Inr (result (engine_value (ro_engine (cf_rollout cfg))) comps))"

text \<open>The first prompt with an answer, or the first prompt.\<close>

definition probe_prompt :: "prompt_example list \<Rightarrow> prompt_example" where
  "probe_prompt prompts =
     (case find (\<lambda>p. pe_answers p \<noteq> []) prompts of None \<Rightarrow> hd prompts | Some p \<Rightarrow> p)"

text \<open>\<open>min\<close> and \<open>max\<close> with a default of \<open>None\<close>.\<close>

definition fold_opt :: "('a \<Rightarrow> 'a \<Rightarrow> 'a) \<Rightarrow> 'a list \<Rightarrow> 'a option" where
  "fold_opt f xs = (case xs of [] \<Rightarrow> None | y # ys \<Rightarrow> Some (fold f ys y))"

definition check_reward ::
  "'g gen_env \<Rightarrow> config \<Rightarrow> completion list \<Rightarrow> int \<Rightarrow> 'e preflight_exn + check_result" where
  "check_reward ge cfg comps seed =
     (let catalog = catalog_of ge cfg seed in
      case prompts_of ge catalog 8 seed of
        None \<Rightarrow> Inl GenerationRaised
      | Some prompts \<Rightarrow>
          (let ctx = \<lparr>ctx_catalog = catalog_index catalog, ctx_constraints = pe_constraints (probe_prompt prompts)\<rparr> in
           case mapE (\<lambda>c. compute_reward (co_text c) ctx (Some (wc_weights (cf_rewards cfg)))
                        (Some (wc_penalty (cf_rewards cfg)))) comps of
             Inl e \<Rightarrow> Inl (RewardRaised e)
           | Inr bds \<Rightarrow>
               (let rs = map rb_total bds; finite = list_all (\<lambda>r. isfinite (Fin r)) rs in
                Inr \<lparr>ch_name = ''reward'', ch_ok = finite,
                     ch_detail = (if finite then Scored (length rs) else NonFiniteReward),
                     ch_skipped = False,
                     ch_data = RewardData (if rs \<noteq> [] then Some (sum_list rs / real (length rs)) else None)
                                 (fold_opt min rs) (fold_opt max rs)\<rparr>)))"

record backward_out =
  bo_loss :: "pyfloat option"
  bo_grad_norm :: "pyfloat option"

definition positive :: "pyfloat \<Rightarrow> bool" where
  "positive x \<longleftrightarrow> (case x of Fin r \<Rightarrow> 0 < r | PosInf \<Rightarrow> True | _ \<Rightarrow> False)"

definition healthy :: "backward_out \<Rightarrow> bool" where
  "healthy out' \<longleftrightarrow>
     (case bo_grad_norm out' of None \<Rightarrow> False | Some gn \<Rightarrow> isfinite gn \<and> positive gn)
     \<and> (case bo_loss out' of None \<Rightarrow> False | Some l \<Rightarrow> isfinite l)"

text \<open>\<open>torch\<close> is \<open>None\<close> when the import fails, and otherwise the result of the tiny step.\<close>

definition check_backward ::
  "('e + backward_out) option \<Rightarrow> ('e + backward_out) option \<Rightarrow> 'e preflight_exn + check_result" where
  "check_backward torch backward_fn =
     (case (case backward_fn of None \<Rightarrow> torch | Some r \<Rightarrow> Some r) of
        None \<Rightarrow> Inr \<lparr>ch_name = ''backward'', ch_ok = True, ch_detail = TorchMissing, ch_skipped = True,
                  ch_data = NoData\<rparr>
      | Some (Inl e) \<Rightarrow> Inl (BackwardRaised e)
      | Some (Inr out') \<Rightarrow>
          Inr \<lparr>ch_name = ''backward'', ch_ok = healthy out',
               ch_detail = (if healthy out' then Healthy (bo_loss out') (bo_grad_norm out')
                            else Unhealthy (bo_loss out') (bo_grad_norm out')),
               ch_skipped = False, ch_data = BackwardData (bo_loss out') (bo_grad_norm out')\<rparr>)"

section \<open>The driver\<close>

definition run_preflight ::
  "'g gen_env \<Rightarrow> ('e + backward_out) option \<Rightarrow> config \<Rightarrow> real option \<Rightarrow> real option
    \<Rightarrow> ('e + completion list) option \<Rightarrow> ('e + backward_out) option \<Rightarrow> 'e preflight_exn + report" where
  "run_preflight ge torch cfg gpu_mem_gb n_params rollout_fn backward_fn =
     (let seed = xc_seed (cf_experiment cfg); c1 = check_config cfg in
      if \<not> ch_ok c1 then Inr [c1]
      else case check_dataset ge cfg seed of
        None \<Rightarrow> Inl GenerationRaised
      | Some c2 \<Rightarrow>
          if \<not> ch_ok c2 then Inr [c1, c2]
          else (let c3 = check_memory cfg gpu_mem_gb n_params in
            if \<not> ch_ok c3 then Inr [c1, c2, c3]
            else case check_rollout ge cfg rollout_fn seed of
              Inl e \<Rightarrow> Inl e
            | Inr (c4, comps) \<Rightarrow>
                if \<not> ch_ok c4 then Inr [c1, c2, c3, c4]
                else case check_reward ge cfg comps seed of
                  Inl e \<Rightarrow> Inl e
                | Inr c5 \<Rightarrow>
                    if \<not> ch_ok c5 then Inr [c1, c2, c3, c4, c5]
                    else case check_backward torch backward_fn of
                      Inl e \<Rightarrow> Inl e
                    | Inr c6 \<Rightarrow> Inr [c1, c2, c3, c4, c5, c6]))"

text \<open>The exit code of the command.\<close>

definition preflight_exit :: "report \<Rightarrow> int" where
  "preflight_exit rep = (if report_ok rep then 0 else 1)"

end
