(* ===== verification/Atomic_Ingest.thy ===== *)
theory Atomic_Ingest
  imports Text "HOL-Library.Multiset"
begin

text \<open>
  \<^verbatim>\<open>src/shoprl/platform/_atomic.py\<close>: publishing a directory by staging it and renaming it once.
  The file system below a registry's root is the list of published directories and the list of
  staging directories; \<open>atomic_ingest\<close> is its sequence of file-system calls, so that a crash is a
  prefix of that sequence.  The locale \<open>manifest_registry\<close> is the verification loop that the
  checkpoint and the policy registry share, over the manifest type of either.
\<close>

section \<open>Files\<close>

text \<open>A file is raw bytes or a manifest document written by the registry (its JSON text is left to
  pydantic).  A directory is an association list from relative paths, in creation order.\<close>

datatype 'm content = Bytes string | Doc 'm

type_synonym 'm dir = "(string \<times> 'm content) list"

record 'm ingest_fs =
  published :: "(string \<times> 'm dir) list"
  staging :: "(string \<times> 'm dir) list"

record file_entry =
  fe_path :: string
  fe_sha256 :: string
  fe_size :: nat

datatype ingest_error = FileExists string | NotEmpty string

text \<open>The components of a path, on which \<open>sorted\<close> compares \<open>Path\<close> objects.\<close>

definition path_parts :: "string \<Rightarrow> string list" where
  "path_parts p = split_on (CHR ''/'') p"

definition sorted_files :: "(string \<times> string) list \<Rightarrow> (string \<times> string) list" where
  "sorted_files src = sort_key (\<lambda>f. path_parts (fst f)) src"

text \<open>\<open>sha256_file\<close>: hex digest and size.  The hash of the standard library is a parameter.\<close>

definition sha256_file :: "(string \<Rightarrow> string) \<Rightarrow> ('m \<Rightarrow> string) \<Rightarrow> 'm content \<Rightarrow> string \<times> nat" where
  "sha256_file sha render c =
     (case c of Bytes b \<Rightarrow> (sha b, length b) | Doc m \<Rightarrow> (sha (render m), length (render m)))"

section \<open>The sequence of file-system calls\<close>

datatype 'm fs_op =
    MkStaging string
  | CopyFile string string string
  | WriteManifest string string 'm
  | Rename string string

fun apply_op :: "'m fs_op \<Rightarrow> 'm ingest_fs \<Rightarrow> 'm ingest_fs" where
  "apply_op (MkStaging d) fs = fs\<lparr>staging := AList.update d [] (AList.delete d (staging fs))\<rparr>"
| "apply_op (CopyFile d p b) fs =
     fs\<lparr>staging := AList.map_entry d (AList.update p (Bytes b)) (staging fs)\<rparr>"
| "apply_op (WriteManifest d p m) fs =
     fs\<lparr>staging := AList.map_entry d (AList.update p (Doc m)) (staging fs)\<rparr>"
| "apply_op (Rename d final) fs =
     (case map_of (staging fs) d of
        None \<Rightarrow> fs
      | Some files \<Rightarrow> fs\<lparr>published := AList.update final files (published fs),
                       staging := AList.delete d (staging fs)\<rparr>)"

definition file_entry_of :: "(string \<Rightarrow> string) \<Rightarrow> string \<times> string \<Rightarrow> file_entry" where
  "file_entry_of sha f = \<lparr>fe_path = fst f, fe_sha256 = sha (snd f), fe_size = length (snd f)\<rparr>"

definition entries_of :: "(string \<Rightarrow> string) \<Rightarrow> (string \<times> string) list \<Rightarrow> file_entry list" where
  "entries_of sha src = map (file_entry_of sha) (sorted_files src)"

definition ingest_ops ::
  "(string \<Rightarrow> string) \<Rightarrow> string \<Rightarrow> string \<Rightarrow> string \<Rightarrow> (file_entry list \<Rightarrow> 'm) \<Rightarrow> (string \<times> string) list
    \<Rightarrow> 'm fs_op list" where
  "ingest_ops sha tmp dest manifest_name manifest src =
     MkStaging tmp # map (\<lambda>(p, b). CopyFile tmp p b) (sorted_files src)
     @ [WriteManifest tmp manifest_name (manifest (entries_of sha src)), Rename tmp dest]"

text \<open>\<open>atomic_ingest\<close> run to its end.  \<open>tmp\<close> is the name of the staging directory (the
  destination's name and a fresh suffix).  A destination that exists is refused up front unless
  \<open>overwrite\<close> is set; with it, the rename onto a directory that is not empty is an OSError after
  the staging directory was filled.\<close>

definition atomic_ingest ::
  "(string \<Rightarrow> string) \<Rightarrow> string \<Rightarrow> string \<Rightarrow> string \<Rightarrow> (file_entry list \<Rightarrow> 'm) \<Rightarrow> bool \<Rightarrow> (string \<times> string) list
    \<Rightarrow> ('m ingest_fs, ingest_error, file_entry list) action" where
  "atomic_ingest sha tmp dest manifest_name manifest overwrite src fs =
     (let ops = ingest_ops sha tmp dest manifest_name manifest src in
      case map_of (published fs) dest of
        None \<Rightarrow> (fold apply_op ops fs, Inr (entries_of sha src))
      | Some files \<Rightarrow>
          if \<not> overwrite then (fs, Inl (FileExists dest))
          else if files = [] then (fold apply_op ops fs, Inr (entries_of sha src))
          else (fold apply_op (butlast ops) fs, Inl (NotEmpty dest)))"

text \<open>The process dies after \<open>n\<close> of the calls.\<close>

definition crashed_ingest ::
  "nat \<Rightarrow> (string \<Rightarrow> string) \<Rightarrow> string \<Rightarrow> string \<Rightarrow> string \<Rightarrow> (file_entry list \<Rightarrow> 'm) \<Rightarrow> (string \<times> string) list
    \<Rightarrow> 'm ingest_fs \<Rightarrow> 'm ingest_fs" where
  "crashed_ingest n sha tmp dest manifest_name manifest src fs =
     fold apply_op (take n (ingest_ops sha tmp dest manifest_name manifest src)) fs"

text \<open>The directory the sequence stages.\<close>

definition staged_dir ::
  "(string \<Rightarrow> string) \<Rightarrow> string \<Rightarrow> (file_entry list \<Rightarrow> 'm) \<Rightarrow> (string \<times> string) list \<Rightarrow> 'm dir" where
  "staged_dir sha manifest_name manifest src =
     AList.update manifest_name (Doc (manifest (entries_of sha src)))
       (fold (\<lambda>(p, b). AList.update p (Bytes b)) (sorted_files src) [])"

section \<open>The commit point\<close>

definition is_rename :: "'m fs_op \<Rightarrow> bool" where
  "is_rename p \<longleftrightarrow> (case p of Rename _ _ \<Rightarrow> True | _ \<Rightarrow> False)"

lemma apply_keeps_published: "\<not> is_rename p \<Longrightarrow> published (apply_op p fs) = published fs"
  by (cases p) (simp_all add: is_rename_def)

lemma fold_keeps_published:
  "list_all (\<lambda>p. \<not> is_rename p) ps \<Longrightarrow> published (fold apply_op ps fs) = published fs"
  by (induction ps arbitrary: fs) (simp_all add: apply_keeps_published)

lemma ingest_ops_split:
  "ingest_ops sha tmp dest mn m src =
     (MkStaging tmp # map (\<lambda>(p, b). CopyFile tmp p b) (sorted_files src)
       @ [WriteManifest tmp mn (m (entries_of sha src))]) @ [Rename tmp dest]"
  by (simp add: ingest_ops_def)

lemma no_rename_before:
  "list_all (\<lambda>p. \<not> is_rename p) (butlast (ingest_ops sha tmp dest mn m src))"
  unfolding ingest_ops_split butlast_snoc by (auto simp: is_rename_def list_all_iff)

lemma map_of_map_entry:
  "map_of (AList.map_entry k f xs) k' = (if k' = k then map_option f (map_of xs k) else map_of xs k')"
  by (induction xs) auto

lemma copies_stage:
  "map_of (staging fs) tmp = Some files
    \<Longrightarrow> map_of (staging (fold apply_op (map (\<lambda>(p, b). CopyFile tmp p b) src) fs)) tmp
      = Some (fold (\<lambda>(p, b). AList.update p (Bytes b)) src files)"
  by (induction src arbitrary: fs files) (auto simp: map_of_map_entry)

lemma staged_before_rename:
  "map_of (staging (fold apply_op (butlast (ingest_ops sha tmp dest mn m src)) fs)) tmp
    = Some (staged_dir sha mn m src)"
proof -
  have "map_of (staging (apply_op (MkStaging tmp) fs)) tmp = Some []"
    by (simp add: update_conv)
  from copies_stage [OF this, of "sorted_files src"] show ?thesis
    unfolding ingest_ops_split butlast_snoc
    by (simp add: map_of_map_entry staged_dir_def del: apply_op.simps(1))
qed

lemma ingest_published:
  "published (fold apply_op (ingest_ops sha tmp dest mn m src) fs)
    = AList.update dest (staged_dir sha mn m src) (published fs)"
proof -
  let ?pre = "butlast (ingest_ops sha tmp dest mn m src)"
  have "ingest_ops sha tmp dest mn m src = ?pre @ [Rename tmp dest]"
    by (simp add: ingest_ops_def butlast_append)
  then have "fold apply_op (ingest_ops sha tmp dest mn m src) fs
      = apply_op (Rename tmp dest) (fold apply_op ?pre fs)"
    by (metis fold_append fold_simps(1) fold_simps(2) comp_apply)
  then show ?thesis
    using staged_before_rename [of sha tmp dest mn m src fs]
      fold_keeps_published [OF no_rename_before, of sha tmp dest mn m src fs]
    by simp
qed

section \<open>Verification against a manifest\<close>

datatype verify_error =
    MissingFile string
  | ChecksumMismatch string
  | SizeMismatch string

text \<open>\<open>for entry in manifest.files\<close>: the file must exist, hash to the recorded digest and have
  the recorded size.\<close>

fun verify_entries ::
  "(string \<Rightarrow> string) \<Rightarrow> ('m \<Rightarrow> string) \<Rightarrow> 'm dir \<Rightarrow> file_entry list \<Rightarrow> verify_error + unit" where
  "verify_entries sha render d [] = Inr ()"
| "verify_entries sha render d (e # es) =
     (case map_of d (fe_path e) of
        None \<Rightarrow> Inl (MissingFile (fe_path e))
      | Some c \<Rightarrow>
          (case sha256_file sha render c of (digest, sz) \<Rightarrow>
             if digest \<noteq> fe_sha256 e then Inl (ChecksumMismatch (fe_path e))
             else if sz \<noteq> fe_size e then Inl (SizeMismatch (fe_path e))
             else verify_entries sha render d es))"

definition entry_ok :: "(string \<Rightarrow> string) \<Rightarrow> ('m \<Rightarrow> string) \<Rightarrow> 'm dir \<Rightarrow> file_entry \<Rightarrow> bool" where
  "entry_ok sha render d e \<longleftrightarrow>
     (case map_of d (fe_path e) of None \<Rightarrow> False
      | Some c \<Rightarrow> sha256_file sha render c = (fe_sha256 e, fe_size e))"

lemma verify_entries_iff:
  "verify_entries sha render d es = Inr () \<longleftrightarrow> list_all (entry_ok sha render d) es"
  by (induction es) (auto simp: entry_ok_def split: option.splits prod.splits)

lemma verify_entries_cases:
  "verify_entries sha render d es = Inr () \<or>
   (\<exists>err. verify_entries sha render d es = Inl err \<and> \<not> list_all (entry_ok sha render d) es)"
proof (cases "verify_entries sha render d es")
  case (Inl err)
  then have "verify_entries sha render d es \<noteq> Inr ()" by simp
  then show ?thesis using Inl by (simp add: verify_entries_iff [symmetric])
qed simp

lemma copied_files:
  "map_of (fold (\<lambda>(p, b). AList.update p (Bytes b)) xs d) p
    = (case map_of (rev xs) p of None \<Rightarrow> map_of d p | Some b \<Rightarrow> Some (Bytes b))"
  by (induction xs arbitrary: d) (auto simp: update_conv' map_add_def split: option.splits)

lemma set_sorted_files [simp]: "set (sorted_files src) = set src"
  by (simp add: sorted_files_def)

lemma map_of_sorted_files:
  assumes "distinct (map fst src)"
  shows "map_of (rev (sorted_files src)) = map_of src"
proof -
  have "mset (rev (sorted_files src)) = mset src" by (simp add: sorted_files_def)
  then have "mset (map fst (rev (sorted_files src))) = mset (map fst src)" by (metis mset_map)
  then have "distinct (map fst (rev (sorted_files src)))"
    using assms mset_eq_imp_distinct_iff by blast
  then show ?thesis using assms by (simp only: map_of_inject_set set_rev set_sorted_files)
qed

locale manifest_registry =
  fixes files_of :: "'m \<Rightarrow> file_entry list"
    and make :: "file_entry list \<Rightarrow> 'm"
    and mname :: string
    and sha :: "string \<Rightarrow> string"
    and render :: "'m \<Rightarrow> string"
  assumes files_make: "files_of (make es) = es"
begin

lemma staged_manifest: "map_of (staged_dir sha mname make src) mname = Some (Doc (make (entries_of sha src)))"
  by (simp add: staged_dir_def update_conv')

lemma staged_file:
  "distinct (map fst src) \<Longrightarrow> (p, b) \<in> set src \<Longrightarrow> p \<noteq> mname
    \<Longrightarrow> map_of (staged_dir sha mname make src) p = Some (Bytes b)"
  by (simp add: staged_dir_def update_conv' copied_files map_of_sorted_files)

text \<open>What was published verifies, provided no source file has the manifest's own name.\<close>

lemma published_verifies:
  assumes "distinct (map fst src)" and "mname \<notin> set (map fst src)"
  shows "verify_entries sha render (staged_dir sha mname make src) (files_of (make (entries_of sha src)))
    = Inr ()"
proof -
  have "entry_ok sha render (staged_dir sha mname make src) (file_entry_of sha (p, b))"
    if "(p, b) \<in> set src" for p b
  proof -
    have "p \<noteq> mname" using that assms(2) by (auto simp: rev_image_eqI)
    from staged_file [OF assms(1) that this] show ?thesis
      by (simp add: entry_ok_def file_entry_of_def sha256_file_def)
  qed
  then show ?thesis by (auto simp: verify_entries_iff files_make entries_of_def list_all_iff)
qed

text \<open>A source file with the manifest's name is overwritten by it, and the entry no longer fits.\<close>

lemma manifest_named_source_fails:
  assumes "distinct (map fst src)" and "(mname, b) \<in> set src"
    and "sha (render (make (entries_of sha src))) \<noteq> sha b"
  shows "\<exists>err. verify_entries sha render (staged_dir sha mname make src)
      (files_of (make (entries_of sha src))) = Inl err"
proof -
  have "\<not> entry_ok sha render (staged_dir sha mname make src) (file_entry_of sha (mname, b))"
    using assms(3) by (simp add: entry_ok_def staged_manifest file_entry_of_def sha256_file_def)
  moreover have "file_entry_of sha (mname, b) \<in> set (files_of (make (entries_of sha src)))"
    using assms(2) by (auto simp: files_make entries_of_def)
  ultimately have "\<not> list_all (entry_ok sha render (staged_dir sha mname make src))
      (files_of (make (entries_of sha src)))"
    by (auto simp: list_all_iff)
  then show ?thesis using verify_entries_iff verify_entries_cases by blast
qed

text \<open>A directory that verifies holds, for every source file, bytes of the same digest and size.\<close>

lemma verified_content:
  assumes "verify_entries sha render d (files_of (make (entries_of sha src))) = Inr ()"
    and "(p, b) \<in> set src"
  shows "\<exists>c. map_of d p = Some c \<and> sha256_file sha render c = (sha b, length b)"
proof -
  have "file_entry_of sha (p, b) \<in> set (files_of (make (entries_of sha src)))"
    using assms(2) by (auto simp: files_make entries_of_def)
  then have "entry_ok sha render d (file_entry_of sha (p, b))"
    using assms(1) by (auto simp: verify_entries_iff list_all_iff)
  then show ?thesis by (auto simp: entry_ok_def file_entry_of_def split: option.splits)
qed

end

section \<open>The property of the primitive\<close>

text \<open>C14. Publishing is atomic: whatever call the process dies after, the published directories
  are either all as before or, once the last call was made, as before with exactly the new directory
  added, manifest included; a destination that exists is refused without any effect.\<close>

theorem ingest_crash_safe:
  "published (crashed_ingest n sha tmp dest mn m src fs) =
    (if n < length (ingest_ops sha tmp dest mn m src) then published fs
     else AList.update dest (staged_dir sha mn m src) (published fs)) \<and>
   atomic_ingest sha tmp dest mn m False src fs =
    (if map_of (published fs) dest = None
     then (crashed_ingest (length (ingest_ops sha tmp dest mn m src)) sha tmp dest mn m src fs,
           Inr (entries_of sha src))
     else (fs, Inl (FileExists dest)))"
proof (rule conjI)
  let ?ops = "ingest_ops sha tmp dest mn m src"
  have "take n ?ops = take n (butlast ?ops)" if "n < length ?ops"
    using that by (simp add: take_butlast)
  moreover have "list_all (\<lambda>p. \<not> is_rename p) (take n (butlast ?ops))"
    using no_rename_before [of sha tmp dest mn m src] by (auto simp: list_all_iff dest: in_set_takeD)
  ultimately show "published (crashed_ingest n sha tmp dest mn m src fs) =
    (if n < length ?ops then published fs
     else AList.update dest (staged_dir sha mn m src) (published fs))"
    by (auto simp: crashed_ingest_def fold_keeps_published ingest_published)
  show "atomic_ingest sha tmp dest mn m False src fs =
    (if map_of (published fs) dest = None
     then (crashed_ingest (length ?ops) sha tmp dest mn m src fs, Inr (entries_of sha src))
     else (fs, Inl (FileExists dest)))"
    by (auto simp: atomic_ingest_def crashed_ingest_def Let_def split: option.splits)
qed

end
