(* ===== verification/Checkpoints.thy ===== *)
theory Checkpoints
  imports Atomic_Ingest
begin

text \<open>
  \<^verbatim>\<open>src/shoprl/platform/checkpoints.py\<close>: the checkpoint registry on top of the atomic ingest.
  The hash, the JSON text of a manifest and its parser (pydantic), and the JSON of a saved state are
  parameters; directories are listed in the order they were published.
\<close>

section \<open>State and operations\<close>

record ckpt_manifest =
  ck_id :: string
  ck_step :: int
  ck_policy :: "string option"
  ck_created :: real
  ck_status :: string
  ck_files :: "file_entry list"
  ck_metadata :: dict

type_synonym ckpt_fs = "ckpt_manifest ingest_fs"

datatype ckpt_error =
    CheckpointNotFound string
  | CheckpointCorrupt string verify_error
  | BadManifest string
  | IngestFailed ingest_error
  | BadState string
  | KeepTooSmall

definition MANIFEST_NAME :: string where "MANIFEST_NAME = ''manifest.json''"

definition make_manifest ::
  "string \<Rightarrow> int \<Rightarrow> string option \<Rightarrow> real \<Rightarrow> dict \<Rightarrow> file_entry list \<Rightarrow> ckpt_manifest" where
  "make_manifest cid step policy now md es =
     \<lparr>ck_id = cid, ck_step = step, ck_policy = policy, ck_created = now, ck_status = ''READY'',
      ck_files = es, ck_metadata = md\<rparr>"

definition ckpt_id_of :: "int \<Rightarrow> string \<Rightarrow> string" where
  "ckpt_id_of step hex8 = ''step-'' @ show_padded 6 step @ ''-'' @ hex8"

text \<open>\<open>save\<close>: \<open>hex8\<close> and \<open>tmp8\<close> are the fresh suffixes of the id and of the staging
  directory; the manifest on disk and the returned one read the clock separately.\<close>

definition save ::
  "(string \<Rightarrow> string) \<Rightarrow> string \<Rightarrow> string \<Rightarrow> real \<Rightarrow> real \<Rightarrow> int \<Rightarrow> string option \<Rightarrow> dict \<Rightarrow>
    (string \<times> string) list \<Rightarrow> (ckpt_fs, ckpt_error, ckpt_manifest) action" where
  "save sha hex8 tmp8 now now' step policy md src fs =
     (let cid = ckpt_id_of step hex8 in
      case atomic_ingest sha (cid @ ''-'' @ tmp8) cid MANIFEST_NAME
             (make_manifest cid step policy now md) False src fs of
        (fs', Inl e) \<Rightarrow> (fs', Inl (IngestFailed e))
      | (fs', Inr entries) \<Rightarrow> (fs', Inr (make_manifest cid step policy now' md entries)))"

text \<open>\<open>save_state\<close>: the state goes through a scratch directory below \<open>.staging\<close> that is removed
  whatever happens.\<close>

definition save_state ::
  "(string \<Rightarrow> string) \<Rightarrow> (dict \<Rightarrow> string) \<Rightarrow> string \<Rightarrow> string \<Rightarrow> string \<Rightarrow> real \<Rightarrow> real \<Rightarrow> dict \<Rightarrow> int \<Rightarrow>
    string option \<Rightarrow> dict \<Rightarrow> (ckpt_fs, ckpt_error, ckpt_manifest) action" where
  "save_state sha dumps st8 hex8 tmp8 now now' state step policy md fs =
     (let tmp = ''_state-'' @ st8;
          src = [(''state.json'', dumps state)];
          fs1 = fs\<lparr>staging := AList.update tmp [(''state.json'', Bytes (dumps state))] (staging fs)\<rparr>;
          (fs2, r) = save sha hex8 tmp8 now now' step policy md src fs1
      in (fs2\<lparr>staging := AList.delete tmp (staging fs2)\<rparr>, r))"

definition ck_get :: "(string \<Rightarrow> ckpt_manifest option) \<Rightarrow> ckpt_fs \<Rightarrow> string \<Rightarrow> ckpt_error + ckpt_manifest" where
  "ck_get parse fs cid =
     (case map_of (published fs) cid of
        None \<Rightarrow> Inl (CheckpointNotFound cid)
      | Some d \<Rightarrow>
          (case map_of d MANIFEST_NAME of
             None \<Rightarrow> Inl (CheckpointNotFound cid)
           | Some (Doc m) \<Rightarrow> Inr m
           | Some (Bytes b) \<Rightarrow> (case parse b of None \<Rightarrow> Inl (BadManifest cid) | Some m \<Rightarrow> Inr m)))"

definition dir_of :: "ckpt_fs \<Rightarrow> string \<Rightarrow> ckpt_manifest dir" where
  "dir_of fs cid = (case map_of (published fs) cid of None \<Rightarrow> [] | Some d \<Rightarrow> d)"

definition ck_verify ::
  "(string \<Rightarrow> string) \<Rightarrow> (ckpt_manifest \<Rightarrow> string) \<Rightarrow> (string \<Rightarrow> ckpt_manifest option) \<Rightarrow> ckpt_fs \<Rightarrow> string
    \<Rightarrow> ckpt_error + ckpt_manifest" where
  "ck_verify sha render parse fs cid =
     (case ck_get parse fs cid of
        Inl e \<Rightarrow> Inl e
      | Inr manifest \<Rightarrow>
          (case verify_entries sha render (dir_of fs cid) (ck_files manifest) of
             Inl e \<Rightarrow> Inl (CheckpointCorrupt cid e)
           | Inr _ \<Rightarrow> Inr manifest))"

text \<open>\<open>resolve\<close> returns the path, here the directory's name; \<open>load_state\<close> reads the verified
  \<open>state.json\<close>.\<close>

definition resolve ::
  "(string \<Rightarrow> string) \<Rightarrow> (ckpt_manifest \<Rightarrow> string) \<Rightarrow> (string \<Rightarrow> ckpt_manifest option) \<Rightarrow> ckpt_fs \<Rightarrow> string
    \<Rightarrow> ckpt_error + string" where
  "resolve sha render parse fs cid =
     (case ck_verify sha render parse fs cid of Inl e \<Rightarrow> Inl e | Inr _ \<Rightarrow> Inr cid)"

definition load_state ::
  "(string \<Rightarrow> string) \<Rightarrow> (ckpt_manifest \<Rightarrow> string) \<Rightarrow> (string \<Rightarrow> ckpt_manifest option) \<Rightarrow>
    (string \<Rightarrow> dict option) \<Rightarrow> ckpt_fs \<Rightarrow> string \<Rightarrow> ckpt_error + dict" where
  "load_state sha render parse loads fs cid =
     (case resolve sha render parse fs cid of
        Inl e \<Rightarrow> Inl e
      | Inr path \<Rightarrow>
          (case map_of (dir_of fs path) ''state.json'' of
             Some (Bytes b) \<Rightarrow> (case loads b of None \<Rightarrow> Inl (BadState cid) | Some d \<Rightarrow> Inr d)
           | _ \<Rightarrow> Inl (BadState cid)))"

definition has_manifest :: "ckpt_manifest dir \<Rightarrow> bool" where
  "has_manifest d \<longleftrightarrow> map_of d MANIFEST_NAME \<noteq> None"

definition ck_list :: "(string \<Rightarrow> ckpt_manifest option) \<Rightarrow> ckpt_fs \<Rightarrow> ckpt_error + ckpt_manifest list" where
  "ck_list parse fs =
     (case mapE (ck_get parse fs) (map fst (filter (\<lambda>(_, d). has_manifest d) (published fs))) of
        Inl e \<Rightarrow> Inl e | Inr ms \<Rightarrow> Inr (sort_key ck_created ms))"

definition latest :: "(string \<Rightarrow> ckpt_manifest option) \<Rightarrow> ckpt_fs \<Rightarrow> ckpt_error + ckpt_manifest option" where
  "latest parse fs =
     (case ck_list parse fs of
        Inl e \<Rightarrow> Inl e | Inr [] \<Rightarrow> Inr None | Inr items \<Rightarrow> Inr (Some (last items)))"

definition sweep_staging :: "ckpt_fs \<Rightarrow> ckpt_fs \<times> nat" where
  "sweep_staging fs = (fs\<lparr>staging := []\<rparr>, length (staging fs))"

text \<open>\<open>items[-n:]\<close> for \<open>n \<ge> 1\<close>.\<close>

definition last_n :: "nat \<Rightarrow> 'a list \<Rightarrow> 'a list" where
  "last_n n xs = drop (length xs - n) xs"

definition prune ::
  "(string \<Rightarrow> ckpt_manifest option) \<Rightarrow> int \<Rightarrow> string list option \<Rightarrow> (ckpt_fs, ckpt_error, string list) action" where
  "prune parse keep_last_n protect fs =
     (if keep_last_n < 1 then (fs, Inl KeepTooSmall)
      else (case ck_list parse fs of
          Inl e \<Rightarrow> (fs, Inl e)
        | Inr items \<Rightarrow>
            (let protected = (case protect of None \<Rightarrow> [] | Some p \<Rightarrow> p);
                 keep_recent = map ck_id (last_n (nat keep_last_n) items);
                 removed = map ck_id (filter
                   (\<lambda>m. \<not> (ck_id m \<in> set keep_recent \<or> ck_id m \<in> set protected)) items)
             in (fs\<lparr>published := fold AList.delete removed (published fs)\<rparr>, Inr removed))))"

section \<open>Well-formed registries\<close>

text \<open>Every published directory has a name of its own, and the manifest in it carries that name.\<close>

definition ck_wf :: "ckpt_fs \<Rightarrow> bool" where
  "ck_wf fs \<longleftrightarrow> distinct (map fst (published fs)) \<and>
     list_all (\<lambda>(n, d). \<exists>m. map_of d MANIFEST_NAME = Some (Doc m) \<and> ck_id m = n) (published fs)"

definition doc_of :: "ckpt_manifest dir \<Rightarrow> ckpt_manifest" where
  "doc_of d = (case map_of d MANIFEST_NAME of Some (Doc m) \<Rightarrow> m | _ \<Rightarrow> make_manifest [] 0 None 0 [] [])"

interpretation ckpt: manifest_registry ck_files "make_manifest cid step policy now md" MANIFEST_NAME sha render
  for cid step policy now md sha render
  by unfold_locales (simp add: make_manifest_def)

lemma ck_get_wf:
  assumes "ck_wf fs" and "(n, d) \<in> set (published fs)"
  shows "ck_get parse fs n = Inr (doc_of d)" and "ck_id (doc_of d) = n" and "has_manifest d"
proof -
  obtain m where m: "map_of d MANIFEST_NAME = Some (Doc m)" "ck_id m = n"
    using assms by (auto simp: ck_wf_def list_all_iff)
  moreover have "map_of (published fs) n = Some d" using assms by (simp add: ck_wf_def)
  ultimately show "ck_get parse fs n = Inr (doc_of d)" "ck_id (doc_of d) = n" "has_manifest d"
    by (simp_all add: ck_get_def doc_of_def has_manifest_def)
qed

lemma ck_list_wf:
  assumes "ck_wf fs"
  shows "ck_list parse fs = Inr (sort_key ck_created (map (doc_of \<circ> snd) (published fs)))"
proof -
  have "filter (\<lambda>(_, d). has_manifest d) (published fs) = published fs"
    using ck_get_wf(3) [OF assms] by (auto intro!: filter_True)
  moreover have "mapE (ck_get parse fs) (map fst (published fs)) = Inr (map (doc_of \<circ> snd) (published fs))"
  proof -
    have "mapE (ck_get parse fs) (map fst xs) = Inr (map (doc_of \<circ> snd) xs)"
      if "set xs \<subseteq> set (published fs)" for xs
      using that by (induction xs) (auto simp: ck_get_wf(1) [OF assms])
    then show ?thesis by simp
  qed
  ultimately show ?thesis by (simp add: ck_list_def)
qed

end
