(* ===== verification/Failures.thy ===== *)
theory Failures
  imports Job_Props Checkpoints
begin

text \<open>
  \<^verbatim>\<open>src/shoprl/platform/failures.py\<close>: classification of a failure, the batch plan that trades
  microbatch for accumulation steps, and the recovery controller with its event log.  An exception is
  its type name, \<open>str\<close> and \<open>repr\<close>.  The two numbers of a batch plan are integers; a payload
  that holds something else there is an error of the model.
\<close>

section \<open>Classification\<close>

record exn =
  ex_type :: string
  ex_str :: string
  ex_repr :: string

datatype failure_class = TRANSIENT | OOM | PERMANENT | UNKNOWN

fun class_value :: "failure_class \<Rightarrow> string" where
  "class_value TRANSIENT = ''transient''"
| "class_value OOM = ''oom''"
| "class_value PERMANENT = ''permanent''"
| "class_value UNKNOWN = ''unknown''"

datatype recovery_action = RETRY | RETRY_WITH_ADJUSTMENT | RESTORE_AND_RETRY | GIVE_UP

fun action_value :: "recovery_action \<Rightarrow> string" where
  "action_value RETRY = ''retry''"
| "action_value RETRY_WITH_ADJUSTMENT = ''retry_with_adjustment''"
| "action_value RESTORE_AND_RETRY = ''restore_and_retry''"
| "action_value GIVE_UP = ''dead_letter''"

definition PERMANENT_TYPES :: "string set" where
  "PERMANENT_TYPES = {''ValueError'', ''KeyError'', ''TypeError'', ''PermanentError''}"

definition TRANSIENT_TYPES :: "string set" where
  "TRANSIENT_TYPES = {''TimeoutError'', ''ConnectionError'', ''TransientError''}"

definition classify :: "exn \<Rightarrow> failure_class" where
  "classify e =
     (let msg = lower (ex_str e) in
      if ex_type e \<in> {''OutOfMemoryError'', ''SimulatedOOM''} \<or> contains ''out of memory'' msg
         \<or> contains ''cuda oom'' msg then OOM
      else if ex_type e \<in> PERMANENT_TYPES \<or> contains ''no handler'' msg then PERMANENT
      else if ex_type e \<in> TRANSIENT_TYPES \<or> contains ''lease expired'' msg
         \<or> contains ''temporarily'' msg then TRANSIENT
      else UNKNOWN)"

section \<open>The batch plan\<close>

record batch_plan =
  microbatch_size :: int
  grad_accum_steps :: int

definition effective_batch :: "batch_plan \<Rightarrow> int" where
  "effective_batch p = microbatch_size p * grad_accum_steps p"

definition can_shrink :: "batch_plan \<Rightarrow> bool" where
  "can_shrink p \<longleftrightarrow> microbatch_size p > 1"

definition shrink :: "batch_plan \<Rightarrow> batch_plan" where
  "shrink p =
     (let new_mb = max 1 (microbatch_size p div 2);
          factor = microbatch_size p div new_mb
      in \<lparr>microbatch_size = new_mb, grad_accum_steps = grad_accum_steps p * factor\<rparr>)"

definition int_field :: "dict \<Rightarrow> string \<Rightarrow> int \<Rightarrow> int option" where
  "int_field d k dflt =
     (case map_of d k of
        None \<Rightarrow> Some dflt
      | Some (JInt i) \<Rightarrow> Some i
      | Some (JBool b) \<Rightarrow> Some (if b then 1 else 0)
      | _ \<Rightarrow> None)"

definition from_payload :: "dict \<Rightarrow> batch_plan option" where
  "from_payload d =
     (case int_field d ''microbatch_size'' 8 of
        None \<Rightarrow> None
      | Some mb \<Rightarrow>
          (case int_field d ''grad_accum_steps'' 1 of
             None \<Rightarrow> None
           | Some ga \<Rightarrow> Some \<lparr>microbatch_size = mb, grad_accum_steps = ga\<rparr>))"

section \<open>The recovery controller\<close>

record recovery_event =
  ev_ts :: real
  ev_job_id :: string
  ev_failure_class :: string
  ev_action :: string
  ev_attempt :: int
  ev_resulting_state :: string
  ev_message :: string
  ev_simulated :: bool
  ev_gpu_mem :: "real option"
  ev_mb_before :: "int option"
  ev_mb_after :: "int option"
  ev_ga_before :: "int option"
  ev_ga_after :: "int option"
  ev_restored :: "string option"

text \<open>The job store and the lines of the event log.\<close>

record recovery_state =
  rc_store :: store
  rc_log :: "recovery_event list"

datatype recovery_exc = RcStore store_error | RcRegistry ckpt_error | RcPayload

record controller =
  ct_registry :: "ckpt_fs option"
  ct_enabled :: bool
  ct_events_path :: "string option"

definition on_store :: "'a store_action \<Rightarrow> (recovery_state, recovery_exc, 'a) action" where
  "on_store m rs =
     (case m (rc_store rs) of
        (s', Inl e) \<Rightarrow> (rs\<lparr>rc_store := s'\<rparr>, Inl (RcStore e))
      | (s', Inr x) \<Rightarrow> (rs\<lparr>rc_store := s'\<rparr>, Inr x))"

definition dead_letter_now :: "real \<Rightarrow> string \<Rightarrow> string \<Rightarrow> job store_action" where
  "dead_letter_now now jid err =
     bindA (transition now jid FAILED (Some err) True)
       (\<lambda>_. transition now jid DEAD_LETTER (Some err) False)"

definition persist :: "controller \<Rightarrow> recovery_event \<Rightarrow> (recovery_state, recovery_exc, recovery_event) action" where
  "persist ct ev rs =
     (case ct_events_path ct of
        None \<Rightarrow> (rs, Inr ev)
      | Some p \<Rightarrow> ((if p = [] then rs else rs\<lparr>rc_log := rc_log rs @ [ev]\<rparr>), Inr ev))"

definition oom_message :: "batch_plan \<Rightarrow> batch_plan \<Rightarrow> string option \<Rightarrow> string" where
  "oom_message plan new restored =
     ''OOM: microbatch '' @ show_int (microbatch_size plan) @ ''->'' @ show_int (microbatch_size new)
     @ '', grad_accum '' @ show_int (grad_accum_steps plan) @ ''->'' @ show_int (grad_accum_steps new)
     @ '' (effective batch held constant='' @ show_int (effective_batch new) @ '')''
     @ (case restored of None \<Rightarrow> '''' | Some c \<Rightarrow> if c = [] then '''' else ''; restore '' @ c)"

text \<open>What the branches compute for the event: the job after the call, the action, the message,
  the plans before and after, the checkpoint.\<close>

record branch_result =
  br_final :: job
  br_action :: recovery_action
  br_message :: string
  br_plans :: "(batch_plan \<times> batch_plan) option"
  br_restored :: "string option"

definition retry_or_dead :: "job \<Rightarrow> recovery_action" where
  "retry_or_dead final = (if job_state final = DEAD_LETTER then GIVE_UP else RETRY)"

definition simple_branch :: "job \<Rightarrow> recovery_action \<Rightarrow> string \<Rightarrow> branch_result" where
  "simple_branch final act msg =
     \<lparr>br_final = final, br_action = act, br_message = msg, br_plans = None, br_restored = None\<rparr>"

definition latest_ckpt ::
  "(string \<Rightarrow> ckpt_manifest option) \<Rightarrow> controller \<Rightarrow> ckpt_error + string option" where
  "latest_ckpt parse ct =
     (case ct_registry ct of
        None \<Rightarrow> Inr None
      | Some fs \<Rightarrow> (case latest parse fs of Inl e \<Rightarrow> Inl e | Inr m \<Rightarrow> Inr (map_option ck_id m)))"

text \<open>The OOM branch; \<open>{**job.payload, k: v, ...}\<close> updates in place.\<close>

definition handle_oom ::
  "(string \<Rightarrow> ckpt_manifest option) \<Rightarrow> controller \<Rightarrow> real \<Rightarrow> job \<Rightarrow> string
    \<Rightarrow> (recovery_state, recovery_exc, branch_result) action" where
  "handle_oom parse ct now job err =
     (case from_payload (job_payload job) of
        None \<Rightarrow> raiseA RcPayload
      | Some plan \<Rightarrow>
          (if can_shrink plan then
             (let new = shrink plan in
              bindA (on_store (update_payload now (job_id job)
                (AList.update ''grad_accum_steps'' (JInt (grad_accum_steps new))
                  (AList.update ''microbatch_size'' (JInt (microbatch_size new)) (job_payload job)))))
              (\<lambda>_. case latest_ckpt parse ct of
                 Inl e \<Rightarrow> raiseA (RcRegistry e)
               | Inr restored \<Rightarrow>
                   bindA (on_store (fail now (job_id job) err))
                     (\<lambda>final. ret \<lparr>br_final = final,
                        br_action = (case restored of
                            None \<Rightarrow> RETRY_WITH_ADJUSTMENT
                          | Some c \<Rightarrow> if c = [] then RETRY_WITH_ADJUSTMENT else RESTORE_AND_RETRY),
                        br_message = oom_message plan new restored,
                        br_plans = Some (plan, new), br_restored = restored\<rparr>)))
           else
             bindA (on_store (dead_letter_now now (job_id job) err))
               (\<lambda>final. ret (simple_branch final GIVE_UP
                  ''OOM at microbatch=1: cannot fit, giving up''))))"

definition handle_branch ::
  "(string \<Rightarrow> ckpt_manifest option) \<Rightarrow> controller \<Rightarrow> real \<Rightarrow> job \<Rightarrow> exn
    \<Rightarrow> (recovery_state, recovery_exc, branch_result) action" where
  "handle_branch parse ct now job e =
     (let fc = classify e; err = ex_repr e in
      if \<not> ct_enabled ct then
        bindA (on_store (fail now (job_id job) err))
          (\<lambda>final. ret (simple_branch final (retry_or_dead final)
             ''recovery disabled: plain bounded retry''))
      else if fc = PERMANENT then
        bindA (on_store (dead_letter_now now (job_id job) err))
          (\<lambda>final. ret (simple_branch final GIVE_UP ''permanent/user error: not retryable''))
      else if fc = OOM then handle_oom parse ct now job err
      else
        bindA (on_store (fail now (job_id job) err))
          (\<lambda>final. ret (simple_branch final (retry_or_dead final)
             (class_value fc @ '': bounded retry''))))"

definition handle ::
  "(string \<Rightarrow> ckpt_manifest option) \<Rightarrow> controller \<Rightarrow> real option \<Rightarrow> real \<Rightarrow> real \<Rightarrow> job \<Rightarrow> exn
    \<Rightarrow> (recovery_state, recovery_exc, recovery_event) action" where
  "handle parse ct gpu now ts job e =
     bindA (handle_branch parse ct now job e)
       (\<lambda>br. persist ct
          \<lparr>ev_ts = ts, ev_job_id = job_id job, ev_failure_class = class_value (classify e),
           ev_action = action_value (br_action br), ev_attempt = job_attempts (br_final br),
           ev_resulting_state = state_value (job_state (br_final br)), ev_message = br_message br,
           ev_simulated = (ex_type e = ''SimulatedOOM''), ev_gpu_mem = gpu,
           ev_mb_before = map_option (microbatch_size \<circ> fst) (br_plans br),
           ev_mb_after = map_option (microbatch_size \<circ> snd) (br_plans br),
           ev_ga_before = map_option (grad_accum_steps \<circ> fst) (br_plans br),
           ev_ga_after = map_option (grad_accum_steps \<circ> snd) (br_plans br),
           ev_restored = br_restored br\<rparr>)"

end
