(* ===== verification/Pipeline.thy ===== *)
theory Pipeline
  imports Pool_Once Advantages Preflight Traj_Store Failures
begin

text \<open>
  \<^verbatim>\<open>src/shoprl/platform/pipeline.py\<close>: rollout jobs on a pool of workers, and after each step an
  optimize job that checkpoints the step, with one out-of-memory failure injected.  The state is the
  stores below one root.  The handler runs in a worker and writes trajectories (its world); the driver
  writes the rest.  The ids and times that a process draws, the random source, the JSON text and the hash
  are parameters, the schedule of the pool of each step too.
\<close>

section \<open>Configuration and state\<close>

definition CATALOG_N :: nat where "CATALOG_N = 120"

record pipeline_config =
  pc_steps :: nat
  pc_prompts_per_step :: int
  pc_num_samples :: int
  pc_seed :: int
  pc_n_workers :: nat
  pc_oom_at_step :: "nat option"
  pc_recovery_enabled :: bool

definition default_pipeline :: pipeline_config where
  "default_pipeline =
     \<lparr>pc_steps = 3, pc_prompts_per_step = 6, pc_num_samples = 4, pc_seed = 0, pc_n_workers = 3,
      pc_oom_at_step = Some 1, pc_recovery_enabled = True\<rparr>"

text \<open>What the handlers of all workers write to.\<close>

record handler_world =
  hw_rows :: traj_table
  hw_drawn :: nat

record 'g pipe_env =
  pv_gen :: "'g gen_env"
  pv_repr :: "reward_error \<Rightarrow> string"
  pv_store_repr :: "store_error \<Rightarrow> string"
  pv_id :: "nat \<Rightarrow> string"
  pv_clock :: "nat \<Rightarrow> real"
  pv_traj_id :: "nat \<Rightarrow> string"
  pv_traj_clock :: "nat \<Rightarrow> real"
  pv_sha :: "string \<Rightarrow> string"
  pv_dumps :: "dict \<Rightarrow> string"
  pv_parse :: "string \<Rightarrow> ckpt_manifest option"
  pv_schedule :: "nat \<Rightarrow> (nat \<times> real) list"
  pv_traj_db :: string
  pv_gpu :: "real option"

section \<open>The rollout handler\<close>

fun numbers :: "(string \<times> json) list \<Rightarrow> constraints option" where
  "numbers [] = Some []"
| "numbers ((k, JNum x) # d) = map_option ((#) (k, x)) (numbers d)"
| "numbers (_ # d) = None"

definition payload_int :: "dict \<Rightarrow> string \<Rightarrow> int option" where
  "payload_int d k = (case map_of d k of Some (JInt i) \<Rightarrow> Some i | _ \<Rightarrow> None)"

definition payload_str :: "dict \<Rightarrow> string \<Rightarrow> string option" where
  "payload_str d k = (case map_of d k of Some (JStr x) \<Rightarrow> Some x | _ \<Rightarrow> None)"

definition payload_constraints :: "dict \<Rightarrow> string \<Rightarrow> constraints option" where
  "payload_constraints d k = (case map_of d k of Some (JObj cs) \<Rightarrow> numbers cs | _ \<Rightarrow> None)"

record rollout_args =
  ra_prompt_id :: string
  ra_prompt :: string
  ra_constraints :: constraints
  ra_num_samples :: int
  ra_seed :: int
  ra_step :: int
  ra_policy :: string

text \<open>The reads of \<open>job.payload\<close>; \<open>None\<close> is the KeyError or TypeError of a payload that
  \<open>_enqueue_rollouts\<close> did not write.\<close>

definition rollout_args :: "dict \<Rightarrow> rollout_args option" where
  "rollout_args d =
     (case (payload_str d ''prompt_id'', payload_str d ''prompt'', payload_constraints d ''constraints'',
            payload_int d ''num_samples'', payload_int d ''seed'', payload_int d ''step'', payload_str d ''policy_id'') of
        (Some pid, Some pr, Some cs, Some n, Some seed, Some step, Some pol) \<Rightarrow>
          Some \<lparr>ra_prompt_id = pid, ra_prompt = pr, ra_constraints = cs, ra_num_samples = n, ra_seed = seed,
                ra_step = step, ra_policy = pol\<rparr>
      | _ \<Rightarrow> None)"

definition breakdown_dict :: "reward_breakdown \<Rightarrow> dict" where
  "breakdown_dict b =
     [(''budget'', JNum (rb_budget b)), (''groundedness'', JNum (rb_groundedness b)),
      (''coverage'', JNum (rb_coverage b)), (''quality_format'', JNum (rb_quality_format b)),
      (''quality_comparison'', JNum (rb_quality_comparison b)), (''hallucinated'', JBool (rb_hallucinated b)),
      (''total'', JNum (rb_total b))]"

definition stub_of :: "'g gen_env \<Rightarrow> rollout_args \<Rightarrow> completion list" where
  "stub_of ge a =
     gr_completions (hd (stub_generate (ge_rng ge) (ge_mk ge) (ge_dash ge) (ra_seed a) [ra_prompt a] (ra_num_samples a)
       (Some (ra_seed a + ra_step a))))"

definition handler_ctx :: "'g gen_env \<Rightarrow> rollout_args \<Rightarrow> reward_ctx" where
  "handler_ctx ge a =
     \<lparr>ctx_catalog = catalog_index (generate_catalog (ge_rng ge) (ge_mk ge) CATALOG_N (ra_seed a)),
      ctx_constraints = ra_constraints a\<rparr>"

definition score_group :: "'g gen_env \<Rightarrow> rollout_args \<Rightarrow> reward_error + reward_breakdown list" where
  "score_group ge a = mapE (\<lambda>c. compute_reward (co_text c) (handler_ctx ge a) None None) (stub_of ge a)"

definition scored_meta :: "reward_breakdown \<Rightarrow> real \<Rightarrow> real \<Rightarrow> nat \<Rightarrow> dict" where
  "scored_meta b gmean gstd n =
     [(''reward_components'', JObj (breakdown_dict b)),
      (''advantage'', JNum ((rb_total b - gmean) / (gstd + 1 / 10 ^ 8))), (''group_mean'', JNum gmean),
      (''group_std'', JNum gstd), (''group_size'', JInt (int n))]"

text \<open>One \<open>Trajectory.from_completion\<close>, \<open>model_copy\<close> and \<open>put\<close>; \<open>None\<close> would be pydantic's
  ValidationError.\<close>

definition put_scored ::
  "'g pipe_env \<Rightarrow> job \<Rightarrow> rollout_args \<Rightarrow> real \<Rightarrow> real \<Rightarrow> nat \<Rightarrow> completion \<times> reward_breakdown
    \<Rightarrow> (handler_world, string, unit) action" where
  "put_scored env j a gmean gstd n cb w =
     (let w' = w\<lparr>hw_drawn := hw_drawn w + 1\<rparr> in
      case from_completion (pv_traj_id env (hw_drawn w)) (pv_traj_clock env (hw_drawn w)) (ra_prompt a)
             (co_text (fst cb)) (Some (Fin (rb_total (snd cb))))
             \<lparr>ln_policy_id = ra_policy a, ln_job_id = Some (job_id j), ln_prompt_id = Some (ra_prompt_id a),
              ln_seed = Some (ra_seed a), ln_parent_id = None\<rparr> (Some (ra_prompt_id a)) of
        None \<Rightarrow> (w', Inl ''ValidationError'')
      | Some t \<Rightarrow> (w'\<lparr>hw_rows := traj_put (t\<lparr>tr_meta := scored_meta (snd cb) gmean gstd n\<rparr>) (hw_rows w')\<rparr>, Inr ()))"

definition rollout_handler :: "'g pipe_env \<Rightarrow> job \<Rightarrow> handler_world \<Rightarrow> handler_world \<times> outcome" where
  "rollout_handler env j w =
     (case rollout_args (job_payload j) of
        None \<Rightarrow> (w, HRaise ''KeyError'')
      | Some a \<Rightarrow>
          (case score_group (pv_gen env) a of
             Inl e \<Rightarrow> (w, HRaise (pv_repr env e))
           | Inr bds \<Rightarrow>
               (let rewards = map rb_total bds in
                if rewards = [] then (w, HRaise ''StatisticsError'')
                else
                  (let gmean = list_mean rewards; gstd = (if length rewards > 1 then pstdev rewards else 0) in
                   case mapA (put_scored env j a gmean gstd (length rewards)) (zip (stub_of (pv_gen env) a) bds) w of
                     (w', Inl e) \<Rightarrow> (w', HRaise e)
                   | (w', Inr _) \<Rightarrow>
                       (w', HReturn (Some [(''prompt_id'', JStr (ra_prompt_id a)), (''reward_mean'', JNum gmean),
                                           (''n'', JInt (int (length rewards)))]))))))"

section \<open>The driver\<close>

record metrics_line =
  ml_step :: nat
  ml_policy :: string
  ml_reward_mean :: real
  ml_reward_std :: real
  ml_n :: nat
  ml_recovered_oom :: bool

record pipe =
  pp_store :: store
  pp_world :: handler_world
  pp_ckpts :: ckpt_fs
  pp_events :: "recovery_event list"
  pp_metrics :: "metrics_line list"
  pp_drawn :: nat

text \<open>\<open>PxPool\<close>: the pool has not been joined yet; \<open>run_local_pool\<close> does not return then.\<close>

datatype pipe_exc =
    PxStore store_error
  | PxRecovery recovery_exc
  | PxSave ckpt_error
  | PxPrompts
  | PxPool
  | PxKeyError string

type_synonym 'a pipe_action = "(pipe, pipe_exc, 'a) action"

definition pdraw :: "'g pipe_env \<Rightarrow> (string \<times> real) pipe_action" where
  "pdraw env st = (st\<lparr>pp_drawn := pp_drawn st + 1\<rparr>, Inr (pv_id env (pp_drawn st), pv_clock env (pp_drawn st)))"

definition on_jobs :: "'a store_action \<Rightarrow> 'a pipe_action" where
  "on_jobs m st = (case m (pp_store st) of
     (s, Inl e) \<Rightarrow> (st\<lparr>pp_store := s\<rparr>, Inl (PxStore e)) | (s, Inr x) \<Rightarrow> (st\<lparr>pp_store := s\<rparr>, Inr x))"

definition rollout_payload :: "'g pipe_env \<Rightarrow> pipeline_config \<Rightarrow> nat \<Rightarrow> string \<Rightarrow> prompt_example \<Rightarrow> dict" where
  "rollout_payload env cfg step policy ex =
     [(''prompt_id'', JStr (pe_id ex)), (''prompt'', JStr (pe_prompt ex)),
      (''constraints'', JObj (map (\<lambda>(k, x). (k, JNum x)) (pe_constraints ex))),
      (''num_samples'', JInt (pc_num_samples cfg)), (''seed'', JInt (pc_seed cfg)), (''step'', JInt (int step)),
      (''policy_id'', JStr policy), (''traj_db'', JStr (pv_traj_db env))]"

definition enqueue_one :: "'g pipe_env \<Rightarrow> string \<Rightarrow> dict \<Rightarrow> job pipe_action" where
  "enqueue_one env kind payload =
     bindA (pdraw env) (\<lambda>(jid, now). on_jobs (create jid now kind payload 3 ''cpu'' 0))"

definition enqueue_rollouts ::
  "'g pipe_env \<Rightarrow> pipeline_config \<Rightarrow> prompt_example list \<Rightarrow> nat \<Rightarrow> string \<Rightarrow> unit pipe_action" where
  "enqueue_rollouts env cfg prompts step policy =
     bindA (mapA (\<lambda>ex. enqueue_one env ''rollout'' (rollout_payload env cfg step policy ex)) prompts) (\<lambda>_. ret ())"

definition rollout_pool :: "'g pipe_env \<Rightarrow> handler_world pool_env" where
  "rollout_pool env =
     \<lparr>pe_repr = pv_store_repr env,
      pe_handlers = (\<lambda>k. if k = ''rollout'' then Some (rollout_handler env) else None), pe_lease = 30\<rparr>"

definition run_workers :: "'g pipe_env \<Rightarrow> pipeline_config \<Rightarrow> nat \<Rightarrow> unit pipe_action" where
  "run_workers env cfg step st =
     (let p = run_pool (rollout_pool env) (pv_schedule env step)
                (start_pool (pc_n_workers cfg) (pp_store st) (pp_world st));
          st' = st\<lparr>pp_store := pl_store p, pp_world := pl_world p\<rparr>
      in if joined p then (st', Inr ()) else (st', Inl PxPool))"

definition simulated_oom :: exn where
  "simulated_oom =
     \<lparr>ex_type = ''SimulatedOOM'', ex_str = ''cuda oom'',
      ex_repr = ''SimulatedOOM('' @ py_repr ''cuda oom'' @ '')''\<rparr>"

definition recover :: "'g pipe_env \<Rightarrow> pipeline_config \<Rightarrow> real \<Rightarrow> real \<Rightarrow> job \<Rightarrow> recovery_event pipe_action" where
  "recover env cfg now ts j st =
     (case handle (pv_parse env)
             \<lparr>ct_registry = Some (pp_ckpts st), ct_enabled = pc_recovery_enabled cfg, ct_events_path = Some ''recovery_events.jsonl''\<rparr>
             (pv_gpu env) now ts j simulated_oom \<lparr>rc_store = pp_store st, rc_log = pp_events st\<rparr> of
        (rs, Inl e) \<Rightarrow> (st\<lparr>pp_store := rc_store rs, pp_events := rc_log rs\<rparr>, Inl (PxRecovery e))
      | (rs, Inr ev) \<Rightarrow> (st\<lparr>pp_store := rc_store rs, pp_events := rc_log rs\<rparr>, Inr ev))"

definition step_rewards :: "string \<Rightarrow> pipe \<Rightarrow> real list" where
  "step_rewards policy st = List.map_filter tr_reward (by_policy policy (hw_rows (pp_world st)))"

text \<open>\<open>save_state\<close> of the checkpoint registry.\<close>

definition checkpoint_step ::
  "'g pipe_env \<Rightarrow> nat \<Rightarrow> string \<Rightarrow> real \<Rightarrow> nat \<Rightarrow> job \<Rightarrow> ckpt_manifest pipe_action" where
  "checkpoint_step env step policy mean n j =
     bindA (pdraw env) (\<lambda>(st8, _). bindA (pdraw env) (\<lambda>(hex8, now). bindA (pdraw env) (\<lambda>(tmp8, now') st.
       (case map_of (job_payload j) ''microbatch_size'' of
          None \<Rightarrow> (st, Inl (PxKeyError ''microbatch_size''))
        | Some mb \<Rightarrow>
            (let state = [(''step'', JInt (int step)), (''policy_id'', JStr policy), (''reward_mean'', JNum mean),
                          (''microbatch_size'', mb)]
             in case save_state (pv_sha env) (pv_dumps env) st8 hex8 tmp8 now now' state (int step) (Some policy)
                       [(''reward_mean'', JNum mean), (''n_trajectories'', JInt (int n))] (pp_ckpts st) of
                  (fs, Inl e) \<Rightarrow> (st\<lparr>pp_ckpts := fs\<rparr>, Inl (PxSave e))
                | (fs, Inr m) \<Rightarrow> (st\<lparr>pp_ckpts := fs\<rparr>, Inr m))))))"

definition log_line :: "metrics_line \<Rightarrow> metrics_line pipe_action" where
  "log_line row st = (st\<lparr>pp_metrics := pp_metrics st @ [row]\<rparr>, Inr row)"

text \<open>The injected failure: the recovery controller requeues the job, which is claimed again.\<close>

definition oom_stage :: "'g pipe_env \<Rightarrow> pipeline_config \<Rightarrow> bool \<Rightarrow> string \<Rightarrow> unit pipe_action" where
  "oom_stage env cfg oom_here jid =
     (if \<not> oom_here then ret ()
      else bindA (on_jobs (get_job jid)) (\<lambda>j.
           bindA (pdraw env) (\<lambda>(_, t2). bindA (pdraw env) (\<lambda>(_, t3).
           bindA (recover env cfg t2 t3 j) (\<lambda>_.
           bindA (pdraw env) (\<lambda>(_, t4).
           bindA (on_jobs (claim (Some [''optimize'']) 30 t4)) (\<lambda>_. ret ())))))))"

text \<open>The rest of \<open>_run_optimize\<close>: rewards, checkpoint, completion and the line of metrics.\<close>

definition record_step :: "'g pipe_env \<Rightarrow> nat \<Rightarrow> string \<Rightarrow> bool \<Rightarrow> string \<Rightarrow> metrics_line pipe_action" where
  "record_step env step policy oom_here jid st =
     (let rewards = step_rewards policy st;
          reward_mean = (if rewards = [] then 0 else list_mean rewards);
          reward_std = (if length rewards > 1 then pstdev rewards else 0) in
      bindA (on_jobs (get_job jid)) (\<lambda>j.
      bindA (checkpoint_step env step policy reward_mean (length rewards) j) (\<lambda>_.
      bindA (pdraw env) (\<lambda>(_, t5).
      bindA (on_jobs (complete t5 jid)) (\<lambda>_.
        log_line \<lparr>ml_step = step, ml_policy = policy, ml_reward_mean = reward_mean, ml_reward_std = reward_std,
                  ml_n = length rewards, ml_recovered_oom = oom_here\<rparr>)))) st)"

definition run_optimize :: "'g pipe_env \<Rightarrow> pipeline_config \<Rightarrow> nat \<Rightarrow> string \<Rightarrow> metrics_line pipe_action" where
  "run_optimize env cfg step policy =
     (let oom_here = (pc_oom_at_step cfg = Some step) in
      bindA (enqueue_one env ''optimize''
        [(''step'', JInt (int step)), (''policy_id'', JStr policy), (''microbatch_size'', JInt 8),
         (''grad_accum_steps'', JInt 1)]) (\<lambda>job.
      bindA (pdraw env) (\<lambda>(_, t1).
      bindA (on_jobs (claim (Some [''optimize'']) 30 t1)) (\<lambda>_.
      bindA (oom_stage env cfg oom_here (job_id job)) (\<lambda>_.
        record_step env step policy oom_here (job_id job))))))"

definition policy_of :: "nat \<Rightarrow> string" where
  "policy_of step = ''step-'' @ show_padded 3 (int step)"

definition pipeline_step ::
  "'g pipe_env \<Rightarrow> pipeline_config \<Rightarrow> prompt_example list \<Rightarrow> nat \<Rightarrow> metrics_line pipe_action" where
  "pipeline_step env cfg prompts step =
     bindA (enqueue_rollouts env cfg prompts step (policy_of step)) (\<lambda>_.
     bindA (run_workers env cfg step) (\<lambda>_. run_optimize env cfg step (policy_of step)))"

record summary =
  su_steps :: nat
  su_job_counts :: "(job_state \<times> nat) list"
  su_trajectories :: nat
  su_checkpoints :: "string list"
  su_events :: nat
  su_per_step :: "metrics_line list"

definition pipeline_prompts :: "'g pipe_env \<Rightarrow> pipeline_config \<Rightarrow> prompt_example list option" where
  "pipeline_prompts env cfg =
     prompts_of (pv_gen env) (generate_catalog (ge_rng (pv_gen env)) (ge_mk (pv_gen env)) CATALOG_N (pc_seed cfg))
       (pc_prompts_per_step cfg) (pc_seed cfg)"

definition summarise :: "'g pipe_env \<Rightarrow> pipeline_config \<Rightarrow> metrics_line list \<Rightarrow> summary pipe_action" where
  "summarise env cfg rows st =
     (st, case ck_list (pv_parse env) (pp_ckpts st) of
        Inl e \<Rightarrow> Inl (PxSave e)
      | Inr ms \<Rightarrow> Inr \<lparr>su_steps = pc_steps cfg, su_job_counts = counts (pp_store st),
                     su_trajectories = traj_count (hw_rows (pp_world st)), su_checkpoints = map ck_id ms,
                     su_events = length (pp_events st), su_per_step = rows\<rparr>)"

definition pipeline_run :: "'g pipe_env \<Rightarrow> pipeline_config \<Rightarrow> prompt_example list \<Rightarrow> summary pipe_action" where
  "pipeline_run env cfg prompts =
     bindA (\<lambda>st. (st\<lparr>pp_metrics := []\<rparr>, Inr ())) (\<lambda>_.
     bindA (mapA (pipeline_step env cfg prompts) [0..<pc_steps cfg]) (summarise env cfg))"

definition run_pipeline :: "'g pipe_env \<Rightarrow> pipeline_config option \<Rightarrow> summary pipe_action" where
  "run_pipeline env cfg st =
     (let c = (case cfg of None \<Rightarrow> default_pipeline | Some x \<Rightarrow> x) in
      case pipeline_prompts env c of
        None \<Rightarrow> (st, Inl PxPrompts)
      | Some prompts \<Rightarrow> pipeline_run env c prompts st)"

end
