(* ===== verification/Reward_Props.thy ===== *)
theory Reward_Props
  imports Rewards
begin

text \<open>
  What the rewards promise: scores in their ranges, budget and coverage judged on catalog truth only,
  and a composite in which a false claim always costs more than presentation can win back.
\<close>

section \<open>Ranges\<close>

lemma fraction_bounds: "0 \<le> fraction ok xs \<and> fraction ok xs \<le> 1"
  by (cases "xs = []") (simp_all add: fraction_def divide_le_eq)

lemma fraction_mono: "(\<And>x. P x \<Longrightarrow> Q x) \<Longrightarrow> fraction P xs \<le> fraction Q xs"
proof -
  assume "\<And>x. P x \<Longrightarrow> Q x"
  then have "length (filter P xs) \<le> length (filter Q xs)" by (induction xs) (auto simp: le_SucI)
  then show ?thesis by (simp add: fraction_def divide_right_mono)
qed

lemma fraction_eq_1: "xs \<noteq> [] \<Longrightarrow> fraction ok xs = 1 \<longleftrightarrow> list_all ok xs"
proof (induction xs)
  case (Cons x xs)
  have "length (filter ok xs) \<le> length xs" by simp
  then have "length (filter ok xs) \<noteq> Suc (length xs)" by linarith
  then show ?case by (auto simp: fraction_def list_all_iff filter_eq_Cons_iff)
    (metis filter_True length_filter_less less_irrefl)
qed simp

lemma num_specs_le: "num_specs_stated r \<le> 4"
  by (simp add: num_specs_stated_def)

lemma mean_bounds:
  fixes xs :: "real list"
  assumes "xs \<noteq> []" and "\<And>x. x \<in> set xs \<Longrightarrow> l \<le> x \<and> x \<le> u"
  shows "l \<le> sum_list xs / real (length xs) \<and> sum_list xs / real (length xs) \<le> u"
proof -
  have "real (length xs) * l \<le> sum_list xs \<and> sum_list xs \<le> real (length xs) * u"
    using assms(2) by (induction xs) (auto simp: algebra_simps intro!: add_mono)
  with assms(1) show ?thesis by (simp add: pos_le_divide_eq pos_divide_le_eq mult.commute)
qed

lemma comparison_score_bounds: "0 \<le> comparison_score n s \<and> comparison_score n s \<le> 1"
proof -
  have b: "0 \<le> real (min k 2) / 2 \<and> real (min k 2) / 2 \<le> 1" for k :: nat by simp
  have m: "0 \<le> x * y \<and> x * y \<le> 1" if "0 \<le> x \<and> x \<le> 1" "0 \<le> y \<and> y \<le> 1" for x y :: real
    using that by (auto intro: mult_le_one)
  have c: "0 \<le> 4/10 + 6/10 * (5/10 * (if L then 1 else 0) + 5/10 * d) \<and>
      4/10 + 6/10 * (5/10 * (if L then 1 else 0) + 5/10 * d) \<le> 1" if "0 \<le> d \<and> d \<le> 1" for L and d :: real
    using that by (cases L) (simp_all add: field_simps)
  show ?thesis unfolding comparison_score_def Let_def by (rule m [OF b c [OF b]])
qed

lemma response_quality_bounds:
  assumes "response_quality response ctx = Some (f, q)"
  shows "0 \<le> f \<and> f \<le> 1 \<and> 0 \<le> q \<and> q \<le> 1"
proof -
  have "0 \<le> sum_list (map (\<lambda>r. real (num_specs_stated r) / 4) rs) / real (length rs) \<and>
      sum_list (map (\<lambda>r. real (num_specs_stated r) / 4) rs) / real (length rs) \<le> 1"
    if "rs \<noteq> []" for rs
  proof -
    let ?xs = "map (\<lambda>r. real (num_specs_stated r) / 4) rs"
    have "0 \<le> x \<and> x \<le> 1" if "x \<in> set ?xs" for x using that num_specs_le by auto
    with mean_bounds [of ?xs 0 1] that show ?thesis by simp
  qed
  then show ?thesis
    using assms comparison_score_bounds
    by (auto simp: response_quality_def Let_def split: option.splits if_splits)
qed

section \<open>The breakdown\<close>

lemma weighted_default:
  "weighted WEIGHTS [(''budget'', b), (''groundedness'', g), (''coverage'', c),
      (''quality_format'', f), (''quality_comparison'', q)]
    = Inr (25/100 * b + 25/100 * g + 25/100 * c + 15/100 * f + 10/100 * q)"
  by (simp add: weighted_def WEIGHTS_def)

lemma compute_reward_default:
  assumes "compute_reward response ctx None None = Inr b"
  obtains recs f q where "parse_response response = Some recs"
    and "budget_compliance response ctx = Some (rb_budget b)"
    and "catalog_groundedness response ctx = Some (rb_groundedness b)"
    and "attribute_coverage response ctx = Some (rb_coverage b)"
    and "response_quality response ctx = Some (rb_quality_format b, rb_quality_comparison b)"
    and "is_hallucinated response ctx = Some (rb_hallucinated b)"
    and "rb_total b = 25/100 * rb_budget b + 25/100 * rb_groundedness b + 25/100 * rb_coverage b +
      15/100 * rb_quality_format b + 10/100 * rb_quality_comparison b -
      50/100 * (if rb_hallucinated b then 1 else 0)"
proof (cases "parse_response response")
  case None
  with assms show ?thesis
    by (auto simp: compute_reward_def is_hallucinated_def split: option.splits)
next
  case (Some recs)
  with assms show ?thesis
    by (intro that)
      (auto simp: compute_reward_def weighted_default HALLUCINATION_PENALTY_def Let_def
        split: option.splits)
qed

lemma coverage_le_budget:
  assumes "budget_compliance response ctx = Some b" and "attribute_coverage response ctx = Some c"
  shows "c \<le> b"
proof -
  have imp: "in_catalog ctx (\<lambda>p. satisfies p (ctx_constraints ctx)) r \<Longrightarrow>
      in_catalog ctx (\<lambda>p. p_price p \<le> cap) r" if "map_of (ctx_constraints ctx) ''max_price'' = Some cap" for r cap
    using that by (auto simp: in_catalog_def satisfies_def violates_def split: option.splits if_splits)
  show ?thesis
  proof (cases "map_of (ctx_constraints ctx) ''max_price''")
    case None
    with assms show ?thesis
      using fraction_bounds by (auto simp: budget_compliance_def attribute_coverage_def Let_def
          split: option.splits if_splits)
  next
    case (Some cap)
    with assms show ?thesis
      using fraction_mono [of "in_catalog ctx (\<lambda>p. satisfies p (ctx_constraints ctx))", OF imp [OF Some]]
      by (auto simp: budget_compliance_def attribute_coverage_def Let_def split: option.splits if_splits)
  qed
qed

lemma hallucinated_groundedness:
  assumes "parse_response response = Some recs"
    and "catalog_groundedness response ctx = Some g" and "is_hallucinated response ctx = Some h"
  shows "h \<longleftrightarrow> recs \<noteq> [] \<and> g < 1" and "h \<longleftrightarrow> \<not> list_all (clean ctx) recs"
proof -
  show "h \<longleftrightarrow> \<not> list_all (clean ctx) recs"
    using assms by (auto simp: is_hallucinated_def list_ex_iff list_all_iff)
  then show "h \<longleftrightarrow> recs \<noteq> [] \<and> g < 1"
    using assms fraction_eq_1 [of recs "clean ctx"] fraction_bounds [of "clean ctx" recs]
    by (auto simp: catalog_groundedness_def split: if_splits)
qed

lemma component_bounds:
  "budget_compliance response ctx = Some x \<Longrightarrow> 0 \<le> x \<and> x \<le> 1"
  "catalog_groundedness response ctx = Some x \<Longrightarrow> 0 \<le> x \<and> x \<le> 1"
  "attribute_coverage response ctx = Some x \<Longrightarrow> 0 \<le> x \<and> x \<le> 1"
  using fraction_bounds
  by (auto simp: budget_compliance_def catalog_groundedness_def attribute_coverage_def Let_def
      split: option.splits if_splits)

lemma compute_reward_total:
  "parse_response response = Some recs \<Longrightarrow> \<exists>b. compute_reward response ctx None None = Inr b"
  by (auto simp: compute_reward_def budget_compliance_def catalog_groundedness_def
      attribute_coverage_def response_quality_def is_hallucinated_def Let_def weighted_default
      split: option.splits)

lemma default_total:
  assumes "compute_reward response ctx None None = Inr b"
  shows "- (1/2) \<le> rb_total b \<and> rb_total b \<le> 1 \<and> (rb_hallucinated b \<longrightarrow> parse_response response \<noteq> Some [])"
proof (rule compute_reward_default [OF assms])
  fix recs
  assume r: "parse_response response = Some recs"
    and b: "budget_compliance response ctx = Some (rb_budget b)"
    and g: "catalog_groundedness response ctx = Some (rb_groundedness b)"
    and c: "attribute_coverage response ctx = Some (rb_coverage b)"
    and q: "response_quality response ctx = Some (rb_quality_format b, rb_quality_comparison b)"
    and h: "is_hallucinated response ctx = Some (rb_hallucinated b)"
    and t: "rb_total b = 25/100 * rb_budget b + 25/100 * rb_groundedness b + 25/100 * rb_coverage b +
      15/100 * rb_quality_format b + 10/100 * rb_quality_comparison b -
      50/100 * (if rb_hallucinated b then 1 else 0)"
  note bounds = component_bounds(1) [OF b] component_bounds(2) [OF g] component_bounds(3) [OF c]
    response_quality_bounds [OF q]
  have "rb_hallucinated b \<longrightarrow> recs \<noteq> []" using hallucinated_groundedness(1) [OF r g h] by simp
  with bounds t r show ?thesis by (cases "rb_hallucinated b") simp_all
qed

definition sample_product :: product where
  "sample_product = \<lparr>p_sku = ''LAP-1'', p_name = ''A'', p_price = 900, p_ram = 16, p_weight = 3,
     p_battery = 10, p_brand = ''HP''\<rparr>"

definition sample_ctx :: reward_ctx where
  "sample_ctx = \<lparr>ctx_catalog = [''LAP-1'' \<mapsto> sample_product], ctx_constraints = [(''max_price'', 1000)]\<rparr>"

lemma sample_parse:
  "parse_response ''LAP-1 $900'' = Some [\<lparr>stated_price = Some 900, stated_ram = None,
     stated_weight = None, stated_battery = None, pr_sku = ''LAP-1''\<rparr>]"
  "parse_response ''LAP-1 $400'' = Some [\<lparr>stated_price = Some 400, stated_ram = None,
     stated_weight = None, stated_battery = None, pr_sku = ''LAP-1''\<rparr>]"
  by code_simp+

text \<open>C27. The composite reward with the default weights: every component lies in the unit interval
  and the total between -1/2 and 1; no answer covers the constraints better than it keeps the budget;
  an answer counts as hallucinated exactly when it cites something and its groundedness is below 1,
  and then the total stays below 1/2; a total of 1 is reached only by an honest answer with full marks
  everywhere.\<close>

theorem reward_ranges:
  assumes "compute_reward response ctx None None = Inr b"
  shows "{rb_budget b, rb_groundedness b, rb_coverage b, rb_quality_format b, rb_quality_comparison b} \<subseteq> {0..1} \<and>
    - (1/2) \<le> rb_total b \<and> rb_total b \<le> 1 \<and> rb_coverage b \<le> rb_budget b \<and>
    rb_hallucinated b = (parse_response response \<noteq> Some [] \<and> rb_groundedness b < 1) \<and>
    rb_total b < (if rb_hallucinated b then 1/2 else 2) \<and>
    (rb_total b = 1) = (\<not> rb_hallucinated b \<and> rb_budget b = 1 \<and> rb_groundedness b = 1 \<and>
       rb_coverage b = 1 \<and> rb_quality_format b = 1 \<and> rb_quality_comparison b = 1)"
proof (rule compute_reward_default [OF assms])
  fix recs
  assume r: "parse_response response = Some recs"
    and b: "budget_compliance response ctx = Some (rb_budget b)"
    and g: "catalog_groundedness response ctx = Some (rb_groundedness b)"
    and c: "attribute_coverage response ctx = Some (rb_coverage b)"
    and q: "response_quality response ctx = Some (rb_quality_format b, rb_quality_comparison b)"
    and h: "is_hallucinated response ctx = Some (rb_hallucinated b)"
    and t: "rb_total b = 25/100 * rb_budget b + 25/100 * rb_groundedness b + 25/100 * rb_coverage b +
      15/100 * rb_quality_format b + 10/100 * rb_quality_comparison b -
      50/100 * (if rb_hallucinated b then 1 else 0)"
  note bounds = component_bounds(1) [OF b] component_bounds(2) [OF g] component_bounds(3) [OF c]
    response_quality_bounds [OF q]
  have hal: "rb_hallucinated b = (parse_response response \<noteq> Some [] \<and> rb_groundedness b < 1)"
    using hallucinated_groundedness(1) [OF r g h] r by simp
  show ?thesis
  proof (cases "rb_hallucinated b")
    case True
    with hal have "rb_groundedness b < 1" by simp
    with True bounds t hal coverage_le_budget [OF b c] show ?thesis by simp
  next
    case False
    with bounds t hal coverage_le_budget [OF b c] show ?thesis by (simp; argo)
  qed
qed

lemma grounded_skus:
  "map pr_sku (grounded ctx rs) = filter (\<lambda>s. ctx_catalog ctx s \<noteq> None) (map pr_sku rs)"
  by (simp add: grounded_def filter_map comp_def)

lemma reward_ranges_witness:
  "\<exists>b. compute_reward ''LAP-1 $900'' sample_ctx None None = Inr b \<and> rb_total b \<le> 1"
  using compute_reward_total [OF sample_parse(1)] reward_ranges by blast

text \<open>C28. Claims are judged against the catalog: for two answers that cite the same SKUs, budget and
  coverage agree whatever specs they state; an answer all of whose claims are true beats an answer with
  a false one by more than a quarter, whatever the format and the comparisons of the two.\<close>

theorem lying_never_pays:
  assumes "compute_reward honest ctx None None = Inr b" and "compute_reward liar ctx None None = Inr c"
    and "parse_response honest = Some rs" and "parse_response liar = Some ss"
    and "map pr_sku rs = map pr_sku ss"
    and "list_all (clean ctx) rs" and "\<not> list_all (clean ctx) ss"
  shows "rb_budget c = rb_budget b \<and> rb_coverage c = rb_coverage b \<and> rb_total c + 1/4 < rb_total b"
proof -
  have gr: "map pr_sku (grounded ctx rs) = map pr_sku (grounded ctx ss)"
    by (simp only: grounded_skus assms(5))
  then have gl: "grounded ctx rs = [] \<longleftrightarrow> grounded ctx ss = []" by (metis list.map_disc_iff)
  have fr: "fraction (in_catalog ctx ok) (grounded ctx rs) = fraction (in_catalog ctx ok) (grounded ctx ss)" for ok
  proof -
    let ?k = "\<lambda>s. case ctx_catalog ctx s of None \<Rightarrow> False | Some p \<Rightarrow> ok p"
    have "fraction (in_catalog ctx ok) xs = fraction ?k (map pr_sku xs)" for xs
      by (simp add: fraction_def filter_map comp_def in_catalog_def [abs_def])
    then show ?thesis by (simp only: gr)
  qed
  have same: "budget_compliance honest ctx = budget_compliance liar ctx"
    "attribute_coverage honest ctx = attribute_coverage liar ctx"
    using assms(3,4) gl fr by (simp_all add: budget_compliance_def attribute_coverage_def Let_def split: option.splits)
  have ne: "rs \<noteq> []" using assms(5,7) by auto
  show ?thesis
  proof (rule compute_reward_default [OF assms(1)], rule compute_reward_default [OF assms(2)])
    assume b: "budget_compliance honest ctx = Some (rb_budget b)"
      "attribute_coverage honest ctx = Some (rb_coverage b)"
      and bg: "catalog_groundedness honest ctx = Some (rb_groundedness b)"
      and bq: "response_quality honest ctx = Some (rb_quality_format b, rb_quality_comparison b)"
      and bh: "is_hallucinated honest ctx = Some (rb_hallucinated b)"
      and bt: "rb_total b = 25/100 * rb_budget b + 25/100 * rb_groundedness b + 25/100 * rb_coverage b +
      15/100 * rb_quality_format b + 10/100 * rb_quality_comparison b -
      50/100 * (if rb_hallucinated b then 1 else 0)"
      and c: "budget_compliance liar ctx = Some (rb_budget c)"
      "attribute_coverage liar ctx = Some (rb_coverage c)"
      and cg: "catalog_groundedness liar ctx = Some (rb_groundedness c)"
      and cq: "response_quality liar ctx = Some (rb_quality_format c, rb_quality_comparison c)"
      and ch: "is_hallucinated liar ctx = Some (rb_hallucinated c)"
      and ct: "rb_total c = 25/100 * rb_budget c + 25/100 * rb_groundedness c + 25/100 * rb_coverage c +
      15/100 * rb_quality_format c + 10/100 * rb_quality_comparison c -
      50/100 * (if rb_hallucinated c then 1 else 0)"
    have "\<not> rb_hallucinated b" "rb_hallucinated c"
      using hallucinated_groundedness(2) [OF assms(3) bg bh] assms(6)
        hallucinated_groundedness(2) [OF assms(4) cg ch] assms(7) by simp_all
    moreover have "rb_groundedness b = 1" "rb_groundedness c < 1"
      using hallucinated_groundedness(1) [OF assms(3) bg bh] component_bounds(2) [OF bg] ne
        hallucinated_groundedness(1) [OF assms(4) cg ch] calculation by auto
    moreover have "rb_budget c = rb_budget b" "rb_coverage c = rb_coverage b"
      using b c same by simp_all
    ultimately show ?thesis
      using bt ct response_quality_bounds [OF bq] response_quality_bounds [OF cq] by simp
  qed
qed

lemma lying_never_pays_witness:
  "\<exists>b c. compute_reward ''LAP-1 $900'' sample_ctx None None = Inr b \<and>
    compute_reward ''LAP-1 $400'' sample_ctx None None = Inr c \<and> rb_total c + 1/4 < rb_total b"
proof -
  obtain b c where b: "compute_reward ''LAP-1 $900'' sample_ctx None None = Inr b"
    and c: "compute_reward ''LAP-1 $400'' sample_ctx None None = Inr c"
    using compute_reward_total sample_parse by metis
  then show ?thesis
    using lying_never_pays [OF b c sample_parse]
    by (simp add: clean_def in_catalog_def specs_consistent_def differs_def sample_ctx_def
        sample_product_def PRICE_TOL_def)
qed

end
