(* ===== verification/Rollout_Props.thy ===== *)
theory Rollout_Props
  imports Pipeline Reward_Props
begin

text \<open>
  The rollout handler of the pipeline: it reads back the payload that the driver wrote, never raises on
  it, and appends one trajectory per sample with the rewards of the group.
\<close>

section \<open>Text without a price\<close>

lemma splitlines_crlf:
  "is_newline c \<Longrightarrow> l \<in> set (splitlines_acc acc (c # d # ds)) \<Longrightarrow>
     l = rev acc \<or> l \<in> set (splitlines_acc [] (if code c = 13 \<and> code d = 10 then ds else d # ds))"
  by (cases "code c = 13 \<and> code d = 10") (simp, simp del: de_Morgan_conj)

lemma splitlines_acc_chars: "l \<in> set (splitlines_acc acc s) \<Longrightarrow> set l \<subseteq> set acc \<union> set s"
proof (induction acc s rule: splitlines_acc.induct)
  case (1 acc)
  then show ?case by (auto split: if_splits)
next
  case (2 acc c cs)
  note prem = 2(4)
  show ?case
  proof (cases "is_newline c")
    case False
    then have "l \<in> set (splitlines_acc (c # acc) cs)" using prem by simp
    from 2(3) [OF False this] show ?thesis by auto
  next
    case nl: True
    show ?thesis
    proof (cases cs)
      case Nil
      then have "l = rev acc" using nl prem by simp
      then show ?thesis by auto
    next
      case (Cons d ds)
      have "l = rev acc \<or> l \<in> set (splitlines_acc [] (if code c = 13 \<and> code d = 10 then ds else d # ds))"
        by (rule splitlines_crlf [OF nl prem [unfolded Cons]])
      moreover have "set l \<subseteq> set (if code c = 13 \<and> code d = 10 then ds else d # ds)"
        if "l \<in> set (splitlines_acc [] (if code c = 13 \<and> code d = 10 then ds else d # ds))"
      proof (cases "code c = 13 \<and> code d = 10")
        case True
        then show ?thesis using 2(1) [OF nl Cons True] that by (simp only: if_P [OF True]) simp
      next
        case False
        then show ?thesis using 2(2) [OF nl Cons False] that by (simp only: if_not_P [OF False]) simp
      qed
      moreover have "set (if code c = 13 \<and> code d = 10 then ds else d # ds) \<subseteq> set cs" unfolding Cons by auto
      ultimately have "set l \<subseteq> set acc \<or> set l \<subseteq> set cs" by (metis order_refl order_trans set_rev)
      then show ?thesis by auto
    qed
  qed
qed

lemma split_on_chars: "w \<in> set (split_on c s) \<Longrightarrow> set w \<subseteq> set s"
proof -
  have "\<Union> (set ` set (split_on c s)) \<subseteq> set s"
  proof (induction s)
    case (Cons x s)
    then show ?case by (cases "split_on c s") (simp_all, blast)
  qed simp
  then show "w \<in> set (split_on c s) \<Longrightarrow> set w \<subseteq> set s" by blast
qed

lemma join_chars: "set (join sep ws) \<subseteq> set sep \<union> \<Union> (set ` set ws)"
  by (induction sep ws rule: join.induct) auto

lemma spec_text_chars: "set (spec_text l) \<subseteq> set l"
proof (cases "CHR ''|'' \<in> set l")
  case True
  have "set w \<subseteq> set l" if "w \<in> set (butlast (split_on (CHR ''|'') l))" for w
    using split_on_chars [OF in_set_butlastD [OF that]] .
  then have "set (join ''|'' (butlast (split_on (CHR ''|'') l))) \<subseteq> set l"
    using join_chars [of "''|''" "butlast (split_on (CHR ''|'') l)"] True by fastforce
  with True show ?thesis by (simp add: spec_text_def)
qed (simp add: spec_text_def)

lemma no_dollar_no_price: "CHR ''$'' \<notin> set s \<Longrightarrow> search price_at s = None"
  by (auto simp: search_None price_at_def split: list.splits)

lemma no_dollar_specs: "CHR ''$'' \<notin> set s \<Longrightarrow> \<exists>sp. extract_specs s = Some sp"
  by (simp add: extract_specs_def no_dollar_no_price Let_def)

lemma no_dollar_lines:
  "\<forall>l \<in> set ls. CHR ''$'' \<notin> set l \<Longrightarrow> \<exists>recs. parse_lines ls acc = Some recs"
proof (induction ls arbitrary: acc)
  case (Cons l ls)
  have "CHR ''$'' \<notin> set (spec_text l)" using Cons.prems spec_text_chars [of l] by auto
  then obtain sp where "extract_specs (spec_text l) = Some sp" using no_dollar_specs by blast
  with Cons show ?case by (simp add: Let_def)
qed simp

lemma no_dollar_parses: "CHR ''$'' \<notin> set s \<Longrightarrow> \<exists>recs. parse_response s = Some recs"
  unfolding parse_response_def splitlines_def
  by (intro no_dollar_lines) (use splitlines_acc_chars in fastforce)

section \<open>The canned answers\<close>

lemma stub_chars:
  assumes "rng_ok rg"
  shows "c \<in> set (stub_completions rg dash prompt n g) \<Longrightarrow>
    \<exists>t \<in> set (CANNED dash). \<exists>p \<in> set PRODUCTS. co_text c = fst t @ p @ snd t"
proof (induction n arbitrary: g)
  case (Suc n)
  obtain t g1 where t: "rng_choice rg (CANNED dash) g = (t, g1)" by fastforce
  obtain p g2 where p: "rng_choice rg PRODUCTS g1 = (p, g2)" by fastforce
  have "t \<in> set (CANNED dash)" "p \<in> set PRODUCTS"
    using rng_choice_in [OF assms _ t] rng_choice_in [OF assms _ p] by (simp_all add: CANNED_def PRODUCTS_def)
  moreover have "co_text c = fst t @ p @ snd t \<or> c \<in> set (stub_completions rg dash prompt n g2)"
    using Suc.prems t p by (auto simp: plain_completion_def)
  ultimately show ?case using Suc.IH by blast
qed simp

lemma stub_no_dollar:
  assumes "rng_ok rg" and "CHR ''$'' \<notin> set dash" and "c \<in> set (stub_completions rg dash prompt n g)"
  shows "CHR ''$'' \<notin> set (co_text c)"
  using stub_chars [OF assms(1,3)] assms(2) by (auto simp: CANNED_def PRODUCTS_def)

definition gen_ok :: "'g gen_env \<Rightarrow> bool" where
  "gen_ok ge \<longleftrightarrow> rng_ok (ge_rng ge) \<and> CHR ''$'' \<notin> set (ge_dash ge)"

lemma stub_of_eq:
  "stub_of ge a = stub_completions (ge_rng ge) (ge_dash ge) (ra_prompt a) (nat (ra_num_samples a))
     (ge_mk ge (show_int (ra_seed a + ra_step a) @ ''-'' @ show_int 0))"
  by (simp add: stub_of_def stub_generate_def stub_group_def)

lemma length_stub_of [simp]: "length (stub_of ge a) = nat (ra_num_samples a)"
  by (simp add: stub_of_eq)

definition group_scores :: "'g gen_env \<Rightarrow> rollout_args \<Rightarrow> reward_breakdown list" where
  "group_scores ge a = (case score_group ge a of Inl _ \<Rightarrow> [] | Inr bds \<Rightarrow> bds)"

lemma mapE_total: "(\<And>x. x \<in> set xs \<Longrightarrow> \<exists>y. f x = Inr y) \<Longrightarrow> \<exists>ys. mapE f xs = Inr ys"
  by (induction xs) fastforce+

lemma stub_scored:
  assumes "gen_ok ge" and "c \<in> set (stub_of ge a)"
  shows "\<exists>b. compute_reward (co_text c) ctx None None = Inr b"
proof -
  have "CHR ''$'' \<notin> set (co_text c)"
    using assms(1) assms(2) [unfolded stub_of_eq] unfolding gen_ok_def by (elim conjE) (rule stub_no_dollar)
  then obtain recs where "parse_response (co_text c) = Some recs" using no_dollar_parses by blast
  then show ?thesis by (rule compute_reward_total)
qed

lemma score_group_total: "gen_ok ge \<Longrightarrow> score_group ge a = Inr (group_scores ge a)"
proof -
  assume "gen_ok ge"
  then have "\<exists>bds. score_group ge a = Inr bds"
    unfolding score_group_def by (intro mapE_total stub_scored)
  then show ?thesis by (auto simp: group_scores_def)
qed

lemma group_scored:
  assumes "gen_ok ge"
  shows "length (group_scores ge a) = nat (ra_num_samples a)"
    and "b \<in> set (group_scores ge a) \<Longrightarrow> - (1/2) \<le> rb_total b \<and> rb_total b \<le> 1"
proof -
  have all: "list_all2 (\<lambda>c b. compute_reward (co_text c) (handler_ctx ge a) None None = Inr b) (stub_of ge a) (group_scores ge a)"
    by (rule mapE_InrD [OF score_group_total [OF assms, unfolded score_group_def]])
  show len: "length (group_scores ge a) = nat (ra_num_samples a)" using list_all2_lengthD [OF all] by simp
  assume "b \<in> set (group_scores ge a)"
  then obtain i where "i < length (group_scores ge a)" "b = group_scores ge a ! i" by (metis in_set_conv_nth)
  then have "compute_reward (co_text (stub_of ge a ! i)) (handler_ctx ge a) None None = Inr b"
    using list_all2_nthD2 [OF all] by simp
  then show "- (1/2) \<le> rb_total b \<and> rb_total b \<le> 1" using default_total by blast
qed

section \<open>What the handler writes\<close>

lemma numbers_map: "numbers (map (\<lambda>(k, x). (k, JNum x)) cs) = Some cs"
  by (induction cs) auto

definition args_of :: "pipeline_config \<Rightarrow> nat \<Rightarrow> string \<Rightarrow> prompt_example \<Rightarrow> rollout_args" where
  "args_of cfg step policy ex =
     \<lparr>ra_prompt_id = pe_id ex, ra_prompt = pe_prompt ex, ra_constraints = pe_constraints ex,
      ra_num_samples = pc_num_samples cfg, ra_seed = pc_seed cfg, ra_step = int step, ra_policy = policy\<rparr>"

lemma payload_roundtrip: "rollout_args (rollout_payload env cfg step policy ex) = Some (args_of cfg step policy ex)"
  by (simp add: rollout_args_def rollout_payload_def payload_str_def payload_int_def payload_constraints_def
      args_of_def numbers_map)

text \<open>The table of trajectories with ids drawn so far.\<close>

definition world_ok :: "'g pipe_env \<Rightarrow> handler_world \<Rightarrow> bool" where
  "world_ok env w \<longleftrightarrow> (\<forall>t \<in> set (hw_rows w). \<exists>i < hw_drawn w. tr_id t = pv_traj_id env i)"

text \<open>The row a completion becomes.\<close>

definition scored_row ::
  "'g pipe_env \<Rightarrow> job \<Rightarrow> rollout_args \<Rightarrow> real \<Rightarrow> real \<Rightarrow> nat \<Rightarrow> nat \<Rightarrow> completion \<times> reward_breakdown \<Rightarrow> trajectory" where
  "scored_row env j a gmean gstd n i cb =
     \<lparr>tr_id = pv_traj_id env i, tr_kind = SingleTurn, tr_prompt = ra_prompt a,
      tr_steps = [\<lparr>st_index = 0, st_action = co_text (fst cb), st_observation = '''',
        st_reward = Some (rb_total (snd cb)), st_logprob = None\<rparr>],
      tr_reward = Some (rb_total (snd cb)),
      tr_lineage = \<lparr>ln_policy_id = ra_policy a, ln_job_id = Some (job_id j), ln_prompt_id = Some (ra_prompt_id a),
        ln_seed = Some (ra_seed a), ln_parent_id = None\<rparr>,
      tr_created_at = pv_traj_clock env i, tr_meta = scored_meta (snd cb) gmean gstd n\<rparr>"

lemma put_scored_eq:
  "put_scored env j a gmean gstd n cb w =
     (\<lparr>hw_rows = traj_put (scored_row env j a gmean gstd n (hw_drawn w) cb) (hw_rows w), hw_drawn = hw_drawn w + 1\<rparr>, Inr ())"
  by (simp add: put_scored_def from_completion_def make_step_def make_trajectory_def finite_field_def steps_ok_def
      scored_row_def Let_def)

lemma put_fresh: "tr_id t \<notin> tr_id ` set rows \<Longrightarrow> traj_put t rows = rows @ [t]"
  unfolding traj_put_def insert_or_replace_def by (subst filter_True) (auto simp: image_iff)

lemma put_many:
  assumes "inj (pv_traj_id env)" and "world_ok env w"
  shows "\<exists>us. mapA (put_scored env j a gmean gstd n) cbs w =
    (\<lparr>hw_rows = hw_rows w @ map (\<lambda>(i, cb). scored_row env j a gmean gstd n i cb) (enumerate (hw_drawn w) cbs),
      hw_drawn = hw_drawn w + length cbs\<rparr>, Inr us)"
  using assms(2)
proof (induction cbs arbitrary: w)
  case (Cons cb cbs)
  let ?t = "scored_row env j a gmean gstd n (hw_drawn w) cb"
  let ?w = "\<lparr>hw_rows = hw_rows w @ [?t], hw_drawn = hw_drawn w + 1\<rparr>"
  have fresh: "tr_id ?t \<notin> tr_id ` set (hw_rows w)"
    using Cons.prems assms(1) by (force simp: world_ok_def scored_row_def dest: injD)
  have "world_ok env ?w" using Cons.prems by (auto simp: world_ok_def scored_row_def less_Suc_eq)
  from Cons.IH [OF this] obtain us where "mapA (put_scored env j a gmean gstd n) cbs ?w =
    (\<lparr>hw_rows = hw_rows ?w @ map (\<lambda>(i, cb). scored_row env j a gmean gstd n i cb) (enumerate (hw_drawn ?w) cbs),
      hw_drawn = hw_drawn ?w + length cbs\<rparr>, Inr us)" by blast
  moreover have "put_scored env j a gmean gstd n cb w = (?w, Inr ())"
    by (simp add: put_scored_eq put_fresh [OF fresh])
  ultimately show ?case by simp
qed simp

lemma put_many_any: "\<exists>w' us. mapA (put_scored env j a gmean gstd n) cbs w = (w', Inr us)"
proof (induction cbs arbitrary: w)
  case (Cons cb cbs)
  obtain w1 where "put_scored env j a gmean gstd n cb w = (w1, Inr ())" by (simp add: put_scored_eq)
  moreover obtain w' us where "mapA (put_scored env j a gmean gstd n) cbs w1 = (w', Inr us)" using Cons by blast
  ultimately show ?case by simp
qed simp

definition handler_rows :: "'g pipe_env \<Rightarrow> job \<Rightarrow> rollout_args \<Rightarrow> nat \<Rightarrow> trajectory list" where
  "handler_rows env j a d =
     (let bds = group_scores (pv_gen env) a; rewards = map rb_total bds in
      map (\<lambda>(i, cb). scored_row env j a (list_mean rewards) (if length rewards > 1 then pstdev rewards else 0)
             (length rewards) i cb)
        (enumerate d (zip (stub_of (pv_gen env) a) bds)))"

lemma handler_returns:
  assumes "gen_ok (pv_gen env)" and "rollout_args (job_payload j) = Some a" and "1 \<le> ra_num_samples a"
  shows "\<exists>w' r. rollout_handler env j w = (w', HReturn r)"
proof -
  have ne: "group_scores (pv_gen env) a \<noteq> []" using group_scored(1) [OF assms(1), of a] assms(3) by auto
  let ?r = "map rb_total (group_scores (pv_gen env) a)"
  obtain w' us where "mapA (put_scored env j a (list_mean ?r) (if length ?r > 1 then pstdev ?r else 0) (length ?r))
      (zip (stub_of (pv_gen env) a) (group_scores (pv_gen env) a)) w = (w', Inr us)"
    using put_many_any by blast
  with ne show ?thesis by (simp add: rollout_handler_def assms(2) score_group_total [OF assms(1)] Let_def)
qed

lemma handler_writes:
  assumes "gen_ok (pv_gen env)" and "rollout_args (job_payload j) = Some a" and "1 \<le> ra_num_samples a"
    and "inj (pv_traj_id env)" and "world_ok env w"
  shows "fst (rollout_handler env j w) =
    \<lparr>hw_rows = hw_rows w @ handler_rows env j a (hw_drawn w), hw_drawn = hw_drawn w + nat (ra_num_samples a)\<rparr>"
proof -
  have len: "length (group_scores (pv_gen env) a) = nat (ra_num_samples a)" by (rule group_scored(1) [OF assms(1)])
  then have ne: "group_scores (pv_gen env) a \<noteq> []" using assms(3) by auto
  let ?r = "map rb_total (group_scores (pv_gen env) a)"
  let ?zs = "zip (stub_of (pv_gen env) a) (group_scores (pv_gen env) a)"
  obtain us where "mapA (put_scored env j a (list_mean ?r) (if length ?r > 1 then pstdev ?r else 0) (length ?r)) ?zs w =
    (\<lparr>hw_rows = hw_rows w @ map (\<lambda>(i, cb). scored_row env j a (list_mean ?r) (if length ?r > 1 then pstdev ?r else 0)
        (length ?r) i cb) (enumerate (hw_drawn w) ?zs), hw_drawn = hw_drawn w + length ?zs\<rparr>, Inr us)"
    using put_many [OF assms(4,5)] by blast
  with ne len show ?thesis
    by (simp add: rollout_handler_def assms(2) score_group_total [OF assms(1)] Let_def handler_rows_def)
qed

lemma handler_rows_facts:
  assumes "gen_ok (pv_gen env)"
  shows "length (handler_rows env j a d) = nat (ra_num_samples a)"
    and "map tr_reward (handler_rows env j a d) = map (Some \<circ> rb_total) (group_scores (pv_gen env) a)"
    and "t \<in> set (handler_rows env j a d) \<Longrightarrow> ln_policy_id (tr_lineage t) = ra_policy a \<and>
      (\<exists>i < d + nat (ra_num_samples a). tr_id t = pv_traj_id env i)"
proof -
  have len: "length (group_scores (pv_gen env) a) = nat (ra_num_samples a)" by (rule group_scored(1) [OF assms])
  then show "length (handler_rows env j a d) = nat (ra_num_samples a)" by (simp add: handler_rows_def Let_def)
  show "map tr_reward (handler_rows env j a d) = map (Some \<circ> rb_total) (group_scores (pv_gen env) a)"
    using len by (intro nth_equalityI) (simp_all add: handler_rows_def Let_def nth_enumerate_eq scored_row_def)
  assume "t \<in> set (handler_rows env j a d)"
  show "ln_policy_id (tr_lineage t) = ra_policy a \<and> (\<exists>i < d + nat (ra_num_samples a). tr_id t = pv_traj_id env i)"
  proof -
    obtain i cb where "(i, cb) \<in> set (enumerate d (zip (stub_of (pv_gen env) a) (group_scores (pv_gen env) a)))"
      and t: "tr_id t = pv_traj_id env i" "ln_policy_id (tr_lineage t) = ra_policy a"
      using \<open>t \<in> set (handler_rows env j a d)\<close> by (force simp: handler_rows_def Let_def scored_row_def)
    then have "i < d + nat (ra_num_samples a)" using len by (auto simp: in_set_enumerate_eq)
    with t show ?thesis by blast
  qed
qed

end
