(* ===== verification/Pool_Fair.thy ===== *)
theory Pool_Fair
  imports Pool_Once
begin

text \<open>
  A pool under a fair schedule comes to its end: a schedule is fair if it can be cut into rounds in which
  every worker moves at least once, and enough rounds bring every worker to its exit.  \<open>pool_outcome\<close>
  collects what a caller of the pool may rely on.
\<close>

section \<open>The jobs that run and the ledger\<close>

text \<open>The jobs that are run are the rows of the start, claimed.\<close>

definition claimed_row :: "store \<Rightarrow> job \<Rightarrow> bool" where
  "claimed_row s0 j \<longleftrightarrow> (\<exists>j0 l t. lookup s0 (job_id j) = Some j0 \<and> is_pending j0 \<and> j = set_claimed l t j0)"

lemma executed_rows:
  assumes "pool_inv s0 p" and "once_inv s0 p" and "serves env s0"
  shows "\<forall>j \<in> set (executed env sched p). claimed_row s0 j"
  using assms
proof (induction sched arbitrary: p)
  case (Cons turn rest)
  obtain i now where t: "turn = (i, now)" by fastforce
  have IH: "\<forall>j \<in> set (executed env rest (move env (i, now) p)). claimed_row s0 j"
    by (rule Cons.IH [OF move_inv [OF Cons.prems(1)] once_move(1) [OF Cons.prems] Cons.prems(3)])
  have "claimed_row s0 j" if i: "i < length (pl_workers p)" and ph: "pl_workers p ! i = Executing j" for j
  proof -
    have mem: "Executing j \<in> set (pl_workers p)" using i ph by (metis nth_mem)
    then have "lookup (pl_store p) (job_id j) = Some j" "job_state j = RUNNING"
      using Cons.prems(1) by (auto simp: pool_inv_def phase_ok_def)
    moreover have "row_from s0 (pl_store p) (job_id j)"
      using Cons.prems(2) mem unfolding once_inv_def runnable_def by (metis before_run.simps(3))
    ultimately show ?thesis by (auto simp: row_from_def claimed_row_def is_pending_def)
  qed
  then have "\<forall>j \<in> set (if i < length (pl_workers p) then runs_now env (pl_workers p ! i) else []). claimed_row s0 j"
    by (cases "pl_workers p ! i") auto
  with IH show ?case by (auto simp: t)
qed simp

section \<open>Results are recorded for known jobs only\<close>

definition known :: "store \<Rightarrow> bool" where
  "known s \<longleftrightarrow> (\<forall>k. has_result s k \<longrightarrow> lookup s k \<noteq> None)"

lemma known_replace: "known s \<Longrightarrow> known (replace_job j s)"
  by (auto simp: known_def lookup_replace_job)

lemma known_record:
  assumes "known s" and "lookup s jid \<noteq> None"
  shows "known (fst (record_result now jid d s))"
  using assms
  by (auto simp: known_def has_result_def record_result_def insert_or_ignore_def row_simps lookup_def
      split: if_splits option.splits)

lemma step_known:
  assumes pk: "pk s" and ok: "phase_ok s ph" and k: "known s" and st: "worker_step env now ph s w = (ph', s', w')"
  shows "known s'"
proof -
  have run: "lookup s (job_id j) = Some j \<and> job_state j = RUNNING" if "job_of ph = Some j" for j
    using ok that by (cases ph) (auto simp: phase_ok_def)
  show ?thesis
  proof (cases ph)
    case (Trying t ids)
    with st k show ?thesis
      by (cases ids) (auto simp: try_claim_eq [OF pk] known_replace split: option.splits if_splits)
  next
    case (Recording j d)
    with st k run [of j] show ?thesis by (auto intro: known_record)
  next
    case (Completing j)
    with st k run [of j] show ?thesis by (auto simp: complete_running [OF pk] known_replace)
  next
    case (Closing j)
    with st k run [of j] show ?thesis by (auto simp: complete_running [OF pk] known_replace)
  next
    case (Failing j msg)
    with st k run [of j] show ?thesis by (auto simp: fail_eq [OF pk] known_replace)
  qed (use st k in \<open>auto simp: get_job_def split: sum.splits option.splits prod.splits outcome.splits if_splits\<close>)
qed

lemma run_known: "pool_inv s0 p \<Longrightarrow> known (pl_store p) \<Longrightarrow> known (pl_store (run_pool env sched p))"
proof (induction sched arbitrary: p)
  case (Cons turn rest)
  obtain i now where t: "turn = (i, now)" by fastforce
  have "known (pl_store (move env (i, now) p))"
  proof (cases "i < length (pl_workers p)")
    case True
    obtain ph s' w' where st: "worker_step env now (pl_workers p ! i) (pl_store p) (pl_world p) = (ph, s', w')"
      by (cases "worker_step env now (pl_workers p ! i) (pl_store p) (pl_world p)") auto
    have "pk (pl_store p)" "phase_ok (pl_store p) (pl_workers p ! i)"
      using Cons.prems(1) True by (auto simp: pool_inv_def store_inv_pk)
    from step_known [OF this Cons.prems(2) st] show ?thesis using True st by (simp add: move_def)
  qed (use Cons.prems(2) in \<open>simp add: move_def\<close>)
  then show ?case using Cons.IH [OF move_inv [OF Cons.prems(1)]] by (simp add: t run_pool_def)
qed (simp add: run_pool_def)

section \<open>Fair schedules\<close>

definition covers :: "nat \<Rightarrow> (nat \<times> real) list \<Rightarrow> bool" where
  "covers n turns \<longleftrightarrow> list_all (\<lambda>i. i \<in> set (map fst turns)) [0..<n]"

definition fair_rounds :: "nat \<Rightarrow> nat \<Rightarrow> (nat \<times> real) list \<Rightarrow> bool" where
  "fair_rounds n m sched \<longleftrightarrow> (\<exists>rounds. concat rounds = sched \<and> m \<le> length rounds \<and> list_all (covers n) rounds)"

text \<open>The number of rounds that suffices.\<close>

definition rounds_needed :: "nat \<Rightarrow> nat \<Rightarrow> nat" where
  "rounds_needed n work = 10 * n + (10 * n + 17) * work + 1"

lemma idle_schedule:
  "busy_turns env sched p = 0 \<Longrightarrow> (i, now) \<in> set sched \<Longrightarrow> \<not> (i < length (pl_workers p) \<and> active (pl_workers p ! i))"
proof (induction sched)
  case (Cons turn rest)
  obtain k t where k: "turn = (k, t)" by fastforce
  with Cons.prems(1) have no: "\<not> (k < length (pl_workers p) \<and> active (pl_workers p ! k))"
    and "busy_turns env rest (move env (k, t) p) = 0" by (auto split: if_splits)
  then have "busy_turns env rest p = 0" by (simp only: idle_turn [OF no])
  with Cons no show ?case by (auto simp: k)
qed simp

lemma working_active:
  assumes "pool_inv s0 p" and "once_inv s0 p" and "ph \<in> set (pl_workers p)" and "\<not> active ph"
  shows "ph = Gone"
  using assms by (cases ph) (auto simp: pool_inv_def once_inv_def phase_ok_def)

lemma busy_round:
  assumes "pool_inv s0 p" and "once_inv s0 p" and "covers (length (pl_workers p)) turns" and "\<not> joined p"
  shows "0 < busy_turns env turns p"
proof (rule ccontr)
  assume "\<not> 0 < busy_turns env turns p"
  then have idle: "busy_turns env turns p = 0" by simp
  obtain i where i: "i < length (pl_workers p)" "pl_workers p ! i \<noteq> Gone"
    using assms(4) by (auto simp: joined_def list_all_length)
  then have "active (pl_workers p ! i)" using working_active [OF assms(1,2)] nth_mem by blast
  moreover obtain now where "(i, now) \<in> set turns"
    using assms(3) i(1) by (force simp: covers_def list_all_iff)
  ultimately show False using idle_schedule [OF idle] i(1) by blast
qed

lemma joined_stays:
  assumes "joined p"
  shows "run_pool env sched p = p"
proof -
  have "move env turn p = p" for turn
    using assms idle_turn [of "fst turn" p env "snd turn"] by (auto simp: joined_def list_all_length)
  then show ?thesis unfolding run_pool_def by (induction sched) simp_all
qed

lemma rounds_join:
  assumes "pool_inv s0 p" and "once_inv s0 p" and "serves env s0"
    and "list_all (covers (length (pl_workers p))) rounds" and "potential p < length rounds"
  shows "joined (run_pool env (concat rounds) p)"
  using assms
proof (induction rounds arbitrary: p)
  case (Cons turns rounds)
  let ?p = "run_pool env turns p"
  have split: "run_pool env (concat (turns # rounds)) p = run_pool env (concat rounds) ?p" by (simp add: run_pool_def)
  show ?case
  proof (cases "joined p")
    case True
    then show ?thesis by (simp add: joined_stays)
  next
    case False
    have "0 < busy_turns env turns p" using Cons.prems(4) by (intro busy_round [OF Cons.prems(1,2) _ False]) simp
    then have "potential ?p < length rounds"
      using busy_bound [OF Cons.prems(1), of env turns] Cons.prems(5) by simp
    moreover have "once_inv s0 ?p" using executed_once [OF Cons.prems(1,2,3), of turns] by blast
    ultimately show ?thesis
      unfolding split using Cons.prems by (intro Cons.IH [OF run_inv]) simp_all
  qed
qed simp

lemma fair_joins:
  assumes "store_inv s0" and "serves env s0" and "fair_rounds n (rounds_needed n (pool_work s0)) sched"
  shows "joined (run_pool env sched (start_pool n s0 w))"
proof -
  obtain rounds where r: "concat rounds = sched" "rounds_needed n (pool_work s0) \<le> length rounds" "list_all (covers n) rounds"
    using assms(3) by (auto simp: fair_rounds_def)
  have "sum_list (map (phase_rank s0) (replicate n Asking)) = 10 * n" by (induction n) simp_all
  then have "potential (start_pool n s0 w) < length rounds"
    using r(2) by (simp add: potential_def start_pool_def rounds_needed_def)
  then show ?thesis
    using rounds_join [of s0 "start_pool n s0 w" env rounds, OF start_inv [OF assms(1)] start_once [OF assms(2)] assms(2)] r(1,3) by simp
qed

section \<open>What the caller of a pool may rely on\<close>

lemma pool_outcome:
  assumes "store_inv s0" and "known s0" and "serves env s0" and "0 < n"
    and "fair_rounds n (rounds_needed n (pool_work s0)) sched"
    and p: "p = run_pool env sched (start_pool n s0 w)"
  obtains js where "joined p" and "pl_world p = fold (run_handler env) js w" and "distinct (map job_id js)"
    and "set (map job_id js) = {k. waits s0 k}" and "\<And>j. j \<in> set js \<Longrightarrow> claimed_row s0 j"
    and "store_inv (pl_store p)" and "known (pl_store p)"
    and "\<And>k. case lookup s0 k of None \<Rightarrow> lookup (pl_store p) k = None
         | Some j \<Rightarrow> \<exists>j'. lookup (pl_store p) k = Some j' \<and> (if is_pending j then job_state j' = SUCCEEDED else j' = j)"
proof -
  let ?js = "executed env sched (start_pool n s0 w)"
  have j: "joined p" unfolding p by (rule fair_joins [OF assms(1,3,5)])
  note facts = pool_once_facts [OF assms(1,3,4) p refl]
  have ac: "accounted s0 (pl_store p) (pl_workers p)" using facts(4) by (simp add: pool_inv_def)
  have rows: "case lookup s0 k of None \<Rightarrow> lookup (pl_store p) k = None
       | Some j \<Rightarrow> \<exists>j'. lookup (pl_store p) k = Some j' \<and> (if is_pending j then job_state j' = SUCCEEDED else j' = j)" for k
  proof (cases "lookup s0 k")
    case None
    then show ?thesis using ac unfolding accounted_def by (auto dest!: spec [of _ k])
  next
    case (Some j0)
    show ?thesis
    proof (cases "is_pending j0")
      case True
      then have "waits s0 k" using Some by (simp add: waits_def)
      from facts(6) [OF j this] show ?thesis using Some True by auto
    next
      case False
      then show ?thesis using ac Some unfolding accounted_def by (auto dest!: spec [of _ k])
    qed
  qed
  have "known (pl_store p)"
    unfolding p by (rule run_known [OF start_inv [OF assms(1)]]) (simp add: start_pool_def assms(2))
  moreover have "claimed_row s0 x" if "x \<in> set ?js" for x
    using executed_rows [OF start_inv [OF assms(1)] start_once [OF assms(3)] assms(3)] that by blast
  moreover have "store_inv (pl_store p)" using facts(4) by (simp add: pool_inv_def)
  ultimately show thesis using that [OF j facts(1,2) facts(5) [OF j]] rows by blast
qed

end
