(* ===== verification/Rollout_Stage.thy ===== *)
theory Rollout_Stage
  imports Rollout_Props Pool_Fair
begin

text \<open>
  The rollout stage of a pipeline step: the driver enqueues one job per prompt, the pool runs each of them
  once, and afterwards the trajectories of the step hold the scores of all groups, in an order that
  depends on the schedule.
\<close>

section \<open>Order does not matter\<close>

lemma mset_concat_map: "mset (concat (map g xs)) = \<Sum>\<^sub># (image_mset (mset \<circ> g) (mset xs))"
  by (induction xs) simp_all

lemma concat_map_mset: "mset xs = mset ys \<Longrightarrow> mset (concat (map g xs)) = mset (concat (map g ys))"
  by (simp add: mset_concat_map)

lemma sum_list_order: "mset xs = mset ys \<Longrightarrow> sum_list xs = (sum_list ys :: real)"
  by (simp flip: sum_mset_sum_list)

lemma list_mean_mset:
  assumes "mset xs = mset ys"
  shows "list_mean xs = list_mean ys"
  unfolding list_mean_def sum_list_order [OF assms] mset_eq_length [OF assms] ..

lemma pstdev_mset:
  assumes "mset xs = mset ys"
  shows "pstdev xs = pstdev ys"
proof -
  have "mset (map (\<lambda>r. (r - list_mean ys)\<^sup>2) xs) = mset (map (\<lambda>r. (r - list_mean ys)\<^sup>2) ys)" using assms by simp
  from sum_list_order [OF this] show ?thesis
    unfolding pstdev_def list_mean_mset [OF assms] mset_eq_length [OF assms] by simp
qed

section \<open>Running the handlers one after the other\<close>

definition job_args :: "job \<Rightarrow> rollout_args" where
  "job_args j = the (rollout_args (job_payload j))"

definition job_scores :: "'g pipe_env \<Rightarrow> dict \<Rightarrow> real list" where
  "job_scores env d = map rb_total (group_scores (pv_gen env) (the (rollout_args d)))"

definition rollout_job :: "job \<Rightarrow> bool" where
  "rollout_job j \<longleftrightarrow> job_kind j = ''rollout'' \<and> rollout_args (job_payload j) = Some (job_args j) \<and>
     1 \<le> ra_num_samples (job_args j)"

definition env_ok :: "'g pipe_env \<Rightarrow> bool" where
  "env_ok env \<longleftrightarrow> gen_ok (pv_gen env) \<and> inj (pv_id env) \<and> inj (pv_traj_id env)"

lemma run_handler_rollout:
  assumes "env_ok env" and "rollout_job j" and "world_ok env w"
  shows "run_handler (rollout_pool env) j w =
    \<lparr>hw_rows = hw_rows w @ handler_rows env j (job_args j) (hw_drawn w),
     hw_drawn = hw_drawn w + nat (ra_num_samples (job_args j))\<rparr>"
  using assms by (simp add: run_handler_def rollout_pool_def rollout_job_def env_ok_def handler_writes)

lemma world_ok_extended:
  assumes "env_ok env" and "world_ok env w"
  shows "world_ok env \<lparr>hw_rows = hw_rows w @ handler_rows env j a (hw_drawn w), hw_drawn = hw_drawn w + nat (ra_num_samples a)\<rparr>"
proof -
  have "\<exists>i < hw_drawn w + nat (ra_num_samples a). tr_id t = pv_traj_id env i"
    if "t \<in> set (handler_rows env j a (hw_drawn w))" for t
    using handler_rows_facts(3) that assms(1) unfolding env_ok_def by blast
  moreover have "\<exists>i < hw_drawn w + nat (ra_num_samples a). tr_id t = pv_traj_id env i" if "t \<in> set (hw_rows w)" for t
    using assms(2) that trans_less_add1 unfolding world_ok_def by blast
  ultimately show ?thesis by (auto simp: world_ok_def)
qed

lemma run_handlers:
  assumes "env_ok env" and "\<forall>j \<in> set js. rollout_job j" and "world_ok env w"
  shows "\<exists>rows. hw_rows (fold (run_handler (rollout_pool env)) js w) = hw_rows w @ rows \<and>
    world_ok env (fold (run_handler (rollout_pool env)) js w) \<and>
    map tr_reward rows = map Some (concat (map (job_scores env \<circ> job_payload) js)) \<and>
    (\<forall>t \<in> set rows. \<exists>j \<in> set js. ln_policy_id (tr_lineage t) = ra_policy (job_args j))"
  using assms(2,3)
proof (induction js arbitrary: w)
  case (Cons j js)
  let ?new = "handler_rows env j (job_args j) (hw_drawn w)"
  let ?w = "\<lparr>hw_rows = hw_rows w @ ?new, hw_drawn = hw_drawn w + nat (ra_num_samples (job_args j))\<rparr>"
  have j: "rollout_job j" and js: "\<forall>j \<in> set js. rollout_job j" using Cons.prems(1) by simp_all
  have step: "run_handler (rollout_pool env) j w = ?w"
    by (rule run_handler_rollout [OF assms(1) j Cons.prems(2)])
  from Cons.IH [OF js world_ok_extended [OF assms(1) Cons.prems(2)]] obtain rows where
    rows: "hw_rows (fold (run_handler (rollout_pool env)) js ?w) = hw_rows ?w @ rows"
      "world_ok env (fold (run_handler (rollout_pool env)) js ?w)"
      "map tr_reward rows = map Some (concat (map (job_scores env \<circ> job_payload) js))"
      "\<forall>t \<in> set rows. \<exists>j \<in> set js. ln_policy_id (tr_lineage t) = ra_policy (job_args j)" by blast
  have g: "gen_ok (pv_gen env)" using assms(1) by (simp add: env_ok_def)
  have "map tr_reward ?new = map Some (job_scores env (job_payload j))"
    by (simp add: handler_rows_facts(2) [OF g] job_scores_def job_args_def)
  moreover have "ln_policy_id (tr_lineage t) = ra_policy (job_args j)" if "t \<in> set ?new" for t
    using handler_rows_facts(3) [OF g that] by blast
  ultimately show ?case using rows by (intro exI [of _ "?new @ rows"]) (auto simp: step comp_def)
qed simp

section \<open>The jobs of a step\<close>

definition step_scores :: "'g pipe_env \<Rightarrow> pipeline_config \<Rightarrow> prompt_example list \<Rightarrow> nat \<Rightarrow> real list" where
  "step_scores env cfg prompts step =
     concat (map (\<lambda>ex. map rb_total (group_scores (pv_gen env) (args_of cfg step (policy_of step) ex))) prompts)"

lemma length_step_scores:
  assumes "gen_ok (pv_gen env)"
  shows "length (step_scores env cfg prompts step) = length prompts * nat (pc_num_samples cfg)"
  by (induction prompts) (simp_all add: step_scores_def group_scored(1) [OF assms] args_of_def)

definition queued :: "'g pipe_env \<Rightarrow> string \<Rightarrow> dict list \<Rightarrow> nat \<Rightarrow> job list" where
  "queued env kind payloads d = map (\<lambda>(i, p). new_job (pv_id env i) (pv_clock env i) kind p 3 ''cpu'' 0) (enumerate d payloads)"

lemma length_queued [simp]: "length (queued env kind ps d) = length ps"
  by (simp add: queued_def)

lemma queued_payloads [simp]: "map job_payload (queued env kind ps d) = ps"
proof -
  have "map job_payload (queued env kind ps d) = map snd (enumerate d ps)"
    by (simp add: queued_def comp_def split_beta new_job_def)
  then show ?thesis by simp
qed

lemma queued_ids: "map job_id (queued env kind ps d) = map (pv_id env) [d..<d + length ps]"
proof -
  have "map job_id (queued env kind ps d) = map (pv_id env) (map fst (enumerate d ps))"
    unfolding map_map by (simp add: queued_def comp_def split_beta)
  then show ?thesis by (simp only: map_fst_enumerate)
qed

lemma queued_rows:
  "j \<in> set (queued env kind ps d) \<Longrightarrow> is_pending j \<and> job_kind j = kind \<and> job_payload j \<in> set ps \<and> job_ok j \<and>
     row_work j = 6 \<and> job_max_attempts j = 3 \<and> job_attempts j = 0 \<and> (\<exists>i. d \<le> i \<and> i < d + length ps \<and> job_id j = pv_id env i)"
  by (auto simp: queued_def in_set_enumerate_eq new_job_def is_pending_def job_ok_def row_work_def)

text \<open>The ids in use: the first \<open>d\<close> that the driver drew.\<close>

definition drawn_ids :: "'g pipe_env \<Rightarrow> nat \<Rightarrow> store \<Rightarrow> bool" where
  "drawn_ids env d s \<longleftrightarrow> (\<forall>j \<in> set (jobs_table s). \<exists>i < d. job_id j = pv_id env i)"

lemma drawn_fresh:
  assumes "inj (pv_id env)" and "drawn_ids env d s" and "d \<le> i"
  shows "lookup s (pv_id env i) = None"
proof (cases "lookup s (pv_id env i)")
  case (Some j)
  then have "j \<in> set (jobs_table s)" "job_id j = pv_id env i" by (auto dest: lookup_SomeD)
  then show ?thesis using assms unfolding drawn_ids_def by (metis injD leD)
qed simp

lemma enqueue_many:
  assumes "inj (pv_id env)" and "drawn_ids env (pp_drawn st) (pp_store st)"
  shows "mapA (\<lambda>x. enqueue_one env kind (f x)) xs st =
    (st\<lparr>pp_store := (pp_store st)\<lparr>jobs_table := jobs_table (pp_store st) @ queued env kind (map f xs) (pp_drawn st)\<rparr>,
        pp_drawn := pp_drawn st + length xs\<rparr>, Inr (queued env kind (map f xs) (pp_drawn st)))"
  using assms(2)
proof (induction xs arbitrary: st)
  case Nil
  then show ?case by (simp add: queued_def)
next
  case (Cons x xs)
  let ?d = "pp_drawn st" and ?s = "pp_store st"
  let ?j = "new_job (pv_id env ?d) (pv_clock env ?d) kind (f x) 3 ''cpu'' 0"
  let ?st = "st\<lparr>pp_store := ?s\<lparr>jobs_table := jobs_table ?s @ [?j]\<rparr>, pp_drawn := ?d + 1\<rparr>"
  have "lookup ?s (pv_id env ?d) = None" by (rule drawn_fresh [OF assms(1) Cons.prems]) simp
  then have one: "enqueue_one env kind (f x) st = (?st, Inr ?j)"
    by (simp add: enqueue_one_def pdraw_def on_jobs_def create_def bindA_def Let_def)
  have "drawn_ids env (pp_drawn ?st) (pp_store ?st)"
    using Cons.prems by (auto simp: drawn_ids_def less_Suc_eq)
  from Cons.IH [OF this] one show ?case by (simp add: queued_def)
qed

section \<open>The store with the jobs of a step\<close>

definition settled :: "'g pipe_env \<Rightarrow> nat \<Rightarrow> store \<Rightarrow> bool" where
  "settled env d s \<longleftrightarrow> store_inv s \<and> known s \<and> drawn_ids env d s \<and> (\<forall>j \<in> set (jobs_table s). job_state j = SUCCEEDED)"

lemma lookup_extended:
  "lookup (s\<lparr>jobs_table := jobs_table s @ js\<rparr>) k = (case lookup s k of None \<Rightarrow> row_by job_id k js | Some j \<Rightarrow> Some j)"
  by (simp add: lookup_def row_by_append)

lemma appended_store:
  fixes ps :: "dict list" and kind :: string
  assumes "inj (pv_id env)" and "settled env d s"
  defines "s1 \<equiv> s\<lparr>jobs_table := jobs_table s @ queued env kind ps d\<rparr>"
  shows "store_inv s1" and "known s1" and "drawn_ids env (d + length ps) s1"
    and "waits s1 k \<longleftrightarrow> k \<in> set (map job_id (queued env kind ps d))"
    and "pool_work s1 = 6 * length ps"
    and "\<And>j. j \<in> set (queued env kind ps d) \<Longrightarrow> lookup s1 (job_id j) = Some j \<and> \<not> has_result s1 (job_id j)"
    and "\<And>j. lookup s1 k = Some j \<Longrightarrow> is_pending j \<Longrightarrow> j \<in> set (queued env kind ps d)"
proof -
  let ?q = "queued env kind ps d"
  have s: "store_inv s" "known s" "drawn_ids env d s" "\<forall>j \<in> set (jobs_table s). job_state j = SUCCEEDED"
    using assms(2) by (simp_all add: settled_def)
  have fresh: "lookup s (job_id j) = None" if "j \<in> set ?q" for j
    using queued_rows [OF that] drawn_fresh [OF assms(1) s(3)] by auto
  have dq: "distinct (map job_id ?q)"
    unfolding queued_ids using assms(1) by (simp add: distinct_map inj_on_subset [OF assms(1)])
  have new: "job_id ` set (jobs_table s) \<inter> job_id ` set ?q = {}"
  proof (rule equals0I)
    fix x assume "x \<in> job_id ` set (jobs_table s) \<inter> job_id ` set ?q"
    then have x: "x \<in> job_id ` set (jobs_table s)" "x \<in> job_id ` set ?q" by blast+
    from x(2) obtain j where "x = job_id j" "j \<in> set ?q" by (rule imageE)
    with x(1) show False using fresh [of j] by (simp add: lookup_def row_by_None_iff)
  qed
  have pk1: "pk s1" using s(1) dq new by (simp add: store_inv_def pk_def s1_def image_iff)
  have ok: "job_ok j" if "j \<in> set ?q" for j using queued_rows [OF that] by blast
  have tab: "set (jobs_table s1) = set (jobs_table s) \<union> set ?q" by (simp add: s1_def)
  show inv1: "store_inv s1" using pk1 s(1) ok unfolding store_inv_def tab by blast
  have hr: "has_result s1 x = has_result s x" and "lookup s x \<noteq> None \<Longrightarrow> lookup s1 x \<noteq> None" for x
    by (auto simp: s1_def has_result_def lookup_extended)
  then show "known s1" using s(2) unfolding known_def by blast
  show "drawn_ids env (d + length ps) s1"
    unfolding drawn_ids_def tab
  proof
    fix j assume "j \<in> set (jobs_table s) \<union> set ?q"
    then show "\<exists>i < d + length ps. job_id j = pv_id env i"
    proof
      assume "j \<in> set (jobs_table s)"
      then show ?thesis using s(3) trans_less_add1 unfolding drawn_ids_def by blast
    next
      assume "j \<in> set ?q"
      from queued_rows [OF this] show ?thesis by blast
    qed
  qed
  have q: "lookup s1 (job_id j) = Some j" if "j \<in> set ?q" for j
    by (rule lookup_in [OF pk1]) (use that in \<open>simp add: s1_def\<close>)
  moreover have "\<not> has_result s1 (job_id j)" if "j \<in> set ?q" for j
    using s(2) fresh [OF that] unfolding known_def hr by blast
  ultimately show "\<And>j. j \<in> set ?q \<Longrightarrow> lookup s1 (job_id j) = Some j \<and> \<not> has_result s1 (job_id j)" by blast
  show pend: "j \<in> set ?q" if "lookup s1 k = Some j" "is_pending j" for j k
  proof -
    have "j \<in> set (jobs_table s1)" using that(1) by (auto dest: lookup_SomeD)
    then show ?thesis using s(4) that(2) by (auto simp: s1_def is_pending_def)
  qed
  show "waits s1 k \<longleftrightarrow> k \<in> set (map job_id ?q)"
  proof
    assume "waits s1 k"
    then obtain j where j: "lookup s1 k = Some j" "is_pending j" by (auto simp: waits_def)
    then have "job_id j = k" by (auto dest: lookup_SomeD)
    with pend [OF j] show "k \<in> set (map job_id ?q)" by auto
  next
    assume "k \<in> set (map job_id ?q)"
    then obtain j where "j \<in> set ?q" "job_id j = k" by auto
    then show "waits s1 k" using q queued_rows unfolding waits_def by blast
  qed
  have "pool_work s = 0"
    using s(4) by (auto simp: pool_work_def row_work_def is_pending_def intro!: sum_list_0)
  moreover have "sum_list (map row_work ?q) = 6 * length ps"
  proof -
    have "map row_work ?q = map (\<lambda>_. 6) ?q" by (rule map_cong [OF refl]) (use queued_rows in blast)
    then show ?thesis by (simp only: sum_list_triv length_queued) simp
  qed
  ultimately show "pool_work s1 = 6 * length ps" by (simp add: pool_work_def s1_def)
qed

section \<open>The stage\<close>

lemma waiting_payloads:
  assumes "distinct (map job_id js)" and "set (map job_id js) = set (map job_id qs)" and "distinct (map job_id qs)"
    and "\<And>j. j \<in> set js \<Longrightarrow> claimed_row s j" and "\<And>q. q \<in> set qs \<Longrightarrow> lookup s (job_id q) = Some q"
  shows "mset (map job_payload js) = mset (map job_payload qs)"
proof -
  let ?F = "\<lambda>k. job_payload (the (lookup s k))"
  have "job_payload j = ?F (job_id j)" if "j \<in> set js" for j
    using assms(4) [OF that] by (auto simp: claimed_row_def set_claimed_def)
  then have j: "map job_payload js = map ?F (map job_id js)" by simp
  have q: "map job_payload qs = map ?F (map job_id qs)" using assms(5) by simp
  have "mset (map job_id js) = mset (map job_id qs)"
    using assms(1-3) set_eq_iff_mset_eq_distinct by blast
  then show ?thesis unfolding j q mset_map by simp
qed

lemma card_ids: "pk s \<Longrightarrow> card (job_id ` set (jobs_table s)) = length (jobs_table s)"
  using distinct_card [of "map job_id (jobs_table s)"] by (simp add: pk_def)

definition stage_prompts :: "'g pipe_env \<Rightarrow> pipeline_config \<Rightarrow> prompt_example list \<Rightarrow> nat \<Rightarrow> dict list" where
  "stage_prompts env cfg prompts step = map (rollout_payload env cfg step (policy_of step)) prompts"

lemma stage_rollouts:
  "job_kind j = ''rollout'' \<Longrightarrow> job_payload j \<in> set (stage_prompts env cfg prompts step) \<Longrightarrow> 1 \<le> pc_num_samples cfg \<Longrightarrow>
    rollout_job j \<and> ra_policy (job_args j) = policy_of step"
  by (auto simp: stage_prompts_def rollout_job_def job_args_def payload_roundtrip) (simp_all add: args_of_def)

lemma stage_scores:
  "concat (map (job_scores env) (stage_prompts env cfg prompts step)) = step_scores env cfg prompts step"
  by (simp add: stage_prompts_def step_scores_def job_scores_def payload_roundtrip comp_def)

lemma rollout_stage:
  assumes env: "env_ok env" and st: "settled env (pp_drawn st) (pp_store st)" and w: "world_ok env (pp_world st)"
    and n: "1 \<le> pc_num_samples cfg" "0 < pc_n_workers cfg"
    and fair: "fair_rounds (pc_n_workers cfg) (rounds_needed (pc_n_workers cfg) (6 * length prompts)) (pv_schedule env step)"
  obtains s' w' rows where
    "bindA (enqueue_rollouts env cfg prompts step (policy_of step)) (\<lambda>_. run_workers env cfg step) st =
      (st\<lparr>pp_store := s', pp_world := w', pp_drawn := pp_drawn st + length prompts\<rparr>, Inr ())"
    and "settled env (pp_drawn st + length prompts) s'"
    and "length (jobs_table s') = length (jobs_table (pp_store st)) + length prompts"
    and "world_ok env w'" and "hw_rows w' = hw_rows (pp_world st) @ rows"
    and "\<forall>t \<in> set rows. ln_policy_id (tr_lineage t) = policy_of step"
    and "\<exists>scores. map tr_reward rows = map Some scores \<and> mset scores = mset (step_scores env cfg prompts step)"
proof -
  let ?d = "pp_drawn st" and ?s = "pp_store st" and ?n = "pc_n_workers cfg"
  let ?ps = "stage_prompts env cfg prompts step"
  let ?q = "queued env ''rollout'' ?ps ?d"
  let ?s1 = "?s\<lparr>jobs_table := jobs_table ?s @ ?q\<rparr>"
  let ?st = "st\<lparr>pp_store := ?s1, pp_drawn := ?d + length prompts\<rparr>"
  have inj: "inj (pv_id env)" and len: "length ?ps = length prompts"
    using env by (simp_all add: env_ok_def stage_prompts_def)
  have di: "drawn_ids env ?d ?s" using st by (simp add: settled_def)
  note app = appended_store [OF inj st, where kind = "''rollout''" and ps = ?ps]
  have enq: "enqueue_rollouts env cfg prompts step (policy_of step) st = (?st, Inr ())"
    using enqueue_many [where kind = "''rollout''" and f = "rollout_payload env cfg step (policy_of step)" and xs = prompts, OF inj di]
    by (simp add: enqueue_rollouts_def stage_prompts_def)
  have cl: "rollout_job (set_claimed l t j)" if "j \<in> set ?q" for l t j
    using queued_rows [OF that] stage_rollouts [of "set_claimed l t j" env cfg prompts step] n(1) by (simp add: set_claimed_def)
  have serves: "serves (rollout_pool env) ?s1"
    unfolding serves_def
  proof (intro allI impI)
    fix k j assume j: "lookup ?s1 k = Some j \<and> is_pending j"
    have jq: "j \<in> set ?q" using app(7) j by blast
    have "job_id j = k" using j by (auto dest: lookup_SomeD)
    then have "\<not> has_result ?s1 k" using app(6) [OF jq] by simp
    moreover have "job_kind j = ''rollout''" using queued_rows [OF jq] by blast
    moreover have "\<exists>w' r. rollout_handler env (set_claimed l t j) w = (w', HReturn r)" for l t w
      using cl [OF jq, of l t] env handler_returns [of env "set_claimed l t j"]
      unfolding rollout_job_def env_ok_def by blast
    ultimately show "\<not> has_result ?s1 k \<and> (\<exists>h. pe_handlers (rollout_pool env) (job_kind j) = Some h \<and>
        (\<forall>l t w. \<exists>w' r. h (set_claimed l t j) w = (w', HReturn r)))"
      by (simp add: rollout_pool_def)
  qed
  obtain p where p: "p = run_pool (rollout_pool env) (pv_schedule env step) (start_pool ?n ?s1 (pp_world st))" by blast
  obtain js where out: "joined p" "pl_world p = fold (run_handler (rollout_pool env)) js (pp_world st)"
    "distinct (map job_id js)" "set (map job_id js) = {k. waits ?s1 k}" "\<And>j. j \<in> set js \<Longrightarrow> claimed_row ?s1 j"
    "store_inv (pl_store p)" "known (pl_store p)"
    "\<And>k. case lookup ?s1 k of None \<Rightarrow> lookup (pl_store p) k = None
       | Some j \<Rightarrow> \<exists>j'. lookup (pl_store p) k = Some j' \<and> (if is_pending j then job_state j' = SUCCEEDED else j' = j)"
    using pool_outcome [OF app(1,2) serves n(2) fair [unfolded len [symmetric], folded app(5)] p] by auto
  have ids: "job_id ` set (jobs_table (pl_store p)) = job_id ` set (jobs_table ?s1)"
  proof (rule set_eqI)
    fix k
    have "lookup (pl_store p) k = None \<longleftrightarrow> lookup ?s1 k = None" using out(8) [of k] by (cases "lookup ?s1 k") auto
    then show "k \<in> job_id ` set (jobs_table (pl_store p)) \<longleftrightarrow> k \<in> job_id ` set (jobs_table ?s1)"
      unfolding lookup_def row_by_None_iff by blast
  qed
  have pks: "pk (pl_store p)" "pk ?s1" using out(6) app(1) by (simp_all add: store_inv_pk)
  have "length (jobs_table (pl_store p)) = length (jobs_table ?s1)"
    unfolding card_ids [OF pks(1), symmetric] card_ids [OF pks(2), symmetric] ids ..
  then have size: "length (jobs_table (pl_store p)) = length (jobs_table ?s) + length prompts" by (simp add: len)
  have "job_state j = SUCCEEDED" if "j \<in> set (jobs_table (pl_store p))" for j
  proof -
    have l: "lookup (pl_store p) (job_id j) = Some j" by (rule lookup_in [OF pks(1) that])
    then obtain j0 where j0: "lookup ?s1 (job_id j) = Some j0" "if is_pending j0 then job_state j = SUCCEEDED else j = j0"
      using out(8) [of "job_id j"] by (cases "lookup ?s1 (job_id j)") auto
    moreover have "j0 \<in> set (jobs_table ?s) \<union> set ?q" using j0(1) by (auto dest!: lookup_SomeD)
    ultimately show ?thesis using st queued_rows [of j0 env "''rollout''" ?ps ?d] by (auto simp: settled_def split: if_splits)
  qed
  moreover have "drawn_ids env (?d + length prompts) (pl_store p)"
  proof -
    have "\<forall>k \<in> job_id ` set (jobs_table ?s1). \<exists>i < ?d + length prompts. k = pv_id env i"
      using app(3) by (simp only: drawn_ids_def len) blast
    then show ?thesis unfolding ids [symmetric] drawn_ids_def by blast
  qed
  ultimately have settled: "settled env (?d + length prompts) (pl_store p)" using out(6,7) by (simp add: settled_def)
  have waiting: "set (map job_id js) = set (map job_id ?q)" using out(4) app(4) by blast
  have dq: "distinct (map job_id ?q)" unfolding queued_ids using inj by (simp add: distinct_map inj_on_subset [OF inj])
  have rj: "rollout_job j \<and> ra_policy (job_args j) = policy_of step" if m: "j \<in> set js" for j
  proof -
    obtain j0 l t where j0: "lookup ?s1 (job_id j) = Some j0" "is_pending j0" "j = set_claimed l t j0"
      using out(5) [OF m] by (auto simp: claimed_row_def)
    then have "j0 \<in> set ?q" using app(7) by blast
    from queued_rows [OF this] show ?thesis
      unfolding j0(3) by (intro stage_rollouts [OF _ _ n(1)]) (auto simp: set_claimed_def)
  qed
  then obtain rows where rows: "hw_rows (pl_world p) = hw_rows (pp_world st) @ rows" "world_ok env (pl_world p)"
    "map tr_reward rows = map Some (concat (map (job_scores env \<circ> job_payload) js))"
    "\<forall>t \<in> set rows. \<exists>j \<in> set js. ln_policy_id (tr_lineage t) = ra_policy (job_args j)"
    using run_handlers [OF env _ w, of js] unfolding out(2) by blast
  have "mset (map job_payload js) = mset ?ps"
    using waiting_payloads [OF out(3) waiting dq out(5)] app(6) by simp
  then have "mset (concat (map (job_scores env) (map job_payload js))) = mset (step_scores env cfg prompts step)"
    unfolding stage_scores [symmetric] by (rule concat_map_mset)
  then have "\<exists>scores. map tr_reward rows = map Some scores \<and> mset scores = mset (step_scores env cfg prompts step)"
    using rows(3) unfolding map_map [symmetric] by blast
  moreover have "\<forall>t \<in> set rows. ln_policy_id (tr_lineage t) = policy_of step" using rows(4) rj by metis
  moreover have "bindA (enqueue_rollouts env cfg prompts step (policy_of step)) (\<lambda>_. run_workers env cfg step) st =
      (st\<lparr>pp_store := pl_store p, pp_world := pl_world p, pp_drawn := ?d + length prompts\<rparr>, Inr ())"
    using enq out(1) by (simp add: run_workers_def Let_def p)
  ultimately show thesis using that settled size rows(1,2) by blast
qed

end
