(* ===== verification/Failure_Props.thy ===== *)
theory Failure_Props
  imports Failures
begin

text \<open>
  The properties of failure recovery (\<^verbatim>\<open>src/shoprl/platform/failures.py\<close>): what \<open>handle\<close> does
  to a RUNNING job in every branch, and the arithmetic of the batch plan.
\<close>

section \<open>The store calls of the controller\<close>

lemma set_state_twice [simp]:
  "set_state st a err t (set_state st' a' err' t' j) = set_state st a err t j"
  by (simp add: set_state_def)

lemma dead_letter_now_running:
  assumes "pk s" and "lookup s jid = Some j" and "job_state j = RUNNING"
  shows "dead_letter_now now jid err s
    = (replace_job (set_state DEAD_LETTER (job_attempts j + 1) (Some err) now j) s,
       Inr (set_state DEAD_LETTER (job_attempts j + 1) (Some err) now j))"
proof -
  let ?f = "set_state FAILED (job_attempts j + 1) (Some err) now j"
  have id: "job_id j = jid" using assms(2) by (auto dest: lookup_SomeD)
  have 1: "transition now jid FAILED (Some err) True s = (replace_job ?f s, Inr ?f)"
    using assms by (simp add: transition_eq Let_def)
  have l: "lookup (replace_job ?f s) jid = Some ?f" using assms(2) id by (simp add: lookup_replace_job)
  have "transition now jid DEAD_LETTER (Some err) False (replace_job ?f s)
      = (replace_job (set_state DEAD_LETTER (job_attempts j + 1) (Some err) now j) s,
         Inr (set_state DEAD_LETTER (job_attempts j + 1) (Some err) now j))"
    using assms(1) l by (simp add: transition_eq Let_def replace_twice) (simp add: set_state_def)
  with 1 show ?thesis by (simp add: dead_letter_now_def)
qed

lemma fail_running:
  "pk s \<Longrightarrow> lookup s jid = Some j \<Longrightarrow> job_state j = RUNNING
    \<Longrightarrow> fail now jid err s = (replace_job (failed_job now err j) s, Inr (failed_job now err j))"
  by (simp add: fail_eq)

definition with_payload :: "dict \<Rightarrow> real \<Rightarrow> job \<Rightarrow> job" where
  "with_payload p now j = j\<lparr>job_payload := p, job_updated_at := now\<rparr>"

lemma update_payload_found:
  "pk s \<Longrightarrow> lookup s jid = Some j
    \<Longrightarrow> update_payload now jid p s = (replace_job (with_payload p now j) s, Inr (with_payload p now j))"
  by (simp add: update_payload_eq with_payload_def Let_def)

lemma with_payload_fields [simp]:
  "job_id (with_payload p now j) = job_id j" "job_state (with_payload p now j) = job_state j"
  "job_attempts (with_payload p now j) = job_attempts j"
  "job_max_attempts (with_payload p now j) = job_max_attempts j"
  "job_payload (with_payload p now j) = p"
  by (simp_all add: with_payload_def)

lemma set_state_fields [simp]:
  "job_state (set_state st a err t j) = st" "job_attempts (set_state st a err t j) = a"
  "job_payload (set_state st a err t j) = job_payload j" "job_lease (set_state st a err t j) = None"
  "job_error (set_state st a err t j) = err"
  by (simp_all add: set_state_def)

text \<open>The plan that the OOM branch writes back.\<close>

definition shrunk_payload :: "batch_plan \<Rightarrow> dict \<Rightarrow> dict" where
  "shrunk_payload new d =
     AList.update ''grad_accum_steps'' (JInt (grad_accum_steps new))
       (AList.update ''microbatch_size'' (JInt (microbatch_size new)) d)"

text \<open>Which exceptions give the job up whatever attempts are left, and the resulting row.\<close>

definition gives_up :: "controller \<Rightarrow> exn \<Rightarrow> batch_plan \<Rightarrow> bool" where
  "gives_up ct e plan \<longleftrightarrow>
     ct_enabled ct \<and> (classify e = PERMANENT \<or> classify e = OOM \<and> \<not> can_shrink plan)"

definition adjusts :: "controller \<Rightarrow> exn \<Rightarrow> batch_plan \<Rightarrow> bool" where
  "adjusts ct e plan \<longleftrightarrow> ct_enabled ct \<and> classify e = OOM \<and> can_shrink plan"

definition recovered_job :: "controller \<Rightarrow> exn \<Rightarrow> batch_plan \<Rightarrow> real \<Rightarrow> job \<Rightarrow> job" where
  "recovered_job ct e plan now j =
     (if gives_up ct e plan then set_state DEAD_LETTER (job_attempts j + 1) (Some (ex_repr e)) now j
      else failed_job now (ex_repr e)
        (if adjusts ct e plan then with_payload (shrunk_payload (shrink plan) (job_payload j)) now j else j))"

lemma handle_branch_running:
  assumes pk: "pk (rc_store rs)" and l: "lookup (rc_store rs) (job_id job) = Some job"
    and run: "job_state job = RUNNING" and plan: "from_payload (job_payload job) = Some plan"
    and reg: "latest_ckpt parse ct = Inr restored"
  obtains br where "handle_branch parse ct now job e rs
      = (rs\<lparr>rc_store := replace_job (recovered_job ct e plan now job) (rc_store rs)\<rparr>, Inr br)"
    and "br_final br = recovered_job ct e plan now job"
    and "adjusts ct e plan \<longleftrightarrow> br_plans br = Some (plan, shrink plan)"
proof -
  let ?s = "rc_store rs"
  let ?err = "ex_repr e"
  have f: "on_store (fail now (job_id job) ?err) rs
      = (rs\<lparr>rc_store := replace_job (failed_job now ?err job) ?s\<rparr>, Inr (failed_job now ?err job))"
    by (simp add: on_store_def fail_running [OF pk l run])
  have d: "on_store (dead_letter_now now (job_id job) ?err) rs
      = (rs\<lparr>rc_store := replace_job (set_state DEAD_LETTER (job_attempts job + 1) (Some ?err) now job) ?s\<rparr>,
         Inr (set_state DEAD_LETTER (job_attempts job + 1) (Some ?err) now job))"
    by (simp add: on_store_def dead_letter_now_running [OF pk l run])
  consider (off) "\<not> ct_enabled ct" | (perm) "ct_enabled ct" "classify e = PERMANENT"
    | (give) "ct_enabled ct" "classify e = OOM" "\<not> can_shrink plan"
    | (adjust) "ct_enabled ct" "classify e = OOM" "can_shrink plan"
    | (retry) "ct_enabled ct" "classify e \<noteq> PERMANENT" "classify e \<noteq> OOM" by blast
  then show thesis
  proof cases
    case off
    then show thesis
      by (intro that [of "simple_branch (failed_job now ?err job) (retry_or_dead (failed_job now ?err job))
        ''recovery disabled: plain bounded retry''"]) (simp_all add: handle_branch_def Let_def f simple_branch_def recovered_job_def
          gives_up_def adjusts_def)
  next
    case perm
    then show thesis
      by (intro that [of "simple_branch (set_state DEAD_LETTER (job_attempts job + 1) (Some ?err) now job) GIVE_UP
        ''permanent/user error: not retryable''"]) (simp_all add: handle_branch_def Let_def d simple_branch_def recovered_job_def
          gives_up_def adjusts_def)
  next
    case give
    then show thesis
      by (intro that [of "simple_branch (set_state DEAD_LETTER (job_attempts job + 1) (Some ?err) now job) GIVE_UP
        ''OOM at microbatch=1: cannot fit, giving up''"]) (simp_all add: handle_branch_def handle_oom_def plan Let_def d simple_branch_def
          recovered_job_def gives_up_def adjusts_def)
  next
    case adjust
    let ?p = "with_payload (shrunk_payload (shrink plan) (job_payload job)) now job"
    have u: "on_store (update_payload now (job_id job) (shrunk_payload (shrink plan) (job_payload job))) rs
        = (rs\<lparr>rc_store := replace_job ?p ?s\<rparr>, Inr ?p)"
      by (simp add: on_store_def update_payload_found [OF pk l])
    have "lookup (replace_job ?p ?s) (job_id job) = Some ?p" using l by (simp add: lookup_replace_job)
    then have f': "on_store (fail now (job_id job) ?err) (rs\<lparr>rc_store := replace_job ?p ?s\<rparr>)
        = (rs\<lparr>rc_store := replace_job (failed_job now ?err ?p) ?s\<rparr>, Inr (failed_job now ?err ?p))"
      using pk run by (simp add: on_store_def fail_running replace_twice)
    from adjust show thesis
      by (intro that [of "\<lparr>br_final = failed_job now ?err ?p,
        br_action = (case restored of
            None \<Rightarrow> RETRY_WITH_ADJUSTMENT
          | Some c \<Rightarrow> if c = [] then RETRY_WITH_ADJUSTMENT else RESTORE_AND_RETRY),
        br_message = oom_message plan (shrink plan) restored, br_plans = Some (plan, shrink plan),
        br_restored = restored\<rparr>"]) (simp_all add: handle_branch_def handle_oom_def plan Let_def
          u [unfolded shrunk_payload_def] f' [unfolded shrunk_payload_def] reg
          recovered_job_def gives_up_def adjusts_def shrunk_payload_def)
  next
    case retry
    then show thesis
      by (intro that [of "simple_branch (failed_job now ?err job) (retry_or_dead (failed_job now ?err job))
        (class_value (classify e) @ '': bounded retry'')"]) (simp_all add: handle_branch_def Let_def f simple_branch_def recovered_job_def
          gives_up_def adjusts_def)
  qed
qed

lemma recovered_fields:
  "job_id (recovered_job ct e plan now j) = job_id j"
  "job_attempts (recovered_job ct e plan now j) = job_attempts j + 1"
  "job_lease (recovered_job ct e plan now j) = None"
  "job_error (recovered_job ct e plan now j) = Some (ex_repr e)"
  "job_state (recovered_job ct e plan now j)
    = (if gives_up ct e plan \<or> job_max_attempts j \<le> job_attempts j + 1 then DEAD_LETTER else PENDING)"
  "job_payload (recovered_job ct e plan now j)
    = (if adjusts ct e plan then shrunk_payload (shrink plan) (job_payload j) else job_payload j)"
proof -
  have n: "gives_up ct e plan \<Longrightarrow> \<not> adjusts ct e plan" by (auto simp: gives_up_def adjusts_def)
  show "job_id (recovered_job ct e plan now j) = job_id j"
    "job_attempts (recovered_job ct e plan now j) = job_attempts j + 1"
    "job_lease (recovered_job ct e plan now j) = None"
    "job_error (recovered_job ct e plan now j) = Some (ex_repr e)"
    "job_state (recovered_job ct e plan now j)
      = (if gives_up ct e plan \<or> job_max_attempts j \<le> job_attempts j + 1 then DEAD_LETTER else PENDING)"
    by (simp_all add: recovered_job_def failed_job_def)
  show "job_payload (recovered_job ct e plan now j)
    = (if adjusts ct e plan then shrunk_payload (shrink plan) (job_payload j) else job_payload j)"
    using n by (auto simp: recovered_job_def failed_job_def)
qed

section \<open>The properties\<close>

text \<open>C19. Recovery always settles a RUNNING job: with an integer batch plan and a readable
  checkpoint registry \<open>handle\<close> returns an event that reports the job's actual state, the job has one
  attempt more, the error and no lease, it is dead-lettered if the failure is permanent, if it is an
  OOM that cannot shrink, or if the attempts are used up, and requeued otherwise; the payload changes
  only for an OOM that can shrink; no other job changes, and the log grows by exactly that event.\<close>

theorem recovery_settles:
  assumes "reachable (rc_store rs)" and "lookup (rc_store rs) (job_id job) = Some job"
    and "job_state job = RUNNING" and "from_payload (job_payload job) = Some plan"
    and "latest_ckpt parse ct = Inr restored"
  shows "\<exists>rs' ev j'. handle parse ct gpu now ts job e rs = (rs', Inr ev) \<and>
    (\<forall>k. lookup (rc_store rs') k = (if k = job_id job then Some j' else lookup (rc_store rs) k)) \<and>
    job_attempts j' = job_attempts job + 1 \<and> job_error j' = Some (ex_repr e) \<and> job_lease j' = None \<and>
    job_state j' =
      (if ct_enabled ct \<and> (classify e = PERMANENT \<or> classify e = OOM \<and> \<not> can_shrink plan)
          \<or> job_max_attempts job \<le> job_attempts job + 1 then DEAD_LETTER else PENDING) \<and>
    from_payload (job_payload j') =
      Some (if ct_enabled ct \<and> classify e = OOM \<and> can_shrink plan then shrink plan else plan) \<and>
    ev_resulting_state ev = state_value (job_state j') \<and> ev_attempt ev = job_attempts j' \<and>
    rc_log rs' = rc_log rs @ (case ct_events_path ct of None \<Rightarrow> [] | Some p \<Rightarrow> if p = [] then [] else [ev])"
proof -
  have pk: "pk (rc_store rs)" using assms(1) by (simp add: reachable_inv store_inv_pk)
  let ?j' = "recovered_job ct e plan now job"
  obtain br where b: "handle_branch parse ct now job e rs
      = (rs\<lparr>rc_store := replace_job ?j' (rc_store rs)\<rparr>, Inr br)" "br_final br = ?j'"
    by (rule handle_branch_running [OF pk assms(2-5)])
  define ev where "ev =
    \<lparr>ev_ts = ts, ev_job_id = job_id job, ev_failure_class = class_value (classify e),
     ev_action = action_value (br_action br), ev_attempt = job_attempts (br_final br),
     ev_resulting_state = state_value (job_state (br_final br)), ev_message = br_message br,
     ev_simulated = (ex_type e = ''SimulatedOOM''), ev_gpu_mem = gpu,
     ev_mb_before = map_option (microbatch_size \<circ> fst) (br_plans br),
     ev_mb_after = map_option (microbatch_size \<circ> snd) (br_plans br),
     ev_ga_before = map_option (grad_accum_steps \<circ> fst) (br_plans br),
     ev_ga_after = map_option (grad_accum_steps \<circ> snd) (br_plans br),
     ev_restored = br_restored br\<rparr>"
  define rs' where "rs' = fst (persist ct ev (rs\<lparr>rc_store := replace_job ?j' (rc_store rs)\<rparr>))"
  have h: "handle parse ct gpu now ts job e rs = (rs', Inr ev)"
    by (simp add: handle_def b(1) bindA_def ev_def [symmetric] rs'_def)
      (auto simp: persist_def split: option.splits)
  have st: "rc_store rs' = replace_job ?j' (rc_store rs)"
    by (auto simp: rs'_def persist_def split: option.splits)
  have lg: "rc_log rs' = rc_log rs @ (case ct_events_path ct of None \<Rightarrow> [] | Some p \<Rightarrow> if p = [] then [] else [ev])"
    by (auto simp: rs'_def persist_def split: option.splits)
  have look: "\<forall>k. lookup (rc_store rs') k = (if k = job_id job then Some ?j' else lookup (rc_store rs) k)"
    using assms(2) by (auto simp: st lookup_replace_job recovered_fields)
  have plan: "from_payload (job_payload ?j') = Some (if adjusts ct e plan then shrink plan else plan)"
    using assms(4)
    by (simp add: recovered_fields shrunk_payload_def from_payload_def int_field_def update_conv')
  have evs: "ev_resulting_state ev = state_value (job_state ?j')" "ev_attempt ev = job_attempts ?j'"
    by (simp_all add: ev_def b(2))
  show ?thesis
    using h look plan evs lg recovered_fields(2-5) [of ct e plan now job]
    unfolding gives_up_def adjusts_def
    by (intro exI [of _ rs'] exI [of _ ev] exI [of _ ?j']) simp
qed

text \<open>Shrinking: the microbatch stays positive and at most halves rounded down, the effective
  batch never grows, and it is preserved exactly when the new microbatch divides the old one (so
  always for an even one); \<open>n\<close> shrinks leave a plan that can shrink again only if the microbatch
  was at least 2 to the power \<open>n + 1\<close>, so an OOM loop ends after logarithmically many.\<close>

theorem shrink_plan:
  assumes "1 \<le> microbatch_size p" and "0 < grad_accum_steps p"
  shows "microbatch_size (shrink p) = max 1 (microbatch_size p div 2) \<and>
    effective_batch (shrink p) \<le> effective_batch p \<and>
    (effective_batch (shrink p) = effective_batch p \<longleftrightarrow>
      max 1 (microbatch_size p div 2) dvd microbatch_size p) \<and>
    can_shrink ((shrink ^^ n) p) = (2 ^ Suc n \<le> microbatch_size p)"
proof -
  let ?mb = "microbatch_size p" and ?ga = "grad_accum_steps p"
  let ?new = "max 1 (?mb div 2)"
  have ga: "0 < ?ga" by (rule assms(2))
  have eff: "effective_batch p = ?ga * ?mb" by (simp add: effective_batch_def)
  have e: "effective_batch (shrink p) = ?ga * (?new * (?mb div ?new))"
    by (simp add: effective_batch_def shrink_def Let_def)
  have le: "?new * (?mb div ?new) \<le> ?mb" by (simp add: minus_mod_eq_mult_div [symmetric])
  have "effective_batch (shrink p) \<le> effective_batch p"
    unfolding e eff using le ga by (intro mult_left_mono) simp_all
  moreover have "effective_batch (shrink p) = effective_batch p \<longleftrightarrow> ?new dvd ?mb"
  proof -
    have "effective_batch (shrink p) = effective_batch p \<longleftrightarrow> ?new * (?mb div ?new) = ?mb"
      unfolding e eff using ga by simp
    also have "\<dots> \<longleftrightarrow> ?new dvd ?mb" by (metis dvd_mult_div_cancel dvd_triv_left)
    finally show ?thesis .
  qed
  moreover have "can_shrink ((shrink ^^ n) p) = (2 ^ Suc n \<le> ?mb)"
  proof -
    have "microbatch_size ((shrink ^^ k) p) = max 1 (?mb div 2 ^ k)" for k
    proof (induction k)
      case 0
      then show ?case using assms(1) by simp
    next
      case (Suc k)
      have "?mb div 2 ^ Suc k = ?mb div 2 ^ k div 2" by (simp only: power_Suc2 zdiv_zmult2_eq)
      moreover have "0 \<le> ?mb div 2 ^ k" using assms(1) by (simp add: pos_imp_zdiv_nonneg_iff)
      ultimately show ?case using Suc by (auto simp: shrink_def Let_def max_def)
    qed
    then have "can_shrink ((shrink ^^ n) p) \<longleftrightarrow> 2 \<le> ?mb div 2 ^ n" by (auto simp: can_shrink_def)
    also have "\<dots> \<longleftrightarrow> 2 * 2 ^ n \<le> ?mb"
    proof
      have "2 * 2 ^ n \<le> ?mb div 2 ^ n * 2 ^ n" if "2 \<le> ?mb div 2 ^ n" using that by simp
      moreover have "?mb div 2 ^ n * 2 ^ n \<le> ?mb" by (simp add: minus_mod_eq_div_mult [symmetric])
      ultimately show "2 \<le> ?mb div 2 ^ n \<Longrightarrow> 2 * 2 ^ n \<le> ?mb" by linarith
      assume "2 * 2 ^ n \<le> ?mb"
      then have "(2 * 2 ^ n) div 2 ^ n \<le> ?mb div 2 ^ n" by (rule zdiv_mono1) simp
      then show "2 \<le> ?mb div 2 ^ n" by simp
    qed
    finally show ?thesis by simp
  qed
  moreover have "microbatch_size (shrink p) = ?new" by (simp add: shrink_def Let_def)
  ultimately show ?thesis by blast
qed

section \<open>Witnesses and remarks\<close>

definition sample_oom :: exn where
  "sample_oom = \<lparr>ex_type = ''SimulatedOOM'', ex_str = ''cuda oom'', ex_repr = ''SimulatedOOM(...)''\<rparr>"

definition sample_controller :: controller where
  "sample_controller = \<lparr>ct_registry = None, ct_enabled = True, ct_events_path = Some ''events.jsonl''\<rparr>"

lemma recovery_settles_witness:
  "\<exists>rs' ev. handle (\<lambda>_. None) sample_controller None 5 5
      (set_claimed 31 1 (new_job ''a'' 0 ''eval'' [] 3 ''cpu'' 0)) sample_oom
      \<lparr>rc_store = sample_store, rc_log = []\<rparr> = (rs', Inr ev) \<and>
    ev_resulting_state ev = ''pending'' \<and> rc_log rs' = [ev]"
proof -
  let ?j = "set_claimed 31 1 (new_job ''a'' 0 ''eval'' [] 3 ''cpu'' 0)"
  let ?rs = "\<lparr>rc_store = sample_store, rc_log = []\<rparr>"
  have "reachable (rc_store ?rs)" using reachable_sample by simp
  moreover have "lookup (rc_store ?rs) (job_id ?j) = Some ?j"
    using sample_lookup(1) by (simp add: new_job_def set_claimed_def)
  moreover have "job_state ?j = RUNNING" by (simp add: set_claimed_def)
  moreover have "from_payload (job_payload ?j) = Some \<lparr>microbatch_size = 8, grad_accum_steps = 1\<rparr>"
    by (simp add: from_payload_def int_field_def set_claimed_def new_job_def)
  moreover have "latest_ckpt (\<lambda>_. None) sample_controller = Inr None"
    by (simp add: latest_ckpt_def sample_controller_def)
  ultimately show ?thesis
    using recovery_settles [of ?rs ?j "\<lparr>microbatch_size = 8, grad_accum_steps = 1\<rparr>" "\<lambda>_. None"
        sample_controller None None 5 5 sample_oom]
    by (auto simp: sample_controller_def sample_oom_def classify_def can_shrink_def set_claimed_def
        new_job_def)
qed

lemma shrink_plan_example:
  "effective_batch (shrink \<lparr>microbatch_size = 8, grad_accum_steps = 1\<rparr>) = 8 \<and>
   \<not> can_shrink ((shrink ^^ 3) \<lparr>microbatch_size = 8, grad_accum_steps = 1\<rparr>)"
  using shrink_plan [of "\<lparr>microbatch_size = 8, grad_accum_steps = 1\<rparr>" 3]
  by (auto simp: effective_batch_def)

text \<open>\<open>shrink\<close> is documented to preserve the effective batch; for a microbatch of 5 it does not.\<close>

lemma shrink_loses_a_sample:
  "effective_batch \<lparr>microbatch_size = 5, grad_accum_steps = 1\<rparr> = 5 \<and>
   effective_batch (shrink \<lparr>microbatch_size = 5, grad_accum_steps = 1\<rparr>) = 4"
  by (simp add: effective_batch_def shrink_def)

text \<open>\<open>_dead_letter_now\<close> commits FAILED before DEAD_LETTER.  A process that dies in between leaves
  the job in FAILED, which neither the reaper nor a claim ever touches.\<close>

lemma dead_letter_gap:
  assumes "reachable s" and "lookup s jid = Some j" and "job_state j = RUNNING"
  shows "\<exists>j'. lookup (fst (transition now jid FAILED (Some err) True s)) jid = Some j' \<and>
    job_state j' = FAILED \<and> \<not> lease_expired later j' \<and> \<not> eligible kinds j'"
  using assms
  by (auto simp: transition_eq reachable_inv store_inv_pk Let_def lookup_replace_job set_state_def
      lease_expired_def eligible_def is_running_def is_pending_def dest: lookup_SomeD)

text \<open>The event of an OOM reports a retry even when the same call has dead-lettered the job.\<close>

lemma oom_action_of_last_attempt:
  assumes "reachable (rc_store rs)" and "lookup (rc_store rs) (job_id job) = Some job"
    and "job_state job = RUNNING" and "from_payload (job_payload job) = Some plan"
    and "can_shrink plan" and "classify e = OOM" and "ct_enabled ct" and "ct_registry ct = None"
    and "job_max_attempts job \<le> job_attempts job + 1" and "ct_events_path ct = None"
  shows "\<exists>rs' ev. handle parse ct gpu now ts job e rs = (rs', Inr ev) \<and>
    ev_action ev = ''retry_with_adjustment'' \<and> ev_resulting_state ev = ''dead_letter''"
proof -
  have pk: "pk (rc_store rs)" using assms(1) by (simp add: reachable_inv store_inv_pk)
  let ?p = "with_payload (shrunk_payload (shrink plan) (job_payload job)) now job"
  have l: "lookup (replace_job ?p (rc_store rs)) (job_id job) = Some ?p"
    using assms(2) by (simp add: lookup_replace_job)
  show ?thesis
    using assms pk l
    by (simp add: handle_def handle_branch_def handle_oom_def Let_def on_store_def bindA_def
        update_payload_found shrunk_payload_def [symmetric] latest_ckpt_def fail_running persist_def failed_job_def)
qed

end
