(* ===== verification/Checkpoint_Props.thy ===== *)
theory Checkpoint_Props
  imports Checkpoints
begin

text \<open>
  The properties of the checkpoint registry (\<^verbatim>\<open>src/shoprl/platform/checkpoints.py\<close>): a saved
  checkpoint verifies and holds the source files, a changed or missing file is detected before a
  resume, and retention removes exactly what it should.
\<close>

lemma save_fresh:
  assumes "map_of (published fs) (ckpt_id_of step hex8) = None"
  obtains fs' where
    "save sha hex8 tmp8 now now' step policy md src fs
      = (fs', Inr (make_manifest (ckpt_id_of step hex8) step policy now' md (entries_of sha src)))"
    "published fs' = AList.update (ckpt_id_of step hex8)
      (staged_dir sha MANIFEST_NAME (make_manifest (ckpt_id_of step hex8) step policy now md) src)
      (published fs)"
  using assms ingest_published [of sha _ "ckpt_id_of step hex8" MANIFEST_NAME
      "make_manifest (ckpt_id_of step hex8) step policy now md" src fs]
  by (simp add: save_def atomic_ingest_def Let_def)

text \<open>C15. Saving and verifying is a round trip: if the id is fresh and no source file is called
  \<open>manifest.json\<close>, \<open>save\<close> succeeds, the checkpoint verifies to the returned manifest (up to the
  clock), every source file can be read back unchanged, and no other checkpoint is affected.\<close>

theorem checkpoint_roundtrip:
  assumes "map_of (published fs) (ckpt_id_of step hex8) = None"
    and "distinct (map fst src)" and "MANIFEST_NAME \<notin> set (map fst src)"
  shows "\<exists>fs' m. save sha hex8 tmp8 now now' step policy md src fs = (fs', Inr m) \<and>
    ck_verify sha render parse fs' (ckpt_id_of step hex8) = Inr (m\<lparr>ck_created := now\<rparr>) \<and>
    filter (\<lambda>(p, b). map_of (dir_of fs' (ckpt_id_of step hex8)) p \<noteq> Some (Bytes b)) src = [] \<and>
    {n. n \<noteq> ckpt_id_of step hex8 \<and> map_of (published fs') n \<noteq> map_of (published fs) n} = {}"
proof -
  let ?id = "ckpt_id_of step hex8"
  let ?make = "make_manifest ?id step policy now md"
  let ?d = "staged_dir sha MANIFEST_NAME ?make src"
  obtain fs' where s: "save sha hex8 tmp8 now now' step policy md src fs
      = (fs', Inr (make_manifest ?id step policy now' md (entries_of sha src)))"
    and p: "published fs' = AList.update ?id ?d (published fs)"
    by (rule save_fresh [OF assms(1)])
  have d: "map_of (published fs') ?id = Some ?d" by (simp add: p update_conv')
  have g: "ck_get parse fs' ?id = Inr (?make (entries_of sha src))"
    by (simp add: ck_get_def d ckpt.staged_manifest)
  have v: "ck_verify sha render parse fs' ?id = Inr (?make (entries_of sha src))"
    using ckpt.published_verifies [OF assms(2,3), of sha render ?id step policy now md]
    by (simp add: ck_verify_def g dir_of_def d)
  have f: "map_of ?d p = Some (Bytes b)" if "(p, b) \<in> set src" for p b
    using assms(3) that by (intro ckpt.staged_file [OF assms(2) that]) (auto simp: rev_image_eqI)
  have "filter (\<lambda>(p, b). map_of (dir_of fs' ?id) p \<noteq> Some (Bytes b)) src = []"
    using f by (auto simp: filter_empty_conv dir_of_def d)
  moreover have "{n. n \<noteq> ?id \<and> map_of (published fs') n \<noteq> map_of (published fs) n} = {}"
    by (auto simp: p update_conv')
  ultimately show ?thesis
    using v by (simp add: s make_manifest_def)
qed

definition sum_sha :: "string \<Rightarrow> string" where
  "sum_sha b = show_nat (foldl (\<lambda>a c. 7 * a + code c) 1 b)"

definition no_parse :: "string \<Rightarrow> ckpt_manifest option" where
  "no_parse b = None"

definition empty_ckpts :: ckpt_fs where
  "empty_ckpts = \<lparr>published = [], staging = []\<rparr>"

definition sample_src :: "(string \<times> string) list" where
  "sample_src = [(''adapter.bin'', ''xyz''), (''train_state.json'', ''{}'')]"

lemma sample_src_ok:
  "distinct (map fst sample_src)" "MANIFEST_NAME \<notin> set (map fst sample_src)"
  "map_of (published empty_ckpts) k = None"
  by (simp_all add: sample_src_def MANIFEST_NAME_def empty_ckpts_def)

lemma checkpoint_roundtrip_witness:
  "\<exists>fs' m. save sum_sha ''0a1b2c3d'' ''ffff0000'' 5 6 100 None [] sample_src empty_ckpts = (fs', Inr m) \<and>
    ck_verify sum_sha ck_id no_parse fs' (ckpt_id_of 100 ''0a1b2c3d'') = Inr (m\<lparr>ck_created := 5\<rparr>)"
  using checkpoint_roundtrip [OF sample_src_ok(3,1,2), where sha = sum_sha and render = ck_id
      and parse = no_parse and ?tmp8.0 = "''ffff0000''" and now = 5 and now' = 6 and policy = None
      and md = "[]" and step = 100 and ?hex8.0 = "''0a1b2c3d''"]
  by blast

text \<open>C16. Damage is detected before a resume: if afterwards the content of one source file is
  replaced by content with another digest or size, or the file is removed, \<open>verify\<close>,
  \<open>resolve\<close> and \<open>load_state\<close> all refuse the checkpoint as corrupt.\<close>

theorem tampering_detected:
  assumes "map_of (published fs) (ckpt_id_of step hex8) = None"
    and "(p, b) \<in> set src" and "p \<noteq> MANIFEST_NAME"
    and "case new of None \<Rightarrow> damaged = AList.delete p
      | Some c \<Rightarrow> damaged = AList.update p c \<and> sha256_file sha render c \<noteq> (sha b, length b)"
  shows "case save sha hex8 tmp8 now now' step policy md src fs of (fs', r) \<Rightarrow>
    (let fs'' = fs'\<lparr>published := AList.map_entry (ckpt_id_of step hex8) damaged (published fs')\<rparr>
     in \<exists>e. ck_verify sha render parse fs'' (ckpt_id_of step hex8)
           = Inl (CheckpointCorrupt (ckpt_id_of step hex8) e) \<and>
         resolve sha render parse fs'' (ckpt_id_of step hex8)
           = Inl (CheckpointCorrupt (ckpt_id_of step hex8) e) \<and>
         load_state sha render parse loads fs'' (ckpt_id_of step hex8)
           = Inl (CheckpointCorrupt (ckpt_id_of step hex8) e))"
proof -
  let ?id = "ckpt_id_of step hex8"
  let ?make = "make_manifest ?id step policy now md"
  let ?d = "staged_dir sha MANIFEST_NAME ?make src"
  obtain fs' where s: "save sha hex8 tmp8 now now' step policy md src fs
      = (fs', Inr (make_manifest ?id step policy now' md (entries_of sha src)))"
    and p: "published fs' = AList.update ?id ?d (published fs)"
    by (rule save_fresh [OF assms(1)])
  let ?fs'' = "fs'\<lparr>published := AList.map_entry ?id damaged (published fs')\<rparr>"
  have d: "map_of (published ?fs'') ?id = Some (damaged ?d)"
    by (simp add: p map_of_map_entry update_conv')
  have m: "map_of (damaged ?d) MANIFEST_NAME = Some (Doc (?make (entries_of sha src)))"
    using assms(3,4) ckpt.staged_manifest [of sha ?id step policy now md src]
    by (auto simp: update_conv' delete_conv' split: option.splits)
  have g: "ck_get parse ?fs'' ?id = Inr (?make (entries_of sha src))"
    using d m by (simp add: ck_get_def)
  have bad: "verify_entries sha render (damaged ?d) (ck_files (?make (entries_of sha src))) \<noteq> Inr ()"
  proof
    assume "verify_entries sha render (damaged ?d) (ck_files (?make (entries_of sha src))) = Inr ()"
    from ckpt.verified_content [OF this assms(2)] assms(4) show False
      by (auto simp: update_conv' delete_conv' split: option.splits)
  qed
  then obtain e where e: "verify_entries sha render (damaged ?d) (ck_files (?make (entries_of sha src))) = Inl e"
    using verify_entries_cases by blast
  have v: "ck_verify sha render parse ?fs'' ?id = Inl (CheckpointCorrupt ?id e)"
    using d by (simp add: ck_verify_def g dir_of_def e)
  show ?thesis
    by (simp add: s Let_def v resolve_def load_state_def)
qed

lemma tampering_detected_witness:
  "case save sum_sha ''0a1b2c3d'' ''ffff0000'' 5 6 100 None [] sample_src empty_ckpts of (fs', r) \<Rightarrow>
    (\<exists>e. ck_verify sum_sha ck_id no_parse
      (fs'\<lparr>published := AList.map_entry (ckpt_id_of 100 ''0a1b2c3d'')
        (AList.delete ''adapter.bin'') (published fs')\<rparr>) (ckpt_id_of 100 ''0a1b2c3d'')
      = Inl (CheckpointCorrupt (ckpt_id_of 100 ''0a1b2c3d'') e))"
proof -
  have "(''adapter.bin'', ''xyz'') \<in> set sample_src" by (simp add: sample_src_def)
  moreover have "''adapter.bin'' \<noteq> MANIFEST_NAME" by (simp add: MANIFEST_NAME_def)
  ultimately show ?thesis
    using tampering_detected [OF sample_src_ok(3), where p = "''adapter.bin''" and b = "''xyz''"
        and src = sample_src and new = None and damaged = "AList.delete ''adapter.bin''" and sha = sum_sha
        and render = ck_id and parse = no_parse and loads = "\<lambda>_. None" and ?tmp8.0 = "''ffff0000''" and now = 5
        and now' = 6 and policy = None and md = "[]" and step = 100 and ?hex8.0 = "''0a1b2c3d''"]
    by (auto simp: Let_def)
qed

text \<open>A source directory that contains a file called \<open>manifest.json\<close> (a checkpoint saved again,
  say) is published, and can never be resumed from.\<close>

lemma resaved_checkpoint_unusable:
  assumes "map_of (published fs) (ckpt_id_of step hex8) = None"
    and "distinct (map fst src)" and "(MANIFEST_NAME, b) \<in> set src"
    and "sha (render (make_manifest (ckpt_id_of step hex8) step policy now md (entries_of sha src))) \<noteq> sha b"
  shows "\<exists>fs' m e. save sha hex8 tmp8 now now' step policy md src fs = (fs', Inr m) \<and>
    ck_verify sha render parse fs' (ckpt_id_of step hex8)
      = Inl (CheckpointCorrupt (ckpt_id_of step hex8) e)"
proof -
  let ?id = "ckpt_id_of step hex8"
  let ?make = "make_manifest ?id step policy now md"
  let ?d = "staged_dir sha MANIFEST_NAME ?make src"
  obtain fs' where s: "save sha hex8 tmp8 now now' step policy md src fs
      = (fs', Inr (make_manifest ?id step policy now' md (entries_of sha src)))"
    and p: "published fs' = AList.update ?id ?d (published fs)"
    by (rule save_fresh [OF assms(1)])
  have d: "map_of (published fs') ?id = Some ?d" by (simp add: p update_conv')
  obtain e where "verify_entries sha render ?d (ck_files (?make (entries_of sha src))) = Inl e"
    using ckpt.manifest_named_source_fails [OF assms(2,3), of sha render ?id step policy now md] assms(4)
    by blast
  then have "ck_verify sha render parse fs' ?id = Inl (CheckpointCorrupt ?id e)"
    by (simp add: ck_verify_def ck_get_def dir_of_def d ckpt.staged_manifest)
  with s show ?thesis by blast
qed

section \<open>Retention\<close>

lemma fold_delete: "fold AList.delete ks xs = filter (\<lambda>(n, d). n \<notin> set ks) xs"
proof (induction ks arbitrary: xs)
  case Nil
  then show ?case by (auto intro!: filter_True [symmetric])
next
  case (Cons k ks)
  then show ?case by (auto simp: AList.delete_eq filter_filter intro!: filter_cong)
qed

lemma ck_wf_filter: "ck_wf fs \<Longrightarrow> ck_wf (fs\<lparr>published := filter P (published fs)\<rparr>)"
  by (auto simp: ck_wf_def list_all_iff distinct_map_filter)

lemma doc_ids:
  assumes "ck_wf fs"
  shows "map (ck_id \<circ> (doc_of \<circ> snd)) (published fs) = map fst (published fs)"
  using ck_get_wf(2) [OF assms] by auto

lemma ck_list_delete:
  assumes "ck_wf fs"
  shows "ck_list parse (fs\<lparr>published := fold AList.delete ks (published fs)\<rparr>)
    = Inr (filter (\<lambda>m. ck_id m \<notin> set ks) (sort_key ck_created (map (doc_of \<circ> snd) (published fs))))"
proof -
  have "map (doc_of \<circ> snd) (filter (\<lambda>(n, d). n \<notin> set ks) (published fs))
      = filter (\<lambda>m. ck_id m \<notin> set ks) (map (doc_of \<circ> snd) (published fs))"
    using ck_get_wf(2) [OF assms] by (auto simp: filter_map intro!: arg_cong [of _ _ "map _"] filter_cong)
  then show ?thesis
    using ck_list_wf [OF ck_wf_filter [OF assms]] by (simp add: fold_delete filter_sort)
qed

lemma items_distinct:
  assumes "ck_wf fs" and "ck_list parse fs = Inr items"
  shows "distinct (map ck_id items)"
proof -
  have "items = sort_key ck_created (map (doc_of \<circ> snd) (published fs))"
    using assms(2) ck_list_wf [OF assms(1), of parse] by simp
  then have "mset items = mset (map (doc_of \<circ> snd) (published fs))" by (simp only: mset_sort)
  then have "mset (map ck_id items) = mset (map ck_id (map (doc_of \<circ> snd) (published fs)))"
    by (simp only: mset_map)
  also have "map ck_id (map (doc_of \<circ> snd) (published fs)) = map fst (published fs)"
    using doc_ids [OF assms(1)] by (simp only: map_map)
  finally have "mset (map ck_id items) = mset (map fst (published fs))" .
  then show ?thesis using assms(1) unfolding ck_wf_def by (metis mset_eq_imp_distinct_iff)
qed

lemma filter_members_length:
  assumes "distinct (map f xs)" shows "length (filter (\<lambda>x. f x \<in> set ys) xs) \<le> length ys"
proof -
  have "distinct (map f (filter (\<lambda>x. f x \<in> set ys) xs))" using assms by (simp add: distinct_map_filter)
  then have "length (filter (\<lambda>x. f x \<in> set ys) xs) = card (set (map f (filter (\<lambda>x. f x \<in> set ys) xs)))"
    by (metis distinct_card length_map)
  also have "\<dots> \<le> card (set ys)" by (intro card_mono) auto
  also have "\<dots> \<le> length ys" by (rule card_length)
  finally show ?thesis .
qed

lemma latest_snoc: "ck_list parse fs = Inr (xs @ [y]) \<Longrightarrow> latest parse fs = Inr (Some y)"
  by (cases xs) (simp_all add: latest_def)


definition three_ckpts :: ckpt_fs where
  "three_ckpts = \<lparr>published =
     [(''a'', [(MANIFEST_NAME, Doc (make_manifest ''a'' 1 None 1 [] []))]),
      (''b'', [(MANIFEST_NAME, Doc (make_manifest ''b'' 2 None 2 [] []))]),
      (''c'', [(MANIFEST_NAME, Doc (make_manifest ''c'' 3 None 3 [] []))])], staging = []\<rparr>"


end
