(* ===== verification/Engines.thy ===== *)
theory Engines
  imports Stub_Engine Config
begin

text \<open>
  \<^verbatim>\<open>src/shoprl/rollout/base.py\<close>, \<^verbatim>\<open>src/shoprl/rollout/hf.py\<close>, \<^verbatim>\<open>src/shoprl/rollout/vllm.py\<close> and
  \<^verbatim>\<open>src/shoprl/rollout/factory.py\<close>: the interface of the rollout engines, the two engines that sample
  from a model, and the factory.  The tokenizer and the model are parameters.
\<close>

section \<open>Devices and types\<close>

definition resolve_device :: "bool \<Rightarrow> bool \<Rightarrow> device \<Rightarrow> device" where
  "resolve_device cuda mps requested =
     (if requested \<noteq> DevAuto then requested
      else if cuda then DevCuda else if mps then DevMps else DevCpu)"

text \<open>The name of the torch type; \<open>None\<close> is the AttributeError of \<open>getattr\<close> on an unknown name.\<close>

definition resolve_dtype :: "(string \<Rightarrow> bool) \<Rightarrow> string \<Rightarrow> device \<Rightarrow> string option" where
  "resolve_dtype torch_has requested dev =
     (if requested \<noteq> ''auto'' then (if torch_has requested then Some requested else None)
      else Some (if dev = DevCuda then ''bfloat16'' else ''float32''))"

section \<open>Tokenizer and model\<close>

text \<open>\<open>tk_template\<close> is the chat template, if there is one: with the argument \<open>enable_thinking=False\<close>
  (\<open>True\<close> here) or without it, \<open>None\<close> being the TypeError of a template that does not take it.\<close>

record tokenizer =
  tk_template :: "(bool \<Rightarrow> string \<Rightarrow> string option) option"
  tk_encode :: "string \<Rightarrow> nat list"
  tk_decode :: "nat list \<Rightarrow> string"

record sampling =
  sp_temperature :: real
  sp_top_p :: real
  sp_max_new :: int
  sp_n :: int

record 'w hf_model =
  hm_seed :: "int \<Rightarrow> 'w \<Rightarrow> 'w"
  hm_generate :: "sampling \<Rightarrow> nat list \<Rightarrow> 'w \<Rightarrow> 'w \<times> nat list list"

record 'w hf_engine =
  he_tok :: tokenizer
  he_model :: "'w hf_model"
  he_rollout :: rollout_config
  he_seed :: int

section \<open>The HuggingFace engine\<close>

definition format_prompt :: "tokenizer \<Rightarrow> string \<Rightarrow> string option" where
  "format_prompt tok prompt =
     (case tk_template tok of
        None \<Rightarrow> Some prompt
      | Some f \<Rightarrow> (case f True prompt of Some t \<Rightarrow> Some t | None \<Rightarrow> f False prompt))"

definition sampling_of :: "rollout_config \<Rightarrow> int \<Rightarrow> sampling" where
  "sampling_of rc n =
     \<lparr>sp_temperature = ro_temperature rc, sp_top_p = ro_top_p rc, sp_max_new = ro_max_new_tokens rc, sp_n = n\<rparr>"

text \<open>A sampled sequence holds the prompt too; what follows it is the completion.\<close>

definition hf_completion :: "tokenizer \<Rightarrow> string \<Rightarrow> nat list \<Rightarrow> nat list \<Rightarrow> completion" where
  "hf_completion tok prompt ids seq =
     (let new = drop (length ids) seq in
      \<lparr>co_prompt = prompt, co_text = strip (tk_decode tok new), co_prompt_ids = ids, co_ids = new\<rparr>)"

text \<open>The turn of the loop for one prompt; the exception is the TypeError of a broken template.\<close>

definition hf_group :: "'w hf_engine \<Rightarrow> int \<Rightarrow> string \<Rightarrow> ('w, string, rollout_group) action" where
  "hf_group e n prompt w =
     (case format_prompt (he_tok e) prompt of
        None \<Rightarrow> (w, Inl ''TypeError'')
      | Some txt' \<Rightarrow>
          (let ids = tk_encode (he_tok e) txt';
               (w', seqs) = hm_generate (he_model e) (sampling_of (he_rollout e) n) ids w
           in (w', Inr \<lparr>gr_prompt = prompt, gr_completions = map (hf_completion (he_tok e) prompt ids) seqs\<rparr>)))"

definition hf_generate ::
  "'w hf_engine \<Rightarrow> string list \<Rightarrow> int \<Rightarrow> int option \<Rightarrow> ('w, string, rollout_group list) action" where
  "hf_generate e prompts n seed w =
     mapA (hf_group e n) prompts (hm_seed (he_model e) (case seed of None \<Rightarrow> he_seed e | Some s \<Rightarrow> s) w)"

section \<open>The vLLM engine\<close>

text \<open>A request's result: token ids of the prompt, text and token ids of the completions, and the
  metrics, if there are any, with the times of the first token and of the arrival.\<close>

record vllm_output =
  vo_prompt_ids :: "nat list"
  vo_outputs :: "(string \<times> nat list) list"
  vo_metrics :: "(real option \<times> real option) option"

record 'w vllm_engine =
  ve_tok :: tokenizer
  ve_rollout :: rollout_config
  ve_generate :: "sampling \<Rightarrow> int option \<Rightarrow> string list \<Rightarrow> 'w \<Rightarrow> 'w \<times> vllm_output list"

record 'w vllm_state =
  vs_world :: 'w
  vs_last_ttft :: "real option"

text \<open>Absent and zero times are falsy.\<close>

definition first_token_wait :: "vllm_output \<Rightarrow> real option" where
  "first_token_wait o' =
     (case vo_metrics o' of
        Some (Some a, Some b) \<Rightarrow> if a \<noteq> 0 \<and> b \<noteq> 0 then Some (a - b) else None
      | _ \<Rightarrow> None)"

definition mean_ttft :: "vllm_output list \<Rightarrow> real option" where
  "mean_ttft outs =
     (let ts = List.map_filter first_token_wait outs in
      if ts = [] then None else Some (py_round 1 (1000 * sum_list ts / real (length ts))))"

definition vllm_group :: "string \<Rightarrow> vllm_output \<Rightarrow> rollout_group" where
  "vllm_group prompt o' =
     \<lparr>gr_prompt = prompt,
      gr_completions = map (\<lambda>(t, ids). \<lparr>co_prompt = prompt, co_text = t, co_prompt_ids = vo_prompt_ids o', co_ids = ids\<rparr>)
        (vo_outputs o')\<rparr>"

fun mapO :: "('a \<Rightarrow> 'b option) \<Rightarrow> 'a list \<Rightarrow> 'b list option" where
  "mapO f [] = Some []"
| "mapO f (x # xs) = (case f x of None \<Rightarrow> None | Some y \<Rightarrow> map_option ((#) y) (mapO f xs))"

definition vllm_generate ::
  "'w vllm_engine \<Rightarrow> string list \<Rightarrow> int \<Rightarrow> int option \<Rightarrow> ('w vllm_state, string, rollout_group list) action" where
  "vllm_generate e prompts n seed st =
     (case mapO (format_prompt (ve_tok e)) prompts of
        None \<Rightarrow> (st, Inl ''TypeError'')
      | Some txts \<Rightarrow>
          (let (w, outs) = ve_generate e (sampling_of (ve_rollout e) n) seed txts (vs_world st) in
           (\<lparr>vs_world = w, vs_last_ttft = mean_ttft outs\<rparr>, Inr (map2 vllm_group prompts outs))))"

section \<open>The factory\<close>

text \<open>\<open>build_engine\<close> on the string of the configuration; \<open>None\<close> is the ValueError.\<close>

definition build_engine :: "string \<Rightarrow> engine_kind option" where
  "build_engine kind =
     (if kind = ''stub'' then Some EngStub
      else if kind = ''hf'' then Some EngHf
      else if kind = ''vllm'' then Some EngVllm else None)"

lemma build_engine_total: "build_engine (engine_value k) = Some k"
  by (cases k) (simp_all add: build_engine_def)

end
