(* ===== verification/Alerts.thy ===== *)
theory Alerts
  imports Trajectory
begin

text \<open>
  \<^verbatim>\<open>src/shoprl/observability/alerts.py\<close>: the alerting rules over the logged metrics.  A metric is a
  Python float, which may be infinite or NaN.  The message of an alert only renders its value, with
  characters beyond U+00FF, and is left out.
\<close>

section \<open>Alerts\<close>

datatype level = INFO | WARNING | CRITICAL

fun rank :: "level \<Rightarrow> nat" where
  "rank INFO = 0"
| "rank WARNING = 1"
| "rank CRITICAL = 2"

fun level_value :: "level \<Rightarrow> string" where
  "level_value INFO = ''info''"
| "level_value WARNING = ''warning''"
| "level_value CRITICAL = ''critical''"

record alert =
  al_level :: level
  al_rule :: string
  al_step :: "int option"
  al_value :: "pyfloat option"

record thresholds =
  kl_warn :: real
  kl_crit :: real
  entropy_collapse :: real
  grad_norm_spike :: real
  reward_regression :: real
  reward_stall :: real

definition default_thresholds :: thresholds where
  "default_thresholds = \<lparr>kl_warn = 1/2, kl_crit = 1, entropy_collapse = 5/100, grad_norm_spike = 50,
     reward_regression = 2/100, reward_stall = 1/100\<rparr>"

text \<open>The keys of a metrics row that the rules read; an absent or null entry is \<open>None\<close>.\<close>

record step_metrics =
  sm_step :: "int option"
  sm_grad_norm :: "pyfloat option"
  sm_kl :: "pyfloat option"
  sm_loss :: "pyfloat option"
  sm_entropy :: "pyfloat option"

section \<open>Rules\<close>

definition nonfinite_alert :: "int option \<Rightarrow> pyfloat option \<Rightarrow> alert list" where
  "nonfinite_alert step v =
     (case v of
        None \<Rightarrow> []
      | Some x \<Rightarrow> if isfinite x then []
          else [\<lparr>al_level = CRITICAL, al_rule = ''nonfinite'', al_step = step, al_value = Some x\<rparr>])"

text \<open>A rule that only looks at a present finite value.\<close>

definition on_finite :: "pyfloat option \<Rightarrow> (real \<Rightarrow> alert list) \<Rightarrow> alert list" where
  "on_finite v f = (case v of Some (Fin x) \<Rightarrow> f x | _ \<Rightarrow> [])"

definition step_alert :: "level \<Rightarrow> string \<Rightarrow> int option \<Rightarrow> real \<Rightarrow> alert" where
  "step_alert l rule step x = \<lparr>al_level = l, al_rule = rule, al_step = step, al_value = Some (Fin x)\<rparr>"

definition check_step :: "thresholds \<Rightarrow> step_metrics \<Rightarrow> alert list" where
  "check_step th m =
     (let step = sm_step m in
      nonfinite_alert step (sm_grad_norm m) @ nonfinite_alert step (sm_kl m)
      @ nonfinite_alert step (sm_loss m)
      @ on_finite (sm_kl m) (\<lambda>kl.
          if kl \<ge> kl_crit th then [step_alert CRITICAL ''kl_blowup'' step kl]
          else if kl \<ge> kl_warn th then [step_alert WARNING ''kl_high'' step kl] else [])
      @ on_finite (sm_entropy m) (\<lambda>ent.
          if ent < entropy_collapse th then [step_alert WARNING ''entropy_collapse'' step ent] else [])
      @ on_finite (sm_grad_norm m) (\<lambda>gn.
          if gn \<ge> grad_norm_spike th then [step_alert WARNING ''grad_spike'' step gn] else []))"

text \<open>What \<open>check_run\<close> reads of a result.\<close>

record run_result =
  ru_steps :: "step_metrics list"
  ru_failures :: int
  ru_before :: "pyfloat option"
  ru_after :: "pyfloat option"

definition run_alert :: "level \<Rightarrow> string \<Rightarrow> alert" where
  "run_alert l rule = \<lparr>al_level = l, al_rule = rule, al_step = None, al_value = None\<rparr>"

text \<open>\<open>after < before - t\<close> and \<open>abs(after - before) < t\<close> on Python floats.\<close>

fun regressed :: "real \<Rightarrow> pyfloat \<Rightarrow> pyfloat \<Rightarrow> bool" where
  "regressed t (Fin b) (Fin a) \<longleftrightarrow> a < b - t"
| "regressed t (Fin b) NegInf \<longleftrightarrow> True"
| "regressed t PosInf (Fin a) \<longleftrightarrow> True"
| "regressed t PosInf NegInf \<longleftrightarrow> True"
| "regressed t _ _ \<longleftrightarrow> False"

fun stalled :: "real \<Rightarrow> pyfloat \<Rightarrow> pyfloat \<Rightarrow> bool" where
  "stalled t (Fin b) (Fin a) \<longleftrightarrow> \<bar>a - b\<bar> < t"
| "stalled t _ _ \<longleftrightarrow> False"

definition check_run :: "thresholds \<Rightarrow> run_result \<Rightarrow> alert list" where
  "check_run th r =
     concat (map (check_step th) (ru_steps r))
     @ (if ru_failures r \<noteq> 0 then [run_alert CRITICAL ''stability_failures''] else [])
     @ (case (ru_before r, ru_after r) of
          (Some before, Some after) \<Rightarrow>
            if regressed (reward_regression th) before after then [run_alert WARNING ''reward_regression'']
            else if stalled (reward_stall th) before after then [run_alert INFO ''reward_stall'']
            else []
        | _ \<Rightarrow> [])"

section \<open>Summaries\<close>

text \<open>\<open>max(items, key=rank)\<close>: the first of the highest.\<close>

fun worst :: "alert \<Rightarrow> alert list \<Rightarrow> alert" where
  "worst a [] = a"
| "worst a (b # bs) = (if rank (al_level b) > rank (al_level a) then worst b bs else worst a bs)"

record rule_summary =
  su_level :: level
  su_count :: nat
  su_first_step :: "int option"

definition summarize_rule :: "alert list \<Rightarrow> rule_summary" where
  "summarize_rule items =
     \<lparr>su_level = al_level (worst (hd items) (tl items)), su_count = length items,
      su_first_step = (case find (\<lambda>a. al_step a \<noteq> None) items of None \<Rightarrow> None | Some a \<Rightarrow> al_step a)\<rparr>"

definition rules_of :: "alert list \<Rightarrow> string list" where
  "rules_of alerts = rev (remdups (rev (map al_rule alerts)))"

definition summarize :: "alert list \<Rightarrow> (string \<times> rule_summary) list" where
  "summarize alerts =
     map (\<lambda>rule. (rule, summarize_rule (filter (\<lambda>a. al_rule a = rule) alerts))) (rules_of alerts)"

definition max_level :: "alert list \<Rightarrow> level option" where
  "max_level alerts =
     (case alerts of [] \<Rightarrow> None | a # as \<Rightarrow> Some (al_level (worst a as)))"

text \<open>The exit code of the command.\<close>

definition alerts_exit :: "alert list \<Rightarrow> int" where
  "alerts_exit alerts =
     (if summarize alerts = [] then 0 else if max_level alerts = Some CRITICAL then 2 else 1)"

section \<open>Facts\<close>

lemma worst_in: "worst a as \<in> set (a # as)"
  by (induction a as rule: worst.induct) auto

text \<open>The levels are ordered by \<open>_RANK\<close>, so that \<open>max_level\<close> is the library's maximum.\<close>

lemma rank_inject: "rank l = rank m \<longleftrightarrow> l = m"
  by (cases l; cases m) simp_all

instantiation level :: linorder
begin

definition less_eq_level :: "level \<Rightarrow> level \<Rightarrow> bool" where
  "less_eq_level l m \<longleftrightarrow> rank l \<le> rank m"

definition less_level :: "level \<Rightarrow> level \<Rightarrow> bool" where
  "less_level l m \<longleftrightarrow> rank l < rank m"

instance
  by standard (auto simp: less_eq_level_def less_level_def rank_inject)

end

lemma level_le_critical [simp]: "l \<le> CRITICAL"
  by (cases l) (simp_all add: less_eq_level_def)

lemma worst_Max: "al_level (worst a as) = Max (al_level ` set (a # as))"
proof (induction a as rule: worst.induct)
  case (2 a b bs)
  let ?L = "al_level ` set bs"
  have ab: "rank (al_level b) > rank (al_level a) \<longleftrightarrow> al_level a < al_level b" by (simp add: less_level_def)
  show ?case
  proof (cases "al_level a < al_level b")
    case True
    have "Max (insert (al_level a) (insert (al_level b) ?L)) = max (al_level a) (Max (insert (al_level b) ?L))" by simp
    also have "\<dots> = Max (insert (al_level b) ?L)" using True by (intro max.absorb2) (auto simp: Max_ge_iff less_imp_le)
    finally show ?thesis using True 2(1) by (simp add: ab)
  next
    case False
    have "Max (insert (al_level b) (insert (al_level a) ?L)) = max (al_level b) (Max (insert (al_level a) ?L))" by simp
    also have "\<dots> = Max (insert (al_level a) ?L)" using False by (intro max.absorb2) (auto simp: Max_ge_iff)
    finally show ?thesis using False 2(2) by (simp add: ab insert_commute)
  qed
qed simp

lemma max_level_Max: "max_level alerts = (if alerts = [] then None else Some (Max (al_level ` set alerts)))"
  by (cases alerts) (simp_all only: max_level_def worst_Max list.case list.distinct if_True if_False simp_thms)

lemma max_level_critical: "max_level alerts = Some CRITICAL \<longleftrightarrow> (\<exists>a \<in> set alerts. al_level a = CRITICAL)"
proof (cases "alerts = []")
  case False
  then have "Max (al_level ` set alerts) = CRITICAL \<longleftrightarrow> CRITICAL \<in> al_level ` set alerts"
    by (subst Max_eq_iff) auto
  then have "Max (al_level ` set alerts) = CRITICAL \<longleftrightarrow> (\<exists>a \<in> set alerts. al_level a = CRITICAL)"
    by (simp add: image_iff eq_commute)
  with False show ?thesis by (simp add: max_level_Max)
qed (simp add: max_level_def)

lemma alerts_exit_code:
  "alerts_exit alerts = (if alerts = [] then 0 else if \<exists>a \<in> set alerts. al_level a = CRITICAL then 2 else 1)"
  by (simp add: alerts_exit_def summarize_def rules_of_def max_level_critical)

text \<open>The counts of a summary add up to the alerts.\<close>

lemma sum_filter_counts:
  "distinct ks \<Longrightarrow> f ` set xs \<subseteq> set ks \<Longrightarrow> sum_list (map (\<lambda>k. length (filter (\<lambda>x. f x = k) xs)) ks) = length xs"
proof (induction xs)
  case Nil
  then show ?case by (simp add: sum_list_0)
next
  case (Cons x xs)
  have "sum_list (map (\<lambda>k. length (filter (\<lambda>y. f y = k) (x # xs))) ks)
      = sum_list (map (\<lambda>k. (if f x = k then 1 else 0) + length (filter (\<lambda>y. f y = k) xs)) ks)"
    by (intro arg_cong [where f = sum_list] map_cong) auto
  also have "\<dots> = sum_list (map (\<lambda>k. if f x = k then 1 else 0) ks) + length xs"
    using Cons by (simp add: sum_list_addf)
  also have "sum_list (map (\<lambda>k. if f x = k then 1 else 0 :: nat) ks) = 1"
    using Cons.prems by (simp add: sum_list_distinct_conv_sum_set)
  finally show ?case by simp
qed

lemma summarize_counts: "sum_list (map (\<lambda>(_, s). su_count s) (summarize alerts)) = length alerts"
proof -
  have "sum_list (map (\<lambda>k. length (filter (\<lambda>a. al_rule a = k) alerts)) (rules_of alerts)) = length alerts"
    by (rule sum_filter_counts) (auto simp: rules_of_def)
  then show ?thesis by (simp add: summarize_def summarize_rule_def comp_def)
qed

end
