(* ===== verification/Training.thy ===== *)
theory Training
  imports Advantages Rewards Alerts Stub_Engine Config
begin

text \<open>
  \<^verbatim>\<open>src/shoprl/rl/base.py\<close>, \<^verbatim>\<open>src/shoprl/rl/grpo.py\<close>, \<^verbatim>\<open>src/shoprl/rl/rloo.py\<close>, \<^verbatim>\<open>src/shoprl/rl/ppo.py\<close>,
  \<^verbatim>\<open>src/shoprl/rl/factory.py\<close> and the evaluation of \<^verbatim>\<open>src/shoprl/rl/run.py\<close>: the training loop around
  the networks.  The networks are a parameter: sampling, the logits of a batch with and without the
  adapter, the critic's values, and one optimizer step with the gradient norm it reports.  A forward
  pass that yields a number that is not finite is \<open>None\<close>; everything computed from it is taken to
  be NaN (the clip fraction, which counts comparisons, included).
\<close>

section \<open>The networks\<close>

record 'w learner =
  ln_generate :: "string list \<Rightarrow> int \<Rightarrow> int \<Rightarrow> 'w \<Rightarrow> 'w \<times> rollout_group list"
  ln_logits :: "bool \<Rightarrow> nat list list \<Rightarrow> nat list list \<Rightarrow> 'w \<Rightarrow> real list list list option"
  ln_values :: "nat list list \<Rightarrow> nat list list \<Rightarrow> 'w \<Rightarrow> real list list"
  ln_update :: "real \<Rightarrow> 'w \<Rightarrow> 'w \<times> pyfloat"
  ln_pad :: nat

text \<open>One row of the metrics log; the device's memory figures are left out.\<close>

record train_row = step_metrics +
  tw_reward_mean :: real
  tw_reward_std :: real
  tw_clip_frac :: pyfloat
  tw_ratio :: pyfloat
  tw_value_loss :: "pyfloat option"
  tw_components :: "(string \<times> real) list"
  tw_hallucination :: real

record 'w trainer =
  tn_world :: 'w
  tn_failures :: nat
  tn_log :: "train_row list"

datatype train_error =
    TrTask task_error
  | TrReward reward_error
  | TrEmptyBatch
  | TrGeneration

section \<open>Rollouts and rewards\<close>

record train_data =
  dt_catalog :: "product list"
  dt_examples :: "prompt_example list"
  dt_shortlist :: "prompt_example \<Rightarrow> string list"
  dt_show :: "real \<Rightarrow> string"

definition picks :: "config \<Rightarrow> train_data \<Rightarrow> nat \<Rightarrow> prompt_example list" where
  "picks cfg dt step =
     (let pps = nat (tc_prompts_per_step (cf_training cfg)) in
      map (\<lambda>j. dt_examples dt ! ((step * pps + j) mod length (dt_examples dt))) [0..<pps])"

definition context_of :: "train_data \<Rightarrow> prompt_example \<Rightarrow> reward_ctx" where
  "context_of dt ex = \<lparr>ctx_catalog = catalog_index (dt_catalog dt), ctx_constraints = pe_constraints ex\<rparr>"

definition task_prompts :: "train_data \<Rightarrow> prompt_example list \<Rightarrow> train_error + string list" where
  "task_prompts dt exs =
     mapE (\<lambda>ex. case build_task_prompt (dt_show dt) ex (catalog_index (dt_catalog dt)) (dt_shortlist dt ex) of
        Inl e \<Rightarrow> Inl (TrTask e) | Inr p \<Rightarrow> Inr p) exs"

definition generate_rollouts ::
  "'w learner \<Rightarrow> config \<Rightarrow> train_data \<Rightarrow> nat \<Rightarrow> ('w trainer, train_error, rollout_group list \<times> reward_ctx list) action" where
  "generate_rollouts nn cfg dt step st =
     (let exs = picks cfg dt step in
      case task_prompts dt exs of
        Inl e \<Rightarrow> (st, Inl e)
      | Inr prompts \<Rightarrow>
          (let (w, groups) = ln_generate nn prompts (ro_num_samples (cf_rollout cfg))
                 (xc_seed (cf_experiment cfg) + int step + 1) (tn_world st)
           in (st\<lparr>tn_world := w\<rparr>, Inr (groups, map (context_of dt) exs))))"

definition score :: "config \<Rightarrow> reward_ctx \<Rightarrow> completion \<Rightarrow> train_error + reward_breakdown" where
  "score cfg ctx c =
     (case compute_reward (co_text c) ctx (Some (wc_weights (cf_rewards cfg)))
             (Some (wc_penalty (cf_rewards cfg))) of
        Inl e \<Rightarrow> Inl (TrReward e) | Inr b \<Rightarrow> Inr b)"

text \<open>\<open>calculate_rewards\<close>: the completions, the totals by group and the breakdowns, all in order.\<close>

definition calculate_rewards ::
  "config \<Rightarrow> rollout_group list \<Rightarrow> reward_ctx list
    \<Rightarrow> train_error + completion list \<times> real list list \<times> reward_breakdown list" where
  "calculate_rewards cfg groups contexts =
     (case mapE (\<lambda>(ctx, g). mapE (score cfg ctx) (gr_completions g)) (zip contexts groups) of
        Inl e \<Rightarrow> Inl e
      | Inr bss \<Rightarrow>
          Inr (concat (map (gr_completions \<circ> snd) (zip contexts groups)), map (map rb_total) bss, concat bss))"

definition component_getters :: "(string \<times> (reward_breakdown \<Rightarrow> real)) list" where
  "component_getters =
     [(''budget'', rb_budget), (''groundedness'', rb_groundedness), (''coverage'', rb_coverage),
      (''quality_format'', rb_quality_format), (''quality_comparison'', rb_quality_comparison)]"

definition hallucination_rate :: "reward_breakdown list \<Rightarrow> real" where
  "hallucination_rate bs = real (length (filter rb_hallucinated bs)) / real (length bs)"

definition reward_components :: "reward_breakdown list \<Rightarrow> (string \<times> real) list" where
  "reward_components bs =
     map (\<lambda>(k, f). (''reward_'' @ k, sum_list (map f bs) / real (length bs))) component_getters"

section \<open>The learner step\<close>

text \<open>What a step reports before the components are added.\<close>

record opt_out =
  oo_reward_mean :: real
  oo_reward_std :: real
  oo_kl :: pyfloat
  oo_entropy :: pyfloat
  oo_grad :: pyfloat
  oo_loss :: pyfloat
  oo_clip :: pyfloat
  oo_ratio :: pyfloat
  oo_value_loss :: "pyfloat option"

text \<open>\<open>_forward_logps\<close> on a batch: log-probabilities of policy and reference and the entropy.\<close>

definition forward_logps ::
  "'w learner \<Rightarrow> nat list list \<Rightarrow> nat list list \<Rightarrow> real list list \<Rightarrow> 'w
    \<Rightarrow> (real list list \<times> real list list \<times> real) option" where
  "forward_logps nn ids attn mask_shift w =
     (case (ln_logits nn False ids attn w, ln_logits nn True ids attn w) of
        (Some ref, Some pol) \<Rightarrow>
          Some (map2 token_logprobs pol ids, map2 token_logprobs ref ids, mean_entropy pol mask_shift)
      | _ \<Rightarrow> None)"

text \<open>\<open>_step\<close>: a loss that is not finite is counted and skipped.\<close>

definition guarded_step :: "'w learner \<Rightarrow> pyfloat \<Rightarrow> 'w trainer \<Rightarrow> 'w trainer \<times> pyfloat" where
  "guarded_step nn loss st =
     (case loss of
        Fin l \<Rightarrow> (let (w, gn) = ln_update nn l (tn_world st) in (st\<lparr>tn_world := w\<rparr>, gn))
      | _ \<Rightarrow> (st\<lparr>tn_failures := tn_failures st + 1\<rparr>, NaN))"

definition reward_std :: "real list \<Rightarrow> real" where
  "reward_std rs = (if length rs > 1 then pstdev rs else 0)"

text \<open>The reported statistics of a finite loss, and the ones after a NaN in the forward pass.\<close>

definition finite_out :: "real list \<Rightarrow> grpo_stats \<Rightarrow> real \<Rightarrow> pyfloat \<Rightarrow> pyfloat option \<Rightarrow> opt_out" where
  "finite_out flat_r s ent gn vl =
     \<lparr>oo_reward_mean = list_mean flat_r, oo_reward_std = reward_std flat_r, oo_kl = Fin (gs_mean_kl s),
      oo_entropy = Fin ent, oo_grad = gn, oo_loss = Fin (gs_loss s), oo_clip = Fin (gs_clip_fraction s),
      oo_ratio = Fin (gs_mean_ratio s), oo_value_loss = vl\<rparr>"

definition nan_out :: "real list \<Rightarrow> pyfloat \<Rightarrow> pyfloat option \<Rightarrow> opt_out" where
  "nan_out flat_r gn vl =
     \<lparr>oo_reward_mean = list_mean flat_r, oo_reward_std = reward_std flat_r, oo_kl = NaN,
      oo_entropy = NaN, oo_grad = gn, oo_loss = NaN, oo_clip = NaN, oo_ratio = NaN, oo_value_loss = vl\<rparr>"

text \<open>\<open>_critic_free_step\<close>; \<open>logp_old\<close> is the policy's own log-probability.\<close>

definition critic_free_step ::
  "'w learner \<Rightarrow> config \<Rightarrow> completion list \<Rightarrow> real list list \<Rightarrow> real list list
    \<Rightarrow> ('w trainer, train_error, opt_out) action" where
  "critic_free_step nn cfg completions rpg advantages_nested st =
     (case build_batch completions (ln_pad nn) of
        None \<Rightarrow> (st, Inl TrEmptyBatch)
      | Some (ids, attn, cmask) \<Rightarrow>
          (let mask_shift = map tl cmask in
           case forward_logps nn ids attn mask_shift (tn_world st) of
             None \<Rightarrow> (let (st', gn) = guarded_step nn NaN st in (st', Inr (nan_out (concat rpg) gn None)))
           | Some (pol, ref, ent) \<Rightarrow>
               (let s = grpo_loss pol pol ref (concat advantages_nested) mask_shift
                          (tc_clip_eps (cf_training cfg)) (tc_beta (cf_training cfg));
                    (st', gn) = guarded_step nn (Fin (gs_loss s)) st
                in (st', Inr (finite_out (concat rpg) s ent gn None)))))"

definition VALUE_COEF :: real where "VALUE_COEF = 5/10"

text \<open>The critic's value of a sequence: the mean over its completion tokens.\<close>

definition sequence_value :: "real list \<Rightarrow> real list \<Rightarrow> real" where
  "sequence_value v_tok msk =
     sum_list (map2 (*) (butlast v_tok) msk) / max 1 (sum_list msk)"

definition mse :: "real list \<Rightarrow> real list \<Rightarrow> real" where
  "mse xs ys = sum_list (map2 (\<lambda>x y. (x - y)\<^sup>2) xs ys) / real (length ys)"

text \<open>A batch of one completion has NaN advantages: KL and ratio do not depend on them, every token
  counts as clipped (NaN differs from NaN), and the step is skipped.\<close>

definition single_out :: "real list \<Rightarrow> token list \<Rightarrow> real \<Rightarrow> pyfloat \<Rightarrow> real \<Rightarrow> opt_out" where
  "single_out flat_r ts ent gn vl =
     \<lparr>oo_reward_mean = list_mean flat_r, oo_reward_std = reward_std flat_r,
      oo_kl = Fin (masked_mean (\<lambda>t. token_kl (tk_policy t) (tk_ref t)) ts), oo_entropy = Fin ent,
      oo_grad = gn, oo_loss = NaN, oo_clip = Fin (masked_mean (\<lambda>_. 1) ts),
      oo_ratio = Fin (masked_mean ratio ts), oo_value_loss = Some (Fin vl)\<rparr>"

definition ppo_optimize ::
  "'w learner \<Rightarrow> config \<Rightarrow> completion list \<Rightarrow> real list list \<Rightarrow> ('w trainer, train_error, opt_out) action" where
  "ppo_optimize nn cfg completions rpg st =
     (case build_batch completions (ln_pad nn) of
        None \<Rightarrow> (st, Inl TrEmptyBatch)
      | Some (ids, attn, cmask) \<Rightarrow>
          (let mask_shift = map tl cmask; rs = concat rpg;
               v_seq = map2 sequence_value (ln_values nn ids attn (tn_world st)) mask_shift;
               value_loss = mse v_seq rs in
           case forward_logps nn ids attn mask_shift (tn_world st) of
             None \<Rightarrow> (let (st', gn) = guarded_step nn NaN st in (st', Inr (nan_out rs gn (Some NaN))))
           | Some (pol, ref, ent) \<Rightarrow>
               (case ppo_advantages rs v_seq of
                  None \<Rightarrow>
                    (let (st', gn) = guarded_step nn NaN st in
                     (st', Inr (single_out rs (batch_tokens pol pol ref (map (\<lambda>_. 0) rs) mask_shift)
                                  ent gn value_loss)))
                | Some adv \<Rightarrow>
                    (let s = grpo_loss pol pol ref adv mask_shift (tc_clip_eps (cf_training cfg))
                               (tc_beta (cf_training cfg));
                         (st', gn) = guarded_step nn (Fin (gs_loss s + VALUE_COEF * value_loss)) st
                     in (st', Inr (finite_out rs s ent gn (Some (Fin value_loss))))))))"

definition optimize ::
  "'w learner \<Rightarrow> config \<Rightarrow> completion list \<Rightarrow> real list list \<Rightarrow> ('w trainer, train_error, opt_out) action" where
  "optimize nn cfg completions rpg =
     (case cf_algorithm cfg of
        Grpo \<Rightarrow> critic_free_step nn cfg completions rpg (batch_group_advantages rpg (1 / 10 ^ 4) True)
      | Rloo \<Rightarrow> critic_free_step nn cfg completions rpg (map rloo_advantages rpg)
      | Ppo \<Rightarrow> ppo_optimize nn cfg completions rpg)"

section \<open>The loop\<close>

definition row_of_step :: "nat \<Rightarrow> opt_out \<Rightarrow> reward_breakdown list \<Rightarrow> train_row" where
  "row_of_step step out' bs =
     \<lparr>sm_step = Some (int step), sm_grad_norm = Some (oo_grad out'), sm_kl = Some (oo_kl out'),
      sm_loss = Some (oo_loss out'), sm_entropy = Some (oo_entropy out'),
      tw_reward_mean = oo_reward_mean out', tw_reward_std = oo_reward_std out',
      tw_clip_frac = oo_clip out', tw_ratio = oo_ratio out', tw_value_loss = oo_value_loss out',
      tw_components = reward_components bs, tw_hallucination = hallucination_rate bs\<rparr>"

definition lift_train :: "train_error + 'a \<Rightarrow> ('w trainer, train_error, 'a) action" where
  "lift_train r st = (st, r)"

definition log_row :: "train_row \<Rightarrow> ('w trainer, train_error, train_row) action" where
  "log_row row st = (st\<lparr>tn_log := tn_log st @ [row]\<rparr>, Inr row)"

text \<open>One turn of the loop: its row, also appended to the log, and the tokens it generated.\<close>

definition train_one ::
  "'w learner \<Rightarrow> config \<Rightarrow> train_data \<Rightarrow> nat \<Rightarrow> ('w trainer, train_error, train_row \<times> nat) action" where
  "train_one nn cfg dt step =
     bindA (generate_rollouts nn cfg dt step) (\<lambda>(groups, contexts).
     bindA (lift_train (calculate_rewards cfg groups contexts)) (\<lambda>(completions, rpg, bs).
     bindA (optimize nn cfg completions rpg) (\<lambda>out'.
     bindA (log_row (row_of_step step out' bs)) (\<lambda>row.
       ret (row, sum_list (map (length \<circ> co_ids) completions))))))"

definition train ::
  "'w learner \<Rightarrow> config \<Rightarrow> train_data \<Rightarrow> ('w trainer, train_error, train_row list \<times> nat) action" where
  "train nn cfg dt st =
     bindA (mapA (train_one nn cfg dt) [0..<nat (tc_steps (cf_training cfg))])
       (\<lambda>rs. ret (map fst rs, sum_list (map snd rs))) (st\<lparr>tn_log := []\<rparr>)"

definition tokens_per_sec :: "nat \<Rightarrow> real \<Rightarrow> real" where
  "tokens_per_sec n elapsed = (if elapsed > 0 then real n / elapsed else 0)"

section \<open>Held-out evaluation\<close>

definition HELDOUT_SEED_OFFSET :: int where "HELDOUT_SEED_OFFSET = 777"

record eval_sample =
  sa_prompt :: string
  sa_response :: string
  sa_reward :: real
  sa_breakdown :: reward_breakdown
  sa_prompt_id :: string

record eval_result =
  er_mean :: real
  er_std :: real
  er_min :: real
  er_max :: real
  er_components :: "(string \<times> real) list"
  er_hallucination :: real
  er_n :: nat

definition eval_of :: "reward_breakdown list \<Rightarrow> eval_result" where
  "eval_of bs =
     (let totals = map rb_total bs in
      \<lparr>er_mean = list_mean totals, er_std = pstdev totals, er_min = Min (set totals), er_max = Max (set totals),
       er_components = map (\<lambda>(k, f). (k, list_mean (map f bs))) component_getters,
       er_hallucination = hallucination_rate bs, er_n = length bs\<rparr>)"

text \<open>The held-out prompts come from the trainer's catalog; \<open>examples\<close> are generated with the offset
  seed.  An empty set of completions is the StatisticsError of \<open>mean\<close>.\<close>

definition heldout_eval ::
  "'w learner \<Rightarrow> config \<Rightarrow> train_data \<Rightarrow> (int \<Rightarrow> int \<Rightarrow> prompt_example list option) \<Rightarrow> int \<Rightarrow> int
    \<Rightarrow> ('w trainer, train_error, eval_result \<times> eval_sample list) action" where
  "heldout_eval nn cfg dt prompts n_prompts num_samples st =
     (let seed = xc_seed (cf_experiment cfg) in
      case prompts n_prompts (seed + HELDOUT_SEED_OFFSET) of
        None \<Rightarrow> (st, Inl TrGeneration)
      | Some exs \<Rightarrow>
          (case task_prompts dt exs of
             Inl e \<Rightarrow> (st, Inl e)
           | Inr ps \<Rightarrow>
               (let (w, groups) = ln_generate nn ps num_samples seed (tn_world st);
                    st' = st\<lparr>tn_world := w\<rparr>
                in case mapE (\<lambda>(ex, g). mapE (\<lambda>c. case score cfg (context_of dt ex) c of
                        Inl e \<Rightarrow> Inl e
                      | Inr b \<Rightarrow> Inr (b, \<lparr>sa_prompt = gr_prompt g, sa_response = co_text c, sa_reward = rb_total b,
                                        sa_breakdown = b, sa_prompt_id = pe_id ex\<rparr>)) (gr_completions g))
                      (zip exs groups) of
                     Inl e \<Rightarrow> (st', Inl e)
                   | Inr bss \<Rightarrow>
                       if concat bss = [] then (st', Inl TrEmptyBatch)
                       else (st', Inr (eval_of (map fst (concat bss)), map snd (concat bss))))))"

record experiment_result =
  xr_algorithm :: string
  xr_steps :: int
  xr_batch :: int
  xr_num_samples :: int
  xr_beta :: real
  xr_lr :: real
  xr_dtype :: string
  xr_eval_n :: nat
  xr_before :: eval_result
  xr_after :: eval_result
  xr_gain :: real
  xr_kl :: "pyfloat list"
  xr_final_kl :: "pyfloat option"
  xr_max_kl :: "pyfloat option"
  xr_reward_std :: real
  xr_failures :: nat
  xr_rows :: "train_row list"

definition kl_of_row :: "train_row \<Rightarrow> pyfloat" where
  "kl_of_row m = (case sm_kl m of None \<Rightarrow> NaN | Some k \<Rightarrow> k)"

text \<open>Python's order on floats, in which NaN is below and above nothing, and \<open>max\<close>, which keeps
  the first of the values it cannot improve on.\<close>

fun py_less :: "pyfloat \<Rightarrow> pyfloat \<Rightarrow> bool" where
  "py_less (Fin x) (Fin y) = (x < y)"
| "py_less NegInf (Fin y) = True"
| "py_less NegInf PosInf = True"
| "py_less (Fin x) PosInf = True"
| "py_less _ _ = False"

fun py_max :: "pyfloat list \<Rightarrow> pyfloat option" where
  "py_max [] = None"
| "py_max (x # xs) = Some (fold (\<lambda>y m. if py_less m y then y else m) xs x)"

definition build_result :: "config \<Rightarrow> eval_result \<Rightarrow> eval_result \<Rightarrow> train_row list \<Rightarrow> nat \<Rightarrow> experiment_result" where
  "build_result cfg before after rows failures =
     (let kl_traj = map kl_of_row rows in
      \<lparr>xr_algorithm = algorithm_value (cf_algorithm cfg), xr_steps = tc_steps (cf_training cfg),
       xr_batch = tc_prompts_per_step (cf_training cfg) * ro_num_samples (cf_rollout cfg),
       xr_num_samples = ro_num_samples (cf_rollout cfg), xr_beta = tc_beta (cf_training cfg),
       xr_lr = tc_lr (cf_training cfg), xr_dtype = mc_dtype (cf_model cfg), xr_eval_n = er_n before, xr_before = before, xr_after = after, xr_gain = er_mean after - er_mean before,
       xr_kl = kl_traj, xr_final_kl = (if kl_traj = [] then None else Some (last kl_traj)),
       xr_max_kl = py_max kl_traj,
       xr_reward_std = (if rows = [] then 0 else list_mean (map tw_reward_std rows)),
       xr_failures = failures, xr_rows = rows\<rparr>)"

text \<open>The training core of \<open>run_experiment\<close>: before, train, after; the files it saves are the world's.\<close>

definition run_experiment ::
  "'w learner \<Rightarrow> config \<Rightarrow> train_data \<Rightarrow> (int \<Rightarrow> int \<Rightarrow> prompt_example list option) \<Rightarrow> int \<Rightarrow> int
    \<Rightarrow> ('w trainer, train_error, experiment_result \<times> eval_sample list) action" where
  "run_experiment nn cfg dt prompts n_prompts num_samples =
     bindA (heldout_eval nn cfg dt prompts n_prompts num_samples) (\<lambda>(before, _).
     bindA (train nn cfg dt) (\<lambda>(rows, _).
     bindA (heldout_eval nn cfg dt prompts n_prompts num_samples) (\<lambda>(after, samples) st.
       (st, Inr (build_result cfg before after rows (tn_failures st), samples)))))"

end
