(* ===== verification/Training_Props.thy ===== *)
theory Training_Props
  imports Training
begin

text \<open>What a training run logs, counts and changes, and what the alerting rules say about it.\<close>

section \<open>One learner step\<close>

lemma guarded_step_finite:
  "guarded_step nn (Fin l) st = (st\<lparr>tn_world := fst (ln_update nn l (tn_world st))\<rparr>, snd (ln_update nn l (tn_world st)))"
  by (simp add: guarded_step_def split_beta)

lemma guarded_step_nan: "guarded_step nn NaN st = (st\<lparr>tn_failures := tn_failures st + 1\<rparr>, NaN)"
  by (simp add: guarded_step_def)

text \<open>A step either updates the networks once, on a finite loss, or is counted and changes nothing.\<close>

definition step_effect :: "'w trainer \<Rightarrow> 'w trainer \<Rightarrow> opt_out \<Rightarrow> bool" where
  "step_effect st st' out' \<longleftrightarrow>
     tn_log st' = tn_log st \<and>
     (if isfinite (oo_loss out')
      then tn_failures st' = tn_failures st \<and> oo_clip out' = Fin 0 \<and> (\<exists>k \<ge> 0. oo_kl out' = Fin k)
      else tn_failures st' = tn_failures st + 1 \<and> oo_grad out' = NaN \<and> oo_loss out' = NaN
        \<and> tn_world st' = tn_world st)"

lemma nan_effect: "step_effect st (fst (guarded_step nn NaN st)) (nan_out rs (snd (guarded_step nn NaN st)) vl)"
  by (simp add: step_effect_def guarded_step_nan nan_out_def isfinite_def)

lemma single_effect:
  "step_effect st (fst (guarded_step nn NaN st)) (single_out rs ts ent (snd (guarded_step nn NaN st)) vl)"
  by (simp add: step_effect_def guarded_step_nan single_out_def isfinite_def)

lemma finite_effect:
  assumes "build_batch cs pad = Some (ids, attn, cmask)" and "0 \<le> eps"
  shows "step_effect st (fst (guarded_step nn (Fin l) st))
    (finite_out rs (grpo_loss pol pol ref adv (map tl cmask) eps beta) ent gn vl)"
  using mean_kl_nonneg [OF batch_mask_nonneg [OF assms(1)]] on_policy_unclipped [OF assms(2)]
  by (simp add: step_effect_def guarded_step_finite finite_out_def isfinite_def)

lemma critic_free_effect:
  assumes "critic_free_step nn cfg cs rpg advs st = (st', Inr out')" and "0 \<le> tc_clip_eps (cf_training cfg)"
  shows "step_effect st st' out'"
  using assms finite_effect [OF _ assms(2)] nan_effect
  by (auto simp: critic_free_step_def Let_def split_beta split: option.splits) 

lemma ppo_effect:
  assumes "ppo_optimize nn cfg cs rpg st = (st', Inr out')" and "0 \<le> tc_clip_eps (cf_training cfg)"
  shows "step_effect st st' out'"
  using assms finite_effect [OF _ assms(2)] nan_effect single_effect
  by (auto simp: ppo_optimize_def Let_def split_beta split: option.splits)

lemma optimize_effect:
  "optimize nn cfg cs rpg st = (st', Inr out') \<Longrightarrow> 0 \<le> tc_clip_eps (cf_training cfg) \<Longrightarrow> step_effect st st' out'"
  by (auto simp: optimize_def split: algorithm.splits intro: critic_free_effect ppo_effect)

lemma optimize_error: "optimize nn cfg cs rpg st = (st', Inl e) \<Longrightarrow> st' = st"
  by (auto simp: optimize_def critic_free_step_def ppo_optimize_def Let_def split_beta
      split: algorithm.splits option.splits)

section \<open>One turn of the loop\<close>

definition loss_finite :: "train_row \<Rightarrow> bool" where
  "loss_finite m \<longleftrightarrow> (case sm_loss m of Some l \<Rightarrow> isfinite l | None \<Rightarrow> False)"

definition row_ok :: "nat \<Rightarrow> train_row \<Rightarrow> bool" where
  "row_ok step m \<longleftrightarrow> sm_step m = Some (int step) \<and>
     (if loss_finite m then tw_clip_frac m = Fin 0 \<and> (\<exists>k \<ge> 0. sm_kl m = Some (Fin k))
      else sm_loss m = Some NaN \<and> sm_grad_norm m = Some NaN)"

definition turn :: "'w trainer \<Rightarrow> nat \<Rightarrow> 'w trainer \<times> (train_error + train_row \<times> nat) \<Rightarrow> bool" where
  "turn st step res \<longleftrightarrow>
     (case res of
        (st', Inl e) \<Rightarrow> tn_log st' = tn_log st \<and> tn_failures st' = tn_failures st
      | (st', Inr (row, n)) \<Rightarrow> tn_log st' = tn_log st @ [row] \<and> row_ok step row \<and>
          tn_failures st' = tn_failures st + (if loss_finite row then 0 else 1))"

lemma generate_rollouts_keeps:
  "generate_rollouts nn cfg dt step st = (st', r) \<Longrightarrow> tn_log st' = tn_log st \<and> tn_failures st' = tn_failures st"
  by (auto simp: generate_rollouts_def Let_def split_beta split: sum.splits)

lemma train_one_turn:
  assumes eps: "0 \<le> tc_clip_eps (cf_training cfg)"
  shows "turn st step (train_one nn cfg dt step st)"
proof -
  obtain st1 r1 where g: "generate_rollouts nn cfg dt step st = (st1, r1)" by fastforce
  note k1 = generate_rollouts_keeps [OF g]
  show ?thesis
  proof (cases r1)
    case (Inl e)
    with g k1 show ?thesis by (simp add: train_one_def turn_def)
  next
    case (Inr gc)
    obtain groups ctxs where gc: "gc = (groups, ctxs)" by fastforce
    show ?thesis
    proof (cases "calculate_rewards cfg groups ctxs")
      case (Inl e)
      with g k1 Inr gc show ?thesis by (simp add: train_one_def turn_def lift_train_def bindA_def)
    next
      case c: (Inr crb)
      obtain cs rpg bs where crb: "crb = (cs, rpg, bs)" by (cases crb) auto
      obtain st2 r2 where o': "optimize nn cfg cs rpg st1 = (st2, r2)" by fastforce
      show ?thesis
      proof (cases r2)
        case (Inl e)
        with g k1 Inr gc c crb o' optimize_error [of nn cfg cs rpg st1 st2 e] show ?thesis
          by (simp add: train_one_def turn_def lift_train_def bindA_def)
      next
        case out: (Inr out')
        have "step_effect st1 st2 out'" using optimize_effect [OF _ eps] o' out by blast
        with g k1 Inr gc c crb o' out show ?thesis
          by (auto simp: train_one_def turn_def lift_train_def bindA_def log_row_def row_of_step_def row_ok_def
              loss_finite_def step_effect_def split: if_splits)
      qed
    qed
  qed
qed

section \<open>The loop\<close>

lemma train_steps:
  assumes turns: "\<And>st step. turn st step (f step st)"
  shows "mapA f [a..<b] st = (st', r) \<Longrightarrow>
    \<exists>rows. tn_log st' = tn_log st @ rows \<and> (\<forall>i < length rows. row_ok (a + i) (rows ! i)) \<and>
      tn_failures st' = tn_failures st + length (filter (\<lambda>m. \<not> loss_finite m) rows) \<and>
      (case r of Inl e \<Rightarrow> length rows < b - a | Inr rs \<Rightarrow> map fst rs = rows \<and> length rows = b - a)"
proof (induction "b - a" arbitrary: a st r)
  case 0
  then show ?case by auto
next
  case (Suc n)
  then have ab: "[a..<b] = a # [Suc a..<b]" "a < b" by (simp_all add: upt_conv_Cons)
  obtain st1 r1 where f: "f a st = (st1, r1)" by fastforce
  show ?case
  proof (cases r1)
    case (Inl e)
    with Suc.prems f ab turns [of st a] show ?thesis by (auto simp: turn_def bindA_def)
  next
    case (Inr x)
    obtain row k where x: "x = (row, k)" by fastforce
    have t: "tn_log st1 = tn_log st @ [row]" "row_ok a row"
      "tn_failures st1 = tn_failures st + (if loss_finite row then 0 else 1)"
      using turns [of st a] f Inr x by (auto simp: turn_def)
    obtain st2 r2 where rest: "mapA f [Suc a..<b] st1 = (st2, r2)" by fastforce
    have st2: "st2 = st'" and r: "r = (case r2 of Inl e \<Rightarrow> Inl e | Inr rs \<Rightarrow> Inr (x # rs))"
      using Suc.prems f Inr ab rest by (auto simp: bindA_def split: sum.splits)
    have n: "n = b - Suc a" using Suc.hyps(2) by simp
    obtain rows where rows: "tn_log st' = tn_log st1 @ rows" "\<forall>i < length rows. row_ok (Suc a + i) (rows ! i)"
      "tn_failures st' = tn_failures st1 + length (filter (\<lambda>m. \<not> loss_finite m) rows)"
      "case r2 of Inl e \<Rightarrow> length rows < b - Suc a | Inr rs \<Rightarrow> map fst rs = rows \<and> length rows = b - Suc a"
      using Suc.hyps(1) [OF n rest [unfolded st2]] by blast
    have "\<forall>i < length (row # rows). row_ok (a + i) ((row # rows) ! i)"
      using t(2) rows(2) by (auto simp: less_Suc_eq_0_disj)
    with t rows r x ab(2) show ?thesis
      by (intro exI [of _ "row # rows"]) (auto split: sum.splits)
  qed
qed

section \<open>Alerts\<close>

lemma nonfinite_critical:
  "(\<exists>a \<in> set (nonfinite_alert step v). al_level a = CRITICAL) \<longleftrightarrow> v \<noteq> None \<and> \<not> isfinite (the v)"
  by (cases v) (simp_all add: nonfinite_alert_def)

lemma on_finite_critical:
  "(\<exists>a \<in> set (on_finite v f). al_level a = CRITICAL) \<longleftrightarrow>
    (\<exists>x. v = Some (Fin x) \<and> (\<exists>a \<in> set (f x). al_level a = CRITICAL))"
  by (auto simp: on_finite_def split: option.splits pyfloat.splits)

lemma check_step_critical:
  "(\<exists>a \<in> set (check_step th m). al_level a = CRITICAL) \<longleftrightarrow>
    (\<exists>x \<in> {sm_grad_norm m, sm_kl m, sm_loss m}. x \<noteq> None \<and> \<not> isfinite (the x)) \<or>
    (\<exists>k. sm_kl m = Some (Fin k) \<and> kl_crit th \<le> k)"
  unfolding check_step_def Let_def set_append bex_Un nonfinite_critical on_finite_critical
  by (auto simp: step_alert_def)

text \<open>The alerting rules over a run's own log.\<close>

definition alerts_of_rows :: "train_row list \<Rightarrow> alert list" where
  "alerts_of_rows rows = concat (map (\<lambda>m. check_step default_thresholds (step_metrics.truncate m)) rows)"

lemma alerts_of_rows_critical:
  "max_level (alerts_of_rows rows) = Some CRITICAL \<longleftrightarrow>
    (\<exists>m \<in> set rows. (\<exists>x \<in> {sm_grad_norm m, sm_kl m, sm_loss m}. x \<noteq> None \<and> \<not> isfinite (the x)) \<or>
      (\<exists>k \<ge> 1. sm_kl m = Some (Fin k)))"
proof -
  have "max_level (alerts_of_rows rows) = Some CRITICAL \<longleftrightarrow>
      (\<exists>m \<in> set rows. \<exists>a \<in> set (check_step default_thresholds (step_metrics.truncate m)). al_level a = CRITICAL)"
    by (auto simp: max_level_critical alerts_of_rows_def)
  then show ?thesis
    unfolding check_step_critical by (simp add: step_metrics.truncate_def default_thresholds_def conj_commute)
qed

section \<open>The property\<close>

text \<open>C34. A training run logs one row per finished step, numbered from zero, all of the configured
  steps when it returns and fewer when it raises; a step whose loss is not finite is counted, reports a
  NaN gradient and leaves the networks as the rollout left them, any other step clips nothing (the update is on
  policy) and has a non-negative KL; and a run that skipped a step has a CRITICAL alert.\<close>

theorem training_log:
  assumes "0 \<le> tc_clip_eps (cf_training cfg)" and "train nn cfg dt st = (st', r)"
  shows "(\<forall>i < length (tn_log st'). row_ok i (tn_log st' ! i)) \<and>
    tn_failures st' = tn_failures st + length (filter (\<lambda>m. \<not> loss_finite m) (tn_log st')) \<and>
    (case r of
       Inl e \<Rightarrow> length (tn_log st') < nat (tc_steps (cf_training cfg))
     | Inr (rows, n) \<Rightarrow> rows = tn_log st' \<and> length rows = nat (tc_steps (cf_training cfg))) \<and>
    (tn_failures st' \<noteq> tn_failures st \<longrightarrow> max_level (alerts_of_rows (tn_log st')) = Some CRITICAL) \<and>
    (optimize nn cfg cs rpg s = (s', Inr out') \<longrightarrow>
       (if isfinite (oo_loss out') then tn_failures s' = tn_failures s
        else tn_failures s' = tn_failures s + 1 \<and> tn_world s' = tn_world s))"
proof -
  let ?f = "train_one nn cfg dt"
  obtain r1 where m: "mapA ?f [0..<nat (tc_steps (cf_training cfg))] (st\<lparr>tn_log := []\<rparr>) = (st', r1)"
    and r: "r = (case r1 of Inl e \<Rightarrow> Inl e | Inr rs \<Rightarrow> Inr (map fst rs, sum_list (map snd rs)))"
    using assms(2)
    by (cases "mapA ?f [0..<nat (tc_steps (cf_training cfg))] (st\<lparr>tn_log := []\<rparr>)")
      (auto simp: train_def bindA_def split: sum.splits)
  obtain rows where rows: "tn_log st' = rows" "\<forall>i < length rows. row_ok i (rows ! i)"
    "tn_failures st' = tn_failures st + length (filter (\<lambda>m. \<not> loss_finite m) rows)"
    "case r1 of Inl e \<Rightarrow> length rows < nat (tc_steps (cf_training cfg))
      | Inr rs \<Rightarrow> map fst rs = rows \<and> length rows = nat (tc_steps (cf_training cfg))"
    using train_steps [OF train_one_turn [OF assms(1)] m] by (auto split: sum.splits)
  have crit: "max_level (alerts_of_rows rows) = Some CRITICAL" if "tn_failures st' \<noteq> tn_failures st"
  proof -
    from that rows(3) have "filter (\<lambda>m. \<not> loss_finite m) rows \<noteq> []" by auto
    then obtain m where m: "m \<in> set rows" "\<not> loss_finite m" by (auto simp: filter_empty_conv)
    then have "sm_loss m = Some NaN" using rows(2) by (auto simp: in_set_conv_nth row_ok_def)
    with m show ?thesis by (auto simp: alerts_of_rows_critical isfinite_def)
  qed
  have res: "case r of Inl e \<Rightarrow> length (tn_log st') < nat (tc_steps (cf_training cfg))
      | Inr (rows', n) \<Rightarrow> rows' = tn_log st' \<and> length rows' = nat (tc_steps (cf_training cfg))"
    using rows(1,4) r by (cases r1) auto
  have "step_effect s s' out'" if "optimize nn cfg cs rpg s = (s', Inr out')"
    by (rule optimize_effect [OF that assms(1)])
  then show ?thesis
    using rows(2,3) crit res unfolding step_effect_def rows(1) [symmetric] by (intro conjI impI) simp_all
qed

text \<open>A learner whose forward pass always fails, on one prompt.\<close>

definition nan_learner :: "unit learner" where
  "nan_learner =
     \<lparr>ln_generate = (\<lambda>ps n seed w. (w, map (\<lambda>p. \<lparr>gr_prompt = p,
        gr_completions = [\<lparr>co_prompt = p, co_text = ''hi'', co_prompt_ids = [3], co_ids = [2]\<rparr>]\<rparr>) ps)),
      ln_logits = (\<lambda>b ids attn w. None), ln_values = (\<lambda>ids attn w. []), ln_update = (\<lambda>l w. (w, Fin 1)), ln_pad = 0\<rparr>"

definition tiny_data :: train_data where
  "tiny_data =
     (let p = \<lparr>p_sku = ''LAP-0001'', p_name = ''N'', p_price = 500, p_ram = 8, p_weight = 3, p_battery = 9, p_brand = ''B''\<rparr>
      in \<lparr>dt_catalog = [p],
          dt_examples = [\<lparr>pe_id = ''P-0001'', pe_prompt = ''buy'', pe_constraints = [(''min_ram'', 8)], pe_answers = [''LAP-0001'']\<rparr>],
          dt_shortlist = (\<lambda>ex. [''LAP-0001'']), dt_show = (\<lambda>x. ''3'')\<rparr>)"

definition tiny_example :: prompt_example where
  "tiny_example = hd (dt_examples tiny_data)"

lemma tiny_picks: "picks default_settings tiny_data step = [tiny_example]"
  by (simp add: picks_def default_settings_def default_training_def tiny_data_def tiny_example_def Let_def)

lemma tiny_prompt: "\<exists>p. task_prompts tiny_data [tiny_example] = Inr [p]"
  by (simp add: task_prompts_def build_task_prompt_def tiny_data_def tiny_example_def catalog_index_def Let_def)

lemma tiny_score: "\<exists>b. score default_settings (context_of tiny_data tiny_example)
    \<lparr>co_prompt = p, co_text = ''hi'', co_prompt_ids = [3], co_ids = [2]\<rparr> = Inr b"
proof -
  have "isl (compute_reward ''hi'' (context_of tiny_data tiny_example)
      (Some (wc_weights (cf_rewards default_settings))) (Some (wc_penalty (cf_rewards default_settings)))) = False"
    by code_simp
  then show ?thesis by (auto simp: score_def split: sum.splits)
qed

lemma nan_turn:
  "\<exists>row n. train_one nan_learner default_settings tiny_data step st
    = (st\<lparr>tn_failures := tn_failures st + 1, tn_log := tn_log st @ [row]\<rparr>, Inr (row, n))"
proof -
  obtain p where p: "task_prompts tiny_data [tiny_example] = Inr [p]" using tiny_prompt by blast
  let ?c = "\<lparr>co_prompt = p, co_text = ''hi'', co_prompt_ids = [3], co_ids = [2]\<rparr>"
  obtain b where b: "score default_settings (context_of tiny_data tiny_example) ?c = Inr b"
    using tiny_score by blast
  have "generate_rollouts nan_learner default_settings tiny_data step st
      = (st, Inr ([\<lparr>gr_prompt = p, gr_completions = [?c]\<rparr>], [context_of tiny_data tiny_example]))"
    by (simp add: generate_rollouts_def tiny_picks p nan_learner_def)
  moreover have "calculate_rewards default_settings [\<lparr>gr_prompt = p, gr_completions = [?c]\<rparr>] [context_of tiny_data tiny_example]
      = Inr ([?c], [[rb_total b]], [b])"
    by (simp add: calculate_rewards_def b)
  moreover have "optimize nan_learner default_settings [?c] [[rb_total b]] st
      = (st\<lparr>tn_failures := tn_failures st + 1\<rparr>, Inr (nan_out [rb_total b] NaN None))"
    by (simp add: optimize_def default_settings_def critic_free_step_def build_batch_def forward_logps_def
        nan_learner_def guarded_step_def Let_def)
  ultimately show ?thesis
    by (simp add: train_one_def lift_train_def bindA_def log_row_def)
qed

lemma nan_run:
  "\<exists>r x. train nan_learner default_settings tiny_data st = (r, x) \<and> tn_failures r = tn_failures st + 3"
proof -
  define f where "f = train_one nan_learner default_settings tiny_data"
  define st0 where "st0 = st\<lparr>tn_log := []\<rparr>"
  have turns: "\<exists>s' x. f step s = (s', Inr x) \<and> tn_failures s' = tn_failures s + 1" for step s
    using nan_turn [of step s] by (auto simp: f_def)
  obtain st1 x0 where 0: "f 0 st0 = (st1, Inr x0)" "tn_failures st1 = tn_failures st0 + 1" using turns by blast
  obtain st2 x1 where 1: "f 1 st1 = (st2, Inr x1)" "tn_failures st2 = tn_failures st1 + 1" using turns by blast
  obtain st3 x2 where 2: "f 2 st2 = (st3, Inr x2)" "tn_failures st3 = tn_failures st2 + 1" using turns by blast
  have n: "[0..<nat (tc_steps (cf_training default_settings))] = [0, 1, 2]"
    by (simp add: default_settings_def default_training_def upt_rec)
  have "mapA f [0, 1, 2] st0 = (st3, Inr [x0, x1, x2])"
    using 0(1) 1(1) 2(1) by (simp add: bindA_def)
  then have "train nan_learner default_settings tiny_data st
      = (st3, Inr (map fst [x0, x1, x2], sum_list (map snd [x0, x1, x2])))"
    by (simp add: train_def n f_def st0_def del: mapA.simps)
  with 0(2) 1(2) 2(2) show ?thesis by (auto simp: st0_def)
qed

lemma training_log_witness:
  "max_level (alerts_of_rows (tn_log (fst (train nan_learner default_settings tiny_data
     \<lparr>tn_world = (), tn_failures = 0, tn_log = []\<rparr>)))) = Some CRITICAL"
proof -
  let ?st = "\<lparr>tn_world = (), tn_failures = 0, tn_log = []\<rparr> :: unit trainer"
  obtain st' r where t: "train nan_learner default_settings tiny_data ?st = (st', r)" by fastforce
  then have "tn_failures st' \<noteq> tn_failures ?st" using nan_run [of ?st] by auto
  moreover have "0 \<le> tc_clip_eps (cf_training default_settings)"
    by (simp add: default_settings_def default_training_def)
  ultimately show ?thesis using training_log [OF _ t] t by auto
qed

end
