(* ===== verification/Engine_Props.thy ===== *)
theory Engine_Props
  imports Engines Training_Props
begin

text \<open>
  What the learner relies on when it takes a batch from a rollout engine, as a contract
  (\<open>rollout_engine\<close>) that the three engines meet, and the shape of the rewards that follows.
\<close>

section \<open>The contract\<close>

definition group_ok :: "nat \<Rightarrow> string \<Rightarrow> rollout_group \<Rightarrow> bool" where
  "group_ok n p g \<longleftrightarrow> gr_prompt g = p \<and> length (gr_completions g) = n \<and>
     (\<exists>ids. \<forall>c \<in> set (gr_completions g). co_prompt c = p \<and> co_prompt_ids c = ids)"

lemma groups_total_length:
  "list_all2 (group_ok n) ps gs \<Longrightarrow> length (concat (map gr_completions gs)) = length ps * n"
  by (induction rule: list_all2_induct) (simp_all add: group_ok_def)

lemma groups_prompts: "list_all2 (group_ok n) ps gs \<Longrightarrow> map gr_prompt gs = ps"
  by (induction rule: list_all2_induct) (simp_all add: group_ok_def)

lemma groups_lengths:
  "list_all2 (group_ok n) ps gs \<Longrightarrow> map (length \<circ> gr_completions) gs = replicate (length ps) n"
  by (induction rule: list_all2_induct) (simp_all add: group_ok_def)

lemma task_prompts_length: "task_prompts dt exs = Inr ps \<Longrightarrow> length ps = length exs"
  unfolding task_prompts_def by (drule mapE_InrD, drule list_all2_lengthD) simp

text \<open>The rewards of a batch have the shape of its groups.\<close>

lemma scored_lengths:
  assumes "mapE (\<lambda>(ctx, g). mapE (f ctx) (gr_completions g)) (zip ctxs gs) = Inr bss" and "length ctxs = length gs"
  shows "map length bss = map (length \<circ> gr_completions) gs"
proof -
  have "list_all2 (\<lambda>(ctx, g) bs. mapE (f ctx) (gr_completions g) = Inr bs) (zip ctxs gs) bss"
    using mapE_InrD [OF assms(1)] by (simp add: case_prod_beta' )
  then have "list_all2 (\<lambda>cg bs. length bs = length (gr_completions (snd cg))) (zip ctxs gs) bss"
    by (rule list_all2_mono) (auto dest!: mapE_InrD list_all2_lengthD)
  then have "map length bss = map (\<lambda>cg. length (gr_completions (snd cg))) (zip ctxs gs)"
    by (induction rule: list_all2_induct) simp_all
  also have "\<dots> = map (length \<circ> gr_completions) (map snd (zip ctxs gs))" by simp
  finally show ?thesis using assms(2) by simp
qed

lemma rewards_shape:
  assumes "list_all2 (group_ok n) ps gs" and "length ctxs = length ps"
    and "calculate_rewards cfg gs ctxs = Inr (cs, rpg, bs)"
  shows "cs = concat (map gr_completions gs) \<and> length bs = length cs \<and>
    map length rpg = replicate (length ps) n \<and> concat rpg = map rb_total bs"
proof -
  have len: "length ctxs = length gs" using assms(1,2) by (simp add: list_all2_lengthD)
  obtain bss where m: "mapE (\<lambda>(ctx, g). mapE (score cfg ctx) (gr_completions g)) (zip ctxs gs) = Inr bss"
    and r: "cs = concat (map (gr_completions \<circ> snd) (zip ctxs gs))" "rpg = map (map rb_total) bss" "bs = concat bss"
    using assms(3) by (auto simp: calculate_rewards_def split: sum.splits)
  have cs: "cs = concat (map gr_completions gs)"
    using len by (simp add: r(1) map_map [symmetric] del: map_map)
  have lens: "map length bss = map (length \<circ> gr_completions) gs" by (rule scored_lengths [OF m len])
  then have "length (concat bss) = length cs"
    by (simp add: cs length_concat comp_def)
  moreover have "map length rpg = replicate (length ps) n"
    using lens groups_lengths [OF assms(1)] by (simp add: r(2) comp_def)
  ultimately show ?thesis by (simp add: cs r map_concat)
qed

lemma batch_exists: "build_batch cs pad \<noteq> None \<longleftrightarrow> cs \<noteq> []"
  by (simp add: build_batch_def Let_def)

locale rollout_engine =
  fixes gen :: "'e \<Rightarrow> string list \<Rightarrow> int \<Rightarrow> int option \<Rightarrow> ('s, string, rollout_group list) action"
    and fit :: "'e \<Rightarrow> bool"
  assumes never_raises: "fit e \<Longrightarrow> gen e ps n seed st = (st', r) \<Longrightarrow> r \<noteq> Inl x"
    and aligned: "fit e \<Longrightarrow> gen e ps n seed st = (st', Inr gs) \<Longrightarrow> 0 \<le> n \<Longrightarrow> list_all2 (group_ok (nat n)) ps gs"
begin

lemma batch:
  assumes "fit e" and "0 \<le> n"
  shows "\<exists>st' gs. gen e ps n seed st = (st', Inr gs) \<and> list_all2 (group_ok (nat n)) ps gs"
proof -
  obtain st' r where g: "gen e ps n seed st = (st', r)" by fastforce
  with never_raises [OF assms(1) g] obtain gs where "r = Inr gs" by (cases r) auto
  with g aligned [OF assms(1) _ assms(2)] show ?thesis by blast
qed

lemma trainable:
  assumes "fit e" and "0 \<le> n" and "gen e ps n seed st = (st', Inr gs)"
    and "length ctxs = length ps" and "calculate_rewards cfg gs ctxs = Inr (cs, rpg, bs)"
  shows "length cs = length ps * nat n \<and> length bs = length cs \<and> map length rpg = replicate (length ps) (nat n) \<and>
    concat rpg = map rb_total bs \<and> (build_batch cs pad \<noteq> None \<longleftrightarrow> ps \<noteq> [] \<and> 0 < n)"
proof -
  note al = aligned [OF assms(1,3,2)]
  note sh = rewards_shape [OF al assms(4,5)]
  have len: "length cs = length ps * nat n" using sh groups_total_length [OF al] by simp
  then have "cs \<noteq> [] \<longleftrightarrow> ps \<noteq> [] \<and> 0 < n" by (auto simp flip: length_greater_0_conv)
  then have "build_batch cs pad \<noteq> None \<longleftrightarrow> ps \<noteq> [] \<and> 0 < n" unfolding batch_exists .
  with sh len show ?thesis by metis
qed

end

section \<open>The three engines meet it\<close>

record 'g stub_engine =
  se_rng :: "'g rng"
  se_mk :: "string \<Rightarrow> 'g"
  se_dash :: string
  se_seed :: int

definition stub_gen ::
  "'g stub_engine \<Rightarrow> string list \<Rightarrow> int \<Rightarrow> int option \<Rightarrow> (unit, string, rollout_group list) action" where
  "stub_gen e ps n seed st = (st, Inr (stub_generate (se_rng e) (se_mk e) (se_dash e) (se_seed e) ps n seed))"

lemma stub_completion_prompt:
  "c \<in> set (stub_completions rg dash p n g) \<Longrightarrow> co_prompt c = p \<and> co_prompt_ids c = []"
  by (induction n arbitrary: g) (auto simp: Let_def plain_completion_def split: prod.splits)

lemma stub_aligned: "list_all2 (group_ok (nat n)) ps (stub_generate rg mk dash self ps n seed)"
  by (auto simp: stub_generate_def Let_def list_all2_conv_all_nth nth_enumerate_eq stub_group_def group_ok_def
      dest: stub_completion_prompt)

interpretation stub: rollout_engine stub_gen "\<lambda>_. True"
  by unfold_locales (auto simp: stub_gen_def stub_aligned)

text \<open>\<open>model.generate\<close> returns \<open>num_return_sequences\<close> sequences; the template takes the call
  without the extra argument.\<close>

definition hf_fit :: "'w hf_engine \<Rightarrow> bool" where
  "hf_fit e \<longleftrightarrow> (\<forall>p. format_prompt (he_tok e) p \<noteq> None) \<and>
     (\<forall>sp ids w. length (snd (hm_generate (he_model e) sp ids w)) = nat (sp_n sp))"

lemma hf_group_ok:
  "hf_fit e \<Longrightarrow> \<exists>w' g. hf_group e n p w = (w', Inr g) \<and> group_ok (nat n) p g"
proof -
  assume fit: "hf_fit e"
  then obtain t where t: "format_prompt (he_tok e) p = Some t" unfolding hf_fit_def by blast
  obtain w' seqs where s: "hm_generate (he_model e) (sampling_of (he_rollout e) n) (tk_encode (he_tok e) t) w = (w', seqs)"
    by fastforce
  have "length (snd (hm_generate (he_model e) (sampling_of (he_rollout e) n) (tk_encode (he_tok e) t) w)) = nat n"
    using fit by (simp add: hf_fit_def sampling_of_def)
  then show ?thesis using s t by (auto simp: hf_group_def group_ok_def hf_completion_def Let_def)
qed

lemma hf_groups: "hf_fit e \<Longrightarrow> \<exists>w' gs. mapA (hf_group e n) ps w = (w', Inr gs) \<and> list_all2 (group_ok (nat n)) ps gs"
proof (induction ps arbitrary: w)
  case Nil
  then show ?case by (simp add: ret_def)
next
  case (Cons p ps)
  obtain w1 g where g: "hf_group e n p w = (w1, Inr g)" "group_ok (nat n) p g"
    using hf_group_ok [OF Cons.prems] by blast
  obtain w2 gs where "mapA (hf_group e n) ps w1 = (w2, Inr gs)" "list_all2 (group_ok (nat n)) ps gs"
    using Cons by blast
  with g show ?case by (simp add: bindA_def ret_def)
qed

interpretation hf: rollout_engine hf_generate hf_fit
proof
  fix e :: "'a hf_engine" and ps n seed st st'
  assume fit: "hf_fit e"
  obtain w' gs where w: "hf_generate e ps n seed st = (w', Inr gs)" and al: "list_all2 (group_ok (nat n)) ps gs"
    using hf_groups [OF fit] unfolding hf_generate_def by blast
  show "r \<noteq> Inl x" if "hf_generate e ps n seed st = (st', r)" for r x using that w by auto
  show "list_all2 (group_ok (nat n)) ps gs'" if "hf_generate e ps n seed st = (st', Inr gs')" for gs'
    using that w al by simp
qed

text \<open>vLLM answers every request, with \<open>n\<close> completions each.\<close>

definition vllm_fit :: "'w vllm_engine \<Rightarrow> bool" where
  "vllm_fit e \<longleftrightarrow> (\<forall>p. format_prompt (ve_tok e) p \<noteq> None) \<and>
     (\<forall>sp seed ps w. list_all2 (\<lambda>p o'. length (vo_outputs o') = nat (sp_n sp)) ps (snd (ve_generate e sp seed ps w)))"

lemma mapO_total: "(\<And>x. f x \<noteq> None) \<Longrightarrow> \<exists>ys. mapO f xs = Some ys \<and> length ys = length xs"
  by (induction xs) (auto split: option.splits)

lemma vllm_group_ok: "length (vo_outputs o') = n \<Longrightarrow> group_ok n p (vllm_group p o')"
  by (auto simp: group_ok_def vllm_group_def)

interpretation vllm: rollout_engine vllm_generate vllm_fit
proof
  fix e :: "'a vllm_engine" and ps n seed and st st' :: "'a vllm_state"
  assume fit: "vllm_fit e"
  then have "\<And>p. format_prompt (ve_tok e) p \<noteq> None" by (simp add: vllm_fit_def)
  from mapO_total [of "format_prompt (ve_tok e)", OF this] obtain ts
    where ts: "mapO (format_prompt (ve_tok e)) ps = Some ts" "length ts = length ps" by blast
  obtain w outs where g: "ve_generate e (sampling_of (ve_rollout e) n) seed ts (vs_world st) = (w, outs)" by fastforce
  have "list_all2 (\<lambda>p o'. length (vo_outputs o') = nat n) ts outs"
    using fit g unfolding vllm_fit_def by (metis sampling.select_convs(4) sampling_of_def snd_conv)
  then have "list_all2 (group_ok (nat n)) ps (map2 vllm_group ps outs)"
    using ts(2) by (auto simp: list_all2_conv_all_nth vllm_group_ok)
  moreover have w: "\<exists>st1. vllm_generate e ps n seed st = (st1, Inr (map2 vllm_group ps outs))"
    using ts(1) g by (simp add: vllm_generate_def)
  ultimately show "list_all2 (group_ok (nat n)) ps gs" if "vllm_generate e ps n seed st = (st', Inr gs)" for gs
    using that by auto
  show "r \<noteq> Inl x" if "vllm_generate e ps n seed st = (st', r)" for r x using that w by auto
qed

section \<open>The property\<close>

text \<open>C36. Every rollout engine returns what its interface declares: if the chat template accepts one of
  its two calls and the sampler returns as many sequences as it is asked for, \<open>generate\<close> does not raise
  and yields one group per prompt, in the order of the prompts, each with the prompt and exactly
  \<open>num_samples\<close> completions that carry that prompt and the same prompt tokens.  The rewards of such a
  batch have that shape too, and a training batch can be built from it unless it is empty.\<close>

theorem engines_aligned:
  assumes "0 \<le> n" and "hf_fit e" and "vllm_fit v"
  shows "list_all2 (group_ok (nat n)) ps (stub_generate rg mk dash self ps n seed) \<and>
    (\<exists>w' gs. hf_generate e ps n seed w = (w', Inr gs) \<and> list_all2 (group_ok (nat n)) ps gs) \<and>
    (\<exists>st' gs. vllm_generate v ps n seed st = (st', Inr gs) \<and> list_all2 (group_ok (nat n)) ps gs) \<and>
    (hf_generate e ps n seed w = (w', Inr gs) \<and> length ctxs = length ps \<and>
       calculate_rewards cfg gs ctxs = Inr (cs, rpg, bs) \<longrightarrow>
     length cs = length ps * nat n \<and> length bs = length cs \<and> map length rpg = replicate (length ps) (nat n) \<and>
     concat rpg = map rb_total bs \<and> (build_batch cs pad \<noteq> None \<longleftrightarrow> ps \<noteq> [] \<and> 0 < n))"
  using hf.batch [OF assms(2,1)] vllm.batch [OF assms(3,1)] hf.trainable [OF assms(2,1)]
  by (intro conjI impI) (simp_all only: stub_aligned, blast+)

text \<open>A template without the extra argument and a model that always answers with the token 7.\<close>

definition seven_engine :: "nat hf_engine" where
  "seven_engine =
     \<lparr>he_tok = \<lparr>tk_template = Some (\<lambda>think p. if think then None else Some (''U '' @ p)),
        tk_encode = map (\<lambda>c. nat (of_char c)), tk_decode = map (\<lambda>i. CHR ''7'')\<rparr>,
      he_model = \<lparr>hm_seed = (\<lambda>s w. nat s), hm_generate = (\<lambda>sp ids w. (w + 1, replicate (nat (sp_n sp)) (ids @ [7])))\<rparr>,
      he_rollout = default_rollout, he_seed = 5\<rparr>"

definition seven_vllm :: "nat vllm_engine" where
  "seven_vllm =
     \<lparr>ve_tok = \<lparr>tk_template = None, tk_encode = (\<lambda>p. []), tk_decode = (\<lambda>p. [])\<rparr>, ve_rollout = default_rollout,
      ve_generate = (\<lambda>sp seed ps w. (w, map (\<lambda>p. \<lparr>vo_prompt_ids = [1],
        vo_outputs = replicate (nat (sp_n sp)) (''7'', [7]), vo_metrics = Some (Some 3, Some 1)\<rparr>) ps))\<rparr>"

lemma engines_aligned_witness:
  "\<exists>w' gs. hf_generate seven_engine [''ab'', ''c''] 3 None 0 = (w', Inr gs) \<and>
     list_all2 (group_ok 3) [''ab'', ''c''] gs"
proof -
  have "hf_fit seven_engine" by (simp add: hf_fit_def seven_engine_def format_prompt_def)
  moreover have "vllm_fit seven_vllm"
    by (simp add: vllm_fit_def seven_vllm_def format_prompt_def list_all2_conv_all_nth)
  ultimately show ?thesis
    using engines_aligned [of 3 seven_engine seven_vllm "[''ab'', ''c'']" _ _ _ _ None 0]
    by (simp del: not_None_eq) blast
qed

end
