(* ===== verification/Eval.thy ===== *)
theory Eval
  imports Engine_Props Preflight
begin

text \<open>
  \<^verbatim>\<open>src/shoprl/eval/baseline.py\<close> and \<^verbatim>\<open>src/shoprl/eval/reward_report.py\<close>: scoring a policy that is
  not being trained.  The rollout engine is a parameter, as are the random source and the text of a
  number.  What the report prints is kept as numbers; its layout is not modelled.
\<close>

section \<open>Grounded tasks\<close>

type_synonym 's engine = "string list \<Rightarrow> int \<Rightarrow> int option \<Rightarrow> ('s, string, rollout_group list) action"

datatype eval_error =
    EvPrompts
  | EvTrain train_error
  | EvEngine string
  | EvNoCompletions

text \<open>The catalog of a seed with the shortlists drawn from it; the prompts are generated apart.\<close>

definition grounded_data :: "'g gen_env \<Rightarrow> int \<Rightarrow> int \<Rightarrow> int \<Rightarrow> train_data" where
  "grounded_data ge catalog_size shortlist seed =
     (let catalog = generate_catalog (ge_rng ge) (ge_mk ge) (nat catalog_size) seed in
      \<lparr>dt_catalog = catalog, dt_examples = [],
       dt_shortlist = (\<lambda>ex. build_shortlist (ge_rng ge) (ge_mk ge) ex catalog shortlist seed),
       dt_show = ge_show ge\<rparr>)"

definition sample_groups :: "'s engine \<Rightarrow> train_data \<Rightarrow> prompt_example list \<Rightarrow> int \<Rightarrow> int option
    \<Rightarrow> ('s, eval_error, rollout_group list) action" where
  "sample_groups gen dt exs num_samples seed st =
     (case task_prompts dt exs of
        Inl e \<Rightarrow> (st, Inl (EvTrain e))
      | Inr ps \<Rightarrow> (case gen ps num_samples seed st of
          (st', Inl e) \<Rightarrow> (st', Inl (EvEngine e)) | (st', Inr gs) \<Rightarrow> (st', Inr gs)))"

section \<open>Baseline evaluation\<close>

record baseline_result =
  bl_model :: string
  bl_phase :: string
  bl_adapter :: "string option"
  bl_seed :: int
  bl_eval :: eval_result

text \<open>\<open>max_new_tokens\<close> overrides the configuration when it is truthy; \<open>gen\<close> builds the engine of the
  configuration, or of the adapter.\<close>

definition override_tokens :: "int option \<Rightarrow> config \<Rightarrow> config" where
  "override_tokens m cfg =
     (case m of
        None \<Rightarrow> cfg
      | Some n \<Rightarrow> if n = 0 then cfg else cfg\<lparr>cf_rollout := (cf_rollout cfg)\<lparr>ro_max_new_tokens := n\<rparr>\<rparr>)"

definition truthy_adapter :: "string option \<Rightarrow> bool" where
  "truthy_adapter a \<longleftrightarrow> a \<noteq> None \<and> a \<noteq> Some []"

definition score_groups :: "config \<Rightarrow> train_data \<Rightarrow> prompt_example list \<Rightarrow> rollout_group list
    \<Rightarrow> train_error + reward_breakdown list" where
  "score_groups cfg dt exs groups =
     (case mapE (\<lambda>(ex, g). mapE (score cfg (context_of dt ex)) (gr_completions g)) (zip exs groups) of
        Inl e \<Rightarrow> Inl e | Inr bss \<Rightarrow> Inr (concat bss))"

definition evaluate ::
  "'g gen_env \<Rightarrow> (config \<Rightarrow> string option \<Rightarrow> 's engine) \<Rightarrow> config \<Rightarrow> int \<Rightarrow> int \<Rightarrow> int option \<Rightarrow> string option
    \<Rightarrow> ('s, eval_error, baseline_result) action" where
  "evaluate ge gen cfg0 n_prompts num_samples max_new adapter st =
     (let cfg = override_tokens max_new cfg0; seed = xc_seed (cf_experiment cfg); tr = cf_training cfg;
          dt = grounded_data ge (tc_catalog_size tr) (tc_shortlist tr) seed in
      case prompts_of ge (dt_catalog dt) n_prompts (seed + HELDOUT_SEED_OFFSET) of
        None \<Rightarrow> (st, Inl EvPrompts)
      | Some exs \<Rightarrow>
          (case sample_groups (gen cfg (if truthy_adapter adapter then adapter else None)) dt exs num_samples (Some seed) st of
             (st', Inl e) \<Rightarrow> (st', Inl e)
           | (st', Inr groups) \<Rightarrow>
               (case score_groups cfg dt exs groups of
                  Inl e \<Rightarrow> (st', Inl (EvTrain e))
                | Inr bs \<Rightarrow>
                    if bs = [] then (st', Inl EvNoCompletions)
                    else (st', Inr
                      \<lparr>bl_model = mc_name (cf_model cfg),
                       bl_phase = (if truthy_adapter adapter then ''trained'' else ''baseline_untrained''),
                       bl_adapter = adapter, bl_seed = seed + HELDOUT_SEED_OFFSET, bl_eval = eval_of bs\<rparr>))))"

section \<open>The reward report\<close>

record report_args =
  ag_n_prompts :: int
  ag_num_samples :: "int option"
  ag_max_new :: "int option"
  ag_temperature :: "real option"
  ag_catalog_size :: int
  ag_shortlist :: int
  ag_seed :: int

definition report_config :: "report_args \<Rightarrow> config \<Rightarrow> config" where
  "report_config a cfg =
     (let c = override_tokens (ag_max_new a) cfg in
      case ag_temperature a of
        None \<Rightarrow> c
      | Some t \<Rightarrow> c\<lparr>cf_rollout := (cf_rollout c)\<lparr>ro_temperature := t\<rparr>\<rparr>)"

text \<open>\<open>args.num_samples or cfg.rollout.num_samples\<close>\<close>

definition samples_of :: "report_args \<Rightarrow> config \<Rightarrow> int" where
  "samples_of a cfg =
     (case ag_num_samples a of Some n \<Rightarrow> if n = 0 then ro_num_samples (cf_rollout cfg) else n
      | None \<Rightarrow> ro_num_samples (cf_rollout cfg))"

record scored =
  sc_example :: prompt_example
  sc_text :: string
  sc_breakdown :: reward_breakdown
  sc_claimed :: nat

text \<open>The default weights; \<open>parse_response\<close> is run once more for the count.\<close>

definition score_one :: "train_data \<Rightarrow> prompt_example \<Rightarrow> completion \<Rightarrow> eval_error + scored" where
  "score_one dt ex c =
     (case compute_reward (co_text c) (context_of dt ex) None None of
        Inl e \<Rightarrow> Inl (EvTrain (TrReward e))
      | Inr b \<Rightarrow>
          (case parse_response (co_text c) of
             None \<Rightarrow> Inl (EvTrain (TrReward BadNumber))
           | Some recs \<Rightarrow> Inr \<lparr>sc_example = ex, sc_text = co_text c, sc_breakdown = b, sc_claimed = length recs\<rparr>))"

definition score_records :: "train_data \<Rightarrow> prompt_example list \<Rightarrow> rollout_group list \<Rightarrow> eval_error + scored list" where
  "score_records dt exs groups =
     (case mapE (\<lambda>(ex, g). mapE (score_one dt ex) (gr_completions g)) (zip exs groups) of
        Inl e \<Rightarrow> Inl e | Inr rss \<Rightarrow> Inr (concat rss))"

definition sc_total :: "scored \<Rightarrow> real" where
  "sc_total r = rb_total (sc_breakdown r)"

definition median :: "real list \<Rightarrow> real" where
  "median xs =
     (let ys = sort xs; n = length xs in
      if odd n then ys ! (n div 2) else (ys ! (n div 2 - 1) + ys ! (n div 2)) / 2)"

text \<open>\<open>setdefault(prompt_id, []).append(total)\<close>\<close>

definition add_total :: "scored \<Rightarrow> (string \<times> real list) list \<Rightarrow> (string \<times> real list) list" where
  "add_total r d =
     (let k = pe_id (sc_example r) in
      AList.update k ((case map_of d k of None \<Rightarrow> [] | Some v \<Rightarrow> v) @ [sc_total r]) d)"

definition group_totals :: "scored list \<Rightarrow> (string \<times> real list) list" where
  "group_totals rs = fold add_total rs []"

record within_group =
  wg_mean :: real
  wg_min :: real
  wg_max :: real
  wg_groups :: "(string \<times> real \<times> real \<times> bool) list"

text \<open>Nothing is printed when every group is a singleton.\<close>

definition within_groups :: "(string \<times> real list) list \<Rightarrow> within_group option" where
  "within_groups d =
     (let stds = map pstdev (filter (\<lambda>v. length v > 1) (map snd d)) in
      if stds = [] then None
      else Some \<lparr>wg_mean = list_mean stds, wg_min = Min (set stds), wg_max = Max (set stds),
                 wg_groups = map (\<lambda>(k, v). (k, list_mean v, pstdev v, pstdev v < 2/100)) d\<rparr>)"

definition EDGES :: "(real \<times> real) list" where
  "EDGES = [(-6/10, -1/10), (-1/10, 1/10), (1/10, 3/10), (3/10, 5/10), (5/10, 75/100), (75/100, 101/100)]"

definition histogram :: "real list \<Rightarrow> nat list" where
  "histogram totals = map (\<lambda>(lo, hi). length (filter (\<lambda>t. lo \<le> t \<and> t < hi) totals)) EDGES"

definition bar :: "real \<Rightarrow> string" where
  "bar x = (let n = round_half_even (x * 20) in replicate (nat n) (CHR ''#'') @ replicate (nat (20 - n)) (CHR ''.''))"

definition rate :: "('a \<Rightarrow> bool) \<Rightarrow> 'a list \<Rightarrow> real" where
  "rate P rs = real (length (filter P rs)) / real (length rs)"

definition example_picks :: "scored list \<Rightarrow> (string \<times> scored) list" where
  "example_picks rs =
     (let ordered = sort_key sc_total rs; hal = filter (\<lambda>r. rb_hallucinated (sc_breakdown r)) rs in
      [(''LOWEST'', hd ordered), (''HIGHEST'', last ordered)]
      @ (if hal = [] then [] else [(''HALLUCINATED'', hd hal)]))"

record reward_report =
  rp_records :: "scored list"
  rp_mean :: real
  rp_std :: real
  rp_min :: real
  rp_median :: real
  rp_max :: real
  rp_components :: "(string \<times> real \<times> string) list"
  rp_within :: "within_group option"
  rp_parseable :: real
  rp_grounded :: real
  rp_hallucinated :: real
  rp_histogram :: "(nat \<times> string) list"
  rp_picks :: "(string \<times> scored) list"

definition report_of :: "scored list \<Rightarrow> reward_report" where
  "report_of rs =
     (let totals = map sc_total rs; n = length rs in
      \<lparr>rp_records = rs, rp_mean = list_mean totals, rp_std = pstdev totals, rp_min = Min (set totals),
       rp_median = median totals, rp_max = Max (set totals),
       rp_components = map (\<lambda>(k, f). let m = list_mean (map (f \<circ> sc_breakdown) rs) in (k, m, bar m)) component_getters,
       rp_within = within_groups (group_totals rs),
       rp_parseable = rate (\<lambda>r. sc_claimed r > 0) rs,
       rp_grounded = rate (\<lambda>r. rb_groundedness (sc_breakdown r) > 0) rs,
       rp_hallucinated = rate (\<lambda>r. rb_hallucinated (sc_breakdown r)) rs,
       rp_histogram = map (\<lambda>c. (c, bar (real c / real n))) (histogram totals),
       rp_picks = example_picks rs\<rparr>)"

definition reward_report ::
  "'g gen_env \<Rightarrow> (config \<Rightarrow> 's engine) \<Rightarrow> report_args \<Rightarrow> config \<Rightarrow> ('s, eval_error, reward_report) action" where
  "reward_report ge gen a cfg0 st =
     (let cfg = report_config a cfg0;
          dt = grounded_data ge (ag_catalog_size a) (ag_shortlist a) (ag_seed a) in
      case prompts_of ge (dt_catalog dt) (ag_n_prompts a) (ag_seed a) of
        None \<Rightarrow> (st, Inl EvPrompts)
      | Some exs \<Rightarrow>
          (case sample_groups (gen cfg) dt exs (samples_of a cfg) None st of
             (st', Inl e) \<Rightarrow> (st', Inl e)
           | (st', Inr groups) \<Rightarrow>
               (case score_records dt exs groups of
                  Inl e \<Rightarrow> (st', Inl e)
                | Inr rs \<Rightarrow> if rs = [] then (st', Inl EvNoCompletions) else (st', Inr (report_of rs)))))"

end
