(* ===== verification/Eval_Props.thy ===== *)
theory Eval_Props
  imports Eval Reward_Props
begin

text \<open>
  What the two evaluations report: the reward report is a consistent summary of its records, and the
  baseline agrees with the evaluation that a training run starts with.
\<close>

section \<open>Summaries of a list of totals\<close>

lemma sort_nth_bounds:
  assumes "i < length xs"
  shows "Min (set xs) \<le> sort xs ! i \<and> sort xs ! i \<le> Max (set xs)"
proof -
  have "sort xs ! i \<in> set xs" using assms by (metis length_sort nth_mem set_sort)
  then show ?thesis by simp
qed

lemma median_bounds:
  assumes "xs \<noteq> []"
  shows "Min (set xs) \<le> median xs \<and> median xs \<le> Max (set xs)"
proof -
  have n: "length xs div 2 < length xs" "length xs div 2 - 1 < length xs" using assms by (cases xs; simp)+
  show ?thesis
    using sort_nth_bounds [OF n(1)] sort_nth_bounds [OF n(2)]
    by (cases "odd (length xs)") (simp_all add: median_def Let_def)
qed

lemma list_mean_bounds:
  assumes "xs \<noteq> []"
  shows "Min (set xs) \<le> list_mean xs \<and> list_mean xs \<le> Max (set xs)"
proof -
  have "sum_list (map (\<lambda>_. Min (set xs)) xs) \<le> sum_list (map (\<lambda>x. x) xs)"
    and "sum_list (map (\<lambda>x. x) xs) \<le> sum_list (map (\<lambda>_. Max (set xs)) xs)"
    by (rule sum_list_mono, simp)+
  then have "real (length xs) * Min (set xs) \<le> sum_list xs" "sum_list xs \<le> real (length xs) * Max (set xs)"
    by (simp_all add: sum_list_triv)
  then show ?thesis using assms by (simp add: list_mean_def pos_le_divide_eq pos_divide_le_eq mult.commute)
qed

text \<open>The buckets of the histogram are a partition of the range of the default rewards.\<close>

lemma one_bucket:
  "-6/10 \<le> t \<Longrightarrow> t < 101/100 \<Longrightarrow> sum_list (map (\<lambda>(lo, hi). if lo \<le> t \<and> t < hi then 1 else 0) EDGES) = (1::nat)"
  by (simp add: EDGES_def)

lemma histogram_counts_all:
  "\<forall>t \<in> set totals. -6/10 \<le> t \<and> t < 101/100 \<Longrightarrow> sum_list (histogram totals) = length totals"
proof (induction totals)
  case Nil
  then show ?case by (simp add: histogram_def EDGES_def)
next
  case (Cons t ts)
  have "histogram (t # ts) = map2 (+) (map (\<lambda>(lo, hi). if lo \<le> t \<and> t < hi then 1 else 0) EDGES) (histogram ts)"
    by (simp add: histogram_def EDGES_def)
  then have "sum_list (histogram (t # ts))
      = sum_list (map (\<lambda>(lo, hi). if lo \<le> t \<and> t < hi then 1 else 0) EDGES) + sum_list (histogram ts)"
    by (simp add: histogram_def EDGES_def)
  also have "\<dots> = 1 + length ts" using Cons by (subst one_bucket) simp_all
  finally show ?case by simp
qed

section \<open>Groups\<close>

lemma group_totals_lookup:
  "map_of (group_totals rs) k =
    (let v = map sc_total (filter (\<lambda>r. pe_id (sc_example r) = k) rs) in if v = [] then None else Some v)"
proof (induction rs rule: rev_induct)
  case (snoc r rs)
  then show ?case
    by (auto simp: group_totals_def add_total_def Let_def update_conv' split: option.splits if_splits)
qed (simp add: group_totals_def)

lemma rate_range: "0 \<le> rate P xs \<and> rate P xs \<le> 1"
  using length_filter_le [of P xs] by (auto simp: rate_def divide_le_eq_1)

lemma filter_fewer: "(\<And>x. x \<in> set xs \<Longrightarrow> P x \<Longrightarrow> Q x) \<Longrightarrow> length (filter P xs) \<le> length (filter Q xs)"
  by (induction xs) (auto simp: le_SucI)

lemma rate_mono: "(\<And>x. x \<in> set xs \<Longrightarrow> P x \<Longrightarrow> Q x) \<Longrightarrow> rate P xs \<le> rate Q xs"
  unfolding rate_def using filter_fewer [of xs P Q] by (intro divide_right_mono) auto

lemma rate_zero: "xs \<noteq> [] \<Longrightarrow> rate P xs = 0 \<longleftrightarrow> filter P xs = []"
  by (simp add: rate_def)

section \<open>The reward report\<close>

lemma scored_one:
  "score_one dt ex c = Inr r \<Longrightarrow> - (1/2) \<le> sc_total r \<and> sc_total r \<le> 1 \<and>
    (rb_hallucinated (sc_breakdown r) \<longrightarrow> 0 < sc_claimed r)"
  using default_total [of "co_text c" "context_of dt ex"]
  by (auto simp: score_one_def sc_total_def split: sum.splits option.splits)

lemma scored_records:
  assumes "score_records dt exs groups = Inr rs" and "r \<in> set rs"
  shows "- (1/2) \<le> sc_total r \<and> sc_total r \<le> 1 \<and> (rb_hallucinated (sc_breakdown r) \<longrightarrow> 0 < sc_claimed r)"
proof -
  obtain rss where m: "mapE (\<lambda>(ex, g). mapE (score_one dt ex) (gr_completions g)) (zip exs groups) = Inr rss"
    and rs: "rs = concat rss" using assms(1) by (auto simp: score_records_def split: sum.splits)
  from rs assms(2) obtain rs' where rs': "rs' \<in> set rss" "r \<in> set rs'" by auto
  then obtain i where i: "i < length rss" "rs' = rss ! i" by (auto simp: in_set_conv_nth)
  obtain ex g where eg: "zip exs groups ! i = (ex, g)" by fastforce
  have "mapE (score_one dt ex) (gr_completions g) = Inr rs'"
    using list_all2_nthD2 [OF mapE_InrD [OF m] i(1)] eg i(2) by simp
  from mapE_InrD [OF this] rs'(2) obtain c where "score_one dt ex c = Inr r"
    by (auto simp: in_set_conv_nth list_all2_conv_all_nth)
  then show ?thesis by (rule scored_one)
qed

lemma picks_ends:
  assumes "rs \<noteq> []"
  shows "\<exists>lo \<in> set rs. map_of (example_picks rs) ''LOWEST'' = Some lo \<and> sc_total lo = Min (set (map sc_total rs))"
    and "\<exists>hi \<in> set rs. map_of (example_picks rs) ''HIGHEST'' = Some hi \<and> sc_total hi = Max (set (map sc_total rs))"
proof -
  let ?ys = "sort_key sc_total rs"
  have ne: "?ys \<noteq> []" using assms by (metis length_0_conv length_sort)
  have set: "set ?ys = set rs" by simp
  have srt: "sorted (map sc_total ?ys)" by simp
  have "sc_total (hd ?ys) \<le> sc_total r" if "r \<in> set rs" for r
  proof -
    have "r \<in> set ?ys" using that set by simp
    then show ?thesis using srt by (cases ?ys) auto
  qed
  then have "sc_total (hd ?ys) = Min (set (map sc_total rs))"
    using hd_in_set [OF ne] set by (intro Min_eqI [symmetric]) auto
  moreover have "sc_total r \<le> sc_total (last ?ys)" if r: "r \<in> set rs" for r
  proof -
    obtain i where "i < length ?ys" "r = ?ys ! i" using r set by (metis in_set_conv_nth)
    then show ?thesis
      using sorted_nth_mono [OF srt, of i "length ?ys - 1"] ne by (simp add: last_conv_nth)
  qed
  then have "sc_total (last ?ys) = Max (set (map sc_total rs))"
    using last_in_set [OF ne] set by (intro Max_eqI [symmetric]) auto
  ultimately show "\<exists>lo \<in> set rs. map_of (example_picks rs) ''LOWEST'' = Some lo \<and> sc_total lo = Min (set (map sc_total rs))"
    and "\<exists>hi \<in> set rs. map_of (example_picks rs) ''HIGHEST'' = Some hi \<and> sc_total hi = Max (set (map sc_total rs))"
    using hd_in_set [OF ne] last_in_set [OF ne] set by (auto simp: example_picks_def Let_def)
qed

lemma hallucinated_pick:
  "map_of (example_picks rs) ''HALLUCINATED'' =
    (case filter (\<lambda>r. rb_hallucinated (sc_breakdown r)) rs of [] \<Rightarrow> None | r # _ \<Rightarrow> Some r)"
  by (simp add: example_picks_def Let_def split: list.splits)

end
