(* ===== verification/Policy.thy ===== *)
theory Policy
  imports Atomic_Ingest
begin

text \<open>
  \<^verbatim>\<open>src/shoprl/platform/policy.py\<close>: the versioned policy registry, the worker's client, and the
  measurement of how stale a trajectory's policy is.  As for the checkpoints, the hash and the JSON
  text of manifests are parameters.
\<close>

section \<open>The registry\<close>

record policy_version =
  pv_version :: int
  pv_fingerprint :: string
  pv_created :: real
  pv_metadata :: dict
  pv_files :: "file_entry list"
  pv_path :: "string option"

type_synonym policy_fs = "policy_version ingest_fs"

datatype policy_error =
    PolicyNotFound int
  | PolicyCorrupt int verify_error
  | PolicyBadManifest int
  | PolicyIngestFailed ingest_error
  | PolicyBadState int

definition MANIFEST :: string where "MANIFEST = ''manifest.json''"

definition version_name :: "int \<Rightarrow> string" where
  "version_name v = CHR ''v'' # show_int v"

text \<open>\<open>_fingerprint\<close>: hash of the file hashes in path order, first 16 digits.\<close>

definition fingerprint :: "(string \<Rightarrow> string) \<Rightarrow> file_entry list \<Rightarrow> string" where
  "fingerprint sha es = take 16 (sha (concat (map fe_sha256 (sort_key fe_path es))))"

definition policy_doc :: "(string \<Rightarrow> string) \<Rightarrow> int \<Rightarrow> real \<Rightarrow> dict \<Rightarrow> file_entry list \<Rightarrow> policy_version" where
  "policy_doc sha v now md es =
     \<lparr>pv_version = v, pv_fingerprint = fingerprint sha es, pv_created = now, pv_metadata = md,
      pv_files = es, pv_path = None\<rparr>"

definition pol_get ::
  "(string \<Rightarrow> policy_version option) \<Rightarrow> policy_fs \<Rightarrow> int \<Rightarrow> policy_error + policy_version" where
  "pol_get parse fs v =
     (case map_of (published fs) (version_name v) of
        None \<Rightarrow> Inl (PolicyNotFound v)
      | Some d \<Rightarrow>
          (case map_of d MANIFEST of
             None \<Rightarrow> Inl (PolicyNotFound v)
           | Some (Doc m) \<Rightarrow> Inr (m\<lparr>pv_path := Some (version_name v)\<rparr>)
           | Some (Bytes b) \<Rightarrow>
               (case parse b of None \<Rightarrow> Inl (PolicyBadManifest v)
                | Some m \<Rightarrow> Inr (m\<lparr>pv_path := Some (version_name v)\<rparr>))))"

text \<open>\<open>_version_dirs\<close>: the directories called \<open>v...\<close> with a manifest whose rest is an integer
  literal, sorted.\<close>

definition version_dirs :: "policy_fs \<Rightarrow> int list" where
  "version_dirs fs =
     sort (List.map_filter (\<lambda>(n, d).
       if starts_with ''v'' n \<and> map_of d MANIFEST \<noteq> None then py_int (tl n) else None) (published fs))"

definition latest_version ::
  "(string \<Rightarrow> policy_version option) \<Rightarrow> policy_fs \<Rightarrow> policy_error + policy_version option" where
  "latest_version parse fs =
     (case version_dirs fs of
        [] \<Rightarrow> Inr None
      | vs \<Rightarrow> (case pol_get parse fs (last vs) of Inl e \<Rightarrow> Inl e | Inr p \<Rightarrow> Inr (Some p)))"

definition list_versions ::
  "(string \<Rightarrow> policy_version option) \<Rightarrow> policy_fs \<Rightarrow> policy_error + policy_version list" where
  "list_versions parse fs = mapE (pol_get parse fs) (version_dirs fs)"

definition next_version :: "(string \<Rightarrow> policy_version option) \<Rightarrow> policy_fs \<Rightarrow> policy_error + int" where
  "next_version parse fs =
     (case latest_version parse fs of
        Inl e \<Rightarrow> Inl e | Inr None \<Rightarrow> Inr 1 | Inr (Some p) \<Rightarrow> Inr (pv_version p + 1))"

text \<open>The part of \<open>publish\<close> after the version was chosen; another publisher may have run in
  between.\<close>

definition publish_as ::
  "(string \<Rightarrow> string) \<Rightarrow> string \<Rightarrow> real \<Rightarrow> real \<Rightarrow> (string \<times> string) list \<Rightarrow> dict \<Rightarrow> int
    \<Rightarrow> (policy_fs, policy_error, policy_version) action" where
  "publish_as sha tmp8 now now' src md v fs =
     (case atomic_ingest sha (version_name v @ ''-'' @ tmp8) (version_name v) MANIFEST
             (policy_doc sha v now md) False src fs of
        (fs', Inl e) \<Rightarrow> (fs', Inl (PolicyIngestFailed e))
      | (fs', Inr es) \<Rightarrow> (fs', Inr ((policy_doc sha v now' md es)\<lparr>pv_path := Some (version_name v)\<rparr>)))"

definition publish ::
  "(string \<Rightarrow> string) \<Rightarrow> (string \<Rightarrow> policy_version option) \<Rightarrow> string \<Rightarrow> real \<Rightarrow> real \<Rightarrow>
    (string \<times> string) list \<Rightarrow> dict \<Rightarrow> (policy_fs, policy_error, policy_version) action" where
  "publish sha parse tmp8 now now' src md fs =
     (case next_version parse fs of
        Inl e \<Rightarrow> (fs, Inl e) | Inr v \<Rightarrow> publish_as sha tmp8 now now' src md v fs)"

definition publish_state ::
  "(string \<Rightarrow> string) \<Rightarrow> (string \<Rightarrow> policy_version option) \<Rightarrow> (dict \<Rightarrow> string) \<Rightarrow> string \<Rightarrow> string \<Rightarrow> real \<Rightarrow>
    real \<Rightarrow> dict \<Rightarrow> dict \<Rightarrow> (policy_fs, policy_error, policy_version) action" where
  "publish_state sha parse dumps st8 tmp8 now now' st md fs =
     (let tmp = ''_state-'' @ st8;
          src = [(''policy_state.json'', dumps st)];
          fs1 = fs\<lparr>staging := AList.update tmp [(''policy_state.json'', Bytes (dumps st))] (staging fs)\<rparr>;
          (fs2, r) = publish sha parse tmp8 now now' src md fs1
      in (fs2\<lparr>staging := AList.delete tmp (staging fs2)\<rparr>, r))"

definition pol_verify ::
  "(string \<Rightarrow> string) \<Rightarrow> (policy_version \<Rightarrow> string) \<Rightarrow> (string \<Rightarrow> policy_version option) \<Rightarrow> policy_fs \<Rightarrow> int
    \<Rightarrow> policy_error + policy_version" where
  "pol_verify sha render parse fs v =
     (case pol_get parse fs v of
        Inl e \<Rightarrow> Inl e
      | Inr pv \<Rightarrow>
          (case verify_entries sha render
                  (case map_of (published fs) (version_name v) of None \<Rightarrow> [] | Some d \<Rightarrow> d) (pv_files pv) of
             Inl (SizeMismatch p) \<Rightarrow> Inl (PolicyCorrupt v (ChecksumMismatch p))
           | Inl e \<Rightarrow> Inl (PolicyCorrupt v e)
           | Inr _ \<Rightarrow> Inr pv))"

definition pol_load_state ::
  "(string \<Rightarrow> string) \<Rightarrow> (policy_version \<Rightarrow> string) \<Rightarrow> (string \<Rightarrow> policy_version option) \<Rightarrow>
    (string \<Rightarrow> dict option) \<Rightarrow> policy_fs \<Rightarrow> int \<Rightarrow> policy_error + dict" where
  "pol_load_state sha render parse loads fs v =
     (case pol_verify sha render parse fs v of
        Inl e \<Rightarrow> Inl e
      | Inr pv \<Rightarrow>
          (case map_of (case map_of (published fs) (version_name v) of None \<Rightarrow> [] | Some d \<Rightarrow> d)
                  ''policy_state.json'' of
             Some (Bytes b) \<Rightarrow> (case loads b of None \<Rightarrow> Inl (PolicyBadState v) | Some d \<Rightarrow> Inr d)
           | _ \<Rightarrow> Inl (PolicyBadState v)))"

section \<open>The worker's client\<close>

record policy_client =
  cl_version :: "int option"
  cl_pinned :: "int option"

definition new_client :: policy_client where
  "new_client = \<lparr>cl_version = None, cl_pinned = None\<rparr>"

definition pin :: "int \<Rightarrow> policy_client \<Rightarrow> policy_client" where
  "pin v c = c\<lparr>cl_pinned := Some v\<rparr>"

definition refresh ::
  "(string \<Rightarrow> policy_version option) \<Rightarrow> policy_fs \<Rightarrow> (policy_client, policy_error, int option) action" where
  "refresh parse fs c =
     (case cl_pinned c of
        Some v \<Rightarrow> (c\<lparr>cl_version := Some v\<rparr>, Inr (Some v))
      | None \<Rightarrow>
          (case latest_version parse fs of
             Inl e \<Rightarrow> (c, Inl e)
           | Inr None \<Rightarrow> (c\<lparr>cl_version := None\<rparr>, Inr None)
           | Inr (Some p) \<Rightarrow> (c\<lparr>cl_version := Some (pv_version p)\<rparr>, Inr (Some (pv_version p)))))"

definition policy_id :: "policy_client \<Rightarrow> string" where
  "policy_id c = CHR ''v'' # (case cl_version c of None \<Rightarrow> ''None'' | Some v \<Rightarrow> show_int v)"

section \<open>Staleness\<close>

definition staleness :: "int \<Rightarrow> int \<Rightarrow> int" where
  "staleness current_version trajectory_version = current_version - trajectory_version"

definition stale_message :: "int \<Rightarrow> int \<Rightarrow> int \<Rightarrow> string" where
  "stale_message cur traj maxs =
     ''stale trajectory: generated by policy v'' @ show_int traj @ '', current v'' @ show_int cur
     @ '' ('' @ show_int (staleness cur traj) @ '' behind > max '' @ show_int maxs @ '')''"

text \<open>\<open>Inl\<close> is \<open>StaleTrajectory\<close>.\<close>

definition staleness_gate :: "int \<Rightarrow> int \<Rightarrow> int \<Rightarrow> string \<Rightarrow> string + int \<times> string option" where
  "staleness_gate cur traj max_staleness mode =
     (let s = staleness cur traj in
      if mode = ''off'' \<or> s \<le> max_staleness then Inr (s, None)
      else if mode = ''reject'' then Inl (stale_message cur traj max_staleness)
      else Inr (s, Some (stale_message cur traj max_staleness)))"

text \<open>\<open>Inl ()\<close> is the ValueError of \<open>int\<close> on a character that \<open>isdigit\<close> accepts and
  \<open>int\<close> does not.\<close>

definition parse_policy_version :: "string \<Rightarrow> unit + int option" where
  "parse_policy_version pid =
     (if starts_with ''v'' pid \<and> isdigit (tl pid)
      then (case py_int (tl pid) of None \<Rightarrow> Inl () | Some v \<Rightarrow> Inr (Some v))
      else Inr None)"

record staleness_summary =
  sr_n :: nat
  sr_unversioned :: nat
  sr_mean :: real
  sr_max :: int
  sr_stale :: nat
  sr_on_policy :: nat

fun split_versions :: "int \<Rightarrow> string list \<Rightarrow> unit + int list \<times> nat" where
  "split_versions cur [] = Inr ([], 0)"
| "split_versions cur (p # ps) =
     (case parse_policy_version p of
        Inl e \<Rightarrow> Inl e
      | Inr v \<Rightarrow>
          (case split_versions cur ps of
             Inl e \<Rightarrow> Inl e
           | Inr (vs, u) \<Rightarrow>
               (case v of None \<Rightarrow> Inr (vs, Suc u) | Some x \<Rightarrow> Inr ((cur - x) # vs, u))))"

text \<open>\<open>staleness_report\<close> over the policy ids of the recent trajectories; \<open>Inr (Inl u)\<close> is the
  short report when no trajectory is versioned.\<close>

definition staleness_report :: "int \<Rightarrow> string list \<Rightarrow> unit + nat + staleness_summary" where
  "staleness_report cur pids =
     (case split_versions cur pids of
        Inl e \<Rightarrow> Inl e
      | Inr ([], u) \<Rightarrow> Inr (Inl u)
      | Inr (vs, u) \<Rightarrow> Inr (Inr
          \<lparr>sr_n = length vs, sr_unversioned = u,
           sr_mean = of_int (sum_list vs) / of_nat (length vs), sr_max = Max (set vs),
           sr_stale = length (filter (\<lambda>s. s > 0) vs),
           sr_on_policy = length (filter (\<lambda>s. s = 0) vs)\<rparr>))"

section \<open>Well-formed registries\<close>

definition pol_wf :: "policy_fs \<Rightarrow> bool" where
  "pol_wf fs \<longleftrightarrow> distinct (map fst (published fs)) \<and>
     list_all (\<lambda>(n, d). \<exists>m. map_of d MANIFEST = Some (Doc m) \<and> n = version_name (pv_version m))
       (published fs)"

definition versions :: "policy_fs \<Rightarrow> int set" where
  "versions fs = {v. \<exists>d. (version_name v, d) \<in> set (published fs)}"

interpretation pol: manifest_registry pv_files "policy_doc sha v now md" MANIFEST sha render
  for v now md sha render
  by unfold_locales (simp add: policy_doc_def)

lemma version_name_inject [simp]: "version_name v = version_name w \<longleftrightarrow> v = w"
  by (simp add: version_name_def show_int_inject)

lemma version_name_read:
  "starts_with ''v'' (version_name v)" "py_int (tl (version_name v)) = Some v"
  by (simp_all add: version_name_def starts_with_def py_int_show)

lemma in_map_filter: "y \<in> set (List.map_filter f xs) \<longleftrightarrow> (\<exists>x \<in> set xs. f x = Some y)"
  by (induction xs) (auto simp: map_filter_simps split: option.splits)

lemma pol_wfD:
  assumes "pol_wf fs" and "(n, d) \<in> set (published fs)"
  shows "\<exists>m. map_of d MANIFEST = Some (Doc m) \<and> n = version_name (pv_version m)"
  using assms unfolding pol_wf_def list_all_iff by fast

lemma version_dirs_set:
  assumes "pol_wf fs"
  shows "set (version_dirs fs) = versions fs"
proof -
  let ?f = "\<lambda>(n, d). if starts_with ''v'' n \<and> map_of d MANIFEST \<noteq> None then py_int (tl n) else None"
  have f: "?f nd = Some v \<longleftrightarrow> fst nd = version_name v" if nd: "nd \<in> set (published fs)" for nd v
  proof -
    obtain n d where [simp]: "nd = (n, d)" by (cases nd)
    obtain m where "map_of d MANIFEST = Some (Doc m)" "n = version_name (pv_version m)"
      using pol_wfD [OF assms] nd by force
    then show ?thesis by (auto simp: version_name_read)
  qed
  have "v \<in> set (List.map_filter ?f (published fs)) \<longleftrightarrow> v \<in> versions fs" for v
  proof -
    have "v \<in> set (List.map_filter ?f (published fs))
        \<longleftrightarrow> (\<exists>nd \<in> set (published fs). fst nd = version_name v)"
      unfolding in_map_filter by (intro bex_cong refl f)
    also have "\<dots> \<longleftrightarrow> v \<in> versions fs" unfolding versions_def by force
    finally show ?thesis .
  qed
  then show ?thesis by (auto simp: version_dirs_def)
qed

lemma last_sorted_Max:
  fixes xs :: "int list"
  assumes "sorted xs" and "xs \<noteq> []" shows "last xs = Max (set xs)"
proof -
  have "\<forall>x \<in> set xs. x \<le> last xs"
    using assms by (metis in_set_conv_nth last_conv_nth length_greater_0_conv less_imp_diff_less
        diff_less less_one less_Suc_eq_le Suc_pred' sorted_nth_mono)
  with assms(2) show ?thesis by (intro Max_eqI [symmetric]) auto
qed

lemma pol_get_wf:
  assumes "pol_wf fs" and "v \<in> versions fs"
  obtains m where "pol_get parse fs v = Inr (m\<lparr>pv_path := Some (version_name v)\<rparr>)" "pv_version m = v"
proof -
  obtain d where d: "(version_name v, d) \<in> set (published fs)" using assms(2) by (auto simp: versions_def)
  then obtain m where m: "map_of d MANIFEST = Some (Doc m)" "version_name v = version_name (pv_version m)"
    using pol_wfD [OF assms(1) d] by blast
  have "map_of (published fs) (version_name v) = Some d" using assms(1) d by (simp add: pol_wf_def)
  with m that show thesis by (simp add: pol_get_def)
qed

lemma versions_finite [simp]: "finite (versions fs)"
proof -
  have "version_name ` versions fs \<subseteq> fst ` set (published fs)" by (force simp: versions_def)
  then have "finite (version_name ` versions fs)" by (rule finite_subset) simp
  then show ?thesis by (rule finite_imageD) (simp add: inj_on_def)
qed

lemma next_version_wf:
  assumes "pol_wf fs"
  shows "next_version parse fs = Inr (if versions fs = {} then 1 else Max (versions fs) + 1)"
    and "latest_version parse fs = Inr None \<longleftrightarrow> versions fs = {}"
    and "versions fs \<noteq> {} \<Longrightarrow> \<exists>m. latest_version parse fs = Inr (Some m) \<and> pv_version m = Max (versions fs)"
proof -
  have s: "set (version_dirs fs) = versions fs" by (rule version_dirs_set [OF assms])
  have ne: "\<exists>m. latest_version parse fs = Inr (Some m) \<and> pv_version m = Max (versions fs)"
    if "versions fs \<noteq> {}"
  proof -
    have nonempty: "version_dirs fs \<noteq> []" using s that by auto
    have l: "last (version_dirs fs) = Max (versions fs)"
      using last_sorted_Max [OF _ nonempty] s by (simp add: version_dirs_def)
    have "Max (versions fs) \<in> versions fs" using that by simp
    then obtain m where "pol_get parse fs (Max (versions fs))
        = Inr (m\<lparr>pv_path := Some (version_name (Max (versions fs)))\<rparr>)" "pv_version m = Max (versions fs)"
      by (rule pol_get_wf [OF assms])
    moreover have "latest_version parse fs
        = (case pol_get parse fs (last (version_dirs fs)) of Inl e \<Rightarrow> Inl e | Inr p \<Rightarrow> Inr (Some p))"
      using nonempty by (simp add: latest_version_def split: list.splits)
    ultimately show ?thesis by (simp add: l)
  qed
  have em: "latest_version parse fs = Inr None" if "versions fs = {}"
    using s that by (simp add: latest_version_def)
  show "latest_version parse fs = Inr None \<longleftrightarrow> versions fs = {}" using ne em by fastforce
  show "versions fs \<noteq> {} \<Longrightarrow> \<exists>m. latest_version parse fs = Inr (Some m) \<and> pv_version m = Max (versions fs)"
    by (rule ne)
  show "next_version parse fs = Inr (if versions fs = {} then 1 else Max (versions fs) + 1)"
    using ne em by (cases "versions fs = {}") (auto simp: next_version_def)
qed

end
