(* ===== verification/Artifacts.thy ===== *)
theory Artifacts
  imports Text Checkpoints Policy
begin

text \<open>
  \<^verbatim>\<open>src/shoprl/platform/artifacts.py\<close>: the artifact index with its lineage graph.  The state is
  the table of artifacts and the table of (child, parent) edges, both in rowid order.
\<close>

section \<open>State and operations\<close>

datatype artifact_type = CHECKPOINT | PROMPT_DATASET | POLICY | BENCHMARK | EVAL_REPORT

fun artifact_type_value :: "artifact_type \<Rightarrow> string" where
  "artifact_type_value CHECKPOINT = ''checkpoint''"
| "artifact_type_value PROMPT_DATASET = ''prompt_dataset''"
| "artifact_type_value POLICY = ''policy''"
| "artifact_type_value BENCHMARK = ''benchmark''"
| "artifact_type_value EVAL_REPORT = ''eval_report''"

record artifact =
  ar_id :: string
  ar_type :: artifact_type
  ar_ref :: string
  ar_run_id :: "string option"
  ar_parents :: "string list"
  ar_uri :: "string option"
  ar_hash :: "string option"
  ar_metadata :: dict
  ar_created_at :: real

record artifact_db =
  artifacts :: "artifact list"
  edges :: "(string \<times> string) list"

datatype artifact_error = ArtifactNotFound string | DuplicateArtifact string

definition art_get :: "artifact_db \<Rightarrow> string \<Rightarrow> artifact_error + artifact" where
  "art_get db aid =
     (case row_by ar_id aid (artifacts db) of None \<Rightarrow> Inl (ArtifactNotFound aid) | Some a \<Rightarrow> Inr a)"

definition insert_edge :: "string \<Rightarrow> string \<Rightarrow> (string \<times> string) list \<Rightarrow> (string \<times> string) list" where
  "insert_edge child p es = (if (child, p) \<in> set es then es else es @ [(child, p)])"

definition register ::
  "string \<Rightarrow> real \<Rightarrow> artifact_type \<Rightarrow> string \<Rightarrow> string option \<Rightarrow> string list \<Rightarrow> string option \<Rightarrow>
    string option \<Rightarrow> dict \<Rightarrow> (artifact_db, artifact_error, artifact) action" where
  "register fresh now ty ref run_id parents uri hash md db =
     (let art = \<lparr>ar_id = fresh, ar_type = ty, ar_ref = ref, ar_run_id = run_id, ar_parents = parents,
                 ar_uri = uri, ar_hash = hash, ar_metadata = md, ar_created_at = now\<rparr>
      in if row_by ar_id fresh (artifacts db) \<noteq> None then (db, Inl (DuplicateArtifact fresh))
         else (db\<lparr>artifacts := artifacts db @ [art],
                 edges := fold (insert_edge fresh) parents (edges db)\<rparr>, Inr art))"

text \<open>\<open>list\<close>: an empty run id is falsy and does not filter.\<close>

definition art_list :: "artifact_type option \<Rightarrow> string option \<Rightarrow> artifact_db \<Rightarrow> artifact list" where
  "art_list ty run_id db =
     sort_key ar_created_at (filter (\<lambda>a.
       (case ty of None \<Rightarrow> True | Some t \<Rightarrow> ar_type a = t) \<and>
       (case run_id of None \<Rightarrow> True | Some r \<Rightarrow> r = [] \<or> ar_run_id a = Some r)) (artifacts db))"

definition by_ref :: "artifact_type \<Rightarrow> string \<Rightarrow> artifact_db \<Rightarrow> artifact option" where
  "by_ref ty ref db =
     (case sort_key (\<lambda>a. - ar_created_at a)
        (filter (\<lambda>a. ar_type a = ty \<and> ar_ref a = ref) (artifacts db)) of
        [] \<Rightarrow> None | a # _ \<Rightarrow> Some a)"

definition art_children :: "artifact_db \<Rightarrow> string \<Rightarrow> artifact_error + artifact list" where
  "art_children db aid = mapE (art_get db) (map fst (filter (\<lambda>(_, p). p = aid) (edges db)))"

definition all_parents :: "artifact_db \<Rightarrow> string set" where
  "all_parents db = (\<Union>a \<in> set (artifacts db). set (ar_parents a))"

lemma art_get_in: "art_get db pid = Inr p \<Longrightarrow> p \<in> set (artifacts db) \<and> ar_id p = pid"
  by (auto simp: art_get_def split: option.splits dest: row_by_SomeD)

lemma finite_all_parents [simp]: "finite (all_parents db)"
  by (simp add: all_parents_def)

text \<open>The \<open>while stack\<close> loop; the head of the list is the top of the stack, so
  \<open>stack.extend(p.parents)\<close> puts the parents in reverse on top.\<close>

function ancestors_loop :: "artifact_db \<Rightarrow> string list \<Rightarrow> string list \<Rightarrow> artifact list" where
  "ancestors_loop db seen [] = []"
| "ancestors_loop db seen (pid # stack) =
     (if pid \<in> set seen then ancestors_loop db seen stack
      else (case art_get db pid of
          Inl _ \<Rightarrow> ancestors_loop db (pid # seen) stack
        | Inr p \<Rightarrow> p # ancestors_loop db (pid # seen) (rev (ar_parents p) @ stack)))"
  by pat_completeness auto

termination
proof (relation "measures [\<lambda>(db, seen, stack). card ((set stack \<union> all_parents db) - set seen),
    \<lambda>(db, seen, stack). length stack]", goal_cases)
  case 1
  then show ?case by simp
next
  case (2 db seen pid stack)
  then have "card (set stack \<union> all_parents db - set seen)
      \<le> card (set (pid # stack) \<union> all_parents db - set seen)"
    by (intro card_mono) auto
  then show ?case by (simp add: le_less)
next
  case (3 db seen pid stack e)
  then have "card (set stack \<union> all_parents db - set (pid # seen))
      < card (set (pid # stack) \<union> all_parents db - set seen)"
    by (intro psubset_card_mono) auto
  then show ?case by simp
next
  case (4 db seen pid stack p)
  have "set (ar_parents p) \<subseteq> all_parents db" using art_get_in [OF 4(2)] by (auto simp: all_parents_def)
  then have "set (rev (ar_parents p) @ stack) \<union> all_parents db - set (pid # seen)
      \<subset> set (pid # stack) \<union> all_parents db - set seen"
    using 4(1) by auto
  then have "card (set (rev (ar_parents p) @ stack) \<union> all_parents db - set (pid # seen))
      < card (set (pid # stack) \<union> all_parents db - set seen)"
    by (intro psubset_card_mono) auto
  then show ?case by simp
qed

definition ancestors :: "artifact_db \<Rightarrow> string \<Rightarrow> artifact_error + artifact list" where
  "ancestors db aid =
     (case art_get db aid of
        Inl e \<Rightarrow> Inl e | Inr a \<Rightarrow> Inr (ancestors_loop db [] (rev (ar_parents a))))"

record lineage_view =
  lv_artifact :: artifact
  lv_ancestors :: "artifact list"
  lv_children :: "artifact list"

definition art_lineage :: "artifact_db \<Rightarrow> string \<Rightarrow> artifact_error + lineage_view" where
  "art_lineage db aid =
     (case art_get db aid of
        Inl e \<Rightarrow> Inl e
      | Inr a \<Rightarrow>
          (case ancestors db aid of
             Inl e \<Rightarrow> Inl e
           | Inr up \<Rightarrow>
               (case art_children db aid of
                  Inl e \<Rightarrow> Inl e
                | Inr down \<Rightarrow> Inr \<lparr>lv_artifact = a, lv_ancestors = up, lv_children = down\<rparr>)))"

section \<open>The registrars\<close>

text \<open>\<open>{"step": ..., "policy_id": ..., **manifest.metadata}\<close>: the metadata wins.\<close>

definition merge_dict :: "dict \<Rightarrow> dict \<Rightarrow> dict" where
  "merge_dict base over = fold (\<lambda>(k, v). AList.update k v) over base"

definition opt_str :: "string option \<Rightarrow> json" where
  "opt_str x = (case x of None \<Rightarrow> JNull | Some s \<Rightarrow> JStr s)"

definition register_checkpoint ::
  "string \<Rightarrow> real \<Rightarrow> ckpt_manifest \<Rightarrow> string option \<Rightarrow> string list \<Rightarrow> (artifact_db, artifact_error, artifact) action" where
  "register_checkpoint fresh now m run_id parents =
     register fresh now CHECKPOINT (ck_id m) run_id parents None None
       (merge_dict [(''step'', JInt (ck_step m)), (''policy_id'', opt_str (ck_policy m))] (ck_metadata m))"

record dataset_meta =
  dm_version :: string
  dm_hash :: string
  dm_seed :: int
  dm_n_prompts :: int
  dm_prompt_version :: string

definition register_prompt_dataset ::
  "string \<Rightarrow> real \<Rightarrow> dataset_meta \<Rightarrow> string option \<Rightarrow> (artifact_db, artifact_error, artifact) action" where
  "register_prompt_dataset fresh now m run_id =
     register fresh now PROMPT_DATASET (dm_version m) run_id [] None (Some (dm_hash m))
       [(''seed'', JInt (dm_seed m)), (''n_prompts'', JInt (dm_n_prompts m)),
        (''prompt_version'', JStr (dm_prompt_version m))]"

definition register_policy ::
  "string \<Rightarrow> real \<Rightarrow> policy_version \<Rightarrow> string option \<Rightarrow> string list \<Rightarrow> (artifact_db, artifact_error, artifact) action" where
  "register_policy fresh now pv run_id parents =
     register fresh now POLICY (version_name (pv_version pv)) run_id parents None
       (Some (pv_fingerprint pv)) (pv_metadata pv)"

definition register_benchmark ::
  "string \<Rightarrow> real \<Rightarrow> string \<Rightarrow> string option \<Rightarrow> string option \<Rightarrow> string list \<Rightarrow> dict
    \<Rightarrow> (artifact_db, artifact_error, artifact) action" where
  "register_benchmark fresh now name uri run_id parents md =
     register fresh now BENCHMARK name run_id parents uri None md"

definition register_eval_report ::
  "string \<Rightarrow> real \<Rightarrow> string \<Rightarrow> string option \<Rightarrow> string option \<Rightarrow> string list \<Rightarrow> dict
    \<Rightarrow> (artifact_db, artifact_error, artifact) action" where
  "register_eval_report fresh now name uri run_id parents md =
     register fresh now EVAL_REPORT name run_id parents uri None md"

section \<open>The lineage graph\<close>

text \<open>\<open>p\<close> is a parent of the registered artifact \<open>c\<close>.\<close>

definition parent_edge :: "artifact_db \<Rightarrow> (string \<times> string) set" where
  "parent_edge db = {(c, p). \<exists>a. art_get db c = Inr a \<and> p \<in> set (ar_parents a)}"

definition art_wf :: "artifact_db \<Rightarrow> bool" where
  "art_wf db \<longleftrightarrow> distinct (map ar_id (artifacts db)) \<and> distinct (edges db) \<and>
     set (edges db) = {(ar_id a, p) | a p. a \<in> set (artifacts db) \<and> p \<in> set (ar_parents a)}"

lemma loop_distinct:
  "distinct (map ar_id (ancestors_loop db seen stack)) \<and>
   ar_id ` set (ancestors_loop db seen stack) \<inter> set seen = {}"
proof (induction db seen stack rule: ancestors_loop.induct)
  case (1 db seen)
  then show ?case by simp
next
  case (2 db seen pid stack)
  show ?case
  proof (cases "pid \<in> set seen")
    case True
    with 2 show ?thesis by simp
  next
    case False
    show ?thesis
    proof (cases "art_get db pid")
      case (Inl e)
      with 2 False show ?thesis by auto
    next
      case (Inr p)
      with 2 False art_get_in [OF Inr] show ?thesis by auto
    qed
  qed
qed

text \<open>The loop returns what the graph reaches from the stack without entering \<open>seen\<close>; the
  invariant is that everything a seen artifact points to is seen or on the stack.\<close>

lemma loop_sound:
  "a \<in> set (ancestors_loop db seen stack) \<Longrightarrow>
    art_get db (ar_id a) = Inr a \<and> (\<exists>s \<in> set stack. (s, ar_id a) \<in> (parent_edge db)\<^sup>*)"
proof (induction db seen stack rule: ancestors_loop.induct)
  case (1 db seen)
  then show ?case by simp
next
  case (2 db seen pid stack)
  show ?case
  proof (cases "pid \<in> set seen")
    case True
    with 2 show ?thesis by auto
  next
    case False
    show ?thesis
    proof (cases "art_get db pid")
      case (Inl e)
      with 2 False show ?thesis by auto
    next
      case (Inr p)
      with 2(4) False consider "a = p" | "a \<in> set (ancestors_loop db (pid # seen) (rev (ar_parents p) @ stack))"
        by auto
      then show ?thesis
      proof cases
        case 1
        then show ?thesis using Inr art_get_in [OF Inr] by auto
      next
        case 2
        from "2.IH"(3) [OF False Inr this] obtain s where s: "art_get db (ar_id a) = Inr a"
          "s \<in> set (ar_parents p) \<union> set stack" "(s, ar_id a) \<in> (parent_edge db)\<^sup>*" by auto
        have "(pid, s) \<in> parent_edge db" if "s \<in> set (ar_parents p)"
          using that Inr by (auto simp: parent_edge_def)
        then show ?thesis using s by (auto intro: converse_rtrancl_into_rtrancl)
      qed
    qed
  qed
qed

lemma loop_complete:
  assumes "\<And>c p. c \<in> set seen \<Longrightarrow> (c, p) \<in> parent_edge db \<Longrightarrow> p \<in> set seen \<union> set stack"
    and "s \<in> set seen \<union> set stack" and "(s, t) \<in> (parent_edge db)\<^sup>*" and "t \<notin> set seen"
    and "art_get db t = Inr a"
  shows "a \<in> set (ancestors_loop db seen stack)"
  using assms
proof (induction db seen stack arbitrary: s rule: ancestors_loop.induct)
  case (1 db seen)
  have "t \<in> set seen" using 1(3,1,2) by (induction rule: rtrancl_induct) auto
  with 1(4) show ?case by simp
next
  case (2 db seen pid stack)
  show ?case
  proof (cases "pid \<in> set seen")
    case True
    have "a \<in> set (ancestors_loop db seen stack)"
      using "2.IH"(1) [OF True _ _ "2.prems"(3,4,5)] "2.prems"(1,2) True by auto
    with True show ?thesis by simp
  next
    case False
    show ?thesis
    proof (cases "art_get db pid")
      case (Inl e)
      then have "t \<noteq> pid" using "2.prems"(5) by auto
      moreover have "(pid, p) \<notin> parent_edge db" for p using Inl by (auto simp: parent_edge_def)
      ultimately have "a \<in> set (ancestors_loop db (pid # seen) stack)"
        using "2.IH"(2) [OF False Inl _ _ "2.prems"(3) _ "2.prems"(5)] "2.prems"(1,2,4) by auto
      with False Inl show ?thesis by simp
    next
      case (Inr q)
      show ?thesis
      proof (cases "t = pid")
        case True
        then show ?thesis using False Inr "2.prems"(5) by simp
      next
        case ne: False
        have "p \<in> set (ar_parents q)" if "(pid, p) \<in> parent_edge db" for p
          using that Inr by (auto simp: parent_edge_def)
        then have "a \<in> set (ancestors_loop db (pid # seen) (rev (ar_parents q) @ stack))"
          using "2.IH"(3) [OF False Inr _ _ "2.prems"(3) _ "2.prems"(5)] "2.prems"(1,2,4) ne by auto
        with False Inr show ?thesis by simp
      qed
    qed
  qed
qed

text \<open>Registration keeps the two tables in step.\<close>

lemma insert_edges:
  "set (fold (insert_edge c) ps es) = set es \<union> {(c, p) | p. p \<in> set ps} \<and>
   (distinct es \<longrightarrow> distinct (fold (insert_edge c) ps es))"
  by (induction ps arbitrary: es) (auto simp: insert_edge_def)

lemma register_wf:
  assumes "art_wf db"
  shows "art_wf (fst (register fresh now ty ref run_id parents uri hash md db))"
proof (cases "row_by ar_id fresh (artifacts db)")
  case None
  then have fr: "fresh \<notin> ar_id ` set (artifacts db)" by (simp add: row_by_None_iff)
  let ?art = "\<lparr>ar_id = fresh, ar_type = ty, ar_ref = ref, ar_run_id = run_id, ar_parents = parents,
    ar_uri = uri, ar_hash = hash, ar_metadata = md, ar_created_at = now\<rparr>"
  have "{(ar_id a, p) | a p. a \<in> set (artifacts db @ [?art]) \<and> p \<in> set (ar_parents a)}
      = {(ar_id a, p) | a p. a \<in> set (artifacts db) \<and> p \<in> set (ar_parents a)}
        \<union> {(ar_id a, p) | a p. a = ?art \<and> p \<in> set (ar_parents a)}"
    unfolding set_append list.set by blast
  moreover have "{(ar_id a, p) | a p. a = ?art \<and> p \<in> set (ar_parents a)} = {(fresh, p) | p. p \<in> set parents}"
    by auto
  ultimately have e: "set (fold (insert_edge fresh) parents (edges db))
      = {(ar_id a, p) | a p. a \<in> set (artifacts db @ [?art]) \<and> p \<in> set (ar_parents a)}"
    using assms insert_edges [of fresh parents "edges db"] by (simp only: art_wf_def)
  have "register fresh now ty ref run_id parents uri hash md db
      = (db\<lparr>artifacts := artifacts db @ [?art], edges := fold (insert_edge fresh) parents (edges db)\<rparr>, Inr ?art)"
    using None by (simp add: register_def Let_def)
  then show ?thesis
    using assms fr e insert_edges [of fresh parents "edges db"] by (simp add: art_wf_def)
next
  case (Some a)
  with assms show ?thesis by (simp add: register_def)
qed

end
