(* ===== verification/Prompt_Registry.thy ===== *)
theory Prompt_Registry
  imports Preflight Artifacts
begin

text \<open>
  \<^verbatim>\<open>src/shoprl/platform/prompt_registry.py\<close>: prompt datasets that are materialised once and hashed.
  The JSON text of a prompt and of a manifest and their parsers (pydantic), the hash and the
  generator's random source are parameters.  The file system is the one of the atomic ingest; a
  dataset's staging directory is filled and renamed once.
\<close>

section \<open>State\<close>

definition PD_MANIFEST :: string where "PD_MANIFEST = ''manifest.json''"

definition PD_PROMPTS :: string where "PD_PROMPTS = ''prompts.jsonl''"

record dataset_doc = dataset_meta +
  dd_catalog_size :: int
  dd_created_at :: real
  dd_metadata :: dict

type_synonym prompt_fs = "dataset_doc ingest_fs"

datatype dataset_error =
    DatasetNotFound string
  | DatasetDrift string string string
  | DatasetMismatch string
  | DatasetBadManifest string
  | DatasetBadPrompts string
  | DatasetIngest ingest_error
  | DatasetGeneration

text \<open>How prompts and manifests are written and read.\<close>

record prompt_codec =
  pc_render :: "prompt_example \<Rightarrow> string"
  pc_parse :: "string \<Rightarrow> prompt_example option"
  pc_parse_meta :: "string \<Rightarrow> dataset_doc option"
  pc_sha :: "string \<Rightarrow> string"

definition hash_prompts :: "prompt_codec \<Rightarrow> prompt_example list \<Rightarrow> string" where
  "hash_prompts pc prompts = take 16 (pc_sha pc (concat (map (pc_render pc) prompts)))"

definition dataset_version_id :: "int \<Rightarrow> int \<Rightarrow> int \<Rightarrow> string" where
  "dataset_version_id catalog_size n seed =
     ''cat'' @ show_int catalog_size @ ''-n'' @ show_int n @ ''-seed'' @ show_int seed"

section \<open>Reading\<close>

definition dataset_dir :: "prompt_fs \<Rightarrow> string \<Rightarrow> dataset_doc dir" where
  "dataset_dir fs dv = (case map_of (published fs) dv of None \<Rightarrow> [] | Some d \<Rightarrow> d)"

definition ds_get :: "prompt_codec \<Rightarrow> prompt_fs \<Rightarrow> string \<Rightarrow> dataset_error + dataset_doc" where
  "ds_get pc fs dv =
     (case map_of (dataset_dir fs dv) PD_MANIFEST of
        None \<Rightarrow> Inl (DatasetNotFound dv)
      | Some (Doc m) \<Rightarrow> Inr m
      | Some (Bytes b) \<Rightarrow> (case pc_parse_meta pc b of None \<Rightarrow> Inl (DatasetBadManifest dv) | Some m \<Rightarrow> Inr m))"

definition parse_prompts :: "prompt_codec \<Rightarrow> string \<Rightarrow> prompt_example list option" where
  "parse_prompts pc body =
     (let ps = map (pc_parse pc) (filter (\<lambda>l. strip l \<noteq> []) (splitlines body)) in
      if None \<in> set ps then None else Some (map the ps))"

definition ds_load :: "prompt_codec \<Rightarrow> bool \<Rightarrow> prompt_fs \<Rightarrow> string \<Rightarrow> dataset_error + prompt_example list" where
  "ds_load pc verify fs dv =
     (case ds_get pc fs dv of
        Inl e \<Rightarrow> Inl e
      | Inr meta \<Rightarrow>
          (case map_of (dataset_dir fs dv) PD_PROMPTS of
             Some (Bytes body) \<Rightarrow>
               (case parse_prompts pc body of
                  None \<Rightarrow> Inl (DatasetBadPrompts dv)
                | Some prompts \<Rightarrow>
                    if verify \<and> hash_prompts pc prompts \<noteq> dm_hash meta then Inl (DatasetMismatch dv)
                    else Inr prompts)
           | _ \<Rightarrow> Inl (DatasetBadPrompts dv)))"

definition ds_list :: "prompt_codec \<Rightarrow> prompt_fs \<Rightarrow> dataset_error + dataset_doc list" where
  "ds_list pc fs =
     (case mapE (ds_get pc fs)
             (map fst (filter (\<lambda>(_, d). map_of d PD_MANIFEST \<noteq> None) (published fs))) of
        Inl e \<Rightarrow> Inl e | Inr ms \<Rightarrow> Inr (sort_key dd_created_at ms))"

section \<open>Materialising\<close>

definition prompts_body :: "prompt_codec \<Rightarrow> prompt_example list \<Rightarrow> string" where
  "prompts_body pc prompts = concat (map (\<lambda>p. pc_render pc p @ [CHR 0x0A]) prompts)"

definition dataset_ops :: "prompt_codec \<Rightarrow> string \<Rightarrow> prompt_example list \<Rightarrow> dataset_doc \<Rightarrow> dataset_doc fs_op list" where
  "dataset_ops pc tmp prompts meta =
     [MkStaging tmp, CopyFile tmp PD_PROMPTS (prompts_body pc prompts),
      WriteManifest tmp PD_MANIFEST meta, Rename tmp (dm_version meta)]"

definition dataset_doc_of :: "string \<Rightarrow> string \<Rightarrow> int \<Rightarrow> nat \<Rightarrow> int \<Rightarrow> real \<Rightarrow> dict \<Rightarrow> dataset_doc" where
  "dataset_doc_of dv phash seed n catalog_size now md =
     \<lparr>dm_version = dv, dm_hash = phash, dm_seed = seed, dm_n_prompts = int n, dm_prompt_version = phash,
      dd_catalog_size = catalog_size, dd_created_at = now, dd_metadata = md\<rparr>"

definition store_dataset ::
  "prompt_codec \<Rightarrow> string \<Rightarrow> prompt_example list \<Rightarrow> dataset_doc \<Rightarrow> (prompt_fs, dataset_error, dataset_doc) action" where
  "store_dataset pc tmp8 prompts meta fs =
     (let ops = dataset_ops pc (dm_version meta @ ''-'' @ tmp8) prompts meta in
      if dataset_dir fs (dm_version meta) \<noteq> []
      then (fold apply_op (butlast ops) fs, Inl (DatasetIngest (NotEmpty (dm_version meta))))
      else (fold apply_op ops fs, Inr meta))"

definition materialize ::
  "'g gen_env \<Rightarrow> prompt_codec \<Rightarrow> string \<Rightarrow> real \<Rightarrow> int \<Rightarrow> int \<Rightarrow> int \<Rightarrow> dict
    \<Rightarrow> (prompt_fs, dataset_error, dataset_doc) action" where
  "materialize ge pc tmp8 now catalog_size n seed md fs =
     (let dv = dataset_version_id catalog_size n seed;
          catalog = generate_catalog (ge_rng ge) (ge_mk ge) (nat catalog_size) seed in
      case prompts_of ge catalog n seed of
        None \<Rightarrow> (fs, Inl DatasetGeneration)
      | Some prompts \<Rightarrow>
          (let phash = hash_prompts pc prompts in
           if map_of (dataset_dir fs dv) PD_MANIFEST \<noteq> None then
             (case ds_get pc fs dv of
                Inl e \<Rightarrow> (fs, Inl e)
              | Inr meta \<Rightarrow>
                  if dm_hash meta \<noteq> phash then (fs, Inl (DatasetDrift dv (dm_hash meta) phash))
                  else (fs, Inr meta))
           else store_dataset pc tmp8 prompts
                  (dataset_doc_of dv phash seed (length prompts) catalog_size now md) fs))"

section \<open>The stored text\<close>

text \<open>What the JSON lines rely on: rendering is undone by parsing, and a line is not blank and has no
  line break.\<close>

definition codec_ok :: "prompt_codec \<Rightarrow> prompt_example list \<Rightarrow> bool" where
  "codec_ok pc prompts \<longleftrightarrow>
     (\<forall>p \<in> set prompts. pc_parse pc (pc_render pc p) = Some p \<and> strip (pc_render pc p) \<noteq> [] \<and>
        (\<forall>c \<in> set (pc_render pc p). \<not> is_newline c))"

lemma splitlines_acc_line:
  "\<forall>c \<in> set l. \<not> is_newline c \<Longrightarrow>
    splitlines_acc acc (l @ CHR 0x0A # s) = (rev acc @ l) # splitlines s"
  by (induction l arbitrary: acc)
    (auto simp: splitlines_def is_newline_def code_def split: list.split)

lemma splitlines_body:
  "codec_ok pc prompts \<Longrightarrow> splitlines (prompts_body pc prompts) = map (pc_render pc) prompts"
proof (induction prompts)
  case Nil
  then show ?case by (simp add: prompts_body_def splitlines_def)
next
  case (Cons p ps)
  then have "splitlines_acc [] (pc_render pc p @ CHR 0x0A # prompts_body pc ps)
      = pc_render pc p # splitlines (prompts_body pc ps)"
    by (subst splitlines_acc_line) (auto simp: codec_ok_def)
  with Cons show ?case by (simp add: prompts_body_def splitlines_def codec_ok_def)
qed

lemma parse_prompts_body: "codec_ok pc prompts \<Longrightarrow> parse_prompts pc (prompts_body pc prompts) = Some prompts"
proof -
  assume ok: "codec_ok pc prompts"
  then have "filter (\<lambda>l. strip l \<noteq> []) (map (pc_render pc) prompts) = map (pc_render pc) prompts"
    by (intro filter_True) (auto simp: codec_ok_def)
  moreover have "map (pc_parse pc) (map (pc_render pc) prompts) = map Some prompts"
    using ok by (auto simp: codec_ok_def)
  ultimately show ?thesis by (auto simp: parse_prompts_def splitlines_body [OF ok] Let_def comp_def intro: map_idI)
qed

section \<open>What is stored\<close>

definition dataset_files :: "prompt_codec \<Rightarrow> prompt_example list \<Rightarrow> dataset_doc \<Rightarrow> dataset_doc dir" where
  "dataset_files pc prompts meta = [(PD_PROMPTS, Bytes (prompts_body pc prompts)), (PD_MANIFEST, Doc meta)]"

lemma dataset_ops_published:
  "published (fold apply_op (dataset_ops pc tmp prompts meta) fs)
    = AList.update (dm_version meta) (dataset_files pc prompts meta) (published fs)"
  by (simp add: dataset_ops_def dataset_files_def PD_PROMPTS_def PD_MANIFEST_def map_of_map_entry update_conv')

lemma dataset_ops_before:
  "n < length (dataset_ops pc tmp prompts meta) \<Longrightarrow>
    published (fold apply_op (take n (dataset_ops pc tmp prompts meta)) fs) = published fs"
  by (rule fold_keeps_published)
    (auto simp: dataset_ops_def list_all_iff is_rename_def less_Suc_eq numeral_eq_Suc take_Cons split: nat.splits)

lemma dataset_files_get [simp]:
  "map_of (dataset_files pc prompts meta) PD_MANIFEST = Some (Doc meta)"
  "map_of (dataset_files pc prompts meta) PD_PROMPTS = Some (Bytes (prompts_body pc prompts))"
  by (simp_all add: dataset_files_def PD_PROMPTS_def PD_MANIFEST_def)

lemma dataset_dir_stored:
  "dataset_dir (fold apply_op (dataset_ops pc tmp prompts meta) fs) (dm_version meta) = dataset_files pc prompts meta"
  by (simp add: dataset_dir_def dataset_ops_published update_conv')

lemma materialize_fresh:
  assumes "prompts_of ge (generate_catalog (ge_rng ge) (ge_mk ge) (nat cs) seed) n seed = Some prompts"
    and "dataset_dir fs (dataset_version_id cs n seed) = []"
  shows "materialize ge pc tmp8 now cs n seed md fs
    = (let meta = dataset_doc_of (dataset_version_id cs n seed) (hash_prompts pc prompts) seed
                    (length prompts) cs now md
       in (fold apply_op (dataset_ops pc (dm_version meta @ ''-'' @ tmp8) prompts meta) fs, Inr meta))"
  using assms by (simp add: materialize_def store_dataset_def dataset_doc_of_def Let_def)

lemma materialize_again:
  assumes "prompts_of ge (generate_catalog (ge_rng ge) (ge_mk ge) (nat cs) seed) n seed = Some prompts"
    and "map_of (dataset_dir fs (dataset_version_id cs n seed)) PD_MANIFEST = Some (Doc meta)"
  shows "materialize ge pc tmp8 now cs n seed md fs
    = (fs, if dm_hash meta = hash_prompts pc prompts then Inr meta
           else Inl (DatasetDrift (dataset_version_id cs n seed) (dm_hash meta) (hash_prompts pc prompts)))"
  using assms by (simp add: materialize_def ds_get_def Let_def)

text \<open>Two generations, the stored one and the later one: the first is read back exactly, and a later
  materialisation of the same parameters changes nothing and succeeds exactly when the content still
  hashes to the same value.\<close>

lemma dataset_roundtrip:
  assumes first: "prompts_of ge (generate_catalog (ge_rng ge) (ge_mk ge) (nat cs) seed) n seed = Some prompts"
    and ok: "codec_ok pc prompts"
    and fresh: "dataset_dir fs (dataset_version_id cs n seed) = []"
    and later: "prompts_of ge' (generate_catalog (ge_rng ge') (ge_mk ge') (nat cs) seed) n seed = Some prompts'"
    and run: "materialize ge pc tmp8 now cs n seed md fs = (fs', r)"
  shows "\<exists>meta. r = Inr meta \<and> dm_hash meta = hash_prompts pc prompts \<and> dm_n_prompts meta = int (length prompts) \<and>
     ds_load pc True fs' (dm_version meta) = Inr prompts \<and>
     materialize ge' pc tmp8' now' cs n seed md' fs'
       = (fs', if hash_prompts pc prompts' = hash_prompts pc prompts then Inr meta
               else Inl (DatasetDrift (dm_version meta) (dm_hash meta) (hash_prompts pc prompts')))"
proof -
  let ?meta = "dataset_doc_of (dataset_version_id cs n seed) (hash_prompts pc prompts) seed (length prompts) cs now md"
  let ?dv = "dataset_version_id cs n seed"
  have fs': "fs' = fold apply_op (dataset_ops pc (?dv @ ''-'' @ tmp8) prompts ?meta) fs" and r: "r = Inr ?meta"
    using materialize_fresh [OF first fresh, of pc tmp8 now md] run by (simp_all add: dataset_doc_of_def Let_def)
  have v: "dm_version ?meta = ?dv" by (simp add: dataset_doc_of_def)
  have dir: "dataset_dir fs' ?dv = dataset_files pc prompts ?meta"
    unfolding fs' using dataset_dir_stored [of pc _ prompts ?meta fs] v by simp
  have load: "ds_load pc True fs' ?dv = Inr prompts"
    by (simp add: ds_load_def ds_get_def dir parse_prompts_body [OF ok] dataset_doc_of_def)
  have man: "map_of (dataset_dir fs' ?dv) PD_MANIFEST = Some (Doc ?meta)" by (simp add: dir)
  have "materialize ge' pc tmp8' now' cs n seed md' fs'
       = (fs', if hash_prompts pc prompts' = hash_prompts pc prompts then Inr ?meta
               else Inl (DatasetDrift ?dv (dm_hash ?meta) (hash_prompts pc prompts')))"
    by (subst materialize_again [OF later man]) (simp add: dataset_doc_of_def eq_commute)
  with r load v show ?thesis by (auto simp: dataset_doc_of_def)
qed

text \<open>Stored prompts that were tampered with are refused unless they hash to the recorded value.\<close>

lemma load_verified: "ds_load pc True fs dv = Inr prompts \<Longrightarrow> \<exists>meta. ds_get pc fs dv = Inr meta \<and> hash_prompts pc prompts = dm_hash meta"
  by (auto simp: ds_load_def split: sum.splits option.splits content.splits if_splits)

end
