(* ===== verification/Preflight_Props.thy ===== *)
theory Preflight_Props
  imports Prompt_Registry
begin

text \<open>What a preflight report says, and the round trip of a prompt dataset.\<close>

section \<open>Reports\<close>

definition STAGES :: "string list" where
  "STAGES = [''config'', ''dataset'', ''memory'', ''rollout'', ''reward'', ''backward'']"

lemma check_names [simp]:
  "ch_name (check_config cfg) = ''config''"
  "check_dataset ge cfg seed = Some c \<Longrightarrow> ch_name c = ''dataset''"
  "ch_name (check_memory cfg gpu np) = ''memory''"
  "check_rollout ge cfg rf seed = Inr (c, comps) \<Longrightarrow> ch_name c = ''rollout''"
  "check_reward ge cfg comps seed = Inr c \<Longrightarrow> ch_name c = ''reward''"
  "check_backward torch bf = Inr c \<Longrightarrow> ch_name c = ''backward''"
  by (auto simp: check_config_def check_dataset_def check_memory_def check_rollout_def check_reward_def
      check_backward_def Let_def split: option.splits sum.splits if_splits)

lemma preflight_shape:
  "run_preflight ge torch cfg gpu np rf bf = Inr rep \<Longrightarrow>
    1 \<le> length rep \<and> length rep \<le> 6 \<and> map ch_name rep = take (length rep) STAGES \<and>
    list_all ch_ok (butlast rep) \<and> (ch_ok (last rep) \<longrightarrow> length rep = 6)"
  unfolding run_preflight_def Let_def
  by (auto simp: STAGES_def split: option.splits sum.splits if_splits prod.splits)

lemma preflight_all_ran:
  "run_preflight ge torch cfg gpu np rf bf = Inr rep \<Longrightarrow> report_ok rep \<Longrightarrow>
    \<exists>c2 c4 comps c5 c6. rep = [check_config cfg, c2, check_memory cfg gpu np, c4, c5, c6] \<and>
      check_dataset ge cfg (xc_seed (cf_experiment cfg)) = Some c2 \<and>
      check_rollout ge cfg rf (xc_seed (cf_experiment cfg)) = Inr (c4, comps) \<and>
      check_backward torch bf = Inr c6"
  unfolding run_preflight_def Let_def report_ok_def
  by (auto split: option.splits sum.splits if_splits prod.splits)

lemma check_config_ok:
  "ch_ok (check_config cfg) \<longleftrightarrow> 2 \<le> ro_num_samples (cf_rollout cfg) \<and> 0 < tc_lr (cf_training cfg) \<and>
     0 \<le> tc_beta (cf_training cfg) \<and> 0 < sum_list (map snd (wc_weights (cf_rewards cfg)))"
  by (auto simp: check_config_def config_problems_def Let_def)

lemma check_memory_ok:
  "ch_ok (check_memory cfg gpu np) \<longleftrightarrow>
    (\<forall>budget. gpu = Some budget \<longrightarrow>
      me_total (estimate_peak_mem_gb (case np of None \<Rightarrow> infer_param_count (mc_name (cf_model cfg)) | Some p \<Rightarrow> p)
        (tc_prompts_per_step (cf_training cfg) * ro_num_samples (cf_rollout cfg))
        (ro_max_new_tokens (cf_rollout cfg) + 128) (mc_dtype (cf_model cfg)) QWEN3_VOCAB 1024 28) \<le> budget)"
  by (auto simp: check_memory_def Let_def split: option.splits)

text \<open>The stub engine passes the rollout check whenever the configuration did.\<close>

lemma stub_rollout_ok:
  assumes "rng_ok (ge_rng ge)"
    and "(check_rollout ge cfg None seed :: 'e preflight_exn + check_result \<times> completion list) = Inr (c, comps)"
    and "2 \<le> ro_num_samples (cf_rollout cfg)"
  shows "ch_ok c"
proof -
  let ?n = "nat (ro_num_samples (cf_rollout cfg))"
  obtain g where comps: "comps = stub_completions (ge_rng ge) (ge_dash ge) STUB_PROMPT ?n g"
    and c: "ch_ok c \<longleftrightarrow> int (length (filter (\<lambda>c. strip (co_text c) \<noteq> []) comps)) = ro_num_samples (cf_rollout cfg)
        \<and> 0 < length (filter (\<lambda>c. strip (co_text c) \<noteq> []) comps)"
    using assms(2) by (auto simp: check_rollout_def stub_generate_def stub_group_def Let_def)
  have "length (filter (\<lambda>c. strip (co_text c) \<noteq> []) comps) = ?n"
    unfolding comps by (rule stub_counts [OF assms(1)])
  with c assms(3) show ?thesis by simp
qed

lemma injected_rollout_ok:
  "check_rollout ge cfg (Some (Inr comps')) seed = Inr (c, comps) \<Longrightarrow>
    comps = comps' \<and> (ch_ok c \<longleftrightarrow>
      int (length (filter (\<lambda>c. strip (co_text c) \<noteq> []) comps')) = ro_num_samples (cf_rollout cfg) \<and>
      0 < length (filter (\<lambda>c. strip (co_text c) \<noteq> []) comps'))"
  by (auto simp: check_rollout_def Let_def)

lemma backward_ok:
  "check_backward torch (Some (Inr out')) = Inr c \<Longrightarrow> ch_ok c \<longleftrightarrow> healthy out'"
  by (auto simp: check_backward_def)

lemma first_failure_last:
  assumes "rep \<noteq> []" and "list_all ch_ok (butlast rep)"
  shows "first_failure rep = (if report_ok rep then None else Some (last rep))"
proof -
  obtain xs x where rep: "rep = xs @ [x]" using assms(1) by (meson rev_exhaust)
  with assms(2) have "find (\<lambda>c. \<not> ch_ok c) xs = None" by (simp add: find_None_iff list_all_iff)
  moreover have "find (\<lambda>c. \<not> ch_ok c) (xs @ [x])
      = (case find (\<lambda>c. \<not> ch_ok c) xs of None \<Rightarrow> if ch_ok x then None else Some x | Some y \<Rightarrow> Some y)"
    by (induction xs) auto
  ultimately show ?thesis using assms(2) rep by (auto simp: first_failure_def report_ok_def)
qed


text \<open>A run with the stub engine, a healthy step and a budget that the estimate meets.\<close>

definition sample_env :: "nat gen_env" where
  "sample_env = \<lparr>ge_rng = sample_rng, ge_mk = length, ge_show = show_real0, ge_dash = ''-''\<rparr>"

definition sample_backward :: backward_out where
  "sample_backward = \<lparr>bo_loss = Some (Fin (1/2)), bo_grad_norm = Some (Fin 1)\<rparr>"

lemma bad_group_report:
  "(run_preflight sample_env None (default_settings\<lparr>cf_rollout := default_rollout\<lparr>ro_num_samples := 1\<rparr>\<rparr>)
     None None None (Some (Inr sample_backward)) :: unit preflight_exn + report)
   = Inr [check_config (default_settings\<lparr>cf_rollout := default_rollout\<lparr>ro_num_samples := 1\<rparr>\<rparr>)]"
  by (simp add: run_preflight_def check_config_ok)


end
