(* ===== verification/Baseline_Props.thy ===== *)
theory Baseline_Props
  imports Eval_Props Preflight_Props
begin

text \<open>
  Grounded tasks can always be built, so an evaluation fails only on the text of an answer; and the
  baseline is the evaluation that a training run starts with.
\<close>

section \<open>Tasks over a generated catalog\<close>

lemma shortlist_nonempty:
  assumes "rng_ok rg" and "distinct (map p_sku catalog)" and "catalog \<noteq> []" and "1 \<le> k"
  shows "build_shortlist rg mk ex catalog k seed \<noteq> [] \<and> set (build_shortlist rg mk ex catalog k seed) \<subseteq> p_sku ` set catalog"
proof -
  define good bad picks where "good = {p \<in> set catalog. satisfies p (pe_constraints ex)}"
    and "bad = set catalog - good" and "picks = build_shortlist rg mk ex catalog k seed"
  note mix = shortlist_mix [OF assms(1,2,4) good_def bad_def picks_def]
  have fin: "finite good" "finite bad" by (simp_all add: good_def bad_def)
  have "picks \<noteq> []"
  proof
    assume "picks = []"
    with mix have g: "min (int (card good)) (max 1 (k div 2)) = 0" by simp
    then have "card good = 0" by linarith
    with \<open>picks = []\<close> mix assms(4) have "card bad = 0" by (simp add: min_def split: if_splits)
    with \<open>card good = 0\<close> fin have "set catalog = {}" by (auto simp: bad_def)
    with assms(3) show False by simp
  qed
  with mix show ?thesis by (simp add: picks_def)
qed

lemma task_prompt_ok:
  assumes "distinct (map p_sku catalog)" and "set sl \<subseteq> p_sku ` set catalog" and "sl \<noteq> []"
  shows "\<exists>p. build_task_prompt sf ex (catalog_index catalog) sl = Inr p"
proof -
  have idx: "\<exists>p. catalog_index catalog s = Some p" if "s \<in> set sl" for s
    using that assms(2) catalog_index_distinct [OF assms(1)] by blast
  obtain s rest where sl: "sl = s # rest" using assms(3) by (cases sl) auto
  have "mapE (\<lambda>sku. case catalog_index catalog sku of None \<Rightarrow> Inl (UnknownSku sku)
        | Some p \<Rightarrow> Inr (candidate_line sf sku p)) sl
      = Inr (map (\<lambda>sku. candidate_line sf sku (the (catalog_index catalog sku))) sl)"
    by (rule mapE_Inr) (auto dest!: idx)
  then show ?thesis using idx [of s] by (auto simp: build_task_prompt_def sl)
qed

lemma grounded_catalog:
  assumes "rng_ok (ge_rng ge)" and "1 \<le> m" 
  shows "distinct (map p_sku (dt_catalog (grounded_data ge m k seed))) \<and> dt_catalog (grounded_data ge m k seed) \<noteq> []"
proof -
  have f: "map p_sku (dt_catalog (grounded_data ge m k seed)) = map (\<lambda>i. product_sku (int i)) [1..<Suc (nat m)]"
    "distinct (map p_sku (dt_catalog (grounded_data ge m k seed)))"
    using generate_catalog_facts [OF assms(1), of "ge_mk ge" "nat m" seed] by (simp_all add: grounded_data_def Let_def)
  have "length (dt_catalog (grounded_data ge m k seed)) = nat m"
    using arg_cong [OF f(1), of length] by (simp only: length_map length_upt)
  with f(2) assms(2) show ?thesis by auto
qed

lemma tasks_ok:
  assumes "rng_ok (ge_rng ge)" and "1 \<le> m" and "1 \<le> k"
  shows "\<exists>ps. task_prompts (grounded_data ge m k seed) exs = Inr ps"
proof -
  let ?dt = "grounded_data ge m k seed"
  note cat = grounded_catalog [OF assms(1,2), of k seed]
  have "\<exists>p. build_task_prompt (dt_show ?dt) ex (catalog_index (dt_catalog ?dt)) (dt_shortlist ?dt ex) = Inr p" for ex
  proof (rule task_prompt_ok)
    have "dt_shortlist ?dt ex = build_shortlist (ge_rng ge) (ge_mk ge) ex (dt_catalog ?dt) k seed"
      by (simp add: grounded_data_def Let_def)
    then show "set (dt_shortlist ?dt ex) \<subseteq> p_sku ` set (dt_catalog ?dt)" "dt_shortlist ?dt ex \<noteq> []"
      using shortlist_nonempty [OF assms(1) _ _ assms(3)] cat by simp_all
  qed (use cat in simp)
  then obtain f where f: "\<And>ex. build_task_prompt (dt_show ?dt) ex (catalog_index (dt_catalog ?dt)) (dt_shortlist ?dt ex) = Inr (f ex)"
    by metis
  have "task_prompts ?dt exs = Inr (map f exs)" unfolding task_prompts_def f by (rule mapE_Inr) simp
  then show ?thesis by blast
qed

lemma heldout_prompts:
  assumes "rng_ok (ge_rng ge)"
  shows "\<exists>exs. prompts_of ge catalog n seed = Some exs \<and> length exs = nat n"
proof -
  have "0 < (50::nat)" by simp
  from prompts_from_ok [OF assms this, of "ge_show ge" catalog True 1 "nat n" "ge_mk ge (''prompts-'' @ show_int seed)"]
  obtain exs where p: "prompts_of ge catalog n seed = Some exs"
    and i: "map pe_id exs = map (\<lambda>k. ''P-'' @ show_padded 4 (int k)) [1..<1 + nat n]"
    unfolding prompts_of_def generate_prompts_def by blast
  have "length exs = nat n" using arg_cong [OF i, of length] by (simp only: length_map length_upt)
  with p show ?thesis by blast
qed

section \<open>How an evaluation ends\<close>

definition engine_answers :: "'s engine \<Rightarrow> bool" where
  "engine_answers gen \<longleftrightarrow> (\<forall>ps n seed st. 0 \<le> n \<longrightarrow>
     (\<exists>st' gs. gen ps n seed st = (st', Inr gs) \<and> list_all2 (group_ok (nat n)) ps gs))"

lemma score_groups_length:
  assumes "score_groups cfg dt exs gs = Inr bs" and "list_all2 (group_ok n) ps gs" and "length exs = length ps"
  shows "length bs = length exs * n"
proof -
  obtain bss where m: "mapE (\<lambda>(ex, g). mapE (score cfg (context_of dt ex)) (gr_completions g)) (zip exs gs) = Inr bss"
    and bs: "bs = concat bss" using assms(1) by (auto simp: score_groups_def split: sum.splits)
  have "length exs = length gs" using assms(2,3) by (simp add: list_all2_lengthD)
  from scored_lengths [OF m this] have "map length bss = replicate (length ps) n"
    using groups_lengths [OF assms(2)] by simp
  then show ?thesis using assms(3) by (simp add: bs length_concat sum_list_replicate)
qed

lemma score_groups_error: "score_groups cfg dt exs gs = Inl e \<Longrightarrow> \<exists>x. e = TrReward x"
proof -
  have inner: "mapE (score cfg c) cs = Inl e \<Longrightarrow> \<exists>x. e = TrReward x" for c cs
    by (induction cs) (auto simp: score_def split: sum.splits)
  have "mapE (\<lambda>(ex, g). mapE (score cfg (context_of dt ex)) (gr_completions g)) egs = Inl e \<Longrightarrow> \<exists>x. e = TrReward x" for egs
    by (induction egs) (auto split: sum.splits dest: inner)
  then show "score_groups cfg dt exs gs = Inl e \<Longrightarrow> \<exists>x. e = TrReward x"
    by (auto simp: score_groups_def split: sum.splits)
qed

section \<open>The evaluation before training\<close>

text \<open>The engine that a trainer samples its policy with.\<close>

definition engine_of_learner :: "'w learner \<Rightarrow> 'w engine" where
  "engine_of_learner nn ps n seed w =
     (let (w', gs) = ln_generate nn ps n (case seed of Some s \<Rightarrow> s | None \<Rightarrow> 0) w in (w', Inr gs))"

definition map_result :: "('a \<Rightarrow> 'b) \<Rightarrow> 'e + 'a \<Rightarrow> 'e + 'b" where
  "map_result h r = (case r of Inl e \<Rightarrow> Inl e | Inr x \<Rightarrow> Inr (h x))"

lemma map_result_simps [simp]: "map_result h (Inl e) = Inl e" "map_result h (Inr x) = Inr (h x)"
  by (simp_all add: map_result_def)

lemma mapE_result: "(\<And>x. map_result h (g x) = f x) \<Longrightarrow> map_result (map h) (mapE g xs) = mapE f xs"
proof (induction xs)
  case (Cons x xs)
  have "mapE f xs = map_result (map h) (mapE g xs)" "f x = map_result h (g x)" using Cons by simp_all
  then show ?case by (cases "g x"; cases "mapE g xs") simp_all
qed simp

lemma heldout_is_baseline:
  assumes dt_def: "dt = grounded_data ge (tc_catalog_size (cf_training cfg)) (tc_shortlist (cf_training cfg)) (xc_seed (cf_experiment cfg))"
    and e: "evaluate ge (\<lambda>_ _. engine_of_learner nn) cfg n_prompts n None None (tn_world ts) = (w', r)"
  shows "\<exists>r'. heldout_eval nn cfg dt (prompts_of ge (dt_catalog dt)) n_prompts n ts = (ts\<lparr>tn_world := w'\<rparr>, r') \<and>
    (\<forall>res. r = Inr res \<longrightarrow> map_result fst r' = Inr (bl_eval res)) \<and> (\<forall>x. r = Inl (EvTrain x) \<longrightarrow> r' = Inl x)"
proof (cases "prompts_of ge (dt_catalog dt) n_prompts (xc_seed (cf_experiment cfg) + HELDOUT_SEED_OFFSET)")
  case None
  with e show ?thesis by (auto simp: evaluate_def heldout_eval_def override_tokens_def Let_def dt_def)
next
  case p: (Some exs)
  show ?thesis
  proof (cases "task_prompts dt exs")
    case (Inl x)
    with e p show ?thesis
      by (auto simp: evaluate_def heldout_eval_def override_tokens_def Let_def dt_def [symmetric] sample_groups_def)
  next
    case (Inr ps)
    obtain w1 gs where g: "ln_generate nn ps n (xc_seed (cf_experiment cfg)) (tn_world ts) = (w1, gs)" by fastforce
    define f :: "prompt_example \<times> rollout_group \<Rightarrow> train_error + (reward_breakdown \<times> eval_sample) list"
      where "f = (\<lambda>(ex, g). mapE (\<lambda>c. case score cfg (context_of dt ex) c of
        Inl e \<Rightarrow> Inl e
      | Inr b \<Rightarrow> Inr (b, \<lparr>sa_prompt = gr_prompt g, sa_response = co_text c, sa_reward = rb_total b,
                        sa_breakdown = b, sa_prompt_id = pe_id ex\<rparr>)) (gr_completions g))"
    have "map_result (map (map fst)) (mapE f (zip exs gs))
        = mapE (\<lambda>(ex, g). mapE (score cfg (context_of dt ex)) (gr_completions g)) (zip exs gs)"
    proof (rule mapE_result)
      fix eg
      show "map_result (map fst) (f eg) = (case eg of (ex, g) \<Rightarrow> mapE (score cfg (context_of dt ex)) (gr_completions g))"
        by (cases eg) (simp only: f_def split, rule mapE_result, simp split: sum.split)
    qed
    then have s: "score_groups cfg dt exs gs = map_result (concat \<circ> map (map fst)) (mapE f (zip exs gs))"
      by (cases "mapE f (zip exs gs)") (simp_all add: score_groups_def flip: \<open>map_result _ _ = _\<close>)
    have ev: "(w', r) = (case score_groups cfg dt exs gs of
          Inl e \<Rightarrow> (w1, Inl (EvTrain e))
        | Inr bs \<Rightarrow> if bs = [] then (w1, Inl EvNoCompletions)
            else (w1, Inr \<lparr>bl_model = mc_name (cf_model cfg), bl_phase = ''baseline_untrained'', bl_adapter = None,
                       bl_seed = xc_seed (cf_experiment cfg) + HELDOUT_SEED_OFFSET, bl_eval = eval_of bs\<rparr>))"
      using e p Inr g
      by (cases "score_groups cfg dt exs gs") (auto simp: evaluate_def override_tokens_def Let_def dt_def [symmetric]
          sample_groups_def engine_of_learner_def truthy_adapter_def split: if_splits)
    have ho: "heldout_eval nn cfg dt (prompts_of ge (dt_catalog dt)) n_prompts n ts
        = (ts\<lparr>tn_world := w1\<rparr>, case mapE f (zip exs gs) of Inl e \<Rightarrow> Inl e
            | Inr bss \<Rightarrow> if concat bss = [] then Inl TrEmptyBatch
                else Inr (eval_of (map fst (concat bss)), map snd (concat bss)))"
      using p Inr g by (simp add: heldout_eval_def Let_def f_def split: sum.splits)
    show ?thesis
      using ev s unfolding ho by (cases "mapE f (zip exs gs)") (auto simp: map_concat split: if_splits)
  qed
qed

section \<open>The property\<close>

text \<open>C37. An evaluation with a sound random source, at least one product, shortlist place, prompt and
  sample, and an engine that answers, fails only on the text of an answer whose reward is undefined;
  otherwise it reports on every completion of every held-out prompt, with the held-out seed.  The
  baseline of an untrained policy is the evaluation that a training run of it starts with: over the
  trainer's engine both sample the same completions and report the same numbers or the same exception.\<close>

theorem baseline_outcome:
  assumes "rng_ok (ge_rng ge)" and "1 \<le> tc_catalog_size (cf_training cfg)" and "1 \<le> tc_shortlist (cf_training cfg)"
    and "1 \<le> n_prompts" and "1 \<le> n" and "engine_answers (gen cfg None)"
    and "evaluate ge gen cfg n_prompts n None None st = (st', r)"
    and "evaluate ge (\<lambda>_ _. engine_of_learner nn) cfg n_prompts n None None (tn_world ts) = (w', q)"
  shows "(case r of
      Inl e \<Rightarrow> \<exists>x. e = EvTrain (TrReward x)
    | Inr res \<Rightarrow> er_n (bl_eval res) = nat n_prompts * nat n \<and>
        bl_seed res = xc_seed (cf_experiment cfg) + 777 \<and> bl_phase res = ''baseline_untrained'') \<and>
    (\<forall>dt. dt = grounded_data ge (tc_catalog_size (cf_training cfg)) (tc_shortlist (cf_training cfg)) (xc_seed (cf_experiment cfg)) \<longrightarrow>
      (\<exists>q'. heldout_eval nn cfg dt (prompts_of ge (dt_catalog dt)) n_prompts n ts = (ts\<lparr>tn_world := w'\<rparr>, q') \<and>
        (\<forall>res. q = Inr res \<longrightarrow> map_result fst q' = Inr (bl_eval res)) \<and> (\<forall>x. q = Inl (EvTrain x) \<longrightarrow> q' = Inl x)))"
proof (intro conjI allI impI)
  let ?dt = "grounded_data ge (tc_catalog_size (cf_training cfg)) (tc_shortlist (cf_training cfg)) (xc_seed (cf_experiment cfg))"
  obtain exs where exs: "prompts_of ge (dt_catalog ?dt) n_prompts (xc_seed (cf_experiment cfg) + HELDOUT_SEED_OFFSET) = Some exs"
    "length exs = nat n_prompts" using heldout_prompts [OF assms(1)] by blast
  obtain ps where ps: "task_prompts ?dt exs = Inr ps" using tasks_ok [OF assms(1-3)] by blast
  have n: "0 \<le> n" using assms(5) by simp
  obtain s1 gs where g: "gen cfg None ps n (Some (xc_seed (cf_experiment cfg))) st = (s1, Inr gs)"
    and al: "list_all2 (group_ok (nat n)) ps gs" using assms(6) n unfolding engine_answers_def by metis
  show "case r of
      Inl e \<Rightarrow> \<exists>x. e = EvTrain (TrReward x)
    | Inr res \<Rightarrow> er_n (bl_eval res) = nat n_prompts * nat n \<and>
        bl_seed res = xc_seed (cf_experiment cfg) + 777 \<and> bl_phase res = ''baseline_untrained''"
  proof (cases "score_groups cfg ?dt exs gs")
    case (Inl e)
    then have "r = Inl (EvTrain e)"
      using assms(7) exs(1) ps g by (auto simp: evaluate_def override_tokens_def Let_def sample_groups_def truthy_adapter_def)
    with score_groups_error [OF Inl] show ?thesis by auto
  next
    case (Inr bs)
    have len: "length bs = nat n_prompts * nat n"
      using score_groups_length [OF Inr al] task_prompts_length [OF ps] exs(2) by simp
    then have "bs \<noteq> []" using assms(4,5) by (auto simp flip: length_greater_0_conv)
    then have "r = Inr \<lparr>bl_model = mc_name (cf_model cfg), bl_phase = ''baseline_untrained'', bl_adapter = None,
        bl_seed = xc_seed (cf_experiment cfg) + HELDOUT_SEED_OFFSET, bl_eval = eval_of bs\<rparr>"
      using assms(7) exs(1) ps g Inr
      by (auto simp: evaluate_def override_tokens_def Let_def sample_groups_def truthy_adapter_def)
    then show ?thesis by (simp add: len eval_of_def Let_def HELDOUT_SEED_OFFSET_def)
  qed
next
  fix dt
  assume "dt = grounded_data ge (tc_catalog_size (cf_training cfg)) (tc_shortlist (cf_training cfg)) (xc_seed (cf_experiment cfg))"
  from heldout_is_baseline [OF this assms(8)]
  show "\<exists>q'. heldout_eval nn cfg dt (prompts_of ge (dt_catalog dt)) n_prompts n ts = (ts\<lparr>tn_world := w'\<rparr>, q') \<and>
      (\<forall>res. q = Inr res \<longrightarrow> map_result fst q' = Inr (bl_eval res)) \<and> (\<forall>x. q = Inl (EvTrain x) \<longrightarrow> q' = Inl x)" .
qed

text \<open>The engine that answers a hash sign and no number has no reward to fail on.\<close>

definition plain_engine :: "unit engine" where
  "plain_engine ps n seed w = (w, Inr (map (\<lambda>p. \<lparr>gr_prompt = p, gr_completions = replicate (nat n) (plain_completion p ''hi'')\<rparr>) ps))"

lemma plain_answers: "engine_answers plain_engine"
  by (auto simp: engine_answers_def plain_engine_def group_ok_def plain_completion_def list_all2_conv_all_nth)

lemma baseline_outcome_witness:
  "\<exists>st' r. evaluate sample_env (\<lambda>_ _. plain_engine) default_settings 2 3 None None () = (st', r) \<and>
     (case r of Inl e \<Rightarrow> \<exists>x. e = EvTrain (TrReward x) | Inr res \<Rightarrow> er_n (bl_eval res) = 6)"
proof -
  let ?ts = "\<lparr>tn_world = (), tn_failures = 0, tn_log = []\<rparr>"
  obtain st' r where e: "evaluate sample_env (\<lambda>_ _. plain_engine) default_settings 2 3 None None () = (st', r)"
    by (cases "evaluate sample_env (\<lambda>_ _. plain_engine) default_settings 2 3 None None ()")
  obtain w' q where q: "evaluate sample_env (\<lambda>_ _. engine_of_learner nan_learner) default_settings 2 3 None None (tn_world ?ts) = (w', q)"
    by (cases "evaluate sample_env (\<lambda>_ _. engine_of_learner nan_learner) default_settings 2 3 None None (tn_world ?ts)")
  have "rng_ok (ge_rng sample_env)" by (simp add: sample_env_def sample_rng_ok)
  moreover have "1 \<le> tc_catalog_size (cf_training default_settings)" "1 \<le> tc_shortlist (cf_training default_settings)"
    by (simp_all add: default_settings_def default_training_def)
  moreover have "(1::int) \<le> 2" "(1::int) \<le> 3" by simp_all
  ultimately have "case r of Inl e \<Rightarrow> \<exists>x. e = EvTrain (TrReward x) | Inr res \<Rightarrow> er_n (bl_eval res) = 6"
    using baseline_outcome [OF _ _ _ _ _ plain_answers e q] by (cases r) auto
  with e show ?thesis by blast
qed

section \<open>The reward report\<close>

text \<open>The reward report is a true summary of what it scored: there is at least one record, every
  record falls into exactly one bucket of the histogram, the mean and the median lie between the minimum
  and the maximum, which lie between -1/2 and 1; the record shown as lowest has the minimal total and
  the one shown as highest the maximal; an example of a hallucination is shown exactly if the rate is not
  zero, and hallucinating completions are among those that cite a SKU; and the group of a prompt holds
  exactly the totals of its records, in order.\<close>

theorem reward_report_consistent:
  assumes "reward_report ge gen a cfg st = (st', Inr rep)"
  shows "rp_records rep \<noteq> [] \<and> sum_list (map fst (rp_histogram rep)) = length (rp_records rep) \<and>
    - (1/2) \<le> rp_min rep \<and> rp_min rep \<le> rp_median rep \<and> rp_median rep \<le> rp_max rep \<and>
    rp_min rep \<le> rp_mean rep \<and> rp_mean rep \<le> rp_max rep \<and> rp_max rep \<le> 1 \<and>
    (\<exists>lo \<in> set (rp_records rep). map_of (rp_picks rep) ''LOWEST'' = Some lo \<and> sc_total lo = rp_min rep) \<and>
    (\<exists>hi \<in> set (rp_records rep). map_of (rp_picks rep) ''HIGHEST'' = Some hi \<and> sc_total hi = rp_max rep) \<and>
    (map_of (rp_picks rep) ''HALLUCINATED'' = None \<longleftrightarrow> rp_hallucinated rep = 0) \<and>
    0 \<le> rp_hallucinated rep \<and> rp_hallucinated rep \<le> rp_parseable rep \<and> rp_parseable rep \<le> 1 \<and>
    rp_within rep = within_groups (group_totals (rp_records rep)) \<and>
    map_of (group_totals (rp_records rep)) k =
      (let v = map sc_total (filter (\<lambda>r. pe_id (sc_example r) = k) (rp_records rep)) in
       if v = [] then None else Some v)"
proof -
  obtain dt exs groups rs where s: "score_records dt exs groups = Inr rs" and ne: "rs \<noteq> []" and rep: "rep = report_of rs"
    using assms by (auto simp: reward_report_def Let_def split: option.splits prod.splits sum.splits if_splits)
  let ?ts = "map sc_total rs"
  have ts: "?ts \<noteq> []" using ne by simp
  note r = scored_records [OF s]
  have h: "sum_list (histogram ?ts) = length rs" using r by (subst histogram_counts_all) force+
  have lo: "- (1/2) \<le> Min (set ?ts)" and hi: "Max (set ?ts) \<le> 1" using r ts by simp_all
  have hal: "rate (\<lambda>r. rb_hallucinated (sc_breakdown r)) rs \<le> rate (\<lambda>r. sc_claimed r > 0) rs"
    by (rule rate_mono) (use r in blast)
  have pick: "map_of (example_picks rs) ''HALLUCINATED'' = None \<longleftrightarrow> rate (\<lambda>r. rb_hallucinated (sc_breakdown r)) rs = 0"
    unfolding rate_zero [OF ne] hallucinated_pick by (simp split: list.splits)
  have fields: "rp_records rep = rs" "map fst (rp_histogram rep) = histogram ?ts" "rp_min rep = Min (set ?ts)"
    "rp_median rep = median ?ts" "rp_max rep = Max (set ?ts)" "rp_mean rep = list_mean ?ts"
    "rp_picks rep = example_picks rs" "rp_hallucinated rep = rate (\<lambda>r. rb_hallucinated (sc_breakdown r)) rs"
    "rp_parseable rep = rate (\<lambda>r. sc_claimed r > 0) rs" "rp_within rep = within_groups (group_totals rs)"
    by (simp_all add: rep report_of_def Let_def comp_def)
  show ?thesis
    unfolding fields
    using h lo hi median_bounds [OF ts] list_mean_bounds [OF ts] picks_ends [OF ne] pick hal rate_range ne
      group_totals_lookup [of rs k]
    by (intro conjI) blast+
qed

lemma plain_scored: "\<exists>r. score_one dt ex (plain_completion p ''hi'') = Inr r"
proof -
  have "parse_response ''hi'' = Some []" by code_simp
  then show ?thesis using compute_reward_total [of "''hi''" "[]" "context_of dt ex"]
    by (auto simp: score_one_def plain_completion_def)
qed

lemma plain_report:
  assumes "rng_ok (ge_rng ge)" and "1 \<le> ag_catalog_size a" and "1 \<le> ag_shortlist a" and "1 \<le> ag_n_prompts a"
    and "1 \<le> samples_of a (report_config a cfg)"
  shows "\<exists>rep. reward_report ge (\<lambda>_. plain_engine) a cfg () = ((), Inr rep)"
proof -
  let ?dt = "grounded_data ge (ag_catalog_size a) (ag_shortlist a) (ag_seed a)"
  let ?n = "nat (samples_of a (report_config a cfg))"
  obtain exs where exs: "prompts_of ge (dt_catalog ?dt) (ag_n_prompts a) (ag_seed a) = Some exs"
    "length exs = nat (ag_n_prompts a)" using heldout_prompts [OF assms(1)] by blast
  obtain ps where ps: "task_prompts ?dt exs = Inr ps" using tasks_ok [OF assms(1-3)] by blast
  define gs where "gs = map (\<lambda>p. \<lparr>gr_prompt = p, gr_completions = replicate ?n (plain_completion p ''hi'')\<rparr>) ps"
  obtain f where f: "\<And>ex p. score_one ?dt ex (plain_completion p ''hi'') = Inr (f ex p)" using plain_scored [of ?dt] by metis
  have one: "mapE (score_one ?dt ex) (replicate k (plain_completion p ''hi'')) = Inr (replicate k (f ex p))" for ex p k
    by (induction k) (simp_all add: f)
  have "mapE (\<lambda>(ex, g). mapE (score_one ?dt ex) (gr_completions g)) (zip exs gs)
      = Inr (map (\<lambda>(ex, g). replicate ?n (f ex (gr_prompt g))) (zip exs gs))"
    by (rule mapE_Inr) (auto simp: gs_def one dest!: set_zip_rightD)
  then have s: "score_records ?dt exs gs = Inr (concat (map (\<lambda>(ex, g). replicate ?n (f ex (gr_prompt g))) (zip exs gs)))"
    by (simp add: score_records_def)
  have "length exs = length gs" using task_prompts_length [OF ps] by (simp add: gs_def)
  then have "concat (map (\<lambda>(ex, g). replicate ?n (f ex (gr_prompt g))) (zip exs gs)) \<noteq> []"
    using exs(2) assms(4,5) by (cases exs; cases gs) auto
  with s exs(1) ps show ?thesis
    by (auto simp: reward_report_def Let_def sample_groups_def plain_engine_def gs_def)
qed

lemma reward_report_consistent_example:
  "\<exists>rep. reward_report sample_env (\<lambda>_. plain_engine)
      \<lparr>ag_n_prompts = 2, ag_num_samples = None, ag_max_new = None, ag_temperature = None, ag_catalog_size = 5,
       ag_shortlist = 3, ag_seed = 0\<rparr> default_settings () = ((), Inr rep) \<and>
    sum_list (map fst (rp_histogram rep)) = length (rp_records rep)"
proof -
  have "rng_ok (ge_rng sample_env)" by (simp add: sample_env_def sample_rng_ok)
  from plain_report [OF this, of "\<lparr>ag_n_prompts = 2, ag_num_samples = None, ag_max_new = None, ag_temperature = None,
      ag_catalog_size = 5, ag_shortlist = 3, ag_seed = 0\<rparr>" default_settings]
  obtain rep where rep: "reward_report sample_env (\<lambda>_. plain_engine)
      \<lparr>ag_n_prompts = 2, ag_num_samples = None, ag_max_new = None, ag_temperature = None, ag_catalog_size = 5,
       ag_shortlist = 3, ag_seed = 0\<rparr> default_settings () = ((), Inr rep)"
    by (auto simp: samples_of_def report_config_def override_tokens_def default_settings_def default_rollout_def)
  with reward_report_consistent [OF rep] show ?thesis by blast
qed

end
