(* ===== verification/Pipeline_Props.thy ===== *)
theory Pipeline_Props
  imports Rollout_Stage Failure_Props Checkpoint_Props Baseline_Props
begin

text \<open>
  The end-to-end pipeline under fair schedules: every job of every step succeeds, whatever the
  interleaving of the workers, the injected failure included, and the numbers it reports do not depend
  on that interleaving.
\<close>

section \<open>One open job\<close>

definition one_open :: "'g pipe_env \<Rightarrow> nat \<Rightarrow> store \<Rightarrow> job \<Rightarrow> bool" where
  "one_open env d s j \<longleftrightarrow> store_inv s \<and> known s \<and> drawn_ids env d s \<and> lookup s (job_id j) = Some j \<and>
     (\<forall>x \<in> set (jobs_table s). job_id x = job_id j \<or> job_state x = SUCCEEDED)"

lemma one_open_pk: "one_open env d s j \<Longrightarrow> pk s"
  by (simp add: one_open_def store_inv_pk)

lemma one_open_ok: "one_open env d s j \<Longrightarrow> job_ok j"
  unfolding one_open_def using store_inv_lookup by blast

lemma length_replace [simp]: "length (jobs_table (replace_job j s)) = length (jobs_table s)"
  by (simp add: replace_job_def)

lemma one_open_replace:
  assumes "one_open env d s j" and "job_id j' = job_id j" and "job_ok j'"
  shows "one_open env d (replace_job j' s) j'"
proof -
  have "\<exists>i < d. job_id j' = pv_id env i"
    using assms(1,2) lookup_SomeD [of s "job_id j" j] unfolding one_open_def drawn_ids_def by metis
  then show ?thesis
    using assms unfolding one_open_def
    by (auto simp: store_inv_replace known_replace drawn_ids_def set_replace_job lookup_replace_job)
qed

lemma one_open_settled: "one_open env d s j \<Longrightarrow> job_state j = SUCCEEDED \<Longrightarrow> settled env d s"
proof -
  assume op: "one_open env d s j" and fin: "job_state j = SUCCEEDED"
  have "job_state x = SUCCEEDED" if x: "x \<in> set (jobs_table s)" for x
  proof (cases "job_id x = job_id j")
    case True
    then have "x = j" using lookup_in [OF one_open_pk [OF op] x] op by (simp add: one_open_def)
    with fin show ?thesis by simp
  qed (use op x in \<open>auto simp: one_open_def\<close>)
  with op show ?thesis by (simp add: one_open_def settled_def)
qed

lemma settled_mono: "settled env d s \<Longrightarrow> d \<le> d' \<Longrightarrow> settled env d' s"
  unfolding settled_def drawn_ids_def using order_less_le_trans by blast

lemma one_open_mono: "one_open env d s j \<Longrightarrow> d \<le> d' \<Longrightarrow> one_open env d' s j"
  unfolding one_open_def drawn_ids_def using order_less_le_trans by blast

lemma claim_open:
  assumes "one_open env d s j" and "is_pending j" and "job_kind j \<in> set kinds"
  shows "claim (Some kinds) secs now s = (replace_job (set_claimed (now + secs) now j) s, Inr (Some (set_claimed (now + secs) now j)))"
proof -
  have l: "lookup s (job_id j) = Some j" using assms(1) by (simp add: one_open_def)
  have j: "j \<in> set (jobs_table s)" using lookup_SomeD [OF l] by blast
  have el: "eligible (Some kinds) j" using assms(2,3) by (simp add: eligible_def)
  have others: "\<forall>x \<in> set (jobs_table s). job_id x = job_id j \<or> job_state x = SUCCEEDED"
    using assms(1) unfolding one_open_def by blast
  show ?thesis
  proof (rule claim_some [where secs = secs and now = now, OF one_open_pk [OF assms(1)] j el])
    fix j' assume l': "lookup s (job_id j') = Some j'" and el': "eligible (Some kinds) j'"
      and c: "claim (Some kinds) secs now s = (replace_job (set_claimed (now + secs) now j') s, Inr (Some (set_claimed (now + secs) now j')))"
    have "j' \<in> set (jobs_table s)" using lookup_SomeD [OF l'] by blast
    with others have "job_id j' = job_id j \<or> job_state j' = SUCCEEDED" by blast
    moreover have "job_state j' = PENDING" using el' by (simp add: eligible_def is_pending_def)
    ultimately have "job_id j' = job_id j" by simp
    then have "j' = j" using l l' by (metis option.inject)
    show ?thesis using c unfolding \<open>j' = j\<close> .
  qed
qed

lemma created_open:
  fixes kind :: string and payload :: dict
  assumes "inj (pv_id env)" and "settled env d s"
  defines "j \<equiv> new_job (pv_id env d) (pv_clock env d) kind payload 3 ''cpu'' 0"
  shows "create (pv_id env d) (pv_clock env d) kind payload 3 ''cpu'' 0 s = (s\<lparr>jobs_table := jobs_table s @ [j]\<rparr>, Inr j)"
    and "one_open env (d + 1) (s\<lparr>jobs_table := jobs_table s @ [j]\<rparr>) j"
proof -
  have q: "queued env kind [payload] d = [j]" by (simp add: queued_def j_def)
  have "lookup s (pv_id env d) = None"
    using assms(1,2) by (intro drawn_fresh [where d = d]) (simp_all add: settled_def)
  then show "create (pv_id env d) (pv_clock env d) kind payload 3 ''cpu'' 0 s = (s\<lparr>jobs_table := jobs_table s @ [j]\<rparr>, Inr j)"
    by (simp add: create_def j_def Let_def)
  note app = appended_store [OF assms(1,2), where kind = kind and ps = "[payload]", unfolded q]
  show "one_open env (d + 1) (s\<lparr>jobs_table := jobs_table s @ [j]\<rparr>) j"
    using app(1-3) app(6) [of j] assms(2) by (auto simp: one_open_def settled_def)
qed

section \<open>The state of the driver\<close>

lemma pdraw_eq:
  "pdraw env \<lparr>pp_store = s, pp_world = w, pp_ckpts = c, pp_events = e, pp_metrics = m, pp_drawn = d\<rparr>
    = (\<lparr>pp_store = s, pp_world = w, pp_ckpts = c, pp_events = e, pp_metrics = m, pp_drawn = d + 1\<rparr>,
       Inr (pv_id env d, pv_clock env d))"
  by (simp add: pdraw_def)

lemma on_jobs_eq:
  "f s = (s', Inr x) \<Longrightarrow>
    on_jobs f \<lparr>pp_store = s, pp_world = w, pp_ckpts = c, pp_events = e, pp_metrics = m, pp_drawn = d\<rparr>
    = (\<lparr>pp_store = s', pp_world = w, pp_ckpts = c, pp_events = e, pp_metrics = m, pp_drawn = d\<rparr>, Inr x)"
  by (simp add: on_jobs_def)

lemma bind_pdraw:
  "bindA (pdraw env) f \<lparr>pp_store = s, pp_world = w, pp_ckpts = c, pp_events = e, pp_metrics = m, pp_drawn = d\<rparr>
    = f (pv_id env d, pv_clock env d) \<lparr>pp_store = s, pp_world = w, pp_ckpts = c, pp_events = e, pp_metrics = m, pp_drawn = d + 1\<rparr>"
  by (simp add: bindA_def pdraw_eq)

lemma bind_on_jobs:
  "f s = (s', Inr x) \<Longrightarrow>
    bindA (on_jobs f) g \<lparr>pp_store = s, pp_world = w, pp_ckpts = c, pp_events = e, pp_metrics = m, pp_drawn = d\<rparr>
    = g x \<lparr>pp_store = s', pp_world = w, pp_ckpts = c, pp_events = e, pp_metrics = m, pp_drawn = d\<rparr>"
  by (simp add: bindA_def on_jobs_def)

lemma bindA_assoc: "bindA (bindA m f) g = bindA m (\<lambda>x. bindA (f x) g)"
  by (rule ext) (simp add: bindA_def split: prod.splits sum.splits)

section \<open>The injected failure\<close>

lemma oom_classified: "classify simulated_oom = OOM"
  by (simp add: classify_def simulated_oom_def Let_def)

definition has_plan :: "job \<Rightarrow> bool" where
  "has_plan j \<longleftrightarrow> from_payload (job_payload j) = Some \<lparr>microbatch_size = 8, grad_accum_steps = 1\<rparr> \<and>
     job_attempts j = 0 \<and> job_max_attempts j = 3"

lemma recover_open:
  assumes op: "one_open env d s j" and run: "job_state j = RUNNING" and plan: "has_plan j" and wf: "ck_wf c"
  obtains j' ev where "recover env cfg now ts j \<lparr>pp_store = s, pp_world = w, pp_ckpts = c, pp_events = e, pp_metrics = m, pp_drawn = d'\<rparr>
      = (\<lparr>pp_store = replace_job j' s, pp_world = w, pp_ckpts = c, pp_events = e @ [ev], pp_metrics = m, pp_drawn = d'\<rparr>, Inr ev)"
    and "one_open env d (replace_job j' s) j'" and "is_pending j'" and "job_id j' = job_id j" and "job_kind j' = job_kind j"
    and "map_of (job_payload j') ''microbatch_size'' \<noteq> None \<or> map_of (job_payload j) ''microbatch_size'' = None"
proof -
  let ?ct = "\<lparr>ct_registry = Some c, ct_enabled = pc_recovery_enabled cfg, ct_events_path = Some ''recovery_events.jsonl''\<rparr>"
  let ?rs = "\<lparr>rc_store = s, rc_log = e\<rparr>"
  let ?plan = "\<lparr>microbatch_size = 8, grad_accum_steps = 1\<rparr>"
  let ?j = "recovered_job ?ct simulated_oom ?plan now j"
  have l: "lookup (rc_store ?rs) (job_id j) = Some j" using op by (simp add: one_open_def)
  have pl: "from_payload (job_payload j) = Some ?plan" using plan by (simp add: has_plan_def)
  have "\<exists>m. latest (pv_parse env) c = Inr m"
    by (cases "sort_key ck_created (map (doc_of \<circ> snd) (published c))") (simp_all add: latest_def ck_list_wf [OF wf])
  then obtain restored where reg: "latest_ckpt (pv_parse env) ?ct = Inr restored" by (auto simp: latest_ckpt_def)
  have pk: "pk (rc_store ?rs)" using one_open_pk [OF op] by simp
  obtain br where b: "handle_branch (pv_parse env) ?ct now j simulated_oom ?rs = (?rs\<lparr>rc_store := replace_job ?j s\<rparr>, Inr br)"
    by (rule handle_branch_running [OF pk l run pl reg]) simp
  have "\<exists>ev. handle (pv_parse env) ?ct (pv_gpu env) now ts j simulated_oom ?rs
      = (\<lparr>rc_store = replace_job ?j s, rc_log = e @ [ev]\<rparr>, Inr ev)"
    by (simp add: handle_def b bindA_def persist_def)
  then obtain ev where h: "handle (pv_parse env) ?ct (pv_gpu env) now ts j simulated_oom ?rs
      = (\<lparr>rc_store = replace_job ?j s, rc_log = e @ [ev]\<rparr>, Inr ev)" by blast
  have st: "job_state ?j = PENDING"
    using plan by (simp add: recovered_fields has_plan_def gives_up_def oom_classified can_shrink_def)
  have okj: "job_ok j" by (rule one_open_ok [OF op])
  have "job_ok ?j"
    using okj plan st recovered_fields(2,3,4) [of ?ct simulated_oom ?plan now j]
    by (simp add: job_ok_def has_plan_def) (simp add: recovered_job_def failed_job_def with_payload_def set_state_def)
  then have "one_open env d (replace_job ?j s) ?j" by (rule one_open_replace [OF op recovered_fields(1)])
  moreover have "job_kind ?j = job_kind j"
    by (simp add: recovered_job_def failed_job_def with_payload_def set_state_def)
  moreover have "map_of (job_payload ?j) ''microbatch_size'' \<noteq> None \<or> map_of (job_payload j) ''microbatch_size'' = None"
    by (auto simp: recovered_fields shrunk_payload_def update_conv')
  ultimately show thesis
    using that [of ?j ev] st recovered_fields(1) h by (simp add: recover_def is_pending_def)
qed


lemma oom_stage_recovers:
  assumes op: "one_open env d s j" and run: "job_state j = RUNNING" and kind: "job_kind j = ''optimize''"
    and plan: "has_plan j" and mb: "map_of (job_payload j) ''microbatch_size'' \<noteq> None" and wf: "ck_wf c"
  obtains s' j' e' d' where "oom_stage env cfg oom_here (job_id j) \<lparr>pp_store = s, pp_world = w, pp_ckpts = c, pp_events = e, pp_metrics = m, pp_drawn = d\<rparr>
      = (\<lparr>pp_store = s', pp_world = w, pp_ckpts = c, pp_events = e', pp_metrics = m, pp_drawn = d'\<rparr>, Inr ())"
    and "one_open env d' s' j'" and "job_state j' = RUNNING" and "job_id j' = job_id j"
    and "map_of (job_payload j') ''microbatch_size'' \<noteq> None"
    and "length e' = length e + (if oom_here then 1 else 0)" and "length (jobs_table s') = length (jobs_table s)"
proof (cases oom_here)
  case False
  then show thesis using that [of s e d j] op run mb by (simp add: oom_stage_def)
next
  case True
  let ?t = "pv_clock env"
  have g: "get_job (job_id j) s = (s, Inr j)" using op by (simp add: get_job_def one_open_def)
  obtain j2 ev where rec: "recover env cfg (?t d) (?t (Suc d)) j \<lparr>pp_store = s, pp_world = w, pp_ckpts = c, pp_events = e, pp_metrics = m, pp_drawn = Suc (Suc d)\<rparr>
      = (\<lparr>pp_store = replace_job j2 s, pp_world = w, pp_ckpts = c, pp_events = e @ [ev], pp_metrics = m, pp_drawn = Suc (Suc d)\<rparr>, Inr ev)"
    and j2: "one_open env d (replace_job j2 s) j2" "is_pending j2" "job_id j2 = job_id j" "job_kind j2 = job_kind j"
      "map_of (job_payload j2) ''microbatch_size'' \<noteq> None \<or> map_of (job_payload j) ''microbatch_size'' = None"
    by (rule recover_open [OF op run plan wf])
  let ?t4 = "?t (Suc (Suc d))"
  let ?j3 = "set_claimed (?t4 + 30) ?t4 j2"
  have cl: "claim (Some [''optimize'']) 30 ?t4 (replace_job j2 s) = (replace_job ?j3 (replace_job j2 s), Inr (Some ?j3))"
    by (rule claim_open [OF j2(1,2)]) (simp add: j2(4) kind)
  have "oom_stage env cfg oom_here (job_id j) \<lparr>pp_store = s, pp_world = w, pp_ckpts = c, pp_events = e, pp_metrics = m, pp_drawn = d\<rparr>
      = (\<lparr>pp_store = replace_job ?j3 (replace_job j2 s), pp_world = w, pp_ckpts = c, pp_events = e @ [ev], pp_metrics = m, pp_drawn = Suc (Suc (Suc d))\<rparr>, Inr ())"
    using True rec unfolding oom_stage_def by (simp add: on_jobs_eq [where f = "get_job (job_id j)", OF g]
        on_jobs_eq [where f = "claim (Some [''optimize'']) 30 ?t4", OF cl] pdraw_eq)
  moreover have "one_open env (Suc (Suc (Suc d))) (replace_job ?j3 (replace_job j2 s)) ?j3"
    using one_open_replace [OF j2(1), of ?j3] job_ok_claimed [OF one_open_ok [OF j2(1)] j2(2)]
    by (intro one_open_mono [where d = d and d' = "Suc (Suc (Suc d))"]) simp_all
  ultimately show thesis using that [of _ _ _ ?j3] j2(3,5) mb True by (simp add: set_claimed_def)
qed

section \<open>The checkpoint of a step\<close>

lemma show_padded_nat: "list_all is_digit (show_padded w (int n))"
  using show_nat_digits [of n] by (auto simp: show_padded_def Let_def list_all_iff is_digit_def code_def)

lemma ckpt_id_step:
  assumes "ckpt_id_of (int i) h = ckpt_id_of (int k) h'"
  shows "i = k"
proof -
  have tw: "takeWhile (\<lambda>c. c \<noteq> CHR ''-'') (show_padded 6 (int n) @ CHR ''-'' # r) = show_padded 6 (int n)" for n r
    using show_padded_nat [of 6 n] digit_not_underscore by (intro takeWhile_append2 [THEN trans]) (auto simp: list_all_iff)
  have "show_padded 6 (int i) @ CHR ''-'' # h = show_padded 6 (int k) @ CHR ''-'' # h'"
    using assms by (simp add: ckpt_id_of_def)
  from arg_cong [OF this, of "takeWhile (\<lambda>c. c \<noteq> CHR ''-'')"] have "show_padded 6 (int i) = show_padded 6 (int k)"
    unfolding tw .
  then show ?thesis using show_padded_inject [of "int i" "int k" 6] by simp
qed

lemma policy_of_inject: "policy_of i = policy_of k \<longleftrightarrow> i = k"
  using show_padded_inject [of "int i" "int k" 3] by (auto simp: policy_of_def)

definition intact :: "(string \<Rightarrow> string) \<Rightarrow> ckpt_manifest dir \<Rightarrow> bool" where
  "intact sha d \<longleftrightarrow> (\<exists>m. map_of d MANIFEST_NAME = Some (Doc m) \<and> (\<forall>render. verify_entries sha render d (ck_files m) = Inr ()))"

definition ckpts_ok :: "(string \<Rightarrow> string) \<Rightarrow> nat \<Rightarrow> ckpt_fs \<Rightarrow> bool" where
  "ckpts_ok sha k c \<longleftrightarrow> ck_wf c \<and> length (published c) = k \<and> (\<forall>d \<in> snd ` set (published c). intact sha d) \<and>
     (\<forall>n \<in> fst ` set (published c). \<exists>i < k. \<exists>h. n = ckpt_id_of (int i) h)"

lemma save_state_fresh:
  assumes "ckpts_ok sha k c"
  obtains c' mf where "save_state sha dumps st8 hex8 tmp8 now now' state (int k) policy md c = (c', Inr mf)" and "ckpts_ok sha (Suc k) c'"
proof -
  let ?id = "ckpt_id_of (int k) hex8"
  let ?c1 = "c\<lparr>staging := AList.update (''_state-'' @ st8) [(''state.json'', Bytes (dumps state))] (staging c)\<rparr>"
  let ?make = "make_manifest ?id (int k) policy now md"
  let ?d = "staged_dir sha MANIFEST_NAME ?make [(''state.json'', dumps state)]"
  have names: "?id \<notin> fst ` set (published c)"
  proof
    assume "?id \<in> fst ` set (published c)"
    then obtain i h where "i < k" "?id = ckpt_id_of (int i) h" using assms by (auto simp: ckpts_ok_def)
    then show False using ckpt_id_step [of k hex8 i h] by simp
  qed
  then have fresh: "map_of (published ?c1) ?id = None" by (simp add: map_of_eq_None_iff)
  obtain c2 where sv: "save sha hex8 tmp8 now now' (int k) policy md [(''state.json'', dumps state)] ?c1
      = (c2, Inr (make_manifest ?id (int k) policy now' md (entries_of sha [(''state.json'', dumps state)])))"
    and pub: "published c2 = AList.update ?id ?d (published ?c1)"
    by (rule save_fresh [OF fresh])
  have p: "published c2 = published c @ [(?id, ?d)]" using pub fresh by (simp add: update_fresh)
  let ?c' = "c2\<lparr>staging := AList.delete (''_state-'' @ st8) (staging c2)\<rparr>"
  have mf: "map_of ?d MANIFEST_NAME = Some (Doc (?make (entries_of sha [(''state.json'', dumps state)])))"
    by (rule ckpt.staged_manifest)
  then have "intact sha ?d"
    using ckpt.published_verifies [of "[(''state.json'', dumps state)]" sha _ ?id "int k" policy now md]
    by (auto simp: intact_def make_manifest_def MANIFEST_NAME_def)
  then have "\<forall>d \<in> snd ` set (published ?c'). intact sha d" using assms by (auto simp: ckpts_ok_def p)
  moreover have "ck_wf ?c'"
    using mf assms names by (auto simp: ck_wf_def ckpts_ok_def p make_manifest_def)
  moreover have "\<forall>n \<in> fst ` set (published ?c'). \<exists>i < Suc k. \<exists>h. n = ckpt_id_of (int i) h"
  proof
    fix n assume "n \<in> fst ` set (published ?c')"
    then have "n \<in> fst ` set (published c) \<or> n = ?id" by (auto simp: p)
    then show "\<exists>i < Suc k. \<exists>h. n = ckpt_id_of (int i) h"
      using assms less_SucI unfolding ckpts_ok_def by blast
  qed
  ultimately have "ckpts_ok sha (Suc k) ?c'" using assms by (simp add: ckpts_ok_def p)
  moreover have "save_state sha dumps st8 hex8 tmp8 now now' state (int k) policy md c =
      (?c', Inr (make_manifest ?id (int k) policy now' md (entries_of sha [(''state.json'', dumps state)])))"
    using sv by (simp add: save_state_def)
  ultimately show thesis by (rule that [rotated])
qed

lemma ckpts_verify:
  assumes "ckpts_ok sha k c" and "n \<in> fst ` set (published c)"
  shows "\<exists>m. ck_verify sha render parse c n = Inr m"
proof -
  obtain d where d: "(n, d) \<in> set (published c)" using assms(2) by auto
  have wf: "ck_wf c" using assms(1) by (simp add: ckpts_ok_def)
  then have "map_of (published c) n = Some d" using d by (simp add: ck_wf_def)
  moreover have "intact sha d" using assms(1) d by (force simp: ckpts_ok_def)
  ultimately show ?thesis by (auto simp: intact_def ck_verify_def ck_get_def dir_of_def)
qed

lemma listed_ids:
  assumes "ckpts_ok sha k c"
  shows "\<exists>ms. ck_list parse c = Inr ms \<and> length ms = k \<and> set (map ck_id ms) = fst ` set (published c)"
proof -
  have wf: "ck_wf c" and len: "length (published c) = k" using assms by (simp_all add: ckpts_ok_def)
  have "ck_id (doc_of d) = n" if "(n, d) \<in> set (published c)" for n d
    using wf that by (auto simp: ck_wf_def list_all_iff doc_of_def)
  then have "ck_id ` doc_of ` snd ` set (published c) = fst ` set (published c)" by force
  then show ?thesis using len by (simp add: ck_list_wf [OF wf] image_comp comp_def)
qed

lemma checkpoint_written:
  assumes "ckpts_ok (pv_sha env) k c" and "map_of (job_payload j) ''microbatch_size'' \<noteq> None"
  obtains c' mf where "checkpoint_step env k policy mean n j \<lparr>pp_store = s, pp_world = w, pp_ckpts = c, pp_events = e, pp_metrics = m, pp_drawn = d\<rparr>
      = (\<lparr>pp_store = s, pp_world = w, pp_ckpts = c', pp_events = e, pp_metrics = m, pp_drawn = d + 1 + 1 + 1\<rparr>, Inr mf)"
    and "ckpts_ok (pv_sha env) (Suc k) c'"
proof -
  obtain mb where mb: "map_of (job_payload j) ''microbatch_size'' = Some mb" using assms(2) by blast
  obtain c' mf where sv: "save_state (pv_sha env) (pv_dumps env) (pv_id env d) (pv_id env (d + 1)) (pv_id env (d + 1 + 1))
      (pv_clock env (d + 1)) (pv_clock env (d + 1 + 1))
      [(''step'', JInt (int k)), (''policy_id'', JStr policy), (''reward_mean'', JNum mean), (''microbatch_size'', mb)]
      (int k) (Some policy) [(''reward_mean'', JNum mean), (''n_trajectories'', JInt (int n))] c = (c', Inr mf)"
    and ok: "ckpts_ok (pv_sha env) (Suc k) c'"
    by (rule save_state_fresh [OF assms(1)])
  have "checkpoint_step env k policy mean n j \<lparr>pp_store = s, pp_world = w, pp_ckpts = c, pp_events = e, pp_metrics = m, pp_drawn = d\<rparr>
      = (\<lparr>pp_store = s, pp_world = w, pp_ckpts = c', pp_events = e, pp_metrics = m, pp_drawn = d + 1 + 1 + 1\<rparr>, Inr mf)"
    using sv by (simp add: checkpoint_step_def pdraw_eq mb Let_def)
  then show thesis using ok by (rule that)
qed


section \<open>The optimize job of a step\<close>

definition metrics_row :: "nat \<Rightarrow> string \<Rightarrow> real list \<Rightarrow> bool \<Rightarrow> metrics_line" where
  "metrics_row step policy rs oom_here =
     \<lparr>ml_step = step, ml_policy = policy, ml_reward_mean = (if rs = [] then 0 else list_mean rs),
      ml_reward_std = (if length rs > 1 then pstdev rs else 0), ml_n = length rs, ml_recovered_oom = oom_here\<rparr>"

lemma metrics_row_mset: "mset xs = mset ys \<Longrightarrow> metrics_row k p xs b = metrics_row k p ys b"
  using list_mean_mset [of xs ys] pstdev_mset [of xs ys] mset_eq_length [of xs ys] by (auto simp: metrics_row_def)

lemma step_recorded:
  assumes op: "one_open env d s j" and run: "job_state j = RUNNING"
    and mb: "map_of (job_payload j) ''microbatch_size'' \<noteq> None" and ck: "ckpts_ok (pv_sha env) k c"
  obtains s' c' d' where "record_step env k policy oom_here (job_id j)
        \<lparr>pp_store = s, pp_world = w, pp_ckpts = c, pp_events = e, pp_metrics = m, pp_drawn = d\<rparr>
      = (\<lparr>pp_store = s', pp_world = w, pp_ckpts = c', pp_events = e,
          pp_metrics = m @ [metrics_row k policy (List.map_filter tr_reward (by_policy policy (hw_rows w))) oom_here], pp_drawn = d'\<rparr>,
         Inr (metrics_row k policy (List.map_filter tr_reward (by_policy policy (hw_rows w))) oom_here))"
    and "settled env d' s'" and "length (jobs_table s') = length (jobs_table s)" and "ckpts_ok (pv_sha env) (Suc k) c'"
proof -
  let ?r = "List.map_filter tr_reward (by_policy policy (hw_rows w))"
  have g: "get_job (job_id j) s = (s, Inr j)" using op by (simp add: get_job_def one_open_def)
  let ?t = "pv_clock env (d + 1 + 1 + 1)"
  have fin: "complete ?t (job_id j) s = (replace_job (finished ?t j) s, Inr (finished ?t j))"
    using op run by (intro complete_running one_open_pk [OF op]) (simp_all add: one_open_def)
  obtain c' mf where ckpt: "checkpoint_step env k policy (if ?r = [] then 0 else list_mean ?r) (length ?r) j
      \<lparr>pp_store = s, pp_world = w, pp_ckpts = c, pp_events = e, pp_metrics = m, pp_drawn = d\<rparr>
      = (\<lparr>pp_store = s, pp_world = w, pp_ckpts = c', pp_events = e, pp_metrics = m, pp_drawn = d + 1 + 1 + 1\<rparr>, Inr mf)"
    and ok: "ckpts_ok (pv_sha env) (Suc k) c'"
    by (rule checkpoint_written [OF ck mb])
  have "job_ok (finished ?t j)" using one_open_ok [OF op] run by (auto simp: job_ok_def finished_def)
  then have "one_open env d (replace_job (finished ?t j) s) (finished ?t j)" by (intro one_open_replace [OF op]) simp_all
  from one_open_settled [OF this] have "settled env d (replace_job (finished ?t j) s)" by (simp add: finished_def)
  then have "settled env (d + 1 + 1 + 1 + 1) (replace_job (finished ?t j) s)" by (rule settled_mono) simp
  moreover have "record_step env k policy oom_here (job_id j)
        \<lparr>pp_store = s, pp_world = w, pp_ckpts = c, pp_events = e, pp_metrics = m, pp_drawn = d\<rparr>
      = (\<lparr>pp_store = replace_job (finished ?t j) s, pp_world = w, pp_ckpts = c', pp_events = e,
          pp_metrics = m @ [metrics_row k policy ?r oom_here], pp_drawn = d + 1 + 1 + 1 + 1\<rparr>, Inr (metrics_row k policy ?r oom_here))"
    unfolding record_step_def step_rewards_def Let_def pipe.simps
    by (subst bind_on_jobs [where f = "get_job (job_id j)", OF g],
        subst bindA_Inr [where m = "checkpoint_step env k policy (if ?r = [] then 0 else list_mean ?r) (length ?r) j", OF ckpt],
        subst bind_pdraw, unfold prod.case,
        subst bind_on_jobs [where f = "complete ?t (job_id j)", OF fin])
      (simp add: log_line_def metrics_row_def)
  ultimately show thesis using that ok by simp
qed

lemma optimize_done:
  assumes inj: "inj (pv_id env)" and st: "settled env d s" and ck: "ckpts_ok (pv_sha env) k c"
  obtains s' c' e' d' where "run_optimize env cfg k policy
        \<lparr>pp_store = s, pp_world = w, pp_ckpts = c, pp_events = e, pp_metrics = m, pp_drawn = d\<rparr>
      = (\<lparr>pp_store = s', pp_world = w, pp_ckpts = c', pp_events = e',
          pp_metrics = m @ [metrics_row k policy (List.map_filter tr_reward (by_policy policy (hw_rows w))) (pc_oom_at_step cfg = Some k)], pp_drawn = d'\<rparr>,
         Inr (metrics_row k policy (List.map_filter tr_reward (by_policy policy (hw_rows w))) (pc_oom_at_step cfg = Some k)))"
    and "settled env d' s'" and "length (jobs_table s') = length (jobs_table s) + 1" and "ckpts_ok (pv_sha env) (Suc k) c'"
    and "length e' = length e + (if pc_oom_at_step cfg = Some k then 1 else 0)"
proof -
  let ?pl = "[(''step'', JInt (int k)), (''policy_id'', JStr policy), (''microbatch_size'', JInt 8), (''grad_accum_steps'', JInt 1)]"
  let ?j = "new_job (pv_id env d) (pv_clock env d) ''optimize'' ?pl 3 ''cpu'' 0"
  let ?s1 = "s\<lparr>jobs_table := jobs_table s @ [?j]\<rparr>"
  let ?t = "pv_clock env (d + 1)"
  let ?j1 = "set_claimed (?t + 30) ?t ?j"
  let ?s2 = "replace_job ?j1 ?s1"
  let ?oom = "pc_oom_at_step cfg = Some k"
  note cr = created_open [OF inj st, where kind = "''optimize''" and payload = ?pl]
  have enq: "enqueue_one env ''optimize'' ?pl \<lparr>pp_store = s, pp_world = w, pp_ckpts = c, pp_events = e, pp_metrics = m, pp_drawn = d\<rparr>
      = (\<lparr>pp_store = ?s1, pp_world = w, pp_ckpts = c, pp_events = e, pp_metrics = m, pp_drawn = d + 1\<rparr>, Inr ?j)"
    unfolding enqueue_one_def by (subst bind_pdraw, unfold prod.case)
      (rule on_jobs_eq [where f = "create (pv_id env d) (pv_clock env d) ''optimize'' ?pl 3 ''cpu'' 0", OF cr(1)])
  have pend: "is_pending ?j" by (simp add: is_pending_def new_job_def)
  have cl: "claim (Some [''optimize'']) 30 ?t ?s1 = (?s2, Inr (Some ?j1))"
    by (rule claim_open [OF cr(2) pend]) (simp add: new_job_def)
  have op1: "one_open env (d + 1 + 1) ?s2 ?j1"
    using one_open_replace [OF cr(2), of ?j1] job_ok_claimed [OF one_open_ok [OF cr(2)] pend]
    by (intro one_open_mono [where d = "d + 1" and d' = "d + 1 + 1"]) simp_all
  have j1: "job_state ?j1 = RUNNING" "job_kind ?j1 = ''optimize''" "has_plan ?j1"
    "map_of (job_payload ?j1) ''microbatch_size'' \<noteq> None" "job_id ?j1 = job_id ?j"
    by (simp_all add: set_claimed_def new_job_def has_plan_def from_payload_def int_field_def)
  have wf: "ck_wf c" using ck by (simp add: ckpts_ok_def)
  obtain s3 j3 e3 d3 where oom: "oom_stage env cfg ?oom (job_id ?j1) \<lparr>pp_store = ?s2, pp_world = w, pp_ckpts = c, pp_events = e, pp_metrics = m, pp_drawn = d + 1 + 1\<rparr>
      = (\<lparr>pp_store = s3, pp_world = w, pp_ckpts = c, pp_events = e3, pp_metrics = m, pp_drawn = d3\<rparr>, Inr ())"
    and o3: "one_open env d3 s3 j3" "job_state j3 = RUNNING" "job_id j3 = job_id ?j1"
      "map_of (job_payload j3) ''microbatch_size'' \<noteq> None" "length e3 = length e + (if ?oom then 1 else 0)"
      "length (jobs_table s3) = length (jobs_table ?s2)"
    by (rule oom_stage_recovers [OF op1 j1(1-4) wf])
  obtain s4 c4 d4 where rec: "record_step env k policy ?oom (job_id j3)
        \<lparr>pp_store = s3, pp_world = w, pp_ckpts = c, pp_events = e3, pp_metrics = m, pp_drawn = d3\<rparr>
      = (\<lparr>pp_store = s4, pp_world = w, pp_ckpts = c4, pp_events = e3,
          pp_metrics = m @ [metrics_row k policy (List.map_filter tr_reward (by_policy policy (hw_rows w))) ?oom], pp_drawn = d4\<rparr>,
         Inr (metrics_row k policy (List.map_filter tr_reward (by_policy policy (hw_rows w))) ?oom))"
    and r4: "settled env d4 s4" "length (jobs_table s4) = length (jobs_table s3)" "ckpts_ok (pv_sha env) (Suc k) c4"
    by (rule step_recorded [OF o3(1,2,4) ck])
  have "run_optimize env cfg k policy \<lparr>pp_store = s, pp_world = w, pp_ckpts = c, pp_events = e, pp_metrics = m, pp_drawn = d\<rparr>
      = (\<lparr>pp_store = s4, pp_world = w, pp_ckpts = c4, pp_events = e3,
          pp_metrics = m @ [metrics_row k policy (List.map_filter tr_reward (by_policy policy (hw_rows w))) ?oom], pp_drawn = d4\<rparr>,
         Inr (metrics_row k policy (List.map_filter tr_reward (by_policy policy (hw_rows w))) ?oom))"
    unfolding run_optimize_def Let_def
    by (subst bindA_Inr [where m = "enqueue_one env ''optimize'' ?pl", OF enq], subst bind_pdraw, unfold prod.case,
        subst bind_on_jobs [where f = "claim (Some [''optimize'']) 30 ?t", OF cl],
        subst bindA_Inr [where m = "oom_stage env cfg ?oom (job_id ?j)", OF oom [unfolded j1(5)]]) (rule rec [unfolded o3(3) j1(5)])
  then show thesis using that r4 o3(5,6) by simp
qed

section \<open>One step\<close>

definition step_row :: "'g pipe_env \<Rightarrow> pipeline_config \<Rightarrow> prompt_example list \<Rightarrow> nat \<Rightarrow> metrics_line" where
  "step_row env cfg prompts k = metrics_row k (policy_of k) (step_scores env cfg prompts k) (pc_oom_at_step cfg = Some k)"

definition oom_seen :: "pipeline_config \<Rightarrow> nat \<Rightarrow> nat" where
  "oom_seen cfg k = (case pc_oom_at_step cfg of None \<Rightarrow> 0 | Some i \<Rightarrow> if i < k then 1 else 0)"

lemma oom_seen_Suc: "oom_seen cfg (Suc k) = oom_seen cfg k + (if pc_oom_at_step cfg = Some k then 1 else 0)"
  by (auto simp: oom_seen_def split: option.splits)

definition pipe_inv :: "'g pipe_env \<Rightarrow> pipeline_config \<Rightarrow> prompt_example list \<Rightarrow> nat \<Rightarrow> pipe \<Rightarrow> bool" where
  "pipe_inv env cfg prompts k st \<longleftrightarrow>
     settled env (pp_drawn st) (pp_store st) \<and>
     length (jobs_table (pp_store st)) = k * (length prompts + 1) \<and>
     world_ok env (pp_world st) \<and>
     length (hw_rows (pp_world st)) = k * (length prompts * nat (pc_num_samples cfg)) \<and>
     (\<forall>t \<in> set (hw_rows (pp_world st)). \<exists>i < k. ln_policy_id (tr_lineage t) = policy_of i) \<and>
     ckpts_ok (pv_sha env) k (pp_ckpts st) \<and> length (pp_events st) = oom_seen cfg k"

lemma map_filter_all: "map f xs = map Some ys \<Longrightarrow> List.map_filter f xs = ys"
  by (induction xs arbitrary: ys) (auto simp: List.map_filter_def)

lemma new_rewards:
  assumes "\<forall>t \<in> set old. ln_policy_id (tr_lineage t) \<noteq> p" and "\<forall>t \<in> set new. ln_policy_id (tr_lineage t) = p"
    and "map tr_reward new = map Some scores"
  shows "mset (List.map_filter tr_reward (by_policy p (old @ new))) = mset scores"
proof -
  have "filter (\<lambda>t. ln_policy_id (tr_lineage t) = p) (old @ new) = new" using assms(1,2) by (simp add: filter_id_conv)
  then have "by_policy p (old @ new) = sort_key tr_created_at new" by (simp add: by_policy_def traj_query_def)
  then have "mset (List.map_filter tr_reward (by_policy p (old @ new))) = mset (List.map_filter tr_reward new)"
    by (simp add: List.map_filter_def mset_filter)
  then show ?thesis using map_filter_all [OF assms(3)] by simp
qed

lemma pipeline_step_done:
  assumes env: "env_ok env" and n: "1 \<le> pc_num_samples cfg" "0 < pc_n_workers cfg"
    and fair: "fair_rounds (pc_n_workers cfg) (rounds_needed (pc_n_workers cfg) (6 * length prompts)) (pv_schedule env k)"
    and inv: "pipe_inv env cfg prompts k st"
  obtains st' where "pipeline_step env cfg prompts k st = (st', Inr (step_row env cfg prompts k))"
    and "pipe_inv env cfg prompts (Suc k) st'" and "pp_metrics st' = pp_metrics st @ [step_row env cfg prompts k]"
proof -
  let ?P = "length prompts" and ?oom = "pc_oom_at_step cfg = Some k"
  note i = inv [unfolded pipe_inv_def]
  obtain s1 w1 rows where roll:
    "bindA (enqueue_rollouts env cfg prompts k (policy_of k)) (\<lambda>_. run_workers env cfg k) st =
      (st\<lparr>pp_store := s1, pp_world := w1, pp_drawn := pp_drawn st + ?P\<rparr>, Inr ())"
    and r: "settled env (pp_drawn st + ?P) s1" "length (jobs_table s1) = length (jobs_table (pp_store st)) + ?P"
      "world_ok env w1" "hw_rows w1 = hw_rows (pp_world st) @ rows"
      "\<forall>t \<in> set rows. ln_policy_id (tr_lineage t) = policy_of k"
      "\<exists>scores. map tr_reward rows = map Some scores \<and> mset scores = mset (step_scores env cfg prompts k)"
    by (rule rollout_stage [OF env _ _ n fair, of st]) (use i in blast)+
  obtain scores where sc: "map tr_reward rows = map Some scores" "mset scores = mset (step_scores env cfg prompts k)"
    using r(6) by blast
  have other: "\<forall>t \<in> set (hw_rows (pp_world st)). ln_policy_id (tr_lineage t) \<noteq> policy_of k"
    using i policy_of_inject by (metis less_irrefl)
  have row: "metrics_row k (policy_of k) (List.map_filter tr_reward (by_policy (policy_of k) (hw_rows w1))) ?oom = step_row env cfg prompts k"
    unfolding r(4) step_row_def by (rule metrics_row_mset) (use new_rewards [OF other r(5) sc(1)] sc(2) in simp)
  have "inj (pv_id env)" "ckpts_ok (pv_sha env) k (pp_ckpts st)" using env i by (simp_all add: env_ok_def)
  then obtain s2 c2 e2 d2 where opt: "run_optimize env cfg k (policy_of k)
        \<lparr>pp_store = s1, pp_world = w1, pp_ckpts = pp_ckpts st, pp_events = pp_events st, pp_metrics = pp_metrics st, pp_drawn = pp_drawn st + ?P\<rparr>
      = (\<lparr>pp_store = s2, pp_world = w1, pp_ckpts = c2, pp_events = e2, pp_metrics = pp_metrics st @ [step_row env cfg prompts k], pp_drawn = d2\<rparr>,
         Inr (step_row env cfg prompts k))"
    and o: "settled env d2 s2" "length (jobs_table s2) = length (jobs_table s1) + 1" "ckpts_ok (pv_sha env) (Suc k) c2"
      "length e2 = length (pp_events st) + (if ?oom then 1 else 0)"
    using optimize_done [OF _ r(1), of k "pp_ckpts st" cfg "policy_of k" w1 "pp_events st" "pp_metrics st"] unfolding row by blast
  let ?st = "\<lparr>pp_store = s2, pp_world = w1, pp_ckpts = c2, pp_events = e2, pp_metrics = pp_metrics st @ [step_row env cfg prompts k], pp_drawn = d2\<rparr>"
  have upd: "st\<lparr>pp_store := s1, pp_world := w1, pp_drawn := pp_drawn st + ?P\<rparr> =
      \<lparr>pp_store = s1, pp_world = w1, pp_ckpts = pp_ckpts st, pp_events = pp_events st, pp_metrics = pp_metrics st, pp_drawn = pp_drawn st + ?P\<rparr>"
    by (cases st) simp
  have step: "pipeline_step env cfg prompts k st = (?st, Inr (step_row env cfg prompts k))"
    unfolding pipeline_step_def bindA_assoc [symmetric]
    by (subst bindA_Inr [where m = "bindA (enqueue_rollouts env cfg prompts k (policy_of k)) (\<lambda>_. run_workers env cfg k)", OF roll])
      (simp only: upd opt)
  have len: "length rows = ?P * nat (pc_num_samples cfg)"
    using arg_cong [OF sc(1), of length] mset_eq_length [OF sc(2)] length_step_scores [of env cfg prompts k] env
    by (simp add: env_ok_def)
  have "\<exists>j < Suc k. ln_policy_id (tr_lineage t) = policy_of j" if t: "t \<in> set (hw_rows w1)" for t
  proof -
    from t r(4) have "t \<in> set (hw_rows (pp_world st)) \<or> t \<in> set rows" by simp
    then show ?thesis using i r(5) less_SucI by blast
  qed
  then have "pipe_inv env cfg prompts (Suc k) ?st"
    using i r o len by (simp add: pipe_inv_def oom_seen_Suc add_mult_distrib)
  with step show thesis by (rule that) simp
qed

section \<open>All steps\<close>

lemma pipeline_steps_done:
  assumes env: "env_ok env" and n: "1 \<le> pc_num_samples cfg" "0 < pc_n_workers cfg"
    and fair: "\<And>i. i < k + m \<Longrightarrow> fair_rounds (pc_n_workers cfg) (rounds_needed (pc_n_workers cfg) (6 * length prompts)) (pv_schedule env i)"
    and inv: "pipe_inv env cfg prompts k st"
  shows "\<exists>st'. mapA (pipeline_step env cfg prompts) [k..<k + m] st = (st', Inr (map (step_row env cfg prompts) [k..<k + m])) \<and>
    pipe_inv env cfg prompts (k + m) st' \<and> pp_metrics st' = pp_metrics st @ map (step_row env cfg prompts) [k..<k + m]"
  using fair inv
proof (induction m arbitrary: k st)
  case (Suc m)
  have "fair_rounds (pc_n_workers cfg) (rounds_needed (pc_n_workers cfg) (6 * length prompts)) (pv_schedule env k)"
    by (rule Suc.prems(1)) simp
  then obtain st1 where s1: "pipeline_step env cfg prompts k st = (st1, Inr (step_row env cfg prompts k))"
    "pipe_inv env cfg prompts (Suc k) st1" "pp_metrics st1 = pp_metrics st @ [step_row env cfg prompts k]"
    using pipeline_step_done [OF env n _ Suc.prems(2)] by blast
  have "\<exists>st'. mapA (pipeline_step env cfg prompts) [Suc k..<Suc k + m] st1 = (st', Inr (map (step_row env cfg prompts) [Suc k..<Suc k + m])) \<and>
    pipe_inv env cfg prompts (Suc k + m) st' \<and> pp_metrics st' = pp_metrics st1 @ map (step_row env cfg prompts) [Suc k..<Suc k + m]"
    by (rule Suc.IH) (use Suc.prems(1) s1(2) in simp_all)
  then obtain st2 where s2: "mapA (pipeline_step env cfg prompts) [Suc k..<Suc k + m] st1 = (st2, Inr (map (step_row env cfg prompts) [Suc k..<Suc k + m]))"
    "pipe_inv env cfg prompts (Suc k + m) st2" "pp_metrics st2 = pp_metrics st1 @ map (step_row env cfg prompts) [Suc k..<Suc k + m]" by blast
  have u: "[k..<k + Suc m] = k # [Suc k..<Suc k + m]" by (simp add: upt_conv_Cons)
  have "mapA (pipeline_step env cfg prompts) [k..<k + Suc m] st = (st2, Inr (map (step_row env cfg prompts) [k..<k + Suc m]))"
    unfolding u using s1(1) s2(1) by simp
  moreover have "pp_metrics st2 = pp_metrics st @ map (step_row env cfg prompts) [k..<k + Suc m]"
    unfolding u using s1(3) s2(3) by simp
  ultimately show ?case using s2(2) by auto
qed simp

section \<open>The whole run\<close>

lemma all_succeeded:
  assumes "settled env d s"
  shows "counts s = (if jobs_table s = [] then [] else [(SUCCEEDED, length (jobs_table s))])"
proof -
  have all: "\<forall>j \<in> set (jobs_table s). job_state j = SUCCEEDED" using assms by (simp add: settled_def)
  then have "map job_state (jobs_table s) = replicate (length (jobs_table s)) SUCCEEDED"
    by (auto intro: replicate_eqI)
  moreover have "remdups (replicate n x) = (if n = 0 then [] else [x])" for n and x :: job_state
    by (induction n) auto
  moreover have "filter (\<lambda>j. job_state j = SUCCEEDED) (jobs_table s) = jobs_table s" using all by simp
  ultimately show ?thesis by (simp add: counts_def group_count_def)
qed

lemma step_row_facts:
  assumes "gen_ok (pv_gen env)"
  shows "ml_n (step_row env cfg prompts k) = length prompts * nat (pc_num_samples cfg)"
    and "- (1/2) \<le> ml_reward_mean (step_row env cfg prompts k) \<and> ml_reward_mean (step_row env cfg prompts k) \<le> 1"
proof -
  show "ml_n (step_row env cfg prompts k) = length prompts * nat (pc_num_samples cfg)"
    by (simp add: step_row_def metrics_row_def length_step_scores [OF assms])
  have "\<forall>r \<in> set (step_scores env cfg prompts k). - (1/2) \<le> r \<and> r \<le> 1"
    using group_scored(2) [OF assms] by (auto simp: step_scores_def)
  then have "step_scores env cfg prompts k \<noteq> [] \<Longrightarrow> - (1/2) \<le> list_mean (step_scores env cfg prompts k) \<and> list_mean (step_scores env cfg prompts k) \<le> 1"
    unfolding list_mean_def by (intro mean_bounds) blast+
  then show "- (1/2) \<le> ml_reward_mean (step_row env cfg prompts k) \<and> ml_reward_mean (step_row env cfg prompts k) \<le> 1"
    by (simp add: step_row_def metrics_row_def)
qed

definition empty_root :: "pipe \<Rightarrow> bool" where
  "empty_root st \<longleftrightarrow> pp_store st = empty_store \<and> hw_rows (pp_world st) = [] \<and> published (pp_ckpts st) = [] \<and> pp_events st = []"

lemma empty_root_inv: "empty_root st \<Longrightarrow> pipe_inv env cfg prompts 0 (st\<lparr>pp_metrics := []\<rparr>)"
  by (auto simp: empty_root_def pipe_inv_def settled_def store_inv_def pk_def empty_store_def known_def has_result_def
      lookup_def row_by_Nil drawn_ids_def world_ok_def ckpts_ok_def ck_wf_def oom_seen_def split: option.splits)

definition fair_pools :: "'g pipe_env \<Rightarrow> pipeline_config \<Rightarrow> bool" where
  "fair_pools env cfg \<longleftrightarrow> list_all (\<lambda>k. fair_rounds (pc_n_workers cfg)
     (rounds_needed (pc_n_workers cfg) (6 * nat (pc_prompts_per_step cfg))) (pv_schedule env k)) [0..<pc_steps cfg]"

text \<open>What the run must report: every job succeeded, the tables hold what was asked for, every listed
  checkpoint verifies, and the rows are those of the scores.\<close>

definition complete_run :: "'g pipe_env \<Rightarrow> pipeline_config \<Rightarrow> prompt_example list \<Rightarrow> pipe \<Rightarrow> summary \<Rightarrow> bool" where
  "complete_run env cfg prompts st su \<longleftrightarrow>
     su_steps su = pc_steps cfg \<and>
     su_job_counts su = (if pc_steps cfg = 0 then [] else [(SUCCEEDED, pc_steps cfg * (length prompts + 1))]) \<and>
     su_trajectories su = pc_steps cfg * (length prompts * nat (pc_num_samples cfg)) \<and>
     length (su_checkpoints su) = pc_steps cfg \<and>
     (\<forall>c \<in> set (su_checkpoints su). \<forall>render. \<exists>m. ck_verify (pv_sha env) render (pv_parse env) (pp_ckpts st) c = Inr m) \<and>
     su_events su = oom_seen cfg (pc_steps cfg) \<and>
     su_per_step su = map (step_row env cfg prompts) [0..<pc_steps cfg] \<and>
     pp_metrics st = su_per_step su"

lemma run_completes:
  assumes env: "env_ok env" and n: "1 \<le> pc_num_samples cfg" "0 < pc_n_workers cfg"
    and fair: "fair_pools env cfg" and len: "length prompts = nat (pc_prompts_per_step cfg)" and root: "empty_root st"
  obtains st' su where "pipeline_run env cfg prompts st = (st', Inr su)" and "complete_run env cfg prompts st' su"
proof -
  have "fair_rounds (pc_n_workers cfg) (rounds_needed (pc_n_workers cfg) (6 * length prompts)) (pv_schedule env i)"
    if "i < 0 + pc_steps cfg" for i
    using fair that unfolding fair_pools_def len list_all_iff by simp
  from pipeline_steps_done [OF env n this empty_root_inv [OF root]]
  obtain st' where run: "mapA (pipeline_step env cfg prompts) [0..<pc_steps cfg] (st\<lparr>pp_metrics := []\<rparr>)
      = (st', Inr (map (step_row env cfg prompts) [0..<pc_steps cfg]))"
    and inv: "pipe_inv env cfg prompts (pc_steps cfg) st'" and met: "pp_metrics st' = map (step_row env cfg prompts) [0..<pc_steps cfg]"
    by auto
  note i = inv [unfolded pipe_inv_def]
  have ck: "ckpts_ok (pv_sha env) (pc_steps cfg) (pp_ckpts st')" using i by blast
  obtain ms where ms: "ck_list (pv_parse env) (pp_ckpts st') = Inr ms" "length ms = pc_steps cfg"
    "set (map ck_id ms) = fst ` set (published (pp_ckpts st'))" using listed_ids [OF ck] by blast
  have cnt: "counts (pp_store st') = (if pc_steps cfg = 0 then [] else [(SUCCEEDED, pc_steps cfg * (length prompts + 1))])"
    using all_succeeded i by (metis length_0_conv mult_is_0 Zero_not_Suc Suc_eq_plus1)
  let ?su = "\<lparr>su_steps = pc_steps cfg, su_job_counts = counts (pp_store st'),
     su_trajectories = traj_count (hw_rows (pp_world st')), su_checkpoints = map ck_id ms,
     su_events = length (pp_events st'), su_per_step = map (step_row env cfg prompts) [0..<pc_steps cfg]\<rparr>"
  have "pipeline_run env cfg prompts st = (st', Inr ?su)"
    unfolding pipeline_run_def by (simp add: bindA_def run summarise_def ms(1))
  moreover have "\<forall>c \<in> set (map ck_id ms). \<forall>render. \<exists>m. ck_verify (pv_sha env) render (pv_parse env) (pp_ckpts st') c = Inr m"
    unfolding ms(3) using ckpts_verify [OF ck] by blast
  then have "complete_run env cfg prompts st' ?su"
    using i met cnt ms(2) by (simp add: complete_run_def traj_count_def)
  ultimately show thesis by (rule that)
qed

lemma step_row_schedule: "step_row (env\<lparr>pv_schedule := sched\<rparr>) = step_row env"
  by (intro ext) (simp add: step_row_def step_scores_def)

lemma other_schedule:
  "env_ok (env\<lparr>pv_schedule := sched\<rparr>) = env_ok env"
  "pipeline_prompts (env\<lparr>pv_schedule := sched\<rparr>) cfg = pipeline_prompts env cfg"
  "complete_run (env\<lparr>pv_schedule := sched\<rparr>) cfg prompts st su = complete_run env cfg prompts st su"
  by (simp_all add: env_ok_def pipeline_prompts_def complete_run_def step_row_schedule)

text \<open>C11. The end-to-end pipeline completes whatever the interleaving of its workers: with an empty root,
  at least one sample per prompt and one worker, and workers that each keep getting turns, a run returns;
  all its jobs succeeded, the one that ran out of memory included; the tables hold one row per sample, one
  checkpoint per step, each of them verifying, and one recovery event iff the failing step was reached;
  the reported rewards are the statistics of the groups' scores and do not depend on the schedule.\<close>

theorem pipeline_completes:
  assumes "rng_ok (ge_rng (pv_gen env))" and "CHR ''$'' \<notin> set (ge_dash (pv_gen env))"
    and "inj (pv_id env)" and "inj (pv_traj_id env)"
    and "1 \<le> pc_num_samples cfg" and "0 < pc_n_workers cfg" and "empty_root st"
  shows "\<exists>prompts. pipeline_prompts env cfg = Some prompts \<and> length prompts = nat (pc_prompts_per_step cfg) \<and>
    (\<forall>k. ml_n (step_row env cfg prompts k) = length prompts * nat (pc_num_samples cfg) \<and>
       - (1/2) \<le> ml_reward_mean (step_row env cfg prompts k) \<and> ml_reward_mean (step_row env cfg prompts k) \<le> 1) \<and>
    (\<forall>sched. fair_pools (env\<lparr>pv_schedule := sched\<rparr>) cfg \<longrightarrow>
       (\<exists>st' su. run_pipeline (env\<lparr>pv_schedule := sched\<rparr>) (Some cfg) st = (st', Inr su) \<and> complete_run env cfg prompts st' su))"
proof -
  have gen: "gen_ok (pv_gen env)" and env: "env_ok env" using assms(1-4) by (simp_all add: env_ok_def gen_ok_def)
  obtain prompts where p: "pipeline_prompts env cfg = Some prompts" and len: "length prompts = nat (pc_prompts_per_step cfg)"
    using heldout_prompts [OF assms(1)] unfolding pipeline_prompts_def by blast
  have "\<exists>st' su. run_pipeline (env\<lparr>pv_schedule := sched\<rparr>) (Some cfg) st = (st', Inr su) \<and> complete_run env cfg prompts st' su"
    if fair: "fair_pools (env\<lparr>pv_schedule := sched\<rparr>) cfg" for sched
  proof -
    have "env_ok (env\<lparr>pv_schedule := sched\<rparr>)" using env by (simp add: other_schedule(1))
    from run_completes [OF this assms(5,6) fair len assms(7)] obtain st' su
      where "pipeline_run (env\<lparr>pv_schedule := sched\<rparr>) cfg prompts st = (st', Inr su)"
        and "complete_run env cfg prompts st' su" by (auto simp: other_schedule(3))
    then show ?thesis by (simp add: run_pipeline_def other_schedule(2) p)
  qed
  with p len step_row_facts [OF gen] show ?thesis by blast
qed

text \<open>The run of \<^verbatim>\<open>tests/test_pipeline.py\<close>, with the workers taking turns.\<close>

definition test_pipeline :: pipeline_config where
  "test_pipeline = default_pipeline\<lparr>pc_steps := 2, pc_prompts_per_step := 2, pc_num_samples := 2, pc_n_workers := 2\<rparr>"

definition test_env :: "nat pipe_env" where
  "test_env =
     \<lparr>pv_gen = sample_env, pv_repr = (\<lambda>_. []), pv_store_repr = (\<lambda>_. []), pv_id = (\<lambda>n. replicate n CHR ''x''),
      pv_clock = (\<lambda>_. 0), pv_traj_id = (\<lambda>n. replicate n CHR ''x''), pv_traj_clock = (\<lambda>_. 0), pv_sha = sum_sha,
      pv_dumps = (\<lambda>_. ''{}''), pv_parse = no_parse, pv_schedule = (\<lambda>_. concat (replicate 465 [(0, 0), (1, 0)])),
      pv_traj_db = ''trajectories.db'', pv_gpu = None\<rparr>"

definition test_root :: pipe where
  "test_root =
     \<lparr>pp_store = empty_store, pp_world = \<lparr>hw_rows = [], hw_drawn = 0\<rparr>, pp_ckpts = empty_ckpts, pp_events = [],
      pp_metrics = [], pp_drawn = 0\<rparr>"

lemma test_fair: "fair_pools test_env test_pipeline"
proof -
  have "fair_rounds 2 (rounds_needed 2 12) (concat (replicate 465 [(0, 0), (1, 0)]))"
    unfolding fair_rounds_def
    by (intro exI [of _ "replicate 465 [(0, 0), (1, 0)]"] conjI)
      (simp_all add: rounds_needed_def list_all_iff covers_def upt_conv_Cons numeral_2_eq_2)
  then show ?thesis by (simp add: fair_pools_def test_env_def test_pipeline_def list_all_iff)
qed

lemma pipeline_completes_witness:
  "\<exists>st' su. run_pipeline test_env (Some test_pipeline) test_root = (st', Inr su) \<and> su_job_counts su = [(SUCCEEDED, 6)] \<and>
     su_trajectories su = 8 \<and> length (su_checkpoints su) = 2 \<and> su_events su = 1 \<and>
     map ml_recovered_oom (su_per_step su) = [False, True]"
proof -
  have i: "inj (\<lambda>n. replicate n CHR ''x'')" by (rule injI) (simp add: replicate_eq_replicate)
  have "rng_ok (ge_rng (pv_gen test_env))" "CHR ''$'' \<notin> set (ge_dash (pv_gen test_env))" "inj (pv_id test_env)"
    "inj (pv_traj_id test_env)" "1 \<le> pc_num_samples test_pipeline" "0 < pc_n_workers test_pipeline" "empty_root test_root"
    using i by (simp_all add: test_env_def sample_env_def sample_rng_ok test_pipeline_def test_root_def empty_root_def empty_ckpts_def)
  note run = pipeline_completes [OF this]
  have "test_env\<lparr>pv_schedule := pv_schedule test_env\<rparr> = test_env" by simp
  then obtain prompts st' su where "length prompts = nat (pc_prompts_per_step test_pipeline)"
    "run_pipeline test_env (Some test_pipeline) test_root = (st', Inr su)" "complete_run test_env test_pipeline prompts st' su"
    using run test_fair by metis
  then show ?thesis
    by (intro exI [of _ st'] exI [of _ su])
      (simp add: complete_run_def test_pipeline_def default_pipeline_def oom_seen_def step_row_def metrics_row_def upt_conv_Cons numeral_2_eq_2)
qed

end
