(* ===== verification/Policy_Props.thy ===== *)
theory Policy_Props
  imports Policy
begin

text \<open>
  The properties of the policy registry and of staleness (\<^verbatim>\<open>src/shoprl/platform/policy.py\<close>).
\<close>

lemma version_name_fresh:
  assumes "pol_wf fs" and "v \<notin> versions fs"
  shows "map_of (published fs) (version_name v) = None"
  using assms(2) by (auto simp: versions_def map_of_eq_None_iff)

lemma next_fresh:
  assumes "pol_wf fs" and "next_version parse fs = Inr v"
  shows "v \<notin> versions fs"
proof
  assume "v \<in> versions fs"
  moreover from this have "v = Max (versions fs) + 1"
    using next_version_wf(1) [OF assms(1), of parse] assms(2) by (auto split: if_splits)
  ultimately show False using Max_ge [of "versions fs" v] by simp
qed

lemma publish_wf:
  assumes wf: "pol_wf fs" and v: "next_version parse fs = Inr v"
  obtains fs' where
    "publish sha parse tmp8 now now' src md fs
      = (fs', Inr ((policy_doc sha v now' md (entries_of sha src))\<lparr>pv_path := Some (version_name v)\<rparr>))"
    "published fs' = published fs @
      [(version_name v, staged_dir sha MANIFEST (policy_doc sha v now md) src)]"
    "pol_wf fs'" "versions fs' = insert v (versions fs)"
proof -
  let ?d = "staged_dir sha MANIFEST (policy_doc sha v now md) src"
  let ?fs' = "fold apply_op (ingest_ops sha (version_name v @ ''-'' @ tmp8) (version_name v) MANIFEST
      (policy_doc sha v now md) src) fs"
  have fresh: "map_of (published fs) (version_name v) = None"
    by (rule version_name_fresh [OF wf next_fresh [OF wf v]])
  have app: "published ?fs' = published fs @ [(version_name v, ?d)]"
    by (simp add: ingest_published update_fresh [OF fresh])
  have "pv_version (policy_doc sha v now md (entries_of sha src)) = v" by (simp add: policy_doc_def)
  then have doc: "\<exists>m. map_of ?d MANIFEST = Some (Doc m) \<and> version_name v = version_name (pv_version m)"
    using pol.staged_manifest [of sha v now md src] by auto
  have "pol_wf ?fs'" unfolding pol_wf_def app
    using wf fresh doc by (auto simp: pol_wf_def map_of_eq_None_iff)
  moreover have "versions ?fs' = insert v (versions fs)"
    unfolding versions_def app by auto
  moreover have "publish sha parse tmp8 now now' src md fs
      = (?fs', Inr ((policy_doc sha v now' md (entries_of sha src))\<lparr>pv_path := Some (version_name v)\<rparr>))"
    using fresh by (simp add: publish_def v publish_as_def atomic_ingest_def Let_def)
  ultimately show thesis using that app by blast
qed

text \<open>C18. On a well-formed registry \<open>publish\<close> creates the next version number, leaves every
  earlier version as it was, and the new version is intact: it verifies, an unpinned worker that
  refreshes gets it, and a publisher that had chosen the same number is refused without any effect.\<close>

theorem publish_next_version:
  assumes "pol_wf fs" and "distinct (map fst src)" and "MANIFEST \<notin> set (map fst src)"
    and "cl_pinned c = None"
  shows "\<exists>fs' p v. publish sha parse tmp8 now now' src md fs = (fs', Inr p) \<and>
    v = (if versions fs = {} then 1 else Max (versions fs) + 1) \<and> pv_version p = v \<and>
    versions fs' = insert v (versions fs) \<and> pol_wf fs' \<and>
    {w. w \<noteq> v \<and> pol_get parse fs' w \<noteq> pol_get parse fs w} = {} \<and>
    pol_verify sha render parse fs' v = Inr (p\<lparr>pv_created := now\<rparr>) \<and>
    snd (refresh parse fs' c) = Inr (Some v) \<and>
    publish_as sha tmp8' now2 now2' src2 md2 v fs' = (fs', Inl (PolicyIngestFailed (FileExists (version_name v))))"
proof -
  define v where "v = (if versions fs = {} then 1 else Max (versions fs) + 1)"
  have nv: "next_version parse fs = Inr v" using next_version_wf(1) [OF assms(1)] by (simp add: v_def)
  let ?p = "(policy_doc sha v now' md (entries_of sha src))\<lparr>pv_path := Some (version_name v)\<rparr>"
  let ?d = "staged_dir sha MANIFEST (policy_doc sha v now md) src"
  obtain fs' where p: "publish sha parse tmp8 now now' src md fs = (fs', Inr ?p)"
    and app: "published fs' = published fs @ [(version_name v, ?d)]"
    and wf': "pol_wf fs'" and vs: "versions fs' = insert v (versions fs)"
    by (rule publish_wf [OF assms(1) nv])
  have fresh: "map_of (published fs) (version_name v) = None"
    by (rule version_name_fresh [OF assms(1) next_fresh [OF assms(1) nv]])
  have d: "map_of (published fs') (version_name v) = Some ?d"
    using fresh by (simp add: app map_add_def)
  have other: "map_of (published fs') (version_name w) = map_of (published fs) (version_name w)"
    if "w \<noteq> v" for w
    using that by (simp add: app map_add_def split: option.splits)
  have g: "pol_get parse fs' v
      = Inr ((policy_doc sha v now md (entries_of sha src))\<lparr>pv_path := Some (version_name v)\<rparr>)"
    by (simp add: pol_get_def d pol.staged_manifest)
  have ver: "pol_verify sha render parse fs' v = Inr (?p\<lparr>pv_created := now\<rparr>)"
    using pol.published_verifies [OF assms(2,3), of sha render v now md]
    by (simp add: pol_verify_def g d) (simp add: policy_doc_def)
  have "Max (versions fs') = v"
    unfolding vs using v_def by (cases "versions fs = {}") (auto intro!: Max_eqI dest: Max_ge [OF versions_finite])
  then have ref: "snd (refresh parse fs' c) = Inr (Some v)"
    using next_version_wf(3) [OF wf', of parse] vs assms(4) by (auto simp: refresh_def)
  have col: "publish_as sha tmp8' now2 now2' src2 md2 v fs'
      = (fs', Inl (PolicyIngestFailed (FileExists (version_name v))))"
    by (simp add: publish_as_def atomic_ingest_def Let_def d)
  have same: "{w. w \<noteq> v \<and> pol_get parse fs' w \<noteq> pol_get parse fs w} = {}"
  proof -
    have "pol_get parse fs' w = pol_get parse fs w" if "w \<noteq> v" for w
      by (simp add: pol_get_def other [OF that])
    then show ?thesis by blast
  qed
  have pv: "pv_version ?p = v" by (simp add: policy_doc_def)
  show ?thesis
    by (intro exI [of _ fs'] exI [of _ ?p] exI [of _ v] conjI p v_def pv vs wf' same ver ref col)
qed

definition empty_policies :: policy_fs where
  "empty_policies = \<lparr>published = [], staging = []\<rparr>"

definition policy_src :: "(string \<times> string) list" where
  "policy_src = [(''policy_state.json'', ''{}'')]"

definition weak_sha :: "string \<Rightarrow> string" where
  "weak_sha b = show_nat (foldl (\<lambda>a c. 7 * a + code c) 1 b)"

lemma empty_policies_wf: "pol_wf empty_policies" "versions empty_policies = {}"
  by (simp_all add: pol_wf_def versions_def empty_policies_def)

lemma publish_next_version_witness:
  "\<exists>fs' p. publish weak_sha (\<lambda>_. None) ''0011'' 1 2 policy_src [] empty_policies = (fs', Inr p) \<and>
    pv_version p = 1 \<and> snd (refresh (\<lambda>_. None) fs' new_client) = Inr (Some 1)"
proof -
  have "distinct (map fst policy_src)" "MANIFEST \<notin> set (map fst policy_src)" "cl_pinned new_client = None"
    by (simp_all add: policy_src_def MANIFEST_def new_client_def)
  from publish_next_version [OF empty_policies_wf(1) this, where sha = weak_sha and parse = "\<lambda>_. None"
      and ?tmp8.0 = "''0011''" and now = 1 and now' = 2 and md = "[]" and render = pv_fingerprint and tmp8' = "''x''" and ?now2.0 = 3 and now2' = 4
      and ?src2.0 = policy_src and ?md2.0 = "[]"]
  show ?thesis by (auto simp: empty_policies_wf(2))
qed

text \<open>A sequence of publications.\<close>

fun publish_all ::
  "(string \<Rightarrow> string) \<Rightarrow> (string \<Rightarrow> policy_version option) \<Rightarrow> real \<Rightarrow> (string \<times> (string \<times> string) list) list
    \<Rightarrow> policy_fs \<Rightarrow> policy_fs" where
  "publish_all sha parse now [] fs = fs"
| "publish_all sha parse now ((tmp8, src) # rest) fs =
     publish_all sha parse now rest (fst (publish sha parse tmp8 now now src [] fs))"

lemma publish_all_versions:
  assumes "pol_wf fs" and "versions fs \<noteq> {}"
  shows "pol_wf (publish_all sha parse now srcs fs) \<and>
    versions (publish_all sha parse now srcs fs) \<noteq> {} \<and>
    Max (versions (publish_all sha parse now srcs fs)) = Max (versions fs) + int (length srcs)"
  using assms
proof (induction srcs arbitrary: fs)
  case Nil
  then show ?case by simp
next
  case (Cons x srcs)
  obtain tmp8 src where [simp]: "x = (tmp8, src)" by (cases x)
  have nv: "next_version parse fs = Inr (Max (versions fs) + 1)"
    using next_version_wf(1) [OF Cons.prems(1)] Cons.prems(2) by simp
  obtain fs' where p: "fst (publish sha parse tmp8 now now src [] fs) = fs'"
    and wf': "pol_wf fs'" and vs: "versions fs' = insert (Max (versions fs) + 1) (versions fs)"
    by (rule publish_wf [OF Cons.prems(1) nv, of sha tmp8 now now src "[]"]) auto
  have "Max (versions fs') = Max (versions fs) + 1"
    unfolding vs using Cons.prems(2) by simp
  then show ?case using Cons.IH [OF wf'] vs p by simp
qed

text \<open>Staleness counts publications: a worker that refreshed to version \<open>v\<close> tags its
  trajectories with an id from which \<open>v\<close> is read back; after \<open>k\<close> further publications the
  staleness of those trajectories is \<open>k\<close>, and the gate in mode \<open>reject\<close> lets them pass exactly
  as long as \<open>k\<close> is within the bound.\<close>

theorem staleness_counts_publishes:
  assumes "pol_wf fs" and "refresh parse fs c = (c', Inr (Some v))" and "cl_pinned c = None" and "0 \<le> v"
  shows "parse_policy_version (policy_id c') = Inr (Some v) \<and>
    (\<exists>p. latest_version parse (publish_all sha parse now srcs fs) = Inr (Some p) \<and>
      staleness (pv_version p) v = int (length srcs) \<and>
      staleness_gate (pv_version p) v bound ''reject'' =
        (if int (length srcs) \<le> bound then Inr (int (length srcs), None)
         else Inl (stale_message (pv_version p) v bound)))"
proof -
  have c': "cl_version c' = Some v" and lv: "\<exists>p. latest_version parse fs = Inr (Some p) \<and> pv_version p = v"
    using assms(2,3) by (auto simp: refresh_def split: sum.splits option.splits)
  then have ne: "versions fs \<noteq> {}" using next_version_wf(2) [OF assms(1), of parse] by auto
  have v: "Max (versions fs) = v" using next_version_wf(3) [OF assms(1) ne, of parse] lv by auto
  have "parse_policy_version (policy_id c') = Inr (Some v)"
    using assms(4) py_int_show [of v] isdigit_show_nat [of "nat v"]
    by (simp add: parse_policy_version_def policy_id_def c' starts_with_def show_int_def)
  moreover obtain p where "latest_version parse (publish_all sha parse now srcs fs) = Inr (Some p)"
    "pv_version p = v + int (length srcs)"
    using next_version_wf(3) publish_all_versions [OF assms(1) ne, of sha parse now srcs] v by metis
  ultimately show ?thesis by (auto simp: staleness_gate_def staleness_def Let_def)
qed

definition one_policy :: policy_fs where
  "one_policy = \<lparr>published =
     [(version_name 1, [(MANIFEST, Doc (policy_doc weak_sha 1 0 [] []))])], staging = []\<rparr>"

lemma one_policy_refresh:
  "pol_wf one_policy"
  "refresh (\<lambda>_. None) one_policy new_client = (new_client\<lparr>cl_version := Some 1\<rparr>, Inr (Some 1))"
proof -
  show wf: "pol_wf one_policy"
    by (simp add: pol_wf_def one_policy_def policy_doc_def)
  have vs: "versions one_policy = {1}" by (auto simp: versions_def one_policy_def)
  then show "refresh (\<lambda>_. None) one_policy new_client = (new_client\<lparr>cl_version := Some 1\<rparr>, Inr (Some 1))"
    using next_version_wf(3) [OF wf, of "\<lambda>_. None"] by (auto simp: refresh_def new_client_def)
qed

lemma staleness_counts_publishes_example:
  "\<exists>p. latest_version (\<lambda>_. None) (publish_all weak_sha (\<lambda>_. None) 3
      [(''a'', policy_src), (''b'', policy_src)] one_policy) = Inr (Some p) \<and> staleness (pv_version p) 1 = 2"
  using staleness_counts_publishes [OF one_policy_refresh, where sha = weak_sha and now = 3
      and srcs = "[(''a'', policy_src), (''b'', policy_src)]"]
  by (auto simp: new_client_def)

end
