(* ===== verification/Control.thy ===== *)
theory Control
  imports Scheduler Failures
begin

text \<open>
  \<^verbatim>\<open>src/shoprl/platform/control.py\<close>: training as a job.  The trainer behind
  \<open>run_through_platform\<close> is a parameter that acts on a world of its own (files, GPU), the newest
  checkpoint is read from that world by another parameter, and an exception carries whether it is an
  \<open>Exception\<close> (\<open>False\<close> for a \<open>BaseException\<close> such as KeyboardInterrupt).
\<close>

section \<open>Submitting\<close>

definition TRAIN_KIND :: string where "TRAIN_KIND = ''train''"

definition TRAIN_LEASE_SECONDS :: real where "TRAIN_LEASE_SECONDS = 120"

definition opt_json :: "('a \<Rightarrow> json) \<Rightarrow> 'a option \<Rightarrow> json" where
  "opt_json f x = (case x of None \<Rightarrow> JNull | Some a \<Rightarrow> f a)"

definition submit_training ::
  "string \<Rightarrow> real \<Rightarrow> string \<Rightarrow> int \<Rightarrow> int \<Rightarrow> real option \<Rightarrow> string option \<Rightarrow> int \<Rightarrow> string \<Rightarrow> job store_action" where
  "submit_training fid now config_path n_prompts num_samples gpu_mem_gb platform_root priority resource =
     create fid now TRAIN_KIND
       [(''config_path'', JStr config_path), (''n_prompts'', JInt n_prompts),
        (''num_samples'', JInt num_samples), (''gpu_mem_gb'', opt_json JNum gpu_mem_gb),
        (''platform_root'', opt_json JStr platform_root)] 3 resource priority"

section \<open>Recovering from out-of-memory during a run\<close>

text \<open>The fields of the configuration that recovery touches; the rest of it is \<open>'c\<close>.\<close>

record 'c train_config =
  prompts_per_step :: int
  num_samples :: int
  cfg_rest :: 'c

definition shrink_batch :: "'c train_config \<Rightarrow> 'c train_config option" where
  "shrink_batch cfg =
     (if prompts_per_step cfg > 1 then Some (cfg\<lparr>prompts_per_step := prompts_per_step cfg div 2\<rparr>)
      else if num_samples cfg > 2 then Some (cfg\<lparr>num_samples := num_samples cfg div 2\<rparr>)
      else None)"

definition batch_of :: "'c train_config \<Rightarrow> int" where
  "batch_of cfg = prompts_per_step cfg * num_samples cfg"

record oom_event =
  oe_ts :: real
  oe_action :: string
  oe_before :: int
  oe_after :: "int option"
  oe_restored :: "string option"
  oe_resulting :: string
  oe_simulated :: bool
  oe_message :: string

definition show_opt_int :: "int option \<Rightarrow> string" where
  "show_opt_int x = (case x of None \<Rightarrow> ''None'' | Some i \<Rightarrow> show_int i)"

definition oom_event_of ::
  "real \<Rightarrow> exn \<Rightarrow> 'c train_config \<Rightarrow> 'c train_config option \<Rightarrow> string option \<Rightarrow> oom_event" where
  "oom_event_of ts e cfg new latest_id =
     (let simulated = (ex_type e = ''SimulatedOOM'') in
      \<lparr>oe_ts = ts,
       oe_action = (if latest_id = None then ''retry_with_adjustment'' else ''restore_and_retry''),
       oe_before = batch_of cfg, oe_after = map_option batch_of new, oe_restored = latest_id,
       oe_resulting = (if new = None then ''dead_letter'' else ''pending''), oe_simulated = simulated,
       oe_message = (if simulated then ''SIMULATED OOM'' else ''REAL CUDA OOM'') @ '': batch ''
         @ show_int (batch_of cfg) @ ''->'' @ show_opt_int (map_option batch_of new)
         @ (case latest_id of None \<Rightarrow> '', no checkpoint yet'' | Some c \<Rightarrow> '', restore '' @ c)\<rparr>)"

text \<open>An exception of the run.\<close>

record run_exn =
  re_exn :: exn
  re_is_exception :: bool

text \<open>What the loop needs from outside: one run, the newest checkpoint's id, the path of a
  checkpoint, the clock.\<close>

record ('c, 'w, 'r) run_env =
  env_run :: "'c train_config \<Rightarrow> string option \<Rightarrow> 'w \<Rightarrow> 'w \<times> (run_exn + 'r)"
  env_latest :: "'w \<Rightarrow> string option"
  env_path :: "string \<Rightarrow> string"
  env_clock :: "'w \<Rightarrow> real"

text \<open>\<open>for attempt in range(max_oom_retries + 1)\<close>; the first argument counts the attempts left.
  When the loop runs out without a return or a raise, the Python function falls off its end and
  returns \<open>None\<close>.\<close>

fun oom_loop ::
  "nat \<Rightarrow> ('c, 'w, 'r) run_env \<Rightarrow> 'c train_config \<Rightarrow> string option
    \<Rightarrow> ('w \<times> oom_event list, run_exn, 'r option) action" where
  "oom_loop 0 env cfg resume (w, evs) = ((w, evs), Inr None)"
| "oom_loop (Suc n) env cfg resume (w, evs) =
     (case env_run env cfg resume w of
        (w', Inr ref) \<Rightarrow> ((w', evs), Inr (Some ref))
      | (w', Inl e) \<Rightarrow>
          (if classify (re_exn e) \<noteq> OOM then ((w', evs), Inl e)
           else (let new = shrink_batch cfg;
                     latest_id = env_latest env w';
                     resume' = map_option (env_path env) latest_id;
                     evs' = evs @ [oom_event_of (env_clock env w') (re_exn e) cfg new latest_id]
                 in (case new of
                       None \<Rightarrow> ((w', evs'), Inl e)
                     | Some cfg' \<Rightarrow> oom_loop n env cfg' resume' (w', evs')))))"

definition run_with_oom_recovery ::
  "nat \<Rightarrow> ('c, 'w, 'r) run_env \<Rightarrow> 'c train_config \<Rightarrow> ('w \<times> oom_event list, run_exn, 'r option) action" where
  "run_with_oom_recovery max_oom_retries env cfg = oom_loop (Suc max_oom_retries) env cfg None"

section \<open>One training job\<close>

definition key_error :: "string \<Rightarrow> run_exn" where
  "key_error k =
     \<lparr>re_exn = \<lparr>ex_type = ''KeyError'', ex_str = py_repr k, ex_repr = ''KeyError('' @ py_repr k @ '')''\<rparr>,
      re_is_exception = True\<rparr>"

text \<open>\<open>execute_training_job\<close>: \<open>load\<close> is \<open>load_config\<close> with the experiment's name beside the
  configuration, \<open>env_of\<close> the environment of a run for a root, the two counts and the memory
  figure of the payload.\<close>

definition execute_training_job ::
  "(json \<Rightarrow> run_exn + string \<times> 'c train_config) \<Rightarrow>
    (string \<Rightarrow> json \<Rightarrow> json \<Rightarrow> json \<Rightarrow> ('c, 'w, 'r) run_env) \<Rightarrow> job
    \<Rightarrow> ('w \<times> oom_event list, run_exn, 'r option) action" where
  "execute_training_job load env_of job =
     (let p = job_payload job in
      case map_of p ''config_path'' of
        None \<Rightarrow> raiseA (key_error ''config_path'')
      | Some cp \<Rightarrow>
          (case load cp of
             Inl e \<Rightarrow> raiseA e
           | Inr (name, cfg) \<Rightarrow>
               (let root = (case map_of p ''platform_root'' of
                              Some (JStr (c # cs)) \<Rightarrow> c # cs
                            | _ \<Rightarrow> path_join (path_join ''runs'' name) ''platform'');
                    gpu = (case map_of p ''gpu_mem_gb'' of None \<Rightarrow> JNull | Some v \<Rightarrow> v)
                in (case map_of p ''n_prompts'' of
                      None \<Rightarrow> raiseA (key_error ''n_prompts'')
                    | Some np \<Rightarrow>
                        (case map_of p ''num_samples'' of
                           None \<Rightarrow> raiseA (key_error ''num_samples'')
                         | Some ns \<Rightarrow> run_with_oom_recovery 4 (env_of root np ns gpu) cfg)))))"

section \<open>The worker loop of the control plane\<close>

datatype 'r served =
    Reaped string string
  | Unhandled string
  | RunFailed string string
  | RunSucceeded string 'r
  | RunCancelled string 'r

datatype serve_exc =
    SvStore store_error
  | SvBase run_exn
  | SvTypeError

text \<open>The world the control plane acts on: the job store beside the trainer's world.\<close>

record 'w plane =
  pl_store :: store
  pl_world :: 'w

definition on_plane :: "'a store_action \<Rightarrow> ('w plane, serve_exc, 'a) action" where
  "on_plane m p =
     (case m (pl_store p) of
        (s', Inl e) \<Rightarrow> (p\<lparr>pl_store := s'\<rparr>, Inl (SvStore e))
      | (s', Inr x) \<Rightarrow> (p\<lparr>pl_store := s'\<rparr>, Inr x))"

definition is_invalid_transition :: "serve_exc \<Rightarrow> bool" where
  "is_invalid_transition e \<longleftrightarrow> (case e of SvStore (InvalidTransition _ _) \<Rightarrow> True | _ \<Rightarrow> False)"

text \<open>\<open>scheduler.fail\<close> with InvalidTransition swallowed, then the \<open>failed\<close> entry.\<close>

definition record_run_failure :: "real \<Rightarrow> string \<Rightarrow> string \<Rightarrow> ('w plane, serve_exc, 'r served) action" where
  "record_run_failure now jid err =
     bindA (tryA (bindA (on_plane (sched_fail now jid err)) (\<lambda>_. ret ()))
              (\<lambda>e. if is_invalid_transition e then ret () else raiseA e))
       (\<lambda>_. ret (RunFailed jid err))"

text \<open>\<open>{..., **ref}\<close>: a \<open>None\<close> cannot be unpacked.\<close>

definition unpack_ref :: "('r \<Rightarrow> 'r served) \<Rightarrow> 'r option \<Rightarrow> ('w plane, serve_exc, 'r served) action" where
  "unpack_ref entry ref = (case ref of None \<Rightarrow> raiseA SvTypeError | Some r \<Rightarrow> ret (entry r))"

definition record_run_success :: "real \<Rightarrow> string \<Rightarrow> 'r option \<Rightarrow> ('w plane, serve_exc, 'r served) action" where
  "record_run_success now jid ref =
     tryA (bindA (on_plane (sched_complete now jid)) (\<lambda>_. unpack_ref (RunSucceeded jid) ref))
       (\<lambda>e. if is_invalid_transition e then unpack_ref (RunCancelled jid) ref else raiseA e)"

definition no_handler_reason :: "string \<Rightarrow> string" where
  "no_handler_reason kind = ''no control-plane handler for kind='' @ py_repr kind"

text \<open>One admitted job.  \<open>exec\<close> is \<open>execute_training_job\<close> under the heartbeat; it may write to
  the job store as well (the heartbeat renews the lease, other processes act meanwhile).\<close>

definition serve_job ::
  "(job \<Rightarrow> 'w plane \<Rightarrow> 'w plane \<times> (run_exn + 'r option)) \<Rightarrow> real \<Rightarrow> job \<Rightarrow> ('w plane, serve_exc, 'r served) action" where
  "serve_job exec now job =
     (if job_kind job \<noteq> TRAIN_KIND then
        bindA (on_plane (sched_fail now (job_id job) (no_handler_reason (job_kind job))))
          (\<lambda>_. ret (Unhandled (job_id job)))
      else
        bindA (on_plane (renew_lease (job_id job) TRAIN_LEASE_SECONDS now)) (\<lambda>_ p.
          (case exec job p of
             (p', Inl e) \<Rightarrow>
               (if re_is_exception e then record_run_failure now (job_id job) (ex_repr (re_exn e)) p'
                else (p', Inl (SvBase e)))
           | (p', Inr ref) \<Rightarrow> record_run_success now (job_id job) ref p')))"

definition reaped_entry :: "job \<Rightarrow> 'r served" where
  "reaped_entry j = Reaped (job_id j) (state_value (job_state j))"

text \<open>\<open>serve_pending\<close>: reap, admit, run.  One clock value stands for the readings of one pass.\<close>

definition serve_pending ::
  "resource_config \<Rightarrow> (job \<Rightarrow> 'w plane \<Rightarrow> 'w plane \<times> (run_exn + 'r option)) \<Rightarrow> real
    \<Rightarrow> ('w plane, serve_exc, 'r served list) action" where
  "serve_pending cfg exec now =
     bindA (on_plane (reap_expired now)) (\<lambda>reaped.
       bindA (on_plane (schedule cfg now)) (\<lambda>admitted.
         bindA (mapA (serve_job exec now) admitted) (\<lambda>entries.
           ret (map reaped_entry reaped @ entries))))"

text \<open>\<open>serve_forever\<close> with fuel: \<open>Inr True\<close> when it drained, \<open>Inr False\<close> when it is still
  running.\<close>

fun serve_forever ::
  "nat \<Rightarrow> resource_config \<Rightarrow> (job \<Rightarrow> 'w plane \<Rightarrow> 'w plane \<times> (run_exn + 'r option)) \<Rightarrow> (nat \<Rightarrow> real)
    \<Rightarrow> bool \<Rightarrow> nat \<Rightarrow> ('w plane, serve_exc, bool) action" where
  "serve_forever 0 cfg exec clock drain n p = (p, Inr False)"
| "serve_forever (Suc fuel) cfg exec clock drain n p =
     (case serve_pending cfg exec (clock n) p of
        (p', Inl e) \<Rightarrow> (p', Inl e)
      | (p', Inr results) \<Rightarrow>
          (if results = [] \<and> drain then (p', Inr True)
           else serve_forever fuel cfg exec clock drain (Suc n) p'))"

section \<open>The heartbeat\<close>

text \<open>\<open>_Heartbeat._run\<close>: at each tick one renewal, until a renewal raises or the event is set.\<close>

fun heartbeat :: "real \<Rightarrow> string \<Rightarrow> real list \<Rightarrow> store \<Rightarrow> store" where
  "heartbeat lease jid [] s = s"
| "heartbeat lease jid (t # ticks) s =
     (case renew_lease jid lease t s of
        (s', Inl _) \<Rightarrow> s'
      | (s', Inr _) \<Rightarrow> heartbeat lease jid ticks s')"

end
