(* ===== verification/Control_Props.thy ===== *)
theory Control_Props
  imports Control Scheduler_Props Failure_Props
begin

text \<open>
  The properties of the control plane (\<^verbatim>\<open>src/shoprl/platform/control.py\<close>): how a run ends that
  recovers from out-of-memory errors, and that a pass of the worker loop leaks no slot.
\<close>

section \<open>The recovery loop\<close>

fun shrunk :: "nat \<Rightarrow> 'c train_config \<Rightarrow> 'c train_config option" where
  "shrunk 0 cfg = Some cfg"
| "shrunk (Suc n) cfg = (case shrink_batch cfg of None \<Rightarrow> None | Some c \<Rightarrow> shrunk n c)"

definition ooms :: "('c train_config \<Rightarrow> run_exn + 'r) \<Rightarrow> 'c train_config \<Rightarrow> bool" where
  "ooms out c \<longleftrightarrow> (case out c of Inl e \<Rightarrow> classify (re_exn e) = OOM | Inr _ \<Rightarrow> False)"

text \<open>How a run with \<open>n\<close> attempts must end, read off the outcomes of the shrunk configurations.\<close>

definition recovery_end ::
  "nat \<Rightarrow> ('c train_config \<Rightarrow> run_exn + 'r) \<Rightarrow> 'c train_config \<Rightarrow> run_exn + 'r option \<Rightarrow> bool" where
  "recovery_end n out cfg result \<longleftrightarrow>
     (case result of
        Inr (Some ref) \<Rightarrow> \<exists>k c. k < n \<and> shrunk k cfg = Some c \<and> out c = Inr ref \<and>
          (\<forall>i < k. \<exists>d. shrunk i cfg = Some d \<and> ooms out d)
      | Inl e \<Rightarrow> \<exists>k c. k < n \<and> shrunk k cfg = Some c \<and> out c = Inl e \<and>
          (classify (re_exn e) \<noteq> OOM \<or> shrink_batch c = None) \<and>
          (\<forall>i < k. \<exists>d. shrunk i cfg = Some d \<and> ooms out d)
      | Inr None \<Rightarrow> \<forall>i < n. \<exists>d. shrunk i cfg = Some d \<and> ooms out d \<and> shrink_batch d \<noteq> None)"

lemma recovery_end_step:
  assumes "shrink_batch cfg = Some c" and "ooms out cfg" and "recovery_end n out c result"
  shows "recovery_end (Suc n) out cfg result"
proof -
  have sh: "shrunk (Suc k) cfg = shrunk k c" for k using assms(1) by simp
  have all: "\<forall>i < Suc k. \<exists>d. shrunk i cfg = Some d \<and> ooms out d"
    if "\<forall>i < k. \<exists>d. shrunk i c = Some d \<and> ooms out d" for k
    using that assms(2) sh by (metis less_Suc_eq_0_disj shrunk.simps(1))
  show ?thesis
  proof (cases result)
    case (Inl e)
    then obtain k d where "k < n" "shrunk k c = Some d" "out d = Inl e"
      "classify (re_exn e) \<noteq> OOM \<or> shrink_batch d = None"
      "\<forall>i < k. \<exists>d. shrunk i c = Some d \<and> ooms out d"
      using assms(3) by (auto simp: recovery_end_def)
    then show ?thesis using Inl sh all
      by (simp only: recovery_end_def sum.case) (intro exI [of _ "Suc k"] exI [of _ d], simp)
  next
    case (Inr r)
    show ?thesis
    proof (cases r)
      case None
      then have "\<forall>i < n. \<exists>d. shrunk i c = Some d \<and> ooms out d \<and> shrink_batch d \<noteq> None"
        using Inr assms(3) by (simp add: recovery_end_def)
      then have "\<forall>i < Suc n. \<exists>d. shrunk i cfg = Some d \<and> ooms out d \<and> shrink_batch d \<noteq> None"
        using assms(1,2) sh by (metis less_Suc_eq_0_disj option.distinct(1) shrunk.simps(1))
      then show ?thesis using Inr None by (simp add: recovery_end_def)
    next
      case (Some ref)
      then obtain k d where "k < n" "shrunk k c = Some d" "out d = Inr ref"
        "\<forall>i < k. \<exists>d. shrunk i c = Some d \<and> ooms out d"
        using Inr assms(3) by (auto simp: recovery_end_def)
      then show ?thesis using Inr Some sh all
        by (simp only: recovery_end_def sum.case option.case) (intro exI [of _ "Suc k"] exI [of _ d], simp)
    qed
  qed
qed

lemma oom_loop_end:
  assumes "\<And>c r w. snd (env_run env c r w) = out c"
  shows "recovery_end n out cfg (snd (oom_loop n env cfg resume (w, evs)))"
proof (induction n arbitrary: cfg resume w evs)
  case 0
  then show ?case by (simp add: recovery_end_def)
next
  case (Suc n)
  obtain w' r where run: "env_run env cfg resume w = (w', r)" by (cases "env_run env cfg resume w")
  then have out: "out cfg = r" using assms [of cfg resume w] by simp
  show ?case
  proof (cases r)
    case (Inr ref)
    then show ?thesis using run out by (auto simp: recovery_end_def intro!: exI [of _ 0])
  next
    case (Inl e)
    show ?thesis
    proof (cases "classify (re_exn e) = OOM \<and> shrink_batch cfg \<noteq> None")
      case True
      then obtain c where c: "shrink_batch cfg = Some c" by blast
      have "ooms out cfg" using True Inl out by (simp add: ooms_def)
      from recovery_end_step [OF c this Suc.IH] show ?thesis
        using run Inl True c by (simp add: Let_def)
    next
      case False
      then show ?thesis using run Inl out
        by (auto simp: recovery_end_def Let_def intro!: exI [of _ 0])
    qed
  qed
qed

lemma shrink_halves:
  "shrink_batch c = Some d \<Longrightarrow> 1 \<le> prompts_per_step c \<Longrightarrow> 1 \<le> num_samples c
    \<Longrightarrow> 1 \<le> prompts_per_step d \<and> 1 \<le> num_samples d \<and> 2 * batch_of d \<le> batch_of c"
proof -
  assume a: "shrink_batch c = Some d" "1 \<le> prompts_per_step c" "1 \<le> num_samples c"
  consider "prompts_per_step c > 1" "d = c\<lparr>prompts_per_step := prompts_per_step c div 2\<rparr>"
    | "prompts_per_step c = 1" "num_samples c > 2" "d = c\<lparr>num_samples := num_samples c div 2\<rparr>"
    using a by (auto simp: shrink_batch_def split: if_splits)
  then show ?thesis
  proof cases
    case 1
    have "2 * (prompts_per_step c div 2) * num_samples c \<le> prompts_per_step c * num_samples c"
      using a(3) by (intro mult_right_mono) simp_all
    with 1 a(3) show ?thesis by (simp add: batch_of_def)
  next
    case 2
    then show ?thesis by (simp add: batch_of_def) presburger
  qed
qed

lemma shrunk_bound:
  "shrunk k c = Some d \<Longrightarrow> 1 \<le> prompts_per_step c \<Longrightarrow> 1 \<le> num_samples c
    \<Longrightarrow> 1 \<le> prompts_per_step d \<and> 1 \<le> num_samples d \<and> 2 ^ k * batch_of d \<le> batch_of c"
proof (induction k arbitrary: c)
  case 0
  then show ?case by simp
next
  case (Suc k)
  then obtain c' where c': "shrink_batch c = Some c'" "shrunk k c' = Some d"
    by (auto split: option.splits)
  with shrink_halves [OF c'(1) Suc.prems(2,3)] Suc.IH [OF c'(2)] show ?case by simp
qed


text \<open>The third ending is real: a configuration of 64 prompts with 2 samples that always runs out of
  memory uses up the five default attempts, can still shrink, and the function returns \<open>None\<close>.\<close>

definition always_oom :: "(unit, unit, unit) run_env" where
  "always_oom =
     \<lparr>env_run = (\<lambda>_ _ w. (w, Inl \<lparr>re_exn = \<lparr>ex_type = ''OutOfMemoryError'', ex_str = ''CUDA out of memory'',
        ex_repr = ''OutOfMemoryError()''\<rparr>, re_is_exception = True\<rparr>)),
      env_latest = (\<lambda>_. None), env_path = (\<lambda>c. c), env_clock = (\<lambda>_. 0)\<rparr>"

definition big_batch :: "unit train_config" where
  "big_batch = \<lparr>prompts_per_step = 64, num_samples = 2, cfg_rest = ()\<rparr>"

lemma recovery_returns_none:
  "snd (run_with_oom_recovery 4 always_oom big_batch ((), [])) = Inr None"
  by (simp add: run_with_oom_recovery_def always_oom_def big_batch_def numeral_eq_Suc Let_def
      classify_def shrink_batch_def)

text \<open>A group of three samples is halved to a group of one.\<close>

lemma shrink_to_singleton_group:
  "shrink_batch \<lparr>prompts_per_step = 1, num_samples = 3, cfg_rest = c\<rparr>
    = Some \<lparr>prompts_per_step = 1, num_samples = 1, cfg_rest = c\<rparr>"
  by (simp add: shrink_batch_def)


section \<open>One pass of the worker loop\<close>

text \<open>A runner that leaves the job table alone, raises only ordinary exceptions and never returns
  \<open>None\<close>.\<close>

definition well_behaved :: "(job \<Rightarrow> 'w plane \<Rightarrow> 'w plane \<times> (run_exn + 'r option)) \<Rightarrow> bool" where
  "well_behaved exec \<longleftrightarrow> (\<forall>j p. pl_store (fst (exec j p)) = pl_store p \<and>
     (case snd (exec j p) of Inl e \<Rightarrow> re_is_exception e | Inr ref \<Rightarrow> ref \<noteq> None))"

definition done_with :: "job \<Rightarrow> bool" where
  "done_with j \<longleftrightarrow> job_state j \<in> {SUCCEEDED, PENDING, DEAD_LETTER}"

text \<open>What an entry of the summary says about the store at the end.\<close>

definition entry_true :: "store \<Rightarrow> 'r served \<Rightarrow> bool" where
  "entry_true s e \<longleftrightarrow>
     (case e of
        Reaped _ _ \<Rightarrow> True
      | Unhandled jid \<Rightarrow> (\<exists>j. lookup s jid = Some j \<and> job_state j \<in> {PENDING, DEAD_LETTER} \<and>
          job_error j = Some (no_handler_reason (job_kind j)))
      | RunFailed jid err \<Rightarrow> (\<exists>j. lookup s jid = Some j \<and> job_state j \<in> {PENDING, DEAD_LETTER} \<and>
          job_error j = Some err)
      | RunSucceeded jid _ \<Rightarrow> (\<exists>j. lookup s jid = Some j \<and> job_state j = SUCCEEDED)
      | RunCancelled _ _ \<Rightarrow> False)"

definition entry_job :: "'r served \<Rightarrow> string" where
  "entry_job e = (case e of Reaped j _ \<Rightarrow> j | Unhandled j \<Rightarrow> j | RunFailed j _ \<Rightarrow> j
     | RunSucceeded j _ \<Rightarrow> j | RunCancelled j _ \<Rightarrow> j)"

lemma entry_true_cong:
  "lookup s' (entry_job e) = lookup s (entry_job e) \<Longrightarrow> entry_true s' e = entry_true s e"
  by (cases e) (simp_all add: entry_true_def entry_job_def)

text \<open>One admitted job: it ends, its entry is true, and nothing else moves.\<close>

lemma serve_job_ends:
  assumes wb: "well_behaved exec" and inv: "store_inv (pl_store p)"
    and l: "lookup (pl_store p) (job_id j) = Some j" and run: "job_state j = RUNNING"
  obtains p' e j' where "serve_job exec now j p = (p', Inr e)" and "store_inv (pl_store p')"
    and "pl_store p' = replace_job j' (pl_store p)" and "job_id j' = job_id j" and "\<not> is_running j'"
    and "entry_true (pl_store p') e" and "entry_job e = job_id j"
proof -
  let ?s = "pl_store p"
  note pk = store_inv_pk [OF inv]
  have ok: "job_ok j" by (rule store_inv_lookup [OF inv l])
  show thesis
  proof (cases "job_kind j = TRAIN_KIND")
    case False
    let ?msg = "no_handler_reason (job_kind j)"
    let ?jf = "failed_job now ?msg j"
    have f: "fail now (job_id j) ?msg ?s = (replace_job ?jf ?s, Inr ?jf)" by (rule fail_running [OF pk l run])
    have "serve_job exec now j p = (p\<lparr>pl_store := replace_job ?jf ?s\<rparr>, Inr (Unhandled (job_id j)))"
      using False by (simp add: serve_job_def on_plane_def sched_fail_def f bindA_def)
    moreover have "store_inv (replace_job ?jf ?s)" by (rule store_inv_replace [OF inv job_ok_failed [OF ok run]])
    moreover have "\<not> is_running ?jf" "entry_true (replace_job ?jf ?s) (Unhandled (job_id j))"
      using l by (simp_all add: is_running_def entry_true_def lookup_replace_job failed_job_def set_state_def)
    ultimately show thesis
      by (intro that [of "p\<lparr>pl_store := replace_job ?jf ?s\<rparr>" "Unhandled (job_id j)" ?jf]) (simp_all add: entry_job_def)
  next
    case True
    let ?jr = "j\<lparr>job_lease := Some (now + TRAIN_LEASE_SECONDS), job_updated_at := now\<rparr>"
    let ?s1 = "replace_job ?jr ?s"
    let ?p1 = "p\<lparr>pl_store := ?s1\<rparr>"
    have rn: "renew_lease (job_id j) TRAIN_LEASE_SECONDS now ?s = (?s1, Inr ?jr)"
      using run l pk by (simp add: renew_lease_eq Let_def)
    have inv1: "store_inv ?s1" using store_inv_renew [OF inv, of "job_id j" TRAIN_LEASE_SECONDS now] rn by simp
    have l1: "lookup ?s1 (job_id j) = Some ?jr" using l by (simp add: lookup_replace_job)
    obtain p2 r where ex: "exec j ?p1 = (p2, r)" by (cases "exec j ?p1")
    have wb1: "pl_store (fst (exec j ?p1)) = pl_store ?p1"
      "case snd (exec j ?p1) of Inl e \<Rightarrow> re_is_exception e | Inr ref \<Rightarrow> ref \<noteq> None"
      using wb unfolding well_behaved_def by blast+
    have s2: "pl_store p2 = ?s1" using wb1(1) ex by simp
    have body: "serve_job exec now j p = (case r of
        Inl e \<Rightarrow> (if re_is_exception e then record_run_failure now (job_id j) (ex_repr (re_exn e)) p2
                  else (p2, Inl (SvBase e)))
      | Inr ref \<Rightarrow> record_run_success now (job_id j) ref p2)"
      using True by (simp add: serve_job_def on_plane_def rn bindA_def ex split: sum.splits)
    show thesis
    proof (cases r)
      case (Inl e)
      let ?err = "ex_repr (re_exn e)"
      let ?jf = "failed_job now ?err ?jr"
      have exc: "re_is_exception e" using wb1(2) ex Inl by simp
      have f: "fail now (job_id j) ?err ?s1 = (replace_job ?jf ?s, Inr ?jf)"
        using fail_running [OF store_inv_pk [OF inv1] l1] run by (simp add: replace_twice)
      have "serve_job exec now j p = (p2\<lparr>pl_store := replace_job ?jf ?s\<rparr>, Inr (RunFailed (job_id j) ?err))"
        using Inl exc by (simp add: body record_run_failure_def on_plane_def sched_fail_def s2 f bindA_def tryA_def)
      moreover have "store_inv (replace_job ?jf ?s)" using store_inv_fail [OF inv1, of now "job_id j" ?err] f by simp
      moreover have "\<not> is_running ?jf" "entry_true (replace_job ?jf ?s) (RunFailed (job_id j) ?err)"
        using l by (simp_all add: is_running_def entry_true_def lookup_replace_job failed_job_def set_state_def)
      ultimately show thesis
        by (intro that [of "p2\<lparr>pl_store := replace_job ?jf ?s\<rparr>" "RunFailed (job_id j) ?err" ?jf])
          (simp_all add: entry_job_def)
    next
      case (Inr ref)
      have "ref \<noteq> None" using wb1(2) ex Inr by simp
      then obtain x where x: "ref = Some x" by blast
      let ?jc = "set_state SUCCEEDED (job_attempts j) None now ?jr"
      have c: "complete now (job_id j) ?s1 = (replace_job ?jc ?s, Inr ?jc)"
        using store_inv_pk [OF inv1] l1 run by (simp add: complete_def transition_eq Let_def replace_twice)
      have "serve_job exec now j p = (p2\<lparr>pl_store := replace_job ?jc ?s\<rparr>, Inr (RunSucceeded (job_id j) x))"
        using Inr x by (simp add: body record_run_success_def on_plane_def sched_complete_def s2 c bindA_def
            tryA_def unpack_ref_def)
      moreover have "store_inv (replace_job ?jc ?s)"
        using store_inv_transition [OF inv1, of SUCCEEDED False None now "job_id j"] c
        by (simp add: complete_def)
      moreover have "\<not> is_running ?jc" "entry_true (replace_job ?jc ?s) (RunSucceeded (job_id j) x)"
        using l by (simp_all add: is_running_def entry_true_def lookup_replace_job set_state_def)
      ultimately show thesis
        by (intro that [of "p2\<lparr>pl_store := replace_job ?jc ?s\<rparr>" "RunSucceeded (job_id j) x" ?jc])
          (simp_all add: entry_job_def)
    qed
  qed
qed

lemma running_jobs_stop:
  assumes "pk s" and "lookup s (job_id j) = Some j" and "job_id j' = job_id j" and "\<not> is_running j'"
  shows "running_jobs (replace_job j' s) = running_jobs s - {j}"
proof -
  have eq: "x = j" if "x \<in> set (jobs_table s)" "job_id x = job_id j" for x
    using lookup_in [OF assms(1) that(1)] that(2) assms(2) by simp
  show ?thesis
    using eq assms(3,4) by (auto simp: running_jobs_def set_replace_job split: if_splits)
qed

lemma serve_all:
  assumes "well_behaved exec" and "store_inv (pl_store p)" and "distinct (map job_id js)"
    and "\<And>j. j \<in> set js \<Longrightarrow> lookup (pl_store p) (job_id j) = Some j \<and> job_state j = RUNNING"
  shows "\<exists>p' es. mapA (serve_job exec now) js p = (p', Inr es) \<and> store_inv (pl_store p') \<and>
    map entry_job es = map job_id js \<and> list_all (entry_true (pl_store p')) es \<and>
    (\<forall>k. k \<notin> job_id ` set js \<longrightarrow> lookup (pl_store p') k = lookup (pl_store p) k) \<and>
    running_jobs (pl_store p') = running_jobs (pl_store p) - set js"
  using assms(2-)
proof (induction js arbitrary: p)
  case Nil
  then show ?case by simp
next
  case (Cons j js)
  have j: "lookup (pl_store p) (job_id j) = Some j" "job_state j = RUNNING" using Cons.prems(3) by auto
  obtain p1 e j' where s1: "serve_job exec now j p = (p1, Inr e)" "store_inv (pl_store p1)"
    "pl_store p1 = replace_job j' (pl_store p)" "job_id j' = job_id j" "\<not> is_running j'"
    "entry_true (pl_store p1) e" "entry_job e = job_id j"
    by (rule serve_job_ends [OF assms(1) Cons.prems(1) j])
  have other: "x \<in> set js \<Longrightarrow> job_id x \<noteq> job_id j" for x
    using Cons.prems(2) by (metis distinct.simps(2) imageI list.simps(9) list.set_map)
  have look: "lookup (pl_store p1) k = lookup (pl_store p) k" if "k \<noteq> job_id j" for k
    using that s1(4) by (simp add: s1(3) lookup_replace_job)
  have "\<And>x. x \<in> set js \<Longrightarrow> lookup (pl_store p1) (job_id x) = Some x \<and> job_state x = RUNNING"
    using Cons.prems(3) look other by simp
  then obtain p' es where r: "mapA (serve_job exec now) js p1 = (p', Inr es)" "store_inv (pl_store p')"
    "map entry_job es = map job_id js" "list_all (entry_true (pl_store p')) es"
    "\<forall>k. k \<notin> job_id ` set js \<longrightarrow> lookup (pl_store p') k = lookup (pl_store p1) k"
    "running_jobs (pl_store p') = running_jobs (pl_store p1) - set js"
    using Cons.IH [OF s1(2)] Cons.prems(2) by auto
  have nj: "job_id j \<notin> job_id ` set js" using other by force
  then have "entry_true (pl_store p') e"
    using s1(6,7) r(5) entry_true_cong [of "pl_store p'" e "pl_store p1"] by simp
  moreover have "running_jobs (pl_store p') = running_jobs (pl_store p) - set (j # js)"
    using running_jobs_stop [OF store_inv_pk [OF Cons.prems(1)] j(1) s1(4,5)] r(6) s1(3) by auto
  moreover have "\<forall>k. k \<notin> job_id ` set (j # js) \<longrightarrow> lookup (pl_store p') k = lookup (pl_store p) k"
    using r(5) look by auto
  ultimately show ?case
    using s1(1,7) r(1-4) by (intro exI [of _ p'] exI [of _ "e # es"]) simp
qed

lemma schedule_started:
  assumes inv: "store_inv s"
  obtains s' js where "schedule cfg now s = (s', Inr js)" and "store_inv s'"
    and "running_jobs s' = running_jobs s \<union> set js" and "set js \<inter> running_jobs s = {}"
    and "distinct (map job_id js)"
    and "\<forall>j \<in> set js. lookup s' (job_id j) = Some j \<and> job_state j = RUNNING"
proof -
  obtain s1 s2 gs cs where p: "schedule cfg now s = (s2, Inr (gs @ cs))"
    "pri.admits GPU s gs s1" "pri.admits CPU s1 cs s2"
    by (rule schedule_passes [OF inv])
  have a: "running_jobs s1 = running_jobs s \<union> set gs" "distinct gs" "set gs \<inter> running_jobs s = {}"
    and b: "running_jobs s2 = running_jobs s1 \<union> set cs" "distinct cs" "set cs \<inter> running_jobs s1 = {}"
    and i2: "store_inv s2"
    using p(2,3) by (simp_all add: pri.admits_def)
  have run: "j \<in> set (gs @ cs) \<Longrightarrow> j \<in> running_jobs s2" for j using a b by auto
  have l: "lookup s2 (job_id j) = Some j \<and> job_state j = RUNNING" if "j \<in> set (gs @ cs)" for j
    using run [OF that] lookup_in [OF store_inv_pk [OF i2]] by (auto simp: running_jobs_def is_running_def)
  have d: "distinct (gs @ cs)" using a b by auto
  have "inj_on job_id (set (gs @ cs))" using l by (metis inj_onI option.inject)
  then have "distinct (map job_id (gs @ cs))" using d by (simp only: distinct_map)
  moreover have "running_jobs s2 = running_jobs s \<union> set (gs @ cs)" "set (gs @ cs) \<inter> running_jobs s = {}"
    using a b by auto
  ultimately show thesis using that [OF p(1) i2] l by blast
qed

text \<open>C21. A pass of the worker loop leaks no slot: with a runner that leaves the job table alone,
  raises only ordinary exceptions and never returns \<open>None\<close>, \<open>serve_pending\<close> never raises, the jobs
  RUNNING afterwards are exactly those that were RUNNING after the reaping, every admitted job has
  one entry in the summary, and each entry tells the job's actual state.\<close>

theorem serve_pending_releases:
  assumes "reachable (pl_store p)" and "well_behaved exec"
  shows "\<exists>p' entries s1 reaped s2 admitted. serve_pending cfg exec now p = (p', Inr entries) \<and>
    reap_expired now (pl_store p) = (s1, Inr reaped) \<and> schedule cfg now s1 = (s2, Inr admitted) \<and>
    running_jobs (pl_store p') = running_jobs s1 \<and>
    map entry_job entries = map job_id reaped @ map job_id admitted \<and>
    filter (\<lambda>e. \<not> entry_true (pl_store p') e) entries = [] \<and> store_inv (pl_store p')"
proof -
  have inv: "store_inv (pl_store p)" by (rule reachable_inv [OF assms(1)])
  obtain s1 reaped where r: "reap_expired now (pl_store p) = (s1, Inr reaped)"
    using reap_expired_eq [OF store_inv_pk [OF inv]] by blast
  have inv1: "store_inv s1" using store_inv_reap [OF inv, of now] r by simp
  obtain s2 js where s: "schedule cfg now s1 = (s2, Inr js)" "store_inv s2"
    "running_jobs s2 = running_jobs s1 \<union> set js" "set js \<inter> running_jobs s1 = {}"
    "distinct (map job_id js)"
    "\<forall>j \<in> set js. lookup s2 (job_id j) = Some j \<and> job_state j = RUNNING"
    by (rule schedule_started [OF inv1, of cfg now])
  let ?p2 = "p\<lparr>pl_store := s2\<rparr>"
  obtain p' es where m: "mapA (serve_job exec now) js ?p2 = (p', Inr es)" "store_inv (pl_store p')"
    "map entry_job es = map job_id js" "list_all (entry_true (pl_store p')) es"
    "running_jobs (pl_store p') = running_jobs s2 - set js"
    using serve_all [OF assms(2), of ?p2 js now] s(2,5,6) by auto
  have "serve_pending cfg exec now p = (p', Inr (map reaped_entry reaped @ es))"
    using m(1) by (simp add: serve_pending_def on_plane_def r s(1) bindA_def)
  moreover have "running_jobs (pl_store p') = running_jobs s1" using m(5) s(3,4) by auto
  moreover have "map entry_job (map reaped_entry reaped @ es) = map job_id reaped @ map job_id js"
    using m(3) by (simp add: reaped_entry_def entry_job_def)
  moreover have "filter (\<lambda>e. \<not> entry_true (pl_store p') e) (map reaped_entry reaped @ es) = []"
    using m(4) by (auto simp: filter_empty_conv list_all_iff reaped_entry_def entry_true_def)
  ultimately show ?thesis using r s(1) m(2) by blast
qed

definition echo_runner :: "job \<Rightarrow> unit plane \<Rightarrow> unit plane \<times> (run_exn + string option)" where
  "echo_runner j p = (p, Inr (Some (job_id j)))"

lemma serve_pending_releases_witness:
  "\<exists>p' entries. serve_pending default_config echo_runner 5 \<lparr>pl_store = sample_store, pl_world = ()\<rparr>
      = (p', Inr entries) \<and> running_jobs (pl_store p') = running_jobs (fst (reap_expired 5 sample_store))"
proof -
  have wb: "well_behaved echo_runner" by (simp add: well_behaved_def echo_runner_def)
  have "reachable (pl_store \<lparr>pl_store = sample_store, pl_world = ()\<rparr>)" using reachable_sample by simp
  from serve_pending_releases [OF this wb, of default_config 5] show ?thesis by auto
qed

text \<open>A runner that falls through to \<open>None\<close> (\<open>recovery_returns_none\<close>) has its job marked SUCCEEDED,
  and the pass then dies with a TypeError.\<close>

lemma none_ref_completes_then_raises:
  assumes "store_inv s" and "lookup s (job_id j) = Some j" and "job_state j = RUNNING"
  shows "record_run_success now (job_id j) None \<lparr>pl_store = s, pl_world = w\<rparr>
    = (\<lparr>pl_store = replace_job (set_state SUCCEEDED (job_attempts j) None now j) s, pl_world = w\<rparr>,
       Inl SvTypeError)"
  using assms
  by (simp add: record_run_success_def on_plane_def sched_complete_def complete_def transition_eq
      store_inv_pk Let_def tryA_def bindA_def unpack_ref_def is_invalid_transition_def)

end
