(* ===== verification/Lineage_Props.thy ===== *)
theory Lineage_Props
  imports Traj_Store Artifacts Exp_Registry
begin

text \<open>
  The properties of the provenance stores: derivation chains of trajectories and retention
  (\<^verbatim>\<open>traj_store.py\<close>, \<^verbatim>\<open>trajectory.py\<close>), the lineage graph of artifacts (\<^verbatim>\<open>artifacts.py\<close>), and
  the comparison of experiment runs (\<^verbatim>\<open>registry.py\<close>).
\<close>

section \<open>Trajectories\<close>

lemma ancestry_missing: "ancestry_walk rows seen cur = Inl e \<Longrightarrow> traj_get rows e = None"
  by (induction rows seen cur rule: ancestry_walk.induct)
    (auto split: if_splits option.splits sum.splits)

text \<open>Adding a row under a fresh id does not disturb a walk that succeeds without it.\<close>

lemma ancestry_walk_frame:
  "ancestry_walk rows seen cur = Inr chain \<Longrightarrow> traj_get rows (tr_id x) = None \<Longrightarrow>
    tr_id x \<notin> set seen \<Longrightarrow> set seen' = insert (tr_id x) (set seen) \<Longrightarrow>
    ancestry_walk (traj_put x rows) seen' cur = Inr chain"
proof (induction rows seen cur arbitrary: chain seen' rule: ancestry_walk.induct)
  case (1 rows seen)
  then show ?case by simp
next
  case (2 rows seen cur)
  show ?case
  proof (cases "cur \<in> set seen")
    case True
    with "2.prems" show ?thesis by simp
  next
    case False
    with "2.prems"(1) obtain t c where t: "traj_get rows cur = Some t"
      and c: "ancestry_walk rows (cur # seen) (ln_parent_id (tr_lineage t)) = Inr c" "chain = t # c"
      by (auto split: option.splits sum.splits)
    have ne: "cur \<noteq> tr_id x" using t "2.prems"(2) by auto
    have "ancestry_walk (traj_put x rows) (cur # seen') (ln_parent_id (tr_lineage t)) = Inr c"
      by (rule "2.IH" [OF False t c(1) "2.prems"(2)]) (use "2.prems"(3,4) ne in auto)
    then show ?thesis
      using False ne t c(2) "2.prems"(4) by (simp add: traj.get_put)
  qed
qed

text \<open>C23. \<open>ancestry\<close> always returns: a missing trajectory is reported as such, and otherwise the
  chain ends in the requested trajectory, consists of distinct stored ones, each the parent of the
  next, and starts at one without a parent (or, in a cycle, with a parent in the chain); a trajectory
  derived from a stored one and stored under a fresh id has the parent's chain followed by itself.\<close>

theorem ancestry_chain:
  assumes "ancestry rows tid = Inr chain" and "traj_get rows new_id = None"
    and "traj_get rows tid = Some t" and "child = derive new_id now (\<lambda>l. l) t"
  shows "chain \<noteq> [] \<and> tr_id (last chain) = tid \<and> linked (rev chain) \<and> set chain \<subseteq> set rows \<and>
    distinct (map tr_id chain) \<and>
    (case ln_parent_id (tr_lineage (hd chain)) of None \<Rightarrow> True | Some p \<Rightarrow> p \<in> tr_id ` set chain) \<and>
    ancestry (traj_put child rows) new_id = Inr (chain @ [child]) \<and>
    {e. ancestry rows tid2 = Inl e \<and> traj_get rows e \<noteq> None} = {}"
proof -
  obtain c where c: "ancestry_walk rows [] (Some tid) = Inr c" "chain = rev c"
    using assms(1) by (auto simp: ancestry_def split: sum.splits)
  note w = ancestry_walk_chain [OF c(1)]
  obtain u us where u: "c = u # us" "tr_id u = tid" using w by (auto split: list.splits)
  have "tr_id t = tid" using traj_get_in [OF assms(3)] by simp
  then have child: "tr_id child = new_id" "ln_parent_id (tr_lineage child) = Some tid"
    using assms(4) by (simp_all add: derive_def)
  have "ancestry_walk (traj_put child rows) [new_id] (Some tid) = Inr c"
    using ancestry_walk_frame [OF c(1), of child "[new_id]"] assms(2) child by simp
  then have a: "ancestry (traj_put child rows) new_id = Inr (chain @ [child])"
    using child traj.get_put_same [of child rows] by (simp add: ancestry_def c(2))
  have m: "{e. ancestry rows tid2 = Inl e \<and> traj_get rows e \<noteq> None} = {}"
    using ancestry_missing [of rows "[]" "Some tid2"] by (auto simp: ancestry_def split: sum.splits)
  have h: "hd chain = last c" and r: "rev chain = c" and l: "last chain = u" and ne: "chain \<noteq> []"
    using c(2) u by (simp_all add: hd_rev last_rev)
  have "set chain \<subseteq> set rows" "distinct (map tr_id chain)" "linked (rev chain)"
    using w by (simp_all add: c(2) rev_map [symmetric])
  moreover have "case ln_parent_id (tr_lineage (hd chain)) of None \<Rightarrow> True | Some p \<Rightarrow> p \<in> tr_id ` set chain"
  proof -
    have "set chain = set c" "c \<noteq> []" using c(2) u by simp_all
    with w show ?thesis unfolding h by (auto split: option.splits)
  qed
  ultimately show ?thesis using a m l ne u(2) by blast
qed

definition sample_lineage :: lineage where
  "sample_lineage = \<lparr>ln_policy_id = ''v1'', ln_job_id = None, ln_prompt_id = None, ln_seed = Some 42,
     ln_parent_id = None\<rparr>"

definition sample_traj :: trajectory where
  "sample_traj = \<lparr>tr_id = ''t0'', tr_kind = SingleTurn, tr_prompt = ''p'',
     tr_steps = [\<lparr>st_index = 0, st_action = ''a'', st_observation = '''', st_reward = None, st_logprob = None\<rparr>],
     tr_reward = Some 1, tr_lineage = sample_lineage, tr_created_at = 5, tr_meta = []\<rparr>"

lemma sample_traj_store:
  "ancestry [sample_traj] ''t0'' = Inr [sample_traj]" "traj_get [sample_traj] ''t1'' = None"
  "traj_get [sample_traj] ''t0'' = Some sample_traj"
  by (simp_all add: ancestry_def traj_get_def row_simps sample_traj_def sample_lineage_def)

lemma ancestry_chain_witness:
  "ancestry (traj_put (derive ''t1'' 6 (\<lambda>l. l) sample_traj) [sample_traj]) ''t1''
    = Inr ([sample_traj] @ [derive ''t1'' 6 (\<lambda>l. l) sample_traj])"
  using ancestry_chain [OF sample_traj_store refl, of 6] by blast

lemma recent_ids:
  assumes "traj_pk rows"
  shows "distinct (map tr_id (sort_key f rows))"
proof -
  have "mset (map tr_id (sort_key f rows)) = mset (map tr_id rows)" by simp
  then show ?thesis using assms unfolding traj_pk_def by (metis mset_eq_imp_distinct_iff)
qed

lemma filter_ids_length:
  assumes "traj_pk rows" and "set xs \<subseteq> set rows" and "distinct (map tr_id xs)"
  shows "length (filter (\<lambda>t. tr_id t \<in> tr_id ` set xs) rows) = length xs"
proof -
  have pk: "distinct (map tr_id rows)" using assms(1) by (simp add: traj_pk_def)
  have inj: "inj_on tr_id (set rows)" using pk by (simp add: distinct_map)
  have "set (filter (\<lambda>t. tr_id t \<in> tr_id ` set xs) rows) = set xs"
    using assms(2) inj by (auto dest: inj_onD)
  moreover have "distinct (filter (\<lambda>t. tr_id t \<in> tr_id ` set xs) rows)" "distinct xs"
    using pk assms(3) by (simp_all add: distinct_map)
  ultimately show ?thesis by (metis distinct_card)
qed

text \<open>Retention of trajectories: \<open>prune\<close> refuses a negative bound without effect; otherwise
  it leaves the smaller of the bound and the number of rows, reports how many it deleted, every row it
  keeps is at least as recent as every row it deletes, and the listing of the most recent ones is
  unchanged up to the bound.\<close>

theorem trajectory_retention:
  assumes "traj_pk rows" and "0 \<le> keep"
  shows "\<exists>rows' n. traj_prune keep rows = (rows', Inr n) \<and> traj_prune (- 1 - keep) rows = (rows, Inl ()) \<and>
    traj_count rows' = min (nat keep) (traj_count rows) \<and> n + traj_count rows' = traj_count rows \<and>
    set rows' = set (recent (nat keep) rows) \<and>
    {(a, b). a \<in> set rows' \<and> b \<in> set rows - set rows' \<and> tr_created_at a < tr_created_at b} = {} \<and>
    traj_pk rows'"
proof -
  let ?s = "sort_key (\<lambda>t. - tr_created_at t) rows"
  let ?kept = "recent (nat keep) rows"
  let ?rows' = "filter (\<lambda>t. tr_id t \<in> set (map tr_id ?kept)) rows"
  have kept: "?kept = take (nat keep) ?s" by (simp add: recent_def)
  have sub: "set ?kept \<subseteq> set rows" unfolding kept using set_take_subset by fastforce
  have dist: "distinct (map tr_id ?kept)"
    unfolding kept take_map [symmetric] by (rule distinct_take [OF recent_ids [OF assms(1)]])
  have len: "length ?rows' = length ?kept"
    using filter_ids_length [OF assms(1) sub dist] by simp
  have inj: "inj_on tr_id (set rows)" using assms(1) by (simp add: traj_pk_def distinct_map)
  have rs: "set ?rows' = set ?kept" using sub inj by (auto dest: inj_onD)
  have ord: "\<not> tr_created_at a < tr_created_at b" if "a \<in> set ?kept" "b \<in> set rows - set ?kept" for a b
  proof -
    have "b \<in> set (drop (nat keep) ?s)"
      using that(2) unfolding kept by (metis Diff_iff Un_iff append_take_drop_id set_append set_sort)
    moreover have "sorted (map (\<lambda>t. - tr_created_at t) (take (nat keep) ?s @ drop (nat keep) ?s))"
      by simp
    ultimately show ?thesis
      using that(1) unfolding kept map_append sorted_append by fastforce
  qed
  have "traj_prune keep rows = (?rows', Inr (length rows - length ?rows'))"
    using assms(2) by (simp add: traj_prune_def Let_def)
  moreover have "traj_prune (- 1 - keep) rows = (rows, Inl ())"
    using assms(2) by (simp add: traj_prune_def)
  moreover have "length ?rows' = min (nat keep) (length rows)" unfolding len by (simp add: kept)
  moreover have "length rows - length ?rows' + length ?rows' = length rows" by simp
  moreover have "{(a, b). a \<in> set ?rows' \<and> b \<in> set rows - set ?rows' \<and> tr_created_at a < tr_created_at b} = {}"
    using ord unfolding rs by blast
  moreover have "traj_pk ?rows'" using assms(1) by (simp add: traj_pk_def distinct_map_filter)
  ultimately show ?thesis
    using rs unfolding traj_count_def by blast
qed

lemma trajectory_retention_example:
  "\<exists>rows' n. traj_prune 1 [sample_traj, derive ''t1'' 6 (\<lambda>l. l) sample_traj] = (rows', Inr n) \<and>
    traj_count rows' = 1 \<and> n = 1"
proof -
  have "traj_pk [sample_traj, derive ''t1'' 6 (\<lambda>l. l) sample_traj]"
    by (simp add: traj_pk_def derive_def sample_traj_def)
  from trajectory_retention [OF this, of 1] show ?thesis by (auto simp: traj_count_def)
qed

section \<open>Artifacts\<close>

lemma art_get_wf: "art_wf db \<Longrightarrow> b \<in> set (artifacts db) \<Longrightarrow> art_get db (ar_id b) = Inr b"
  by (simp add: art_wf_def art_get_def row_by_unique)

lemma ancestors_loop_set:
  assumes "art_get db aid = Inr a"
  shows "set (ancestors_loop db [] (rev (ar_parents a)))
    = {b. art_get db (ar_id b) = Inr b \<and> (aid, ar_id b) \<in> (parent_edge db)\<^sup>+}"
proof (intro set_eqI iffI; clarify?)
  have e: "(aid, p) \<in> parent_edge db \<longleftrightarrow> p \<in> set (ar_parents a)" for p
    using assms by (auto simp: parent_edge_def)
  fix b
  show "art_get db (ar_id b) = Inr b \<and> (aid, ar_id b) \<in> (parent_edge db)\<^sup>+"
    if "b \<in> set (ancestors_loop db [] (rev (ar_parents a)))"
    using loop_sound [OF that] e by (auto intro: rtrancl_into_trancl2)
  show "b \<in> set (ancestors_loop db [] (rev (ar_parents a)))"
    if b: "art_get db (ar_id b) = Inr b" and "(aid, ar_id b) \<in> (parent_edge db)\<^sup>+"
  proof -
    from that(2) obtain s where "s \<in> set (ar_parents a)" "(s, ar_id b) \<in> (parent_edge db)\<^sup>*"
      using e by (meson tranclD)
    then show ?thesis
      using loop_complete [of "[]" db "rev (ar_parents a)" s "ar_id b" b] b by simp
  qed
qed

lemma children_ids:
  assumes "art_wf db"
  shows "set (map fst (filter (\<lambda>(_, p). p = aid) (edges db)))
    = ar_id ` {b \<in> set (artifacts db). aid \<in> set (ar_parents b)}"
    and "distinct (map fst (filter (\<lambda>(_, p). p = aid) (edges db)))"
proof -
  have "set (edges db) = {(ar_id a, p) | a p. a \<in> set (artifacts db) \<and> p \<in> set (ar_parents a)}"
    using assms by (simp add: art_wf_def)
  then show "set (map fst (filter (\<lambda>(_, p). p = aid) (edges db)))
    = ar_id ` {b \<in> set (artifacts db). aid \<in> set (ar_parents b)}" by force
  have "inj_on fst (set (filter (\<lambda>(_, p). p = aid) (edges db)))" by (rule inj_onI) auto
  then show "distinct (map fst (filter (\<lambda>(_, p). p = aid) (edges db)))"
    using assms by (simp add: art_wf_def distinct_map)
qed

lemma children_ok:
  assumes "art_wf db"
  shows "\<exists>down. art_children db aid = Inr down \<and> distinct (map ar_id down) \<and>
    set down = {b \<in> set (artifacts db). aid \<in> set (ar_parents b)}"
proof -
  let ?ids = "map fst (filter (\<lambda>(_, p). p = aid) (edges db))"
  define g where "g = (\<lambda>k. the (row_by ar_id k (artifacts db)))"
  have g: "g (ar_id b) = b \<and> art_get db (ar_id b) = Inr b" if "b \<in> set (artifacts db)" for b
    using that assms by (simp add: g_def art_wf_def art_get_def row_by_unique)
  have ids: "k \<in> set ?ids \<Longrightarrow> \<exists>b \<in> set (artifacts db). aid \<in> set (ar_parents b) \<and> k = ar_id b" for k
    using children_ids(1) [OF assms, of aid] by auto
  have "art_children db aid = Inr (map g ?ids)"
    unfolding art_children_def by (rule mapE_Inr) (use ids g in metis)
  moreover have "ar_id (g k) = k" if "k \<in> set ?ids" for k using ids [OF that] g by auto
  then have "map ar_id (map g ?ids) = ?ids" by simp
  moreover have "set (map g ?ids) = {b \<in> set (artifacts db). aid \<in> set (ar_parents b)}"
    unfolding set_map children_ids(1) [OF assms, unfolded set_map] image_image using g by auto
  ultimately show ?thesis using children_ids(2) [OF assms, of aid] by metis
qed

text \<open>C24. The lineage graph: for a registered artifact \<open>lineage\<close> returns it, each registered
  artifact reachable over one or more parent references exactly once (missing parents are skipped,
  cycles end), and each artifact that names it as a parent exactly once; registering another
  artifact keeps the two tables consistent, so this holds after any sequence of registrations, and an
  unknown id is the error that names it.\<close>

theorem artifact_lineage:
  assumes "art_wf db" and "art_get db aid = Inr a"
  shows "\<exists>v. art_lineage db aid = Inr v \<and> lv_artifact v = a \<and>
    set (lv_ancestors v) = {b. art_get db (ar_id b) = Inr b \<and> (aid, ar_id b) \<in> (parent_edge db)\<^sup>+} \<and>
    distinct (map ar_id (lv_ancestors v)) \<and>
    set (lv_children v) = {b \<in> set (artifacts db). aid \<in> set (ar_parents b)} \<and>
    distinct (map ar_id (lv_children v)) \<and>
    art_wf (fst (register fresh now ty ref run_id parents uri hash md db)) \<and>
    art_lineage \<lparr>artifacts = [], edges = []\<rparr> aid = Inl (ArtifactNotFound aid)"
proof -
  obtain down where d: "art_children db aid = Inr down" "distinct (map ar_id down)"
    "set down = {b \<in> set (artifacts db). aid \<in> set (ar_parents b)}"
    using children_ok [OF assms(1), of aid] by auto
  have up: "ancestors db aid = Inr (ancestors_loop db [] (rev (ar_parents a)))"
    using assms(2) by (simp add: ancestors_def)
  have "art_lineage \<lparr>artifacts = [], edges = []\<rparr> aid = Inl (ArtifactNotFound aid)"
    by (simp add: art_lineage_def art_get_def row_simps)
  then show ?thesis
    using d assms(2) up ancestors_loop_set [OF assms(2)] loop_distinct [of db "[]"]
      register_wf [OF assms(1)]
    by (simp add: art_lineage_def)
qed

definition sample_artifacts :: artifact_db where
  "sample_artifacts =
     (let reg = (\<lambda>i ps db. fst (register i 0 CHECKPOINT ''c'' None ps None None [] db))
      in reg ''b'' [''a''] (reg ''a'' [''b''] \<lparr>artifacts = [], edges = []\<rparr>))"

definition sample_artifact :: "string \<Rightarrow> string list \<Rightarrow> artifact" where
  "sample_artifact i ps = \<lparr>ar_id = i, ar_type = CHECKPOINT, ar_ref = ''c'', ar_run_id = None,
     ar_parents = ps, ar_uri = None, ar_hash = None, ar_metadata = [], ar_created_at = 0\<rparr>"

lemma register_fresh:
  "row_by ar_id i (artifacts db) = None \<Longrightarrow>
    fst (register i 0 CHECKPOINT ''c'' None ps None None [] db)
      = db\<lparr>artifacts := artifacts db @ [sample_artifact i ps], edges := fold (insert_edge i) ps (edges db)\<rparr>"
  by (simp add: register_def sample_artifact_def Let_def)

lemma sample_artifacts_eq:
  "sample_artifacts = \<lparr>artifacts = [sample_artifact ''a'' [''b''], sample_artifact ''b'' [''a'']],
     edges = [(''a'', ''b''), (''b'', ''a'')]\<rparr>"
proof -
  have a: "fst (register ''a'' 0 CHECKPOINT ''c'' None [''b''] None None [] \<lparr>artifacts = [], edges = []\<rparr>)
      = \<lparr>artifacts = [sample_artifact ''a'' [''b'']], edges = [(''a'', ''b'')]\<rparr>"
    by (subst register_fresh) (simp_all add: row_simps insert_edge_def)
  have k: "ar_id (sample_artifact i ps) = i" for i ps by (simp add: sample_artifact_def)
  show ?thesis
    unfolding sample_artifacts_def Let_def a
    by (subst register_fresh) (simp_all add: row_simps insert_edge_def k)
qed

lemma artifact_lineage_witness:
  "\<exists>v. art_lineage sample_artifacts ''a'' = Inr v \<and> ''a'' \<in> ar_id ` set (lv_ancestors v)"
proof -
  have wf: "art_wf sample_artifacts"
    unfolding sample_artifacts_def Let_def by (intro register_wf) (simp add: art_wf_def)
  define a b where "a = sample_artifact ''a'' [''b'']" and "b = sample_artifact ''b'' [''a'']"
  have g: "art_get sample_artifacts ''a'' = Inr a" "ar_parents a = [''b'']"
    "art_get sample_artifacts ''b'' = Inr b" "ar_parents b = [''a'']"
    by (simp_all add: a_def b_def sample_artifacts_eq sample_artifact_def art_get_def row_simps)
  have "(''a'', ''b'') \<in> parent_edge sample_artifacts" "(''b'', ''a'') \<in> parent_edge sample_artifacts"
    using g by (simp_all add: parent_edge_def)
  then have t: "(''a'', ''a'') \<in> (parent_edge sample_artifacts)\<^sup>+"
    by (meson trancl.r_into_trancl trancl_into_trancl)
  have ai: "ar_id a = ''a''" using art_get_in [OF g(1)] by simp
  obtain v where v: "art_lineage sample_artifacts ''a'' = Inr v" and s: "set (lv_ancestors v)
      = {b. art_get sample_artifacts (ar_id b) = Inr b \<and> (''a'', ar_id b) \<in> (parent_edge sample_artifacts)\<^sup>+}"
    using artifact_lineage [OF wf g(1), of "[]" 0 CHECKPOINT "[]" None "[]" None None "[]"]
    by (elim exE conjE)
  have "a \<in> set (lv_ancestors v)" unfolding s using t g(1) ai by simp
  then show ?thesis using v ai by force
qed

section \<open>Experiment runs\<close>

lemma run_get_mapE:
  "mapE (\<lambda>rid. case run_get rows rid of None \<Rightarrow> Inl (RunNotFound rid) | Some r \<Rightarrow> Inr r) ids =
    (case find (\<lambda>rid. run_get rows rid = None) ids of
       Some rid \<Rightarrow> Inl (RunNotFound rid) | None \<Rightarrow> Inr (map (\<lambda>rid. the (run_get rows rid)) ids))"
  by (induction ids) (auto split: option.splits)

lemma remdups_le_1: "length (remdups xs) \<le> 1 \<longleftrightarrow> (\<forall>x \<in> set xs. \<forall>y \<in> set xs. x = y)"
proof -
  have "length (remdups xs) = card (set xs)" by (metis List.card_set)
  then show ?thesis by (auto simp: card_le_Suc0_iff_eq)
qed

text \<open>Comparing runs: when every requested run is stored, there is one row per requested id in
  that order, and the runs are comparable exactly when no two differ in their dataset or their reward
  version, each of which is listed once and sorted; an unknown id is reported, the first one; storing a run
  again (as \<open>start\<close> and \<open>finish\<close> do) changes no other run.\<close>

theorem compare_runs:
  assumes "run_get rows rid = None" and "rid' \<noteq> rr_id r"
  shows "case find (\<lambda>i. run_get rows i = None) ids of
      Some i \<Rightarrow> run_compare rows ids = Inl (RunNotFound i) \<and>
        run_compare rows (ids @ rest) = Inl (RunNotFound i)
    | None \<Rightarrow>
        run_compare rows (ids @ rid # rest) = Inl (RunNotFound rid) \<and>
        (\<exists>c. run_compare rows ids = Inr c \<and> map cr_run_id (cmp_rows c) = map (\<lambda>i. rr_id (the (run_get rows i))) ids \<and>
          (cmp_comparable c \<longleftrightarrow> card ((\<lambda>i. rr_dataset_version (the (run_get rows i))) ` set ids) \<le> 1 \<and>
             card ((\<lambda>i. rr_reward_version (the (run_get rows i))) ` set ids) \<le> 1) \<and>
          sorted (cmp_dataset_versions c) \<and> distinct (cmp_dataset_versions c) \<and>
          set (cmp_dataset_versions c) = (\<lambda>i. rr_dataset_version (the (run_get rows i))) ` set ids \<and>
          sorted (cmp_reward_versions c) \<and> distinct (cmp_reward_versions c) \<and>
          set (cmp_reward_versions c) = (\<lambda>i. rr_reward_version (the (run_get rows i))) ` set ids) \<and>
        run_get (run_save r rows) rid' = run_get rows rid'"
proof (cases "find (\<lambda>i. run_get rows i = None) ids")
  case None
  have "find (\<lambda>i. run_get rows i = None) (ids @ rid # rest) = Some rid"
    using None assms(1) by (induction ids) (auto split: if_splits)
  then have "run_compare rows (ids @ rid # rest) = Inl (RunNotFound rid)"
    by (simp add: run_compare_def run_get_mapE)
  then show ?thesis
    using None runs.get_put_other [OF assms(2)]
    by (simp add: run_compare_def run_get_mapE Let_def List.card_set [symmetric] row_of_def comp_def)
next
  case (Some i)
  then have "find (\<lambda>i. run_get rows i = None) (ids @ rest) = Some i"
    by (induction ids) (auto split: if_splits)
  then show ?thesis using Some by (simp add: run_compare_def run_get_mapE)
qed

definition sample_run :: "string \<Rightarrow> string \<Rightarrow> run_record" where
  "sample_run i dv = new_run i 0 ''grpo'' ''h'' ''m'' dv ''rw'' None"

lemma compare_runs_example:
  "\<exists>c. run_compare [sample_run ''a'' ''d1'', sample_run ''b'' ''d2''] [''b'', ''a''] = Inr c \<and>
    \<not> cmp_comparable c \<and> map cr_run_id (cmp_rows c) = [''b'', ''a'']"
proof -
  let ?rows = "[sample_run ''a'' ''d1'', sample_run ''b'' ''d2'']"
  have k: "rr_id (sample_run i d) = i" "rr_dataset_version (sample_run i d) = d" for i d
    by (simp_all add: sample_run_def new_run_def)
  have g: "run_get ?rows ''a'' = Some (sample_run ''a'' ''d1'')" "run_get ?rows ''b'' = Some (sample_run ''b'' ''d2'')"
    "run_get ?rows ''c'' = None"
    by (simp_all add: run_get_def row_simps k)
  have "''a'' \<noteq> rr_id (sample_run ''b'' ''d1'')" by (simp add: k)
  note w = compare_runs [OF g(3) this, of "[''b'', ''a'']" "[]"]
  have f: "find (\<lambda>i. run_get ?rows i = None) [''b'', ''a''] = None" by (simp add: g)
  have x: "(\<lambda>i. rr_dataset_version (the (run_get ?rows i))) ` set [''b'', ''a''] = {''d2'', ''d1''}"
    "map (\<lambda>i. rr_id (the (run_get ?rows i))) [''b'', ''a''] = [''b'', ''a'']"
    unfolding list.set list.map image_insert image_empty g option.sel k by (rule refl)+
  have d: "\<not> card {''d2'', ''d1''} \<le> 1" by simp
  show ?thesis
  proof (rule ex_forward [OF w [unfolded f option.case x, THEN conjunct2, THEN conjunct1]])
    fix c
    assume h: "run_compare ?rows [''b'', ''a''] = Inr c \<and> map cr_run_id (cmp_rows c) = [''b'', ''a''] \<and>
      (cmp_comparable c \<longleftrightarrow> card {''d2'', ''d1''} \<le> 1 \<and>
         card ((\<lambda>i. rr_reward_version (the (run_get ?rows i))) ` set [''b'', ''a'']) \<le> 1) \<and>
      sorted (cmp_dataset_versions c) \<and> distinct (cmp_dataset_versions c) \<and>
      set (cmp_dataset_versions c) = {''d2'', ''d1''} \<and>
      sorted (cmp_reward_versions c) \<and> distinct (cmp_reward_versions c) \<and>
      set (cmp_reward_versions c) = (\<lambda>i. rr_reward_version (the (run_get ?rows i))) ` set [''b'', ''a'']"
    have "\<not> cmp_comparable c" using h [THEN conjunct2, THEN conjunct2, THEN conjunct1] d by blast
    with h show "run_compare ?rows [''b'', ''a''] = Inr c \<and> \<not> cmp_comparable c \<and>
      map cr_run_id (cmp_rows c) = [''b'', ''a'']" by (intro conjI) (erule conjunct1, assumption, erule conjunct2 [THEN conjunct1])
  qed
qed

end
