(* ===== verification/Shop_Env.thy ===== *)
theory Shop_Env
  imports Catalog
begin

text \<open>
  \<^verbatim>\<open>src/shoprl/env/shopenv.py\<close> and \<^verbatim>\<open>src/shoprl/env/reward.py\<close>: the shopping environment, its
  episodes, and the reward of a finished one.  Floats are exact reals; \<open>show_float\<close> renders one.
\<close>

section \<open>Actions\<close>

datatype action_kind = ADD_TO_CART | APPLY_FILTER | REMOVE | CHECKOUT | INVALID

fun kind_name :: "action_kind \<Rightarrow> string" where
  "kind_name ADD_TO_CART = ''ADD_TO_CART''"
| "kind_name APPLY_FILTER = ''APPLY_FILTER''"
| "kind_name REMOVE = ''REMOVE''"
| "kind_name CHECKOUT = ''CHECKOUT''"
| "kind_name INVALID = ''INVALID''"

record shop_action =
  ac_kind :: action_kind
  ac_arg :: string

definition verbs :: "(string \<times> action_kind) list" where
  "verbs = [(''add_to_cart'', ADD_TO_CART), (''apply_filter'', APPLY_FILTER), (''remove'', REMOVE),
     (''checkout'', CHECKOUT)]"

text \<open>The optional bracket: blanks, then the shortest text without a line feed up to a closing
  bracket.\<close>

definition bracket_arg :: "string \<Rightarrow> string" where
  "bracket_arg s =
     (case dropWhile is_space s of
        [] \<Rightarrow> []
      | c # cs \<Rightarrow>
          if c = CHR ''['' then
            (let inside = (\<lambda>d. d \<noteq> CHR '']'' \<and> code d \<noteq> 10) in
             case dropWhile inside cs of
               [] \<Rightarrow> [] | d # _ \<Rightarrow> if d = CHR '']'' then takeWhile inside cs else [])
          else [])"

definition action_at :: "string \<Rightarrow> shop_action option" where
  "action_at s =
     (case find (\<lambda>(v, _). starts_ci v s) verbs of
        None \<Rightarrow> None
      | Some (v, k) \<Rightarrow> Some \<lparr>ac_kind = k, ac_arg = strip (bracket_arg (drop (length v) s))\<rparr>)"

definition parse_action :: "string \<Rightarrow> shop_action" where
  "parse_action text =
     (case search action_at text of None \<Rightarrow> \<lparr>ac_kind = INVALID, ac_arg = []\<rparr> | Some a \<Rightarrow> a)"

text \<open>One criterion: \<open>Some None\<close> when the part has no known key, \<open>None\<close> is the ValueError of
  \<open>float\<close>.\<close>

definition is_key_char :: "char \<Rightarrow> bool" where
  "is_key_char c = (let n = code (lower_char c) in 97 \<le> n \<and> n \<le> 122 \<or> c = CHR ''_'')"

definition is_op_char :: "char \<Rightarrow> bool" where
  "is_op_char c \<longleftrightarrow> c \<in> {CHR ''='', CHR '':'', CHR ''<'', CHR ''>''}"

definition parse_criterion :: "string \<Rightarrow> (string \<times> real) option option" where
  "parse_criterion part =
     (let s0 = dropWhile is_space part;
          key = takeWhile is_key_char s0; s1 = dropWhile is_space (dropWhile is_key_char s0);
          ops = takeWhile is_op_char s1; s2 = dropWhile is_space (dropWhile is_op_char s1);
          num = takeWhile (\<lambda>c. is_digit c \<or> c = CHR ''.'') s2
      in if key \<noteq> [] \<and> ops \<noteq> [] \<and> num \<noteq> [] \<and> lower key \<in> set CONSTRAINT_KEYS
         then map_option (\<lambda>v. Some (lower key, v)) (decimal num)
         else Some None)"

definition split_criteria :: "string \<Rightarrow> string list" where
  "split_criteria arg = concat (map (split_on (CHR '';'')) (split_on (CHR '','') arg))"

fun collect_criteria :: "string list \<Rightarrow> constraints \<Rightarrow> constraints option" where
  "collect_criteria [] out = Some out"
| "collect_criteria (p # ps) out =
     (case parse_criterion p of
        None \<Rightarrow> None
      | Some None \<Rightarrow> collect_criteria ps out
      | Some (Some (k, v)) \<Rightarrow> collect_criteria ps (AList.update k v out))"

definition parse_criteria :: "string \<Rightarrow> constraints option" where
  "parse_criteria arg = collect_criteria (split_criteria arg) []"

section \<open>State\<close>

record goal =
  go_budget :: real
  go_constraints :: constraints
  go_target :: int

record env_state =
  es_budget :: real
  es_cart :: "string list"
  es_filters :: constraints
  es_turn :: int
  es_done :: bool
  es_checked_out :: bool

record shop_env =
  se_catalog :: "product list"
  se_goal :: goal
  se_max_turns :: int

definition env_idx :: "shop_env \<Rightarrow> string \<Rightarrow> product option" where
  "env_idx env = catalog_index (se_catalog env)"

definition candidates :: "shop_env \<Rightarrow> env_state \<Rightarrow> nat \<Rightarrow> product list" where
  "candidates env s limit = take limit (filter (\<lambda>p. satisfies p (es_filters s)) (se_catalog env))"

definition repr_list :: "string list \<Rightarrow> string" where
  "repr_list xs = ''['' @ join '', '' (map py_repr xs) @ '']''"

definition repr_constraints :: "(real \<Rightarrow> string) \<Rightarrow> constraints \<Rightarrow> string" where
  "repr_constraints show_float cs =
     [CHR 0x7B] @ join '', '' (map (\<lambda>(k, v). py_repr k @ '': '' @ show_float v) cs) @ [CHR 0x7D]"

definition context_text :: "(real \<Rightarrow> string) \<Rightarrow> shop_env \<Rightarrow> env_state \<Rightarrow> string" where
  "context_text show_float env s =
     (let g = se_goal env; dict = (\<lambda>cs. if cs = [] then ''(none)'' else repr_constraints show_float cs)
      in join [CHR 0x0A]
        ([''GOAL: buy '' @ show_int (go_target g) @ '' laptop(s), budget $'' @ show_real0 (go_budget g)
            @ '', constraints '' @ dict (go_constraints g),
          ''Turn '' @ show_int (es_turn s) @ ''/'' @ show_int (se_max_turns env) @ '' | budget left $''
            @ show_real0 (es_budget s) @ '' | cart ''
            @ (if es_cart s = [] then ''(empty)'' else repr_list (es_cart s)) @ '' | filters ''
            @ dict (es_filters s),
          ''Candidates (matching your filters):'']
         @ map (\<lambda>p. ''- '' @ p_sku p @ '': $'' @ show_real0 (p_price p) @ '' | '' @ show_int (p_ram p)
             @ ''GB | '' @ show_float (p_weight p) @ ''lbs | '' @ show_int (p_battery p) @ ''hrs | ''
             @ p_brand p) (candidates env s 6)
         @ [''Action: ADD_TO_CART[SKU] | APPLY_FILTER[key=val,...] | REMOVE[SKU] | CHECKOUT'']))"

section \<open>Steps\<close>

record step_info =
  in_action :: string
  in_arg :: "string option"
  in_valid :: bool
  in_note :: string

datatype env_error = NotReset | BadFloat | MissingSku string

definition env_reset :: "shop_env \<Rightarrow> env_state" where
  "env_reset env =
     \<lparr>es_budget = go_budget (se_goal env), es_cart = [], es_filters = [], es_turn = 0,
      es_done = False, es_checked_out = False\<rparr>"

text \<open>The effect of one action on the state, with the validity flag and the note.\<close>

definition apply_action ::
  "(real \<Rightarrow> string) \<Rightarrow> shop_env \<Rightarrow> shop_action \<Rightarrow> (env_state, env_error, bool \<times> string) action" where
  "apply_action show_float env a s =
     (case ac_kind a of
        ADD_TO_CART \<Rightarrow>
          (case env_idx env (upper (ac_arg a)) of
             None \<Rightarrow> (s, Inr (False, ''unknown SKU''))
           | Some p \<Rightarrow>
               if p_price p > es_budget s then (s, Inr (False, ''over budget''))
               else (s\<lparr>es_cart := es_cart s @ [p_sku p],
                       es_budget := py_round 2 (es_budget s - p_price p)\<rparr>,
                     Inr (True, ''added '' @ p_sku p @ '' ($'' @ show_real0 (p_price p) @ '')'')))
      | REMOVE \<Rightarrow>
          (let sku = upper (ac_arg a) in
           if sku \<in> set (es_cart s)
           then (let s1 = s\<lparr>es_cart := remove1 sku (es_cart s)\<rparr> in
                 case env_idx env sku of
                   None \<Rightarrow> (s1, Inl (MissingSku sku))
                 | Some p \<Rightarrow> (s1\<lparr>es_budget := py_round 2 (es_budget s1 + p_price p)\<rparr>,
                              Inr (True, ''removed '' @ sku)))
           else (s, Inr (False, ''not in cart'')))
      | APPLY_FILTER \<Rightarrow>
          (case parse_criteria (ac_arg a) of
             None \<Rightarrow> (s, Inl BadFloat)
           | Some crit \<Rightarrow>
               if crit = [] then (s, Inr (False, ''unparseable criteria''))
               else (let s1 = s\<lparr>es_filters := fold (\<lambda>(k, v). AList.update k v) crit (es_filters s)\<rparr>
                     in (s1, Inr (True, ''filters now '' @ repr_constraints show_float (es_filters s1)))))
      | CHECKOUT \<Rightarrow> (s\<lparr>es_checked_out := True, es_done := True\<rparr>, Inr (True, ''checked out''))
      | INVALID \<Rightarrow> (s, Inr (False, ''unrecognized action'')))"

definition end_turn :: "shop_env \<Rightarrow> env_state \<Rightarrow> env_state" where
  "end_turn env s = (if es_turn s \<ge> se_max_turns env then s\<lparr>es_done := True\<rparr> else s)"

definition end_note :: "shop_env \<Rightarrow> env_state \<Rightarrow> string \<Rightarrow> string" where
  "end_note env s note =
     (if es_turn s \<ge> se_max_turns env \<and> \<not> es_checked_out s
      then note @ '' | max_turns reached (no checkout)'' else note)"

definition env_step ::
  "(real \<Rightarrow> string) \<Rightarrow> shop_env \<Rightarrow> string \<Rightarrow>
    (env_state option, env_error, string \<times> bool \<times> step_info) action" where
  "env_step show_float env text st =
     (case st of
        None \<Rightarrow> (None, Inl NotReset)
      | Some s \<Rightarrow>
          if es_done s then
            (Some s, Inr (context_text show_float env s, True,
               \<lparr>in_action = ''NOOP'', in_arg = None, in_valid = False, in_note = ''episode already done''\<rparr>))
          else
            (let a = parse_action text in
             case apply_action show_float env a (s\<lparr>es_turn := es_turn s + 1\<rparr>) of
               (s1, Inl e) \<Rightarrow> (Some s1, Inl e)
             | (s1, Inr (ok, note)) \<Rightarrow>
                 (let s2 = end_turn env s1
                  in (Some s2, Inr (context_text show_float env s2, es_done s2,
                      \<lparr>in_action = kind_name (ac_kind a), in_arg = Some (ac_arg a), in_valid = ok,
                       in_note = end_note env s1 note\<rparr>)))))"

section \<open>The reward of an episode\<close>

text \<open>\<open>None\<close> is the KeyError of a cart entry that is not in the index.\<close>

definition episode_reward :: "env_state \<Rightarrow> goal \<Rightarrow> (string \<Rightarrow> product option) \<Rightarrow> real option" where
  "episode_reward s g idx =
     (if \<not> es_checked_out s \<or> es_cart s = [] then Some 0
      else if list_ex (\<lambda>k. idx k = None) (es_cart s) then None
      else
        (let n = real (length (es_cart s));
             constraints_ok = real (length (filter (\<lambda>k. satisfies (the (idx k)) (go_constraints g)) (es_cart s))) / n;
             count_ok = (if go_target g > 0
                         then max 0 (1 - \<bar>n - of_int (go_target g)\<bar> / of_int (go_target g)) else 1)
         in Some (py_round 4 (6/10 * constraints_ok + 4/10 * count_ok))))"

text \<open>\<open>assign_credit\<close>; \<open>None\<close> is the ValueError of an unknown scheme.\<close>

definition assign_credit :: "real \<Rightarrow> int \<Rightarrow> string \<Rightarrow> real \<Rightarrow> real \<Rightarrow> real list option" where
  "assign_credit reward n_turns scheme gamma baseline =
     (if n_turns \<le> 0 then Some []
      else
        (let adv = reward - baseline; n = nat n_turns in
         if scheme = ''uniform'' then Some (replicate n adv)
         else if scheme = ''discounted'' then Some (map (\<lambda>t. py_round 6 (gamma ^ (n - 1 - t) * adv)) [0..<n])
         else None))"

end
