(* ===== verification/Env_Props.thy ===== *)
theory Env_Props
  imports Shop_Env
begin

text \<open>
  Episodes of the shopping environment: the accounting of budget and cart in every reachable state,
  what one step may change, and the range of the reward and the credit spread over the turns.
\<close>

section \<open>Money\<close>

definition cents :: "real \<Rightarrow> bool" where
  "cents x \<longleftrightarrow> (\<exists>i. x * 100 = of_int i)"

lemma cents_add: "cents x \<Longrightarrow> cents y \<Longrightarrow> cents (x + y)"
  unfolding cents_def by (metis distrib_right of_int_add)

lemma cents_diff: "cents x \<Longrightarrow> cents y \<Longrightarrow> cents (x - y)"
  unfolding cents_def by (metis left_diff_distrib of_int_diff)

lemma cents_of_int: "cents (of_int i)"
  unfolding cents_def by (rule exI [of _ "i * 100"]) simp

lemma round_cents: "cents x \<Longrightarrow> py_round 2 x = x"
  unfolding cents_def by (elim exE, rule py_round_exact) simp

definition env_ok :: "shop_env \<Rightarrow> bool" where
  "env_ok env \<longleftrightarrow> cents (go_budget (se_goal env)) \<and> 0 \<le> go_budget (se_goal env) \<and>
     list_all (\<lambda>p. cents (p_price p) \<and> 0 \<le> p_price p) (se_catalog env)"

definition price_of :: "shop_env \<Rightarrow> string \<Rightarrow> real" where
  "price_of env k = (case env_idx env k of None \<Rightarrow> 0 | Some p \<Rightarrow> p_price p)"

definition cart_total :: "shop_env \<Rightarrow> env_state \<Rightarrow> real" where
  "cart_total env s = sum_list (map (price_of env) (es_cart s))"

lemma env_idx_SomeD: "env_idx env k = Some p \<Longrightarrow> p \<in> set (se_catalog env) \<and> p_sku p = k"
proof -
  have "fold (\<lambda>p m. m(p_sku p \<mapsto> p)) ps m k = Some p \<Longrightarrow> m k = Some p \<or> (p \<in> set ps \<and> p_sku p = k)" for ps m
    by (induction ps arbitrary: m) (fastforce split: if_splits)+
  then show "env_idx env k = Some p \<Longrightarrow> p \<in> set (se_catalog env) \<and> p_sku p = k"
    unfolding env_idx_def catalog_index_def by blast
qed

lemma env_idx_price: "env_ok env \<Longrightarrow> env_idx env k = Some p \<Longrightarrow> cents (p_price p) \<and> 0 \<le> p_price p"
  using env_idx_SomeD by (fastforce simp: env_ok_def list_all_iff)

section \<open>Reachable states\<close>

inductive env_reach :: "(real \<Rightarrow> string) \<Rightarrow> shop_env \<Rightarrow> env_state \<Rightarrow> bool" for sf env where
  start: "env_reach sf env (env_reset env)"
| step: "env_reach sf env s \<Longrightarrow> env_step sf env inp (Some s) = (Some s', r) \<Longrightarrow> env_reach sf env s'"

definition env_inv :: "shop_env \<Rightarrow> env_state \<Rightarrow> bool" where
  "env_inv env s \<longleftrightarrow> es_budget s + cart_total env s = go_budget (se_goal env) \<and> cents (es_budget s) \<and>
     0 \<le> es_budget s \<and> set (es_cart s) \<subseteq> dom (env_idx env) \<and> (es_checked_out s \<longrightarrow> es_done s)"

lemma sum_list_remove1: "x \<in> set xs \<Longrightarrow> sum_list (map f (remove1 x xs)) = sum_list (map f xs) - (f x :: real)"
  by (induction xs) auto

lemma apply_action_inv:
  assumes "env_ok env" and "env_inv env s" and "apply_action sf env a s = (s', r)"
  shows "env_inv env s' \<and> es_turn s' = es_turn s \<and> (es_done s' = (es_done s \<or> ac_kind a = CHECKOUT)) \<and>
    (case r of Inl e \<Rightarrow> e = BadFloat \<and> s' = s
      | Inr (ok, note) \<Rightarrow> ok \<or> s' = s)"
proof (cases "ac_kind a")
  case ADD_TO_CART
  show ?thesis
  proof (cases "env_idx env (upper (ac_arg a))")
    case None
    with assms ADD_TO_CART show ?thesis by (auto simp: apply_action_def)
  next
    case (Some p)
    note pr = env_idx_price [OF assms(1) Some]
    have k: "env_idx env (p_sku p) = Some p" using env_idx_SomeD [OF Some] Some by simp
    have "py_round 2 (es_budget s - p_price p) = es_budget s - p_price p"
      using assms(2) pr by (intro round_cents cents_diff) (simp_all add: env_inv_def)
    moreover have "cents (es_budget s - p_price p)"
      using assms(2) pr by (intro cents_diff) (simp_all add: env_inv_def)
    ultimately show ?thesis
      using assms ADD_TO_CART Some k
      by (auto simp: apply_action_def env_inv_def cart_total_def price_of_def split: if_splits)
  qed
next
  case REMOVE
  let ?k = "upper (ac_arg a)"
  show ?thesis
  proof (cases "?k \<in> set (es_cart s)")
    case False
    with assms REMOVE show ?thesis by (auto simp: apply_action_def Let_def)
  next
    case True
    with assms(2) obtain p where p: "env_idx env ?k = Some p" by (auto simp: env_inv_def)
    note pr = env_idx_price [OF assms(1) p]
    have c: "cents (es_budget s + p_price p)"
      using assms(2) pr by (intro cents_add) (simp_all add: env_inv_def)
    have "set (remove1 ?k (es_cart s)) \<subseteq> set (es_cart s)" by (rule set_remove1_subset)
    then show ?thesis
      using assms REMOVE True p pr c round_cents [OF c]
      by (auto simp: apply_action_def env_inv_def cart_total_def sum_list_remove1 price_of_def Let_def)
  qed
next
  case APPLY_FILTER
  with assms show ?thesis
    by (auto simp: apply_action_def env_inv_def cart_total_def Let_def split: option.splits if_splits)
next
  case CHECKOUT
  with assms show ?thesis by (auto simp: apply_action_def env_inv_def cart_total_def)
next
  case INVALID
  with assms show ?thesis by (auto simp: apply_action_def)
qed

lemma env_inv_frame:
  "env_inv env (s\<lparr>es_turn := n\<rparr>) = env_inv env s" "env_inv env s \<Longrightarrow> env_inv env (s\<lparr>es_done := True\<rparr>)"
  by (simp_all add: env_inv_def cart_total_def)

lemma env_step_inv:
  assumes "env_ok env" and "env_inv env s" and "env_step sf env inp (Some s) = (Some s', r)"
  shows "env_inv env s'"
proof (cases "es_done s")
  case True
  with assms show ?thesis by (simp add: env_step_def)
next
  case False
  obtain s1 r1 where a: "apply_action sf env (parse_action inp) (s\<lparr>es_turn := es_turn s + 1\<rparr>) = (s1, r1)"
    by fastforce
  have "env_inv env s1"
    using apply_action_inv [OF assms(1) _ a] assms(2) by (simp add: env_inv_frame)
  with assms(3) False a show ?thesis
    by (auto simp: env_step_def end_turn_def Let_def env_inv_frame split: sum.splits prod.splits if_splits)
qed

lemma env_reach_inv: "env_reach sf env s \<Longrightarrow> env_ok env \<Longrightarrow> env_inv env s"
proof (induction rule: env_reach.induct)
  case start
  then show ?case by (simp add: env_inv_def env_reset_def cart_total_def env_ok_def)
next
  case (step s inp s' r)
  then show ?case using env_step_inv by blast
qed

text \<open>C29. One step of a shopping episode from any reachable state, with prices and budget in whole
  cents: the remaining budget and the cart's prices always add up to the goal's budget and the budget
  never goes negative, every item of the cart is in the catalog; a finished episode is left as it
  is, otherwise the turn counter advances by one whether or not the action was valid, an invalid
  action changes nothing else, and the episode is done afterwards exactly when it was checked out or
  the turns are used up; the only exception a step can raise is the ValueError of a malformed filter
  value, which leaves the cart, the budget and the filters alone.\<close>

theorem episode_step:
  assumes "env_ok env" and "env_reach sf env s" and "env_step sf env inp (Some s) = (Some s', r)"
  shows "es_budget s' + cart_total env s' = go_budget (se_goal env) \<and> 0 \<le> es_budget s' \<and>
    set (es_cart s') \<subseteq> p_sku ` set (se_catalog env) \<and>
    (if es_done s then s' = s
     else es_turn s' = es_turn s + 1 \<and>
      (case r of
         Inl e \<Rightarrow> e = BadFloat \<and> s' = s\<lparr>es_turn := es_turn s + 1\<rparr>
       | Inr (ctx, d, info) \<Rightarrow>
           d = es_done s' \<and> d = (es_checked_out s' \<or> se_max_turns env \<le> es_turn s') \<and>
           (in_valid info \<or> s' = s\<lparr>es_turn := es_turn s + 1, es_done := d\<rparr>)))"
proof -
  have i: "env_inv env s" and i': "env_inv env s'"
    using env_reach_inv [OF assms(2,1)] env_step_inv [OF assms(1) _ assms(3)] by auto
  have cart: "set (es_cart s') \<subseteq> p_sku ` set (se_catalog env)"
    using i' env_idx_SomeD by (fastforce simp: env_inv_def dom_def)
  show ?thesis
  proof (cases "es_done s")
    case True
    with assms(3) i' cart show ?thesis by (simp add: env_step_def env_inv_def)
  next
    case False
    let ?t = "s\<lparr>es_turn := es_turn s + 1\<rparr>"
    obtain s1 r1 where a: "apply_action sf env (parse_action inp) ?t = (s1, r1)" by fastforce
    have f: "es_turn s1 = es_turn s + 1" "es_done s1 = (ac_kind (parse_action inp) = CHECKOUT)"
      "case r1 of Inl e \<Rightarrow> e = BadFloat \<and> s1 = ?t | Inr (ok, note) \<Rightarrow> ok \<or> s1 = ?t" "env_inv env s1"
      using apply_action_inv [OF assms(1) _ a] i False by (simp_all add: env_inv_frame)
    have nc: "\<not> es_checked_out s" using i False by (auto simp: env_inv_def)
    show ?thesis
    proof (cases r1)
      case (Inl e)
      with assms(3) False a f i' cart show ?thesis
        by (auto simp: env_step_def Let_def env_inv_def)
    next
      case (Inr on)
      obtain ok nt where on: "on = (ok, nt)" by fastforce
      have s': "s' = end_turn env s1" and r: "r = Inr (context_text sf env s', es_done s',
          \<lparr>in_action = kind_name (ac_kind (parse_action inp)), in_arg = Some (ac_arg (parse_action inp)),
           in_valid = ok, in_note = end_note env s1 nt\<rparr>)"
        using assms(3) False a Inr on by (auto simp: env_step_def Let_def)
      have co: "es_checked_out s1 = (ac_kind (parse_action inp) = CHECKOUT)"
        using a nc by (auto simp: apply_action_def Let_def split: action_kind.splits option.splits if_splits)
      show ?thesis
        using False i' cart f co nc Inr on unfolding r env_inv_def s' by (auto simp: end_turn_def)
    qed
  qed
qed

lemma env_step_some: "\<exists>s' r. env_step sf env inp (Some s) = (Some s', r)"
  by (auto simp: env_step_def Let_def split: prod.split sum.split)

definition sample_env :: shop_env where
  "sample_env = \<lparr>se_catalog = [\<lparr>p_sku = ''LAP-0001'', p_name = ''A'', p_price = 500, p_ram = 8, p_weight = 3,
      p_battery = 9, p_brand = ''HP''\<rparr>],
     se_goal = \<lparr>go_budget = 1200, go_constraints = [], go_target = 1\<rparr>, se_max_turns = 8\<rparr>"

lemma sample_env_ok: "env_ok sample_env"
  using cents_of_int [of 1200] cents_of_int [of 500] by (simp add: env_ok_def sample_env_def)

lemma episode_step_witness:
  "\<exists>s' r. env_step show_real0 sample_env ''ADD_TO_CART[LAP-0001]'' (Some (env_reset sample_env)) = (Some s', r) \<and>
    es_budget s' + cart_total sample_env s' = 1200 \<and> es_turn s' = 1"
proof -
  obtain s' r where s: "env_step show_real0 sample_env ''ADD_TO_CART[LAP-0001]'' (Some (env_reset sample_env)) = (Some s', r)"
    using env_step_some by blast
  from episode_step [OF sample_env_ok env_reach.start s] s show ?thesis
    by (simp add: env_reset_def sample_env_def)
qed

section \<open>Reward and credit\<close>

lemma episode_reward_range:
  assumes "env_inv env s"
  shows "\<exists>r. episode_reward s g (env_idx env) = Some r \<and> 0 \<le> r \<and> r \<le> 1 \<and>
    (r = 0 \<or> es_checked_out s \<and> es_cart s \<noteq> [])"
proof (cases "\<not> es_checked_out s \<or> es_cart s = []")
  case True
  then show ?thesis by (simp add: episode_reward_def)
next
  case False
  have known: "\<not> list_ex (\<lambda>k. env_idx env k = None) (es_cart s)"
    using assms by (auto simp: env_inv_def list_ex_iff)
  define c where "c = real (length (filter (\<lambda>k. satisfies (the (env_idx env k)) (go_constraints g)) (es_cart s))) / real (length (es_cart s))"
  define n where "n = (if go_target g > 0
    then max 0 (1 - \<bar>real (length (es_cart s)) - of_int (go_target g)\<bar> / of_int (go_target g)) else 1)"
  have "0 \<le> c" "c \<le> 1" using False by (simp_all add: c_def divide_le_eq)
  moreover have "0 \<le> n" "n \<le> 1" by (simp_all add: n_def)
  ultimately have "0 \<le> 6/10 * c + 4/10 * n" "6/10 * c + 4/10 * n \<le> 1" by simp_all
  moreover have "episode_reward s g (env_idx env) = Some (py_round 4 (6/10 * c + 4/10 * n))"
    unfolding episode_reward_def Let_def c_def n_def if_not_P [OF False] if_not_P [OF known] ..
  ultimately show ?thesis using False py_round_nonneg py_round_le_1 by auto
qed

lemma discounted_sorted:
  assumes "0 \<le> gamma" and "gamma \<le> 1" and "0 \<le> adv"
  shows "sorted (map (\<lambda>t. py_round 6 (gamma ^ (n - 1 - t) * adv)) [0..<n])"
  unfolding sorted_map
proof (rule sorted_wrt_mono_rel [of _ "(<)"])
  fix s t
  assume "s < (t::nat)"
  then have "gamma ^ (n - 1 - s) \<le> gamma ^ (n - 1 - t)" using assms by (intro power_decreasing) auto
  then show "py_round 6 (gamma ^ (n - 1 - s) * adv) \<le> py_round 6 (gamma ^ (n - 1 - t) * adv)"
    using assms(3) by (intro py_round_mono mult_right_mono)
qed simp

text \<open>The trajectory reward and its credit: in every reachable state the episode reward is
  defined and between 0 and 1, and positive only for a checked-out non-empty cart; uniform credit
  gives every turn the same advantage, adding up to the advantage times the turns; discounted credit
  of a non-negative advantage never decreases along the episode and gives the last turn the whole
  advantage to six decimals; no turn gets no credit, and an unknown scheme is an error.\<close>

theorem episode_credit:
  assumes "env_ok env" and "env_reach sf env s" and "0 < n" and "0 \<le> gamma" and "gamma \<le> 1"
    and "scheme \<noteq> ''uniform''" and "scheme \<noteq> ''discounted''"
  shows "\<exists>r us ds. episode_reward s (se_goal env) (env_idx env) = Some r \<and> 0 \<le> r \<and> r \<le> 1 \<and>
    (r = 0 \<or> es_checked_out s \<and> es_cart s \<noteq> []) \<and>
    assign_credit r (int n) ''uniform'' gamma base = Some us \<and> us = replicate n (r - base) \<and>
    sum_list us = real n * (r - base) \<and>
    assign_credit r (int n) ''discounted'' gamma base = Some ds \<and> length ds = n \<and>
    last ds = py_round 6 (r - base) \<and> (sorted ds \<or> r < base) \<and>
    assign_credit r (- int n) scheme gamma base = Some [] \<and>
    assign_credit r (int n) scheme gamma base = None"
proof -
  obtain r where r: "episode_reward s (se_goal env) (env_idx env) = Some r" "0 \<le> r" "r \<le> 1"
    "r = 0 \<or> es_checked_out s \<and> es_cart s \<noteq> []"
    using episode_reward_range [OF env_reach_inv [OF assms(2,1)]] by blast
  let ?ds = "map (\<lambda>t. py_round 6 (gamma ^ (n - 1 - t) * (r - base))) [0..<n]"
  have "last ?ds = py_round 6 (r - base)" using assms(3) by (simp add: last_map)
  moreover have "sorted ?ds \<or> r < base" using discounted_sorted [OF assms(4,5), of "r - base" n] by linarith
  moreover have "assign_credit r (int n) ''discounted'' gamma base = Some ?ds"
    using assms(3) by (simp add: assign_credit_def Let_def)
  moreover have "assign_credit r (int n) ''uniform'' gamma base = Some (replicate n (r - base))"
    using assms(3) by (simp add: assign_credit_def Let_def)
  moreover have "assign_credit r (- int n) scheme gamma base = Some []"
    "assign_credit r (int n) scheme gamma base = None"
    using assms(3,6,7) by (simp_all add: assign_credit_def Let_def)
  moreover have "sum_list (replicate n (r - base)) = real n * (r - base)" by (simp add: sum_list_replicate)
  moreover have "length ?ds = n" by simp
  ultimately show ?thesis using r by blast
qed

lemma episode_credit_example:
  "\<exists>r us. episode_reward (env_reset sample_env) (se_goal sample_env) (env_idx sample_env) = Some r \<and>
    assign_credit r 3 ''uniform'' 1 0 = Some us \<and> us = replicate 3 r"
  using episode_credit [OF sample_env_ok env_reach.start [of show_real0], of 3 1 "''greedy''" 0] by auto

end
