(* ===== verification/Dash_Data.thy ===== *)
theory Dash_Data
  imports Control Traj_Store Alerts Lexing
begin

text \<open>
  \<^verbatim>\<open>src/shoprl/platform/dash_data.py\<close>: what the dashboard reads from the persisted state of the
  platform, and the fault injections that drive the platform's own operations.  The databases and
  registries below one root are a record; the JSON parser and the functions of the checkpoint
  registry that are parameters there are parameters here.
\<close>

section \<open>The persisted state\<close>

record platform =
  pf_jobs :: store
  pf_traj :: traj_table
  pf_ckpts :: ckpt_fs
  pf_events :: "recovery_event list"
  pf_pipeline :: "string option"

record ckpt_env =
  ce_sha :: "string \<Rightarrow> string"
  ce_render :: "ckpt_manifest \<Rightarrow> string"
  ce_parse :: "string \<Rightarrow> ckpt_manifest option"

definition paths :: "string \<Rightarrow> (string \<times> string) list" where
  "paths dir =
     [(''root'', dir), (''jobs_db'', path_join dir ''jobs.db''),
      (''traj_db'', path_join dir ''trajectories.db''), (''ckpt_root'', path_join dir ''checkpoints''),
      (''events_path'', path_join dir ''recovery_events.jsonl'')]"

text \<open>Iterating over a text file: lines end at a newline, a carriage return or both.\<close>

fun file_lines_acc :: "string \<Rightarrow> string \<Rightarrow> string list" where
  "file_lines_acc acc [] = (if acc = [] then [] else [rev acc])"
| "file_lines_acc acc (c # cs) =
     (if code c = 10 then rev acc # file_lines_acc [] cs
      else if code c = 13 then
        rev acc # (case cs of
            [] \<Rightarrow> []
          | d # ds \<Rightarrow> if code d = 10 then file_lines_acc [] ds else file_lines_acc [] (d # ds))
      else file_lines_acc (c # acc) cs)"

text \<open>\<open>_read_jsonl\<close>: an absent file has no rows; \<open>None\<close> is the ValueError of a bad line.\<close>

definition all_some :: "'a option list \<Rightarrow> 'a list option" where
  "all_some xs = (if None \<in> set xs then None else Some (map the xs))"

definition read_jsonl :: "(string \<Rightarrow> json option) \<Rightarrow> string option \<Rightarrow> json list option" where
  "read_jsonl loads file =
     (case file of
        None \<Rightarrow> Some []
      | Some body \<Rightarrow> all_some (map loads (filter (\<lambda>l. strip l \<noteq> []) (file_lines_acc [] body))))"

section \<open>Reads\<close>

datatype dash_error =
    DashJson
  | DashType
  | DashCkpt ckpt_error
  | DashNoTrajectory string
  | DashStore store_error
  | DashRecovery recovery_exc
  | DashIndex

record ckpt_view =
  cv_id :: string
  cv_step :: int
  cv_reward_mean :: "json option"
  cv_n_files :: nat
  cv_integrity :: string

definition ckpt_view_of :: "ckpt_env \<Rightarrow> ckpt_fs \<Rightarrow> ckpt_manifest \<Rightarrow> dash_error + ckpt_view" where
  "ckpt_view_of ce fs m =
     (let view = (\<lambda>integrity. \<lparr>cv_id = ck_id m, cv_step = ck_step m,
            cv_reward_mean = map_of (ck_metadata m) ''reward_mean'', cv_n_files = length (ck_files m),
            cv_integrity = integrity\<rparr>)
      in case ck_verify (ce_sha ce) (ce_render ce) (ce_parse ce) fs (ck_id m) of
           Inr _ \<Rightarrow> Inr (view ''OK'')
         | Inl (CheckpointCorrupt _ _) \<Rightarrow> Inr (view ''CORRUPT'')
         | Inl e \<Rightarrow> Inl (DashCkpt e))"

record dash_snapshot =
  sn_job_counts :: "(job_state \<times> nat) list"
  sn_reward_stats :: "reward_summary option"
  sn_reward_by_policy :: "(string \<times> real \<times> nat) list"
  sn_checkpoints :: "ckpt_view list"
  sn_events :: "recovery_event list"
  sn_pipeline :: "json list"
  sn_training :: "json list"

text \<open>\<open>training\<close> is the content of the metrics file when its path was given.\<close>

definition snapshot ::
  "ckpt_env \<Rightarrow> (string \<Rightarrow> json option) \<Rightarrow> string option option \<Rightarrow> platform \<Rightarrow> dash_error + dash_snapshot" where
  "snapshot ce loads training pf =
     (case ck_list (ce_parse ce) (pf_ckpts pf) of
        Inl e \<Rightarrow> Inl (DashCkpt e)
      | Inr ms \<Rightarrow>
          (case mapE (ckpt_view_of ce (pf_ckpts pf)) ms of
             Inl e \<Rightarrow> Inl e
           | Inr views \<Rightarrow>
               (case (read_jsonl loads (pf_pipeline pf),
                      (case training of None \<Rightarrow> Some [] | Some file \<Rightarrow> read_jsonl loads file)) of
                  (Some pipe, Some train) \<Rightarrow>
                    Inr \<lparr>sn_job_counts = counts (pf_jobs pf), sn_reward_stats = reward_stats (pf_traj pf),
                         sn_reward_by_policy = reward_by_policy (pf_traj pf), sn_checkpoints = views,
                         sn_events = pf_events pf, sn_pipeline = pipe, sn_training = train\<rparr>
                | _ \<Rightarrow> Inl DashJson)))"

text \<open>\<open>comparisons\<close> over a directory: the names and texts (\<open>None\<close> for an unreadable one).  A
  document that is not an object and looks like one raises TypeError.\<close>

definition comparison_of :: "string \<Rightarrow> json option \<Rightarrow> dash_error + dict option" where
  "comparison_of name doc =
     (case doc of
        None \<Rightarrow> Inr None
      | Some (JObj d) \<Rightarrow>
          Inr (if map_of d ''algorithm'' \<noteq> None \<and> map_of d ''final_kl'' \<noteq> None
               then Some (AList.update ''_source'' (JStr name) d) else None)
      | Some (JArr xs) \<Rightarrow>
          if JStr ''algorithm'' \<in> set xs \<and> JStr ''final_kl'' \<in> set xs then Inl DashType else Inr None
      | Some (JStr s) \<Rightarrow>
          if contains ''algorithm'' s \<and> contains ''final_kl'' s then Inl DashType else Inr None
      | Some _ \<Rightarrow> Inl DashType)"

definition ends_with :: "string \<Rightarrow> string \<Rightarrow> bool" where
  "ends_with suf s \<longleftrightarrow> length suf \<le> length s \<and> drop (length s - length suf) s = suf"

definition comparisons ::
  "(string \<Rightarrow> json option) \<Rightarrow> (string \<times> string option) list option \<Rightarrow> dash_error + dict list" where
  "comparisons loads dir =
     (case dir of
        None \<Rightarrow> Inr []
      | Some files \<Rightarrow>
          (case mapE (\<lambda>(name, body). comparison_of name (Option.bind body loads))
                  (sort_key fst (filter (\<lambda>(name, _). ends_with ''.json'' name) files)) of
             Inl e \<Rightarrow> Inl e
           | Inr rs \<Rightarrow> Inr (List.map_filter (\<lambda>r. r) rs)))"

text \<open>\<open>LIMIT\<close> with a negative number is no limit.\<close>

definition recent_rows :: "int \<Rightarrow> traj_table \<Rightarrow> trajectory list" where
  "recent_rows limit rows = (if limit < 0 then recent (length rows) rows else recent (nat limit) rows)"

definition trajectories :: "bool \<Rightarrow> int \<Rightarrow> traj_table \<Rightarrow> trajectory list" where
  "trajectories db_exists limit rows = (if \<not> db_exists then [] else recent_rows limit rows)"

record traj_detail =
  td_id :: string
  td_kind :: traj_kind
  td_prompt :: string
  td_response :: string
  td_total_reward :: "real option"
  td_components :: "json option"
  td_advantage :: "json option"
  td_group_mean :: "json option"
  td_group_std :: "json option"
  td_kl :: "json option"
  td_lineage :: lineage
  td_ancestry :: "string list"
  td_num_steps :: nat

definition trajectory_detail :: "traj_table \<Rightarrow> string \<Rightarrow> dash_error + traj_detail" where
  "trajectory_detail rows tid =
     (case traj_get rows tid of
        None \<Rightarrow> Inl (DashNoTrajectory tid)
      | Some t \<Rightarrow>
          (case ancestry rows tid of
             Inl e \<Rightarrow> Inl (DashNoTrajectory e)
           | Inr chain \<Rightarrow>
               Inr \<lparr>td_id = tr_id t, td_kind = tr_kind t, td_prompt = tr_prompt t,
                    td_response = join [CHR 0x0A] (map st_action (tr_steps t)),
                    td_total_reward = tr_reward t,
                    td_components = map_of (tr_meta t) ''reward_components'',
                    td_advantage = map_of (tr_meta t) ''advantage'',
                    td_group_mean = map_of (tr_meta t) ''group_mean'',
                    td_group_std = map_of (tr_meta t) ''group_std'',
                    td_kl = map_of (tr_meta t) ''kl'', td_lineage = tr_lineage t,
                    td_ancestry = map tr_id chain, td_num_steps = num_steps t\<rparr>))"

section \<open>Fault injection\<close>

text \<open>\<open>reap_expired(now)\<close>: the lease is compared with the given time, the failure is recorded at the
  clock's.\<close>

definition reap_at :: "real \<Rightarrow> real \<Rightarrow> job list store_action" where
  "reap_at now clock s =
     mapA (\<lambda>jid. fail clock jid ''lease expired: worker presumed dead'')
       (map job_id (filter (lease_expired now) (jobs_table s))) s"

definition note_payload :: "string \<Rightarrow> dict" where
  "note_payload msg = [(''note'', JStr msg)]"

record kill_report =
  kr_job_id :: string
  kr_reaped :: nat
  kr_state :: string
  kr_attempts :: int

definition sim_kill_worker :: "string \<Rightarrow> real \<Rightarrow> kill_report store_action" where
  "sim_kill_worker fresh t =
     bindA (create fresh t ''sim-rollout'' (note_payload ''SIMULATION: killed-worker demo'') 3 ''cpu'' 0) (\<lambda>job.
     bindA (transition t (job_id job) RUNNING None False) (\<lambda>_.
     bindA (renew_lease (job_id job) 1 0) (\<lambda>_.
     bindA (reap_at 10000 t) (\<lambda>reaped.
     bindA (get_job (job_id job)) (\<lambda>after.
       ret \<lparr>kr_job_id = job_id job, kr_reaped = length reaped,
            kr_state = state_value (job_state after), kr_attempts = job_attempts after\<rparr>)))))"

record oom_report =
  or_job_id :: string
  or_action :: string
  or_microbatch :: "int option \<times> int option"
  or_restored :: "string option"
  or_state :: string
  or_simulated :: bool

definition simulated_oom :: exn where
  "simulated_oom =
     \<lparr>ex_type = ''SimulatedOOM'', ex_str = ''cuda oom (SIMULATION)'',
      ex_repr = ''SimulatedOOM('' @ py_repr ''cuda oom (SIMULATION)'' @ '')''\<rparr>"

definition oom_payload :: dict where
  "oom_payload = [(''microbatch_size'', JInt 8), (''grad_accum_steps'', JInt 1),
     (''note'', JStr ''SIMULATION: OOM demo'')]"

definition sim_oom ::
  "(string \<Rightarrow> ckpt_manifest option) \<Rightarrow> ckpt_fs \<Rightarrow> string \<Rightarrow> string \<Rightarrow> real option \<Rightarrow> real
    \<Rightarrow> (recovery_state, recovery_exc, oom_report) action" where
  "sim_oom parse fs events_path fresh gpu t =
     bindA (on_store (create fresh t ''optimize'' oom_payload 3 ''cpu'' 0)) (\<lambda>job.
     bindA (on_store (transition t (job_id job) RUNNING None False)) (\<lambda>_.
     bindA (on_store (get_job (job_id job))) (\<lambda>cur.
     bindA (handle parse \<lparr>ct_registry = Some fs, ct_enabled = True, ct_events_path = Some events_path\<rparr>
              gpu t t cur simulated_oom) (\<lambda>ev.
       ret \<lparr>or_job_id = job_id job, or_action = ev_action ev,
            or_microbatch = (ev_mb_before ev, ev_mb_after ev), or_restored = ev_restored ev,
            or_state = ev_resulting_state ev, or_simulated = ev_simulated ev\<rparr>))))"

definition victim_of :: "file_entry list \<Rightarrow> file_entry option" where
  "victim_of es =
     (case find (\<lambda>e. \<not> ends_with ''manifest.json'' (fe_path e)) es of
        Some e \<Rightarrow> Some e
      | None \<Rightarrow> (case es of [] \<Rightarrow> None | e # _ \<Rightarrow> Some e))"

text \<open>Appending a zero byte; opening for append creates a file that is gone.\<close>

definition append_zero :: "('m \<Rightarrow> string) \<Rightarrow> 'm content option \<Rightarrow> 'm content" where
  "append_zero render c =
     Bytes ((case c of None \<Rightarrow> [] | Some (Bytes b) \<Rightarrow> b | Some (Doc m) \<Rightarrow> render m) @ [CHR 0x00])"

definition tamper :: "ckpt_env \<Rightarrow> string \<Rightarrow> string \<Rightarrow> ckpt_fs \<Rightarrow> ckpt_fs" where
  "tamper ce cid path fs =
     fs\<lparr>published := AList.map_entry cid
          (\<lambda>d. AList.update path (append_zero (ce_render ce) (map_of d path)) d) (published fs)\<rparr>"

record corrupt_report =
  cp_id :: string
  cp_file :: string
  cp_integrity :: string

text \<open>\<open>Inr None\<close> is the answer without a checkpoint.\<close>

definition sim_corrupt_checkpoint :: "ckpt_env \<Rightarrow> (ckpt_fs, dash_error, corrupt_report option) action" where
  "sim_corrupt_checkpoint ce fs =
     (case latest (ce_parse ce) fs of
        Inl e \<Rightarrow> (fs, Inl (DashCkpt e))
      | Inr None \<Rightarrow> (fs, Inr None)
      | Inr (Some m) \<Rightarrow>
          (case victim_of (ck_files m) of
             None \<Rightarrow> (fs, Inl DashIndex)
           | Some v \<Rightarrow>
               (let fs' = tamper ce (ck_id m) (fe_path v) fs;
                    report = (\<lambda>st. \<lparr>cp_id = ck_id m, cp_file = fe_path v, cp_integrity = st\<rparr>)
                in case ck_verify (ce_sha ce) (ce_render ce) (ce_parse ce) fs' (ck_id m) of
                     Inr _ \<Rightarrow> (fs', Inr (Some (report ''OK (unexpected!)'')))
                   | Inl (CheckpointCorrupt _ _) \<Rightarrow> (fs', Inr (Some (report ''CORRUPT'')))
                   | Inl e \<Rightarrow> (fs', Inl (DashCkpt e)))))"

text \<open>\<open>Inr None\<close> is the answer without a trajectory, otherwise the ids of parent and copy.\<close>

definition sim_duplicate_trajectory ::
  "string \<Rightarrow> real \<Rightarrow> string option \<Rightarrow> (traj_table, dash_error, (string \<times> string) option) action" where
  "sim_duplicate_trajectory fresh t tid rows =
     (let dup = (\<lambda>parent. let child = derive fresh t (\<lambda>l. l) parent in
            (traj_put child rows, Inr (Some (tr_id parent, tr_id child))))
      in case tid of
           None \<Rightarrow> (case recent 1 rows of [] \<Rightarrow> (rows, Inr None) | parent # _ \<Rightarrow> dup parent)
         | Some i \<Rightarrow> (case traj_get rows i of
               None \<Rightarrow> (rows, Inl (DashNoTrajectory i)) | Some parent \<Rightarrow> dup parent))"

end
