(* ===== verification/Api.thy ===== *)
theory Api
  imports Dash_Data Exp_Registry Artifacts
begin

text \<open>
  \<^verbatim>\<open>src/shoprl/platform/api.py\<close>: the handlers of the HTTP API.  Each one opens the store it needs, so
  a handler is a function of that store; FastAPI's parsing of requests is left out, the bounds that
  the request models declare are the 422 replies.  An exception that a handler does not translate is
  \<open>Unhandled\<close> (FastAPI answers 500).
\<close>

section \<open>Replies\<close>

datatype 'a http =
    Reply nat 'a
  | HttpError nat string
  | Invalid
  | Unhandled

fun status_of :: "'a http \<Rightarrow> nat" where
  "status_of (Reply n _) = n"
| "status_of (HttpError n _) = n"
| "status_of Invalid = 422"
| "status_of Unhandled = 500"

type_synonym ('s, 'a) handler_fn = "'s \<Rightarrow> 's \<times> 'a http"

record job_out =
  jo_id :: string
  jo_kind :: string
  jo_state :: string
  jo_payload :: dict
  jo_attempts :: int
  jo_max_attempts :: int
  jo_error :: "string option"
  jo_resource :: string
  jo_priority :: int
  jo_created_at :: real
  jo_updated_at :: real

definition job_out_of :: "job \<Rightarrow> job_out" where
  "job_out_of j =
     \<lparr>jo_id = job_id j, jo_kind = job_kind j, jo_state = state_value (job_state j),
      jo_payload = job_payload j, jo_attempts = job_attempts j, jo_max_attempts = job_max_attempts j,
      jo_error = job_error j, jo_resource = job_resource j, jo_priority = job_priority j,
      jo_created_at = job_created_at j, jo_updated_at = job_updated_at j\<rparr>"

section \<open>Jobs\<close>

record job_create =
  jc_kind :: string
  jc_payload :: dict
  jc_max_attempts :: int

definition job_create_ok :: "job_create \<Rightarrow> bool" where
  "job_create_ok b \<longleftrightarrow> 1 \<le> length (jc_kind b) \<and> length (jc_kind b) \<le> 64
     \<and> 1 \<le> jc_max_attempts b \<and> jc_max_attempts b \<le> 100"

definition create_job :: "string \<Rightarrow> real \<Rightarrow> job_create \<Rightarrow> (store, job_out) handler_fn" where
  "create_job fresh now b s =
     (if \<not> job_create_ok b then (s, Invalid)
      else (case create fresh now (jc_kind b) (jc_payload b) (jc_max_attempts b) ''cpu'' 0 s of
              (s', Inl _) \<Rightarrow> (s', Unhandled)
            | (s', Inr j) \<Rightarrow> (s', Reply 201 (job_out_of j))))"

definition api_list_jobs :: "job_state option \<Rightarrow> string option \<Rightarrow> int \<Rightarrow> (store, job_out list) handler_fn" where
  "api_list_jobs st resource limit s =
     (let jobs = list_jobs st s;
          jobs' = (case resource of
              None \<Rightarrow> jobs
            | Some r \<Rightarrow> if r = [] then jobs else filter (\<lambda>j. job_resource j = r) jobs)
      in (s, Reply 200 (map job_out_of (slice_to limit jobs'))))"

definition not_found :: "string \<Rightarrow> string \<Rightarrow> 'a http" where
  "not_found what i = HttpError 404 (what @ '' '' @ i @ '' not found'')"

definition api_get_job :: "string \<Rightarrow> (store, job_out) handler_fn" where
  "api_get_job jid s =
     (case get_job jid s of
        (s', Inl _) \<Rightarrow> (s', not_found ''job'' jid)
      | (s', Inr j) \<Rightarrow> (s', Reply 200 (job_out_of j)))"

definition cannot :: "string \<Rightarrow> job \<Rightarrow> 'a http" where
  "cannot verb j = HttpError 409 (''cannot '' @ verb @ '' a '' @ state_value (job_state j) @ '' job'')"

text \<open>\<open>_transition\<close>; \<open>other\<close> is what other processes write between the read and the transition.\<close>

definition api_transition ::
  "(store \<Rightarrow> store) \<Rightarrow> real \<Rightarrow> string \<Rightarrow> job_state \<Rightarrow> job_state set option \<Rightarrow> string \<Rightarrow> (store, job_out) handler_fn" where
  "api_transition other now jid to allowed_from verb s =
     (case get_job jid s of
        (s1, Inl _) \<Rightarrow> (s1, not_found ''job'' jid)
      | (s1, Inr j) \<Rightarrow>
          (if (case allowed_from of None \<Rightarrow> False | Some ok \<Rightarrow> job_state j \<notin> ok) then (s1, cannot verb j)
           else (case transition now jid to None False (other s1) of
                   (s2, Inr j') \<Rightarrow> (s2, Reply 200 (job_out_of j'))
                 | (s2, Inl (InvalidTransition _ _)) \<Rightarrow> (s2, cannot verb j)
                 | (s2, Inl (ConcurrentModification _)) \<Rightarrow> (s2, HttpError 409 ''job changed concurrently; retry'')
                 | (s2, Inl (JobNotFound _)) \<Rightarrow> (s2, not_found ''job'' jid)
                 | (s2, Inl _) \<Rightarrow> (s2, Unhandled))))"

definition pause_job :: "(store \<Rightarrow> store) \<Rightarrow> real \<Rightarrow> string \<Rightarrow> (store, job_out) handler_fn" where
  "pause_job other now jid = api_transition other now jid PAUSED (Some {PENDING, RUNNING}) ''pause''"

definition resume_job :: "(store \<Rightarrow> store) \<Rightarrow> real \<Rightarrow> string \<Rightarrow> (store, job_out) handler_fn" where
  "resume_job other now jid = api_transition other now jid PENDING (Some {PAUSED}) ''resume''"

definition cancel_job :: "(store \<Rightarrow> store) \<Rightarrow> real \<Rightarrow> string \<Rightarrow> (store, job_out) handler_fn" where
  "cancel_job other now jid = api_transition other now jid CANCELLED None ''cancel''"

section \<open>Runs\<close>

record run_create =
  rq_algorithm :: string
  rq_model :: string
  rq_config_hash :: string
  rq_dataset_version :: string
  rq_reward_version :: string
  rq_git_commit :: "string option"
  rq_cost :: "dict option"

definition create_run :: "string \<Rightarrow> real \<Rightarrow> run_create \<Rightarrow> (run_table, run_record) handler_fn" where
  "create_run fresh now b rows =
     (if [] \<in> {rq_algorithm b, rq_model b, rq_config_hash b, rq_dataset_version b, rq_reward_version b}
      then (rows, Invalid)
      else (let r = (new_run fresh now (rq_algorithm b) (rq_config_hash b) (rq_model b)
                       (rq_dataset_version b) (rq_reward_version b) (rq_git_commit b))
                    \<lparr>rr_cost_estimate := rq_cost b\<rparr>
            in (run_save r rows, Reply 201 r)))"

definition api_list_runs :: "string option \<Rightarrow> run_status option \<Rightarrow> (run_table, run_record list) handler_fn" where
  "api_list_runs alg st rows = (rows, Reply 200 (run_list alg st rows))"

definition api_compare_runs :: "string \<Rightarrow> (run_table, comparison) handler_fn" where
  "api_compare_runs ids rows =
     (let run_ids = filter (\<lambda>i. i \<noteq> []) (split_on (CHR '','') ids) in
      if run_ids = [] then (rows, HttpError 400 ''provide ?ids=a,b,c'')
      else (case run_compare rows run_ids of
              Inl (RunNotFound r) \<Rightarrow> (rows, not_found ''run'' r)
            | Inr c \<Rightarrow> (rows, Reply 200 c)))"

definition api_get_run :: "string \<Rightarrow> (run_table, run_record) handler_fn" where
  "api_get_run rid rows =
     (rows, case run_get rows rid of None \<Rightarrow> not_found ''run'' rid | Some r \<Rightarrow> Reply 200 r)"

definition run_reply :: "string \<Rightarrow> run_table \<times> (run_error + run_record) \<Rightarrow> run_table \<times> run_record http" where
  "run_reply rid res =
     (case res of (rows, Inl _) \<Rightarrow> (rows, not_found ''run'' rid) | (rows, Inr r) \<Rightarrow> (rows, Reply 200 r))"

definition start_run :: "real \<Rightarrow> string \<Rightarrow> (run_table, run_record) handler_fn" where
  "start_run clock rid rows = run_reply rid (run_start None clock rid rows)"

text \<open>The three statuses a request may carry.\<close>

definition finish_run ::
  "real \<Rightarrow> string \<Rightarrow> run_status \<Rightarrow> dict option \<Rightarrow> string option \<Rightarrow> dict option \<Rightarrow> (run_table, run_record) handler_fn" where
  "finish_run clock rid st ev ckpt cost rows =
     (if st \<notin> {RsSucceeded, RsFailed, RsCancelled} then (rows, Invalid)
      else run_reply rid (run_finish None clock st ev ckpt cost rid rows))"

section \<open>Metrics files and alerts\<close>

definition bad_run_id :: "string \<Rightarrow> bool" where
  "bad_run_id rid \<longleftrightarrow> CHR ''/'' \<in> set rid \<or> rid \<in> {'''', ''.'', ''..''}"

text \<open>\<open>files\<close> reads the \<open>metrics.jsonl\<close> of a run directory.\<close>

definition metrics_rows ::
  "(string \<Rightarrow> json option) \<Rightarrow> (string \<Rightarrow> string option) \<Rightarrow> string \<Rightarrow> json list http" where
  "metrics_rows loads files rid =
     (if bad_run_id rid then HttpError 400 ''invalid run_id''
      else case files rid of
        None \<Rightarrow> HttpError 404 (''no metrics for run '' @ rid)
      | Some body \<Rightarrow>
          (case read_jsonl loads (Some body) of None \<Rightarrow> Unhandled | Some rows \<Rightarrow> Reply 200 rows))"

record run_metrics_out =
  rm_run_id :: string
  rm_n_steps :: nat
  rm_metrics :: "dict list"

definition obj_of :: "json \<Rightarrow> dict option" where
  "obj_of j = (case j of JObj d \<Rightarrow> Some d | _ \<Rightarrow> None)"

definition run_metrics ::
  "(string \<Rightarrow> json option) \<Rightarrow> (string \<Rightarrow> string option) \<Rightarrow> string \<Rightarrow> run_metrics_out http" where
  "run_metrics loads files rid =
     (case metrics_rows loads files rid of
        Reply n rows \<Rightarrow>
          (case all_some (map obj_of rows) of
             None \<Rightarrow> Unhandled
           | Some ds \<Rightarrow> Reply 200 \<lparr>rm_run_id = rid, rm_n_steps = length rows, rm_metrics = ds\<rparr>)
      | HttpError n e \<Rightarrow> HttpError n e | Invalid \<Rightarrow> Invalid | Unhandled \<Rightarrow> Unhandled)"

text \<open>A number of a JSON row as \<open>m.get(k)\<close> yields it to the alert rules; the outer \<open>None\<close> is the
  TypeError of \<open>math.isfinite\<close> on something else.\<close>

definition metric_value :: "dict \<Rightarrow> string \<Rightarrow> pyfloat option option" where
  "metric_value d k =
     (case map_of d k of
        None \<Rightarrow> Some None | Some JNull \<Rightarrow> Some None
      | Some (JNum x) \<Rightarrow> Some (Some (Fin x)) | Some (JInt i) \<Rightarrow> Some (Some (Fin (of_int i)))
      | Some (JBool b) \<Rightarrow> Some (Some (Fin (if b then 1 else 0)))
      | Some JPosInf \<Rightarrow> Some (Some PosInf) | Some JNegInf \<Rightarrow> Some (Some NegInf)
      | Some JNaN \<Rightarrow> Some (Some NaN) | Some _ \<Rightarrow> None)"

definition metrics_of :: "json \<Rightarrow> step_metrics option" where
  "metrics_of j =
     (case j of
        JObj d \<Rightarrow>
          (case (metric_value d ''grad_norm'', metric_value d ''kl'', metric_value d ''loss'', metric_value d ''entropy'') of
             (Some gn, Some kl, Some loss, Some ent) \<Rightarrow>
               Some \<lparr>sm_step = (case map_of d ''step'' of Some (JInt i) \<Rightarrow> Some i | _ \<Rightarrow> None),
                     sm_grad_norm = gn, sm_kl = kl, sm_loss = loss, sm_entropy = ent\<rparr>
           | _ \<Rightarrow> None)
      | _ \<Rightarrow> None)"

record alerts_out =
  ao_run_id :: string
  ao_n_alerts :: nat
  ao_max_level :: "level option"
  ao_alerts :: "alert list"

definition run_alerts ::
  "(string \<Rightarrow> json option) \<Rightarrow> (string \<Rightarrow> string option) \<Rightarrow> string \<Rightarrow> alerts_out http" where
  "run_alerts loads files rid =
     (case metrics_rows loads files rid of
        Reply n rows \<Rightarrow>
          (case all_some (map metrics_of rows) of
             None \<Rightarrow> Unhandled
           | Some ms \<Rightarrow>
               (let active = concat (map (check_step default_thresholds) ms) in
                Reply 200 \<lparr>ao_run_id = rid, ao_n_alerts = length active,
                  ao_max_level = max_level active, ao_alerts = active\<rparr>))
      | HttpError n e \<Rightarrow> HttpError n e | Invalid \<Rightarrow> Invalid | Unhandled \<Rightarrow> Unhandled)"

text \<open>\<open>metrics_runs\<close>: the directories (with or without a metrics file) below the runs directory.\<close>

definition metrics_runs :: "(string \<times> bool) list option \<Rightarrow> string list" where
  "metrics_runs dirs = (case dirs of None \<Rightarrow> [] | Some ds \<Rightarrow> sort (map fst (filter snd ds)))"

section \<open>Policies\<close>

definition api_list_policies ::
  "(string \<Rightarrow> policy_version option) \<Rightarrow> (policy_fs, policy_version list) handler_fn" where
  "api_list_policies parse fs =
     (fs, case list_versions parse fs of Inl _ \<Rightarrow> Unhandled | Inr vs \<Rightarrow> Reply 200 vs)"

definition api_latest_policy ::
  "(string \<Rightarrow> policy_version option) \<Rightarrow> (policy_fs, policy_version) handler_fn" where
  "api_latest_policy parse fs =
     (fs, case latest_version parse fs of
        Inl _ \<Rightarrow> Unhandled
      | Inr None \<Rightarrow> HttpError 404 ''no policy published yet''
      | Inr (Some pv) \<Rightarrow> Reply 200 pv)"

definition policy_staleness ::
  "(string \<Rightarrow> policy_version option) \<Rightarrow> traj_table \<Rightarrow> policy_fs \<Rightarrow> (int \<times> (nat + staleness_summary)) http" where
  "policy_staleness parse rows fs =
     (case latest_version parse fs of
        Inl _ \<Rightarrow> Unhandled
      | Inr None \<Rightarrow> HttpError 404 ''no policy published yet''
      | Inr (Some pv) \<Rightarrow>
          (case staleness_report (pv_version pv)
                  (map (\<lambda>t. ln_policy_id (tr_lineage t)) (recent 500 rows)) of
             Inl _ \<Rightarrow> Unhandled
           | Inr rep \<Rightarrow> Reply 200 (pv_version pv, rep)))"

definition api_get_policy ::
  "(string \<Rightarrow> policy_version option) \<Rightarrow> int \<Rightarrow> (policy_fs, policy_version) handler_fn" where
  "api_get_policy parse v fs =
     (fs, case pol_get parse fs v of
        Inr pv \<Rightarrow> Reply 200 pv
      | Inl (PolicyNotFound _) \<Rightarrow> HttpError 404 (''policy v'' @ show_int v @ '' not found'')
      | Inl _ \<Rightarrow> Unhandled)"

section \<open>Artifacts\<close>

record artifact_create =
  aq_type :: artifact_type
  aq_ref :: string
  aq_run_id :: "string option"
  aq_parents :: "string list"
  aq_uri :: "string option"
  aq_hash :: "string option"
  aq_metadata :: dict

definition create_artifact :: "string \<Rightarrow> real \<Rightarrow> artifact_create \<Rightarrow> (artifact_db, artifact) handler_fn" where
  "create_artifact fresh now b db =
     (if aq_ref b = [] then (db, Invalid)
      else (case register fresh now (aq_type b) (aq_ref b) (aq_run_id b) (aq_parents b) (aq_uri b)
                   (aq_hash b) (aq_metadata b) db of
              (db', Inl _) \<Rightarrow> (db', Unhandled) | (db', Inr a) \<Rightarrow> (db', Reply 201 a)))"

definition api_list_artifacts ::
  "artifact_type option \<Rightarrow> string option \<Rightarrow> (artifact_db, artifact list) handler_fn" where
  "api_list_artifacts ty rid db = (db, Reply 200 (art_list ty rid db))"

definition artifact_reply :: "string \<Rightarrow> artifact_error + 'a \<Rightarrow> 'a http" where
  "artifact_reply aid res =
     (case res of
        Inr x \<Rightarrow> Reply 200 x
      | Inl (ArtifactNotFound _) \<Rightarrow> not_found ''artifact'' aid
      | Inl _ \<Rightarrow> Unhandled)"

definition api_get_artifact :: "string \<Rightarrow> (artifact_db, artifact) handler_fn" where
  "api_get_artifact aid db = (db, artifact_reply aid (art_get db aid))"

definition api_artifact_lineage :: "string \<Rightarrow> (artifact_db, lineage_view) handler_fn" where
  "api_artifact_lineage aid db = (db, artifact_reply aid (art_lineage db aid))"

section \<open>Trajectories, training jobs, operations\<close>

definition api_get_trajectory :: "string \<Rightarrow> (traj_table, traj_detail) handler_fn" where
  "api_get_trajectory tid rows =
     (rows, case trajectory_detail rows tid of
        Inr d \<Rightarrow> Reply 200 d
      | Inl (DashNoTrajectory _) \<Rightarrow> not_found ''trajectory'' tid
      | Inl _ \<Rightarrow> Unhandled)"

definition api_list_trajectories ::
  "bool \<Rightarrow> int \<Rightarrow> (traj_table, (string \<times> string \<times> real option \<times> traj_kind) list) handler_fn" where
  "api_list_trajectories db_exists limit rows =
     (rows, Reply 200 (map (\<lambda>t. (tr_id t, ln_policy_id (tr_lineage t), tr_reward t, tr_kind t))
        (trajectories db_exists limit rows)))"

record training_create =
  tq_config_path :: string
  tq_n_prompts :: int
  tq_num_samples :: int
  tq_gpu_mem_gb :: "real option"
  tq_priority :: int
  tq_resource :: string

definition submit_training_job :: "string \<Rightarrow> real \<Rightarrow> string \<Rightarrow> training_create \<Rightarrow> (store, job_out) handler_fn" where
  "submit_training_job fresh now dir b s =
     (if tq_config_path b = [] \<or> tq_n_prompts b < 1 \<or> tq_num_samples b < 1 then (s, Invalid)
      else (case submit_training fresh now (tq_config_path b) (tq_n_prompts b) (tq_num_samples b)
                   (tq_gpu_mem_gb b) (Some dir) (tq_priority b) (tq_resource b) s of
              (s', Inl _) \<Rightarrow> (s', Unhandled) | (s', Inr j) \<Rightarrow> (s', Reply 201 (job_out_of j))))"

definition list_training_jobs :: "(store, job_out list) handler_fn" where
  "list_training_jobs s =
     (s, Reply 200 (map job_out_of (filter (\<lambda>j. job_kind j = TRAIN_KIND) (list_jobs None s))))"

definition scheduler_status :: "(store, sched_status) handler_fn" where
  "scheduler_status s = (s, Reply 200 (status default_config s))"

definition overview :: "ckpt_env \<Rightarrow> (string \<Rightarrow> json option) \<Rightarrow> (platform, dash_snapshot) handler_fn" where
  "overview ce loads pf =
     (pf, case snapshot ce loads None pf of Inl _ \<Rightarrow> Unhandled | Inr sn \<Rightarrow> Reply 200 sn)"

definition api_checkpoints :: "ckpt_env \<Rightarrow> (string \<Rightarrow> json option) \<Rightarrow> (platform, ckpt_view list) handler_fn" where
  "api_checkpoints ce loads pf =
     (pf, case snapshot ce loads None pf of Inl _ \<Rightarrow> Unhandled | Inr sn \<Rightarrow> Reply 200 (sn_checkpoints sn))"

section \<open>Comparisons\<close>

text \<open>A comparison document as \<open>check_run\<close> reads it; \<open>None\<close> is a TypeError or AttributeError.\<close>

definition steps_of :: "dict \<Rightarrow> step_metrics list option" where
  "steps_of d =
     (case map_of d ''step_metrics'' of
        None \<Rightarrow> Some []
      | Some (JArr xs) \<Rightarrow> all_some (map metrics_of xs)
      | Some (JObj []) \<Rightarrow> Some []
      | Some (JStr []) \<Rightarrow> Some []
      | Some _ \<Rightarrow> None)"

definition failures_of :: "dict \<Rightarrow> int" where
  "failures_of d =
     (case map_of d ''stability_failures'' of
        None \<Rightarrow> 0 | Some (JInt i) \<Rightarrow> i | Some j \<Rightarrow> if falsy j then 0 else 1)"

definition mean_of :: "dict \<Rightarrow> string \<Rightarrow> pyfloat option option" where
  "mean_of d k =
     (case map_of d k of
        None \<Rightarrow> Some None
      | Some (JObj o') \<Rightarrow> metric_value o' ''reward_mean''
      | Some j \<Rightarrow> if falsy j then Some None else None)"

definition run_result_of :: "dict \<Rightarrow> run_result option" where
  "run_result_of d =
     (case (steps_of d, mean_of d ''held_out_before'', mean_of d ''held_out_after'') of
        (Some ms, Some b, Some a) \<Rightarrow>
          Some \<lparr>ru_steps = ms, ru_failures = failures_of d, ru_before = b, ru_after = a\<rparr>
      | _ \<Rightarrow> None)"

record comparison_out =
  cmo_algorithm :: "json option"
  cmo_final_kl :: "json option"
  cmo_max_kl :: "json option"
  cmo_reward_gain :: "json option"
  cmo_failures :: "json option"
  cmo_steps :: json
  cmo_critical :: nat
  cmo_warning :: nat
  cmo_by_rule :: "(string \<times> nat) list"
  cmo_source :: "json option"

definition count_rule :: "string \<Rightarrow> (string \<times> nat) list \<Rightarrow> (string \<times> nat) list" where
  "count_rule r d = AList.update r (dict_get d r + 1) d"

definition comparison_out_of :: "dict \<Rightarrow> comparison_out option" where
  "comparison_out_of d =
     (case run_result_of d of
        None \<Rightarrow> None
      | Some rr \<Rightarrow>
          (let al = check_run default_thresholds rr in
           Some \<lparr>cmo_algorithm = map_of d ''algorithm'', cmo_final_kl = map_of d ''final_kl'',
                 cmo_max_kl = map_of d ''max_kl'', cmo_reward_gain = map_of d ''reward_gain'',
                 cmo_failures = map_of d ''stability_failures'',
                 cmo_steps = (case map_of d ''step_metrics'' of None \<Rightarrow> JArr [] | Some j \<Rightarrow> j),
                 cmo_critical = length (filter (\<lambda>a. al_level a = CRITICAL) al),
                 cmo_warning = length (filter (\<lambda>a. al_level a = WARNING) al),
                 cmo_by_rule = fold (\<lambda>a. count_rule (al_rule a)) al [],
                 cmo_source = map_of d ''_source''\<rparr>))"

definition api_comparisons ::
  "(string \<Rightarrow> json option) \<Rightarrow> (string \<times> string option) list option \<Rightarrow> comparison_out list http" where
  "api_comparisons loads dir =
     (case comparisons loads dir of
        Inl _ \<Rightarrow> Unhandled
      | Inr cs \<Rightarrow> (case all_some (map comparison_out_of cs) of None \<Rightarrow> Unhandled | Some os \<Rightarrow> Reply 200 os))"

section \<open>Fault injection\<close>

definition dev_kill_worker :: "string \<Rightarrow> real \<Rightarrow> (store, kill_report) handler_fn" where
  "dev_kill_worker fresh t s =
     (case sim_kill_worker fresh t s of
        (s', Inl _) \<Rightarrow> (s', Unhandled) | (s', Inr r) \<Rightarrow> (s', Reply 200 r))"

definition dev_replay :: "string \<Rightarrow> real \<Rightarrow> string \<Rightarrow> (traj_table, string \<times> string) handler_fn" where
  "dev_replay fresh t tid rows =
     (case sim_duplicate_trajectory fresh t (Some tid) rows of
        (rows', Inl _) \<Rightarrow> (rows', Unhandled)
      | (rows', Inr None) \<Rightarrow> (rows', HttpError 404 ''no trajectories to duplicate'')
      | (rows', Inr (Some r)) \<Rightarrow> (rows', Reply 200 r))"

definition dev_corrupt_checkpoint :: "ckpt_env \<Rightarrow> (ckpt_fs, corrupt_report) handler_fn" where
  "dev_corrupt_checkpoint ce fs =
     (case sim_corrupt_checkpoint ce fs of
        (fs', Inl _) \<Rightarrow> (fs', Unhandled)
      | (fs', Inr None) \<Rightarrow> (fs', HttpError 404 ''no checkpoint to corrupt'')
      | (fs', Inr (Some r)) \<Rightarrow> (fs', Reply 200 r))"

definition dev_oom ::
  "(string \<Rightarrow> ckpt_manifest option) \<Rightarrow> ckpt_fs \<Rightarrow> string \<Rightarrow> string \<Rightarrow> real option \<Rightarrow> real
    \<Rightarrow> (recovery_state, oom_report) handler_fn" where
  "dev_oom parse fs events_path fresh gpu t rs =
     (case sim_oom parse fs events_path fresh gpu t rs of
        (rs', Inl _) \<Rightarrow> (rs', Unhandled) | (rs', Inr r) \<Rightarrow> (rs', Reply 200 r))"

definition health :: "string \<Rightarrow> (string \<times> string) http" where
  "health dir = Reply 200 (''ok'', dir)"

end
