(* ===== verification/Api_Props.thy ===== *)
theory Api_Props
  imports Api Failure_Props
begin

text \<open>
  The API's job control refines an automaton over job states (the locale \<open>simulation\<close> lifts one
  request to sequences of them), and what the fault injections do.
\<close>

section \<open>Simulation of a request by a specification\<close>

text \<open>Running requests one after the other, collecting the answers.\<close>

fun run_all :: "('r \<Rightarrow> 's \<Rightarrow> 's \<times> 'o) \<Rightarrow> 'r list \<Rightarrow> 's \<Rightarrow> 's \<times> 'o list" where
  "run_all step [] s = (s, [])"
| "run_all step (r # rs) s =
     (let (s1, out') = step r s; (s2, outs) = run_all step rs s1 in (s2, out' # outs))"

locale simulation =
  fixes step :: "'r \<Rightarrow> 's \<Rightarrow> 's \<times> 'o"
    and spec :: "'r \<Rightarrow> 'a \<Rightarrow> 'a \<times> 'o"
    and abs :: "'s \<Rightarrow> 'a"
    and inv :: "'s \<Rightarrow> bool"
  assumes step_inv: "inv s \<Longrightarrow> inv (fst (step r s))"
    and step_abs: "inv s \<Longrightarrow> spec r (abs s) = (abs (fst (step r s)), snd (step r s))"
begin

lemma runs_inv: "inv s \<Longrightarrow> inv (fst (run_all step rs s))"
  by (induction rs arbitrary: s) (auto simp: step_inv split_beta)

lemma runs_abs: "inv s \<Longrightarrow> run_all spec rs (abs s) = (abs (fst (run_all step rs s)), snd (run_all step rs s))"
  by (induction rs arbitrary: s) (auto simp: step_inv step_abs split_beta)

end

section \<open>The automaton of job control\<close>

datatype verb = Pause | Resume | Cancel

fun verb_target :: "verb \<Rightarrow> job_state" where
  "verb_target Pause = PAUSED"
| "verb_target Resume = PENDING"
| "verb_target Cancel = CANCELLED"

fun verb_from :: "verb \<Rightarrow> job_state set" where
  "verb_from Pause = {PENDING, RUNNING}"
| "verb_from Resume = {PAUSED}"
| "verb_from Cancel = {PENDING, RUNNING, PAUSED}"

datatype request = Create string job_create | Get string | Control verb string

type_synonym states = "string \<Rightarrow> job_state option"

fun control_spec :: "real \<times> request \<Rightarrow> states \<Rightarrow> states \<times> nat" where
  "control_spec (_, Create fresh b) m =
     (if \<not> job_create_ok b then (m, 422)
      else if m fresh \<noteq> None then (m, 500) else (m(fresh \<mapsto> PENDING), 201))"
| "control_spec (_, Get i) m = (m, if m i = None then 404 else 200)"
| "control_spec (_, Control v i) m =
     (case m i of
        None \<Rightarrow> (m, 404)
      | Some st \<Rightarrow> if st \<in> verb_from v then (m(i \<mapsto> verb_target v), 200) else (m, 409))"

section \<open>The handlers\<close>

fun control_handler :: "verb \<Rightarrow> (store \<Rightarrow> store) \<Rightarrow> real \<Rightarrow> string \<Rightarrow> (store, job_out) handler_fn" where
  "control_handler Pause = pause_job"
| "control_handler Resume = resume_job"
| "control_handler Cancel = cancel_job"

fun serve_request :: "real \<times> request \<Rightarrow> store \<Rightarrow> store \<times> nat" where
  "serve_request (now, Create fresh b) s = map_prod id status_of (create_job fresh now b s)"
| "serve_request (now, Get i) s = map_prod id status_of (api_get_job i s)"
| "serve_request (now, Control v i) s = map_prod id status_of (control_handler v (\<lambda>s. s) now i s)"

definition job_states :: "store \<Rightarrow> states" where
  "job_states s i = map_option job_state (lookup s i)"

lemma job_states_replace:
  "lookup s (job_id j) \<noteq> None \<Longrightarrow> job_states (replace_job j s) = (job_states s)(job_id j \<mapsto> job_state j)"
  by (auto simp: job_states_def lookup_replace_job fun_eq_iff)

lemma create_job_fresh:
  assumes "lookup s fresh = None" and "job_create_ok b"
  shows "create_job fresh now b s
    = (s\<lparr>jobs_table := jobs_table s @ [new_job fresh now (jc_kind b) (jc_payload b) (jc_max_attempts b) ''cpu'' 0]\<rparr>,
       Reply 201 (job_out_of (new_job fresh now (jc_kind b) (jc_payload b) (jc_max_attempts b) ''cpu'' 0)))"
  using assms by (simp add: create_job_def create_def Let_def)

lemma lookup_appended:
  "lookup (s\<lparr>jobs_table := jobs_table s @ [j]\<rparr>) k
    = (case lookup s k of Some x \<Rightarrow> Some x | None \<Rightarrow> if job_id j = k then Some j else None)"
  by (auto simp: lookup_def row_simps split: option.splits)

lemma pk_appended: "pk s \<Longrightarrow> lookup s (job_id j) = None \<Longrightarrow> pk (s\<lparr>jobs_table := jobs_table s @ [j]\<rparr>)"
  by (auto simp: pk_def lookup_def row_by_None_iff)

lemma new_job_fields [simp]:
  "job_id (new_job i now k p m r pr) = i" "job_state (new_job i now k p m r pr) = PENDING"
  "job_attempts (new_job i now k p m r pr) = 0" "job_max_attempts (new_job i now k p m r pr) = m"
  "job_payload (new_job i now k p m r pr) = p"
  by (simp_all add: new_job_def)

text \<open>One control request, with whatever other processes write meanwhile.\<close>

lemma control_handler_race:
  assumes "pk (other s)"
  shows "(\<exists>j'. lookup s i \<noteq> None \<and> lookup (other s) i = Some j' \<and>
        can_transition (job_state j') (verb_target v) \<and>
        control_handler v other now i s =
          (let j'' = set_state (verb_target v) (job_attempts j') None now j'
           in (replace_job j'' (other s), Reply 200 (job_out_of j'')))) \<or>
    (status_of (snd (control_handler v other now i s)) \<in> {404, 409} \<and>
     fst (control_handler v other now i s) \<in> {s, other s})"
proof (cases "lookup s i")
  case None
  then show ?thesis
    by (cases v) (simp_all add: pause_job_def resume_job_def cancel_job_def api_transition_def not_found_def)
next
  case (Some j)
  show ?thesis
  proof (cases "v \<noteq> Cancel \<and> job_state j \<notin> verb_from v")
    case True
    with Some show ?thesis
      by (cases v) (simp_all add: pause_job_def resume_job_def api_transition_def cannot_def)
  next
    case False
    with Some assms show ?thesis
      by (cases v; cases "lookup (other s) i")
        (auto simp: pause_job_def resume_job_def cancel_job_def api_transition_def
            transition_eq not_found_def cannot_def Let_def)
  qed
qed

text \<open>Without interference.\<close>

lemma control_handler_quiet:
  assumes "pk s"
  shows "control_handler v (\<lambda>s. s) now i s =
    (case lookup s i of
       None \<Rightarrow> (s, not_found ''job'' i)
     | Some j \<Rightarrow>
         (if job_state j \<in> verb_from v
          then let j' = set_state (verb_target v) (job_attempts j) None now j
               in (replace_job j' s, Reply 200 (job_out_of j'))
          else (s, cannot (case v of Pause \<Rightarrow> ''pause'' | Resume \<Rightarrow> ''resume'' | Cancel \<Rightarrow> ''cancel'') j)))"
proof (cases "lookup s i")
  case None
  then show ?thesis
    by (cases v) (simp_all add: pause_job_def resume_job_def cancel_job_def api_transition_def)
next
  case (Some j)
  with assms show ?thesis
    by (cases v; cases "job_state j")
      (simp_all add: pause_job_def resume_job_def cancel_job_def api_transition_def transition_eq Let_def)
qed

lemma serve_request_simulates:
  assumes "pk s"
  shows "pk (fst (serve_request r s)) \<and>
    control_spec r (job_states s) = (job_states (fst (serve_request r s)), snd (serve_request r s))"
proof (cases r)
  case (Pair now rq)
  show ?thesis
  proof (cases rq)
    case (Create fresh b)
    show ?thesis
    proof (cases "job_create_ok b \<and> lookup s fresh = None")
      case True
      then have "job_states (s\<lparr>jobs_table := jobs_table s @ [new_job fresh now (jc_kind b) (jc_payload b) (jc_max_attempts b) ''cpu'' 0]\<rparr>)
          = (job_states s)(fresh \<mapsto> PENDING)"
        by (auto simp: job_states_def lookup_appended fun_eq_iff split: option.splits)
      with True assms Pair Create show ?thesis
        by (simp add: create_job_fresh pk_appended job_states_def [of s])
    next
      case False
      with assms Pair Create show ?thesis
        by (auto simp: create_job_def create_def job_states_def Let_def)
    qed
  next
    case (Get i)
    with assms Pair show ?thesis
      by (cases "lookup s i") (simp_all add: api_get_job_def not_found_def job_states_def)
  next
    case (Control v i)
    show ?thesis
    proof (cases "lookup s i")
      case None
      with assms Pair Control show ?thesis
        by (simp add: control_handler_quiet not_found_def job_states_def)
    next
      case (Some j)
      then have "job_id j = i" by (auto dest: lookup_SomeD)
      with Some assms Pair Control show ?thesis
        by (auto simp: control_handler_quiet job_states_replace cannot_def Let_def job_states_def [of s])
    qed
  qed
qed

interpretation api: simulation serve_request control_spec job_states pk
  by unfold_locales (simp_all add: serve_request_simulates)

text \<open>C33. The job endpoints refine an automaton over job states: on a database with unique ids any
  sequence of requests gets the status codes that the automaton prescribes and leaves exactly the
  states it prescribes (pause from PENDING or RUNNING, resume from PAUSED, cancel from all three, 409
  from every other state, 404 for an unknown job, 422 for a create out of bounds), and the ids stay
  unique.  When other processes write between a handler's read and its update, the handler either
  performs one legal transition of the state it then finds, keeping the job's attempts, or answers 404
  or 409 and adds no write of its own.\<close>

theorem api_refines_job_control:
  assumes "pk s" and "pk (other s)"
  shows "run_all control_spec reqs (job_states s)
      = (job_states (fst (run_all serve_request reqs s)), snd (run_all serve_request reqs s)) \<and>
    pk (fst (run_all serve_request reqs s)) \<and>
    ((\<exists>j'. lookup s i \<noteq> None \<and> lookup (other s) i = Some j' \<and>
        can_transition (job_state j') (verb_target v) \<and>
        control_handler v other now i s =
          (let j'' = set_state (verb_target v) (job_attempts j') None now j'
           in (replace_job j'' (other s), Reply 200 (job_out_of j'')))) \<or>
     (status_of (snd (control_handler v other now i s)) \<in> {404, 409} \<and>
      fst (control_handler v other now i s) \<in> {s, other s}))"
  using api.runs_abs [OF assms(1)] api.runs_inv [OF assms(1)] control_handler_race [of other s, OF assms(2)]
  by (intro conjI) metis+

definition sample_requests :: "(real \<times> request) list" where
  "sample_requests =
     [(1, Create ''j'' \<lparr>jc_kind = ''rollout'', jc_payload = [], jc_max_attempts = 3\<rparr>),
      (2, Control Pause ''j''), (3, Control Pause ''j''), (4, Control Resume ''j''),
      (5, Control Cancel ''j''), (6, Control Resume ''j''), (7, Get ''k'')]"

lemma sample_codes:
  "snd (run_all control_spec sample_requests (\<lambda>_. None)) = [201, 200, 409, 200, 200, 409, 404]"
  by (simp add: sample_requests_def job_create_ok_def)

lemma empty_states: "job_states empty_store = (\<lambda>_. None)"
  by (simp add: fun_eq_iff job_states_def lookup_def empty_store_def row_simps)

lemma pk_empty: "pk empty_store"
  by (simp add: pk_def empty_store_def)

lemma api_refines_job_control_witness:
  "snd (run_all serve_request sample_requests empty_store) = [201, 200, 409, 200, 200, 409, 404]"
proof -
  have "run_all control_spec sample_requests (job_states empty_store)
      = (job_states (fst (run_all serve_request sample_requests empty_store)),
         snd (run_all serve_request sample_requests empty_store))"
    using api_refines_job_control [of empty_store "\<lambda>s. s", OF pk_empty pk_empty] by blast
  then show ?thesis using sample_codes by (simp add: empty_states)
qed

end
