(* ===== verification/Dash_Props.thy ===== *)
theory Dash_Props
  imports Api_Props Checkpoint_Props Lineage_Props
begin

text \<open>What the fault injections of the dashboard do, and what its reads report.\<close>

section \<open>A killed worker\<close>

lemma reap_at_eq:
  assumes "pk s"
  shows "reap_at now clock s =
    (s\<lparr>jobs_table := update_rows (lease_expired now)
        (failed_job clock ''lease expired: worker presumed dead'') (jobs_table s)\<rparr>,
     Inr (map (failed_job clock ''lease expired: worker presumed dead'')
        (filter (lease_expired now) (jobs_table s))))"
  unfolding reap_at_def by (rule fail_matching [OF assms lease_expired_running])

lemma create_fresh:
  "lookup s fresh = None \<Longrightarrow> create fresh now k p m r pr s
    = (s\<lparr>jobs_table := jobs_table s @ [new_job fresh now k p m r pr]\<rparr>, Inr (new_job fresh now k p m r pr))"
  by (simp add: create_def Let_def)

lemma lookup_update_rows:
  "(\<And>j. job_id (f j) = job_id j) \<Longrightarrow>
    lookup (s\<lparr>jobs_table := update_rows P f (jobs_table s)\<rparr>) k
      = map_option (\<lambda>j. if P j then f j else j) (lookup s k)"
  by (simp add: lookup_def row_by_update_rows)

lemma filter_nonempty: "x \<in> set xs \<Longrightarrow> P x \<Longrightarrow> 1 \<le> length (filter P xs)"
  by (induction xs) auto

lemma killed_worker_requeued:
  assumes "pk s" and "lookup s fresh = None"
  shows "\<exists>s' n. sim_kill_worker fresh t s
      = (s', Inr \<lparr>kr_job_id = fresh, kr_reaped = n, kr_state = ''pending'', kr_attempts = 1\<rparr>) \<and> 1 \<le> n \<and>
    (\<forall>k j. lookup s k = Some j \<longrightarrow> \<not> lease_expired 10000 j \<longrightarrow> lookup s' k = Some j)"
proof -
  let ?err = "''lease expired: worker presumed dead''"
  define j0 where "j0 = new_job fresh t ''sim-rollout'' (note_payload ''SIMULATION: killed-worker demo'') 3 ''cpu'' 0"
  define s0 where "s0 = s\<lparr>jobs_table := jobs_table s @ [j0]\<rparr>"
  define j1 where "j1 = set_state RUNNING 0 None t j0"
  define s1 where "s1 = replace_job j1 s0"
  define j2 where "j2 = j1\<lparr>job_lease := Some (0 + 1), job_updated_at := 0\<rparr>"
  define s2 where "s2 = replace_job j2 s1"
  define s3 where "s3 = s2\<lparr>jobs_table := update_rows (lease_expired 10000) (failed_job t ?err) (jobs_table s2)\<rparr>"
  have ids [simp]: "job_id j0 = fresh" "job_id j1 = fresh" "job_id j2 = fresh"
    by (simp_all add: j0_def j1_def j2_def)
  have cr: "create fresh t ''sim-rollout'' (note_payload ''SIMULATION: killed-worker demo'') 3 ''cpu'' 0 s = (s0, Inr j0)"
    using create_fresh [OF assms(2)] by (simp add: s0_def j0_def)
  have pk0: "pk s0" unfolding s0_def using assms by (intro pk_appended) simp_all
  have l0: "lookup s0 fresh = Some j0" using assms(2) by (simp add: s0_def lookup_appended)
  have tr: "transition t fresh RUNNING None False s0 = (s1, Inr j1)"
    using l0 by (simp add: transition_eq [OF pk0] Let_def s1_def j1_def j0_def)
  have pk1: "pk s1" by (simp add: s1_def pk0)
  have l1: "lookup s1 fresh = Some j1" using l0 by (simp add: s1_def lookup_replace_job)
  have rn: "renew_lease fresh 1 0 s1 = (s2, Inr j2)"
    using l1 by (simp add: renew_lease_eq [OF pk1] Let_def s2_def j2_def j1_def set_state_def)
  have l2: "lookup s2 fresh = Some j2" using l1 by (simp add: s2_def lookup_replace_job)
  have reap: "reap_at 10000 t s2 = (s3, Inr (map (failed_job t ?err) (filter (lease_expired 10000) (jobs_table s2))))"
    unfolding s3_def by (rule reap_at_eq) (simp add: s2_def pk1)
  have exp: "lease_expired 10000 j2" by (simp add: lease_expired_def is_running_def set_state_def j2_def j1_def)
  have l3: "lookup s3 fresh = Some (failed_job t ?err j2)"
    using l2 exp by (simp add: s3_def lookup_update_rows)
  have j3: "job_state (failed_job t ?err j2) = PENDING" "job_attempts (failed_job t ?err j2) = 1"
    by (simp_all add: failed_job_def set_state_def j2_def j1_def j0_def)
  let ?n = "length (filter (lease_expired 10000) (jobs_table s2))"
  have n: "1 \<le> ?n" using l2 exp by (intro filter_nonempty [of j2]) (auto dest: lookup_SomeD)
  have "sim_kill_worker fresh t s
      = (s3, Inr \<lparr>kr_job_id = fresh, kr_reaped = ?n, kr_state = ''pending'', kr_attempts = 1\<rparr>)"
    by (simp add: sim_kill_worker_def cr tr rn reap l3 j3)
  moreover have "\<forall>k j. lookup s k = Some j \<longrightarrow> \<not> lease_expired 10000 j \<longrightarrow> lookup s3 k = Some j"
    using assms(2) by (auto simp: s3_def s2_def s1_def s0_def lookup_update_rows lookup_replace_job lookup_appended)
  ultimately show ?thesis using n by blast
qed

section \<open>A tampered checkpoint\<close>

lemma map_of_update: "map_of (AList.update k v al) k' = (if k' = k then Some v else map_of al k')"
  by (simp add: update_conv')

lemma dir_of_tamper:
  "map_of (published fs) cid = Some d \<Longrightarrow>
    dir_of (tamper ce cid path fs) cid = AList.update path (append_zero (ce_render ce) (map_of d path)) d"
  by (simp add: dir_of_def tamper_def map_of_map_entry)

text \<open>One more byte changes the size, so the entry no longer fits, whatever the hash.\<close>

lemma tampered_entry:
  "entry_ok sha (ce_render ce) d e \<Longrightarrow>
    \<not> entry_ok sha (ce_render ce) (AList.update (fe_path e) (append_zero (ce_render ce) (map_of d (fe_path e))) d) e"
  by (auto simp: entry_ok_def map_of_update append_zero_def sha256_file_def split: option.splits content.splits)

lemma victim_in: "victim_of es = Some v \<Longrightarrow> v \<in> set es"
  by (auto simp: victim_of_def find_Some_iff split: option.splits list.splits)

lemma tampered_checkpoint_detected:
  assumes l: "latest (ce_parse ce) fs = Inr (Some m)" and v: "victim_of (ck_files m) = Some e"
    and path: "fe_path e \<noteq> MANIFEST_NAME"
    and ok: "ck_verify (ce_sha ce) (ce_render ce) (ce_parse ce) fs (ck_id m) = Inr m"
  shows "sim_corrupt_checkpoint ce fs = (tamper ce (ck_id m) (fe_path e) fs,
      Inr (Some \<lparr>cp_id = ck_id m, cp_file = fe_path e, cp_integrity = ''CORRUPT''\<rparr>)) \<and>
    (\<forall>cid. cid \<noteq> ck_id m \<longrightarrow> map_of (published (tamper ce (ck_id m) (fe_path e) fs)) cid = map_of (published fs) cid)"
proof -
  let ?fs' = "tamper ce (ck_id m) (fe_path e) fs"
  have get: "ck_get (ce_parse ce) fs (ck_id m) = Inr m"
    and ver: "verify_entries (ce_sha ce) (ce_render ce) (dir_of fs (ck_id m)) (ck_files m) = Inr ()"
    using ok by (auto simp: ck_verify_def split: sum.splits)
  from get obtain d where d: "map_of (published fs) (ck_id m) = Some d"
    by (auto simp: ck_get_def split: option.splits)
  let ?d' = "AList.update (fe_path e) (append_zero (ce_render ce) (map_of d (fe_path e))) d"
  have get': "ck_get (ce_parse ce) ?fs' (ck_id m) = Inr m"
    using get path by (simp add: ck_get_def d tamper_def map_of_map_entry map_of_update)
  have "entry_ok (ce_sha ce) (ce_render ce) d e"
    using ver victim_in [OF v] by (simp add: verify_entries_iff dir_of_def d list_all_iff)
  then have "\<not> list_all (entry_ok (ce_sha ce) (ce_render ce) ?d') (ck_files m)"
    using victim_in [OF v] tampered_entry [of "ce_sha ce" ce d e] unfolding list_all_iff by blast
  then obtain err where "verify_entries (ce_sha ce) (ce_render ce) ?d' (ck_files m) = Inl err"
    using verify_entries_cases verify_entries_iff by blast
  then have "ck_verify (ce_sha ce) (ce_render ce) (ce_parse ce) ?fs' (ck_id m) = Inl (CheckpointCorrupt (ck_id m) err)"
    using get' by (simp add: ck_verify_def dir_of_tamper [OF d])
  then show ?thesis
    using l v by (simp add: sim_corrupt_checkpoint_def Let_def) (simp add: tamper_def map_of_map_entry)
qed

section \<open>Trajectories\<close>

text \<open>A copy is stored beside its parent, one generation further down.\<close>

lemma duplicate_stored:
  assumes "traj_get rows tid = Some parent" and "traj_get rows fresh = None"
  shows "\<exists>rows'. sim_duplicate_trajectory fresh t (Some tid) rows = (rows', Inr (Some (tid, fresh))) \<and>
    traj_get rows' tid = Some parent \<and>
    (\<exists>child. traj_get rows' fresh = Some child \<and> ln_parent_id (tr_lineage child) = Some tid \<and>
       tr_steps child = tr_steps parent \<and> tr_reward child = tr_reward parent)"
proof -
  have "tr_id parent = tid" and "fresh \<noteq> tid" using assms traj_get_in by force+
  then show ?thesis
    using assms by (simp add: sim_duplicate_trajectory_def derive_def traj.get_put)
qed

text \<open>A stored trajectory whose parent was pruned is reported as missing.\<close>

lemma orphan_not_found:
  assumes "traj_get rows tid = Some t" and "ln_parent_id (tr_lineage t) = Some p"
    and "p \<noteq> tid" and "traj_get rows p = None"
  shows "api_get_trajectory tid rows = (rows, not_found ''trajectory'' tid)"
  using assms by (simp add: api_get_trajectory_def trajectory_detail_def ancestry_def)

text \<open>Replaying an unknown trajectory is not translated to a 404.\<close>

lemma replay_unknown_unhandled:
  "traj_get rows tid = None \<Longrightarrow> dev_replay fresh t tid rows = (rows, Unhandled)"
  by (simp add: dev_replay_def sim_duplicate_trajectory_def)

text \<open>A FAILED or RETRYING job is not terminal and cannot be cancelled.\<close>

lemma cancel_failed_refused:
  assumes "pk s" and "lookup s i = Some j" and "job_state j \<in> {FAILED, RETRYING}"
  shows "cancel_job (\<lambda>s. s) now i s = (s, cannot ''cancel'' j) \<and> \<not> is_terminal j"
  using control_handler_quiet [OF assms(1), of Cancel now i] assms by (auto simp: is_terminal_def)

end
