(* ===== verification/Dashboard.thy ===== *)
theory Dashboard
  imports Lexing
begin

text \<open>
  \<^verbatim>\<open>src/shoprl/observability/dashboard.py\<close>: the page of panels drawn from a metrics log and the
  overlay of several runs.  A panel is the list of its SVG elements with the coordinates that are printed
  (one decimal place), a page the values that are put into the template; the template's text, the colours
  beyond their slots and the JSON text of the hover data are left out.  Metrics are finite numbers.
\<close>

section \<open>Geometry of a panel\<close>

definition W :: int where "W = 380"
definition H :: int where "H = 170"
definition PADL :: int where "PADL = 46"
definition PADR :: int where "PADR = 18"
definition PADT :: int where "PADT = 10"
definition PADB :: int where "PADB = 22"
definition PADR_COMP :: int where "PADR_COMP = 92"

lemmas layout = W_def H_def PADL_def PADR_def PADT_def PADB_def PADR_COMP_def

datatype dash_error = DsValueError | DsIndexError

text \<open>\<open>_scale\<close>: the value range with a margin; \<open>abs(hi) * 0.1 or 0.5\<close> for a constant series.\<close>

definition scale :: "real list \<Rightarrow> dash_error + real \<times> real" where
  "scale vs =
     (if vs = [] then Inl DsValueError
      else
        (let lo = Min (set vs); hi = Max (set vs) in
         if hi = lo then
           (let pad = (if \<bar>hi\<bar> * (1/10) = 0 then 1/2 else \<bar>hi\<bar> * (1/10)) in Inr (lo - pad, hi + pad))
         else (let margin = (hi - lo) * (8/100) in Inr (lo - margin, hi + margin))))"

definition xy :: "nat \<Rightarrow> nat \<Rightarrow> real \<Rightarrow> real \<Rightarrow> real \<Rightarrow> int \<Rightarrow> real \<times> real" where
  "xy n i v lo hi padr =
     ((if n = 1 then of_int PADL else of_int PADL + of_int (W - PADL - padr) * (real i / real (n - 1))),
      of_int PADT + of_int (H - PADT - PADB) * (1 - (v - lo) / (hi - lo)))"

text \<open>A printed point.\<close>

definition round_point :: "real \<times> real \<Rightarrow> real \<times> real" where
  "round_point p = (py_round 1 (fst p), py_round 1 (snd p))"

section \<open>HTML text\<close>

fun escape_char :: "char \<Rightarrow> string" where
  "escape_char c =
     (if c = CHR ''&'' then ''&amp;'' else if c = CHR ''<'' then ''&lt;'' else if c = CHR ''>'' then ''&gt;''
      else if c = CHR 0x22 then ''&quot;'' else if c = CHR 0x27 then ''&#x27;'' else [c])"

text \<open>\<open>html.escape\<close>\<close>

definition escape :: "string \<Rightarrow> string" where
  "escape s = concat (map escape_char s)"

section \<open>Panels\<close>

datatype svg =
    GridLine int real int
  | YLabel int real real
  | Axis int int int
  | XLabel int int int
  | BandPolygon "(real \<times> real) list"
  | Polyline "(real \<times> real) list" nat
  | Dot "real \<times> real" nat
  | EndLabel "real \<times> real" string nat

text \<open>A series: its label, its colour slot and its values.\<close>

record series =
  se_label :: string
  se_slot :: nat
  se_values :: "real list"

definition grid :: "real \<Rightarrow> real \<Rightarrow> int \<Rightarrow> svg list" where
  "grid lo hi padr =
     concat (map (\<lambda>f. let yv = lo + (hi - lo) * (1 - f); y = of_int PADT + of_int (H - PADT - PADB) * f in
       [GridLine PADL (py_round 1 y) (W - padr), YLabel (PADL - 6) (py_round 1 (y + 3)) (py_round 2 yv)]) [0, 1/2, 1])"

definition series_svg :: "nat \<Rightarrow> real \<Rightarrow> real \<Rightarrow> int \<Rightarrow> bool \<Rightarrow> series \<Rightarrow> dash_error + svg list" where
  "series_svg n lo hi padr several se =
     (let pts = map (\<lambda>(i, v). xy n i v lo hi padr) (enumerate 0 (se_values se));
          line = Polyline (map round_point pts) (se_slot se);
          dot = (if length pts = 1 then [Dot (round_point (hd pts)) (se_slot se)] else []) in
      if \<not> several then Inr (line # dot)
      else if pts = [] then Inl DsIndexError
      else (let (ex, ey) = last pts in
            Inr (line # dot @ [EndLabel (round_point (ex + 5, ey + 3)) (escape (se_label se)) (se_slot se)])))"

definition band_svg :: "nat \<Rightarrow> real \<Rightarrow> real \<Rightarrow> int \<Rightarrow> real list \<times> real list \<Rightarrow> svg" where
  "band_svg n lo hi padr b =
     BandPolygon (map (\<lambda>i. round_point (xy n i (snd b ! i) lo hi padr)) [0..<n]
       @ map (\<lambda>i. round_point (xy n i (fst b ! i) lo hi padr)) (rev [0..<n]))"

definition panel_svg :: "int list \<Rightarrow> series list \<Rightarrow> int \<Rightarrow> (real list \<times> real list) option \<Rightarrow> dash_error + svg list" where
  "panel_svg steps ss padr band =
     (case scale (concat (map se_values ss) @ (case band of None \<Rightarrow> [] | Some (b0, b1) \<Rightarrow> b0 @ b1)) of
        Inl e \<Rightarrow> Inl e
      | Inr (lo, hi) \<Rightarrow>
          if steps = [] then Inl DsIndexError
          else if (case band of None \<Rightarrow> False | Some (b0, b1) \<Rightarrow> length b0 < length steps \<or> length b1 < length steps)
          then Inl DsIndexError
          else
            (case mapE (series_svg (length steps) lo hi padr (1 < length ss)) ss of
               Inl e \<Rightarrow> Inl e
             | Inr parts \<Rightarrow>
                 Inr (grid lo hi padr @ [Axis PADL (H - PADB) (W - padr), XLabel PADL (H - 6) (hd steps),
                        XLabel (W - padr) (H - 6) (last steps)]
                      @ (case band of None \<Rightarrow> [] | Some b \<Rightarrow> [band_svg (length steps) lo hi padr b])
                      @ concat parts)))"

section \<open>The page of one run\<close>

record metric_row =
  mx_step :: "int option"
  mx_values :: "(string \<times> real) list"

definition CATEGORICAL :: "string list" where
  "CATEGORICAL = [''budget'', ''groundedness'', ''coverage'', ''format'', ''comparison'']"

definition COMPONENT_KEYS :: "(string \<times> string) list" where
  "COMPONENT_KEYS =
     [(''budget'', ''reward_budget''), (''groundedness'', ''reward_groundedness''), (''coverage'', ''reward_coverage''),
      (''format'', ''reward_quality_format''), (''comparison'', ''reward_quality_comparison'')]"

definition SINGLE :: "(string \<times> string) list" where
  "SINGLE =
     [(''kl'', ''KL vs reference''), (''entropy'', ''Policy entropy''), (''clip_frac'', ''Clip fraction''),
      (''grad_norm'', ''Grad norm''), (''hallucination_rate'', ''Hallucination rate''), (''value_loss'', ''PPO value loss'')]"

record card =
  cr_title :: string
  cr_legend :: "(string \<times> nat) list"
  cr_pid :: string
  cr_svg :: "svg list"

record hover =
  hv_steps :: "int list"
  hv_series :: "(string \<times> real list) list"

record page =
  pg_title :: string
  pg_n_steps :: nat
  pg_cards :: "card list"
  pg_hover :: "(string \<times> hover) list"

definition col :: "metric_row list \<Rightarrow> string \<Rightarrow> real list" where
  "col metrics key = map (\<lambda>m. case map_of (mx_values m) key of None \<Rightarrow> 0 | Some v \<Rightarrow> v) metrics"

definition page_steps :: "metric_row list \<Rightarrow> int list" where
  "page_steps metrics = map (\<lambda>(i, m). case mx_step m of None \<Rightarrow> int i | Some s \<Rightarrow> s) (enumerate 0 metrics)"

definition make_card :: "string \<Rightarrow> (string \<times> nat) list \<Rightarrow> string \<Rightarrow> dash_error + svg list \<Rightarrow> dash_error + card" where
  "make_card ttl legend pid r =
     (case r of Inl e \<Rightarrow> Inl e
      | Inr parts \<Rightarrow> Inr \<lparr>cr_title = escape ttl, cr_legend = legend, cr_pid = pid, cr_svg = parts\<rparr>)"

definition component_series :: "metric_row list \<Rightarrow> series list" where
  "component_series metrics =
     map (\<lambda>(i, lbl). \<lparr>se_label = lbl, se_slot = i, se_values = col metrics (the (map_of COMPONENT_KEYS lbl))\<rparr>)
       (enumerate 0 CATEGORICAL)"

definition std_band :: "metric_row list \<Rightarrow> real list \<times> real list" where
  "std_band metrics =
     (let mean = col metrics ''reward_mean''; std = col metrics ''reward_std''
      in (map2 (-) mean std, map2 (+) mean std))"

definition dashboard_panels :: "metric_row list \<Rightarrow> (dash_error + card) list" where
  "dashboard_panels metrics =
     (let steps = page_steps metrics in
        [make_card (''Reward (mean '' @ [CHR 0xB1] @ '' std)'') [] ''reward''
            (panel_svg steps [\<lparr>se_label = ''reward'', se_slot = 0, se_values = col metrics ''reward_mean''\<rparr>] PADR
              (Some (std_band metrics))),
          make_card ''Reward by component'' (map (\<lambda>(i, lbl). (escape lbl, i)) (enumerate 0 CATEGORICAL)) ''components''
            (panel_svg steps (component_series metrics) PADR_COMP None)]
         @ map (\<lambda>(key, ttl). make_card ttl [] key
             (panel_svg steps [\<lparr>se_label = key, se_slot = 0, se_values = col metrics key\<rparr>] PADR None)) SINGLE)"

definition dashboard_cards :: "metric_row list \<Rightarrow> dash_error + card list" where
  "dashboard_cards metrics = mapE id (dashboard_panels metrics)"

definition dashboard_hover :: "metric_row list \<Rightarrow> (string \<times> hover) list" where
  "dashboard_hover metrics =
     (let steps = page_steps metrics in
      [(''reward'', \<lparr>hv_steps = steps, hv_series = [(''reward'', col metrics ''reward_mean'')]\<rparr>),
       (''components'', \<lparr>hv_steps = steps,
          hv_series = map (\<lambda>l. (l, col metrics (the (map_of COMPONENT_KEYS l)))) CATEGORICAL\<rparr>)]
      @ map (\<lambda>(key, _). (key, \<lparr>hv_steps = steps, hv_series = [(key, col metrics key)]\<rparr>)) SINGLE)"

definition render_dashboard :: "metric_row list \<Rightarrow> string \<Rightarrow> dash_error + page" where
  "render_dashboard metrics ttl =
     (case dashboard_cards metrics of
        Inl e \<Rightarrow> Inl e
      | Inr cards \<Rightarrow> Inr \<lparr>pg_title = escape ttl, pg_n_steps = length metrics, pg_cards = cards,
                         pg_hover = dashboard_hover metrics\<rparr>)"

section \<open>The overlay of several runs\<close>

record run_result =
  rr_algorithm :: "string option"
  rr_metrics :: "metric_row list"
  rr_fields :: "(string \<times> real option) list"

definition OVERLAY_METRICS :: "(string \<times> string) list" where
  "OVERLAY_METRICS =
     [(''reward_mean'', ''Reward''), (''kl'', ''KL vs reference''), (''entropy'', ''Entropy''), (''grad_norm'', ''Grad norm'')]"

definition SUMMARY_FIELDS :: "(string \<times> string) list" where
  "SUMMARY_FIELDS =
     [(''reward_gain'', ''gain''), (''final_kl'', ''final KL''), (''max_kl'', ''max KL''), (''train_time_s'', ''time s''),
      (''peak_mem_gb'', ''peak GB''), (''tokens_per_sec'', ''tok/s''), (''mean_rollout_reward_std'', ''rollout std''),
      (''stability_failures'', ''fails'')]"

definition run_labels :: "run_result list \<Rightarrow> string list" where
  "run_labels results =
     map (\<lambda>(i, r). case rr_algorithm r of None \<Rightarrow> ''run'' @ show_int (int i) | Some a \<Rightarrow> a) (enumerate 0 results)"

definition overlay_length :: "run_result list \<Rightarrow> nat" where
  "overlay_length results = (if results = [] then 1 else Max (set (map (length \<circ> rr_metrics) results)))"

text \<open>Colours are taken by slot, round the palette of five.\<close>

definition overlay_series :: "run_result list \<Rightarrow> string \<Rightarrow> series list" where
  "overlay_series results key =
     map (\<lambda>(i, lbl, r). \<lparr>se_label = lbl, se_slot = i mod 5, se_values = col (rr_metrics r) key\<rparr>)
       (enumerate 0 (zip (run_labels results) results))"

text \<open>A cell without a value reads \<open>n/a\<close>.\<close>

record summary_row =
  sr_algorithm :: string
  sr_cells :: "real option list"

definition summary_table :: "run_result list \<Rightarrow> summary_row list" where
  "summary_table results =
     map (\<lambda>r. \<lparr>sr_algorithm = escape (case rr_algorithm r of None \<Rightarrow> ''?'' | Some a \<Rightarrow> a),
               sr_cells = map (\<lambda>(f, _). case map_of (rr_fields r) f of None \<Rightarrow> None | Some v \<Rightarrow> v) SUMMARY_FIELDS\<rparr>) results"

record overlay_page = page +
  ov_table :: "summary_row list"

definition overlay_cards :: "run_result list \<Rightarrow> dash_error + card list" where
  "overlay_cards results =
     (let steps = map int [0..<overlay_length results];
          legend = map (\<lambda>(i, lbl). (escape lbl, i mod 5)) (enumerate 0 (run_labels results)) in
      mapE (\<lambda>(key, ttl). make_card ttl legend key
        (panel_svg steps (overlay_series results key) PADR_COMP None)) OVERLAY_METRICS)"

definition overlay_hover :: "run_result list \<Rightarrow> (string \<times> hover) list" where
  "overlay_hover results =
     map (\<lambda>(key, _). (key, \<lparr>hv_steps = map int [0..<overlay_length results],
        hv_series = map (\<lambda>(lbl, r). (lbl, col (rr_metrics r) key)) (zip (run_labels results) results)\<rparr>)) OVERLAY_METRICS"

definition render_overlay :: "run_result list \<Rightarrow> string \<Rightarrow> dash_error + overlay_page" where
  "render_overlay results ttl =
     (case overlay_cards results of
        Inl e \<Rightarrow> Inl e
      | Inr cards \<Rightarrow> Inr \<lparr>pg_title = escape ttl, pg_n_steps = overlay_length results, pg_cards = cards,
                         pg_hover = overlay_hover results, ov_table = summary_table results\<rparr>)"

end
