(* ===== verification/Dashboard_Props.thy ===== *)
theory Dashboard_Props
  imports Dashboard
begin

text \<open>
  The pages of the metrics dashboard: when they can be drawn, that everything drawn stays inside the plot
  area and keeps the order of the data, and that text put into the page is escaped.
\<close>

section \<open>The plot area\<close>

definition inside :: "int \<Rightarrow> real \<times> real \<Rightarrow> bool" where
  "inside padr p \<longleftrightarrow> of_int PADL \<le> fst p \<and> fst p \<le> of_int (W - padr) \<and> of_int PADT \<le> snd p \<and> snd p \<le> of_int (H - PADB)"

lemma inside_round: "inside padr p \<Longrightarrow> inside padr (round_point p)"
proof -
  have up: "of_int a \<le> x \<Longrightarrow> of_int a \<le> py_round 1 x" and down: "x \<le> of_int a \<Longrightarrow> py_round 1 x \<le> of_int a" for a x
    using py_round_mono [of "of_int a" x 1] py_round_mono [of x "of_int a" 1] by simp_all
  show "inside padr p \<Longrightarrow> inside padr (round_point p)"
    unfolding inside_def round_point_def by (intro conjI; simp only: fst_conv snd_conv up down)
qed

lemma inside_wider: "inside padr p \<Longrightarrow> PADR \<le> padr \<Longrightarrow> inside PADR p"
  by (simp add: inside_def)

lemma scale_range:
  assumes "scale vs = Inr (lo, hi)"
  shows "lo < hi \<and> (\<forall>v \<in> set vs. lo \<le> v \<and> v \<le> hi)"
proof (cases "Max (set vs) = Min (set vs)")
  case True
  define pad where "pad = (if \<bar>Max (set vs)\<bar> * (1/10) = 0 then 1/2 else \<bar>Max (set vs)\<bar> * (1/10))"
  have p: "0 < pad" by (simp add: pad_def)
  have lh: "lo = Min (set vs) - pad" "hi = Max (set vs) + pad"
    using assms True by (simp_all add: scale_def pad_def Let_def split: if_splits)
  have "lo \<le> v \<and> v \<le> hi" if "v \<in> set vs" for v
  proof -
    have "Min (set vs) \<le> v" "v \<le> Max (set vs)" using that by simp_all
    with p show ?thesis unfolding lh by linarith
  qed
  with p True show ?thesis by (simp add: lh)
next
  case False
  have ne: "vs \<noteq> []" using assms by (auto simp: scale_def)
  then have m: "Min (set vs) < Max (set vs)" using False Min_le_iff [of "set vs"] Max_ge [of "set vs"]
    by (metis List.finite_set Max_in less_le Min_le set_empty)
  define margin where "margin = (Max (set vs) - Min (set vs)) * (8/100)"
  have p: "0 < margin" using m by (simp add: margin_def)
  have lh: "lo = Min (set vs) - margin" "hi = Max (set vs) + margin"
    using assms False ne by (simp_all add: scale_def margin_def Let_def)
  have "lo \<le> v \<and> v \<le> hi" if "v \<in> set vs" for v
  proof -
    have "Min (set vs) \<le> v" "v \<le> Max (set vs)" using that by simp_all
    with p show ?thesis unfolding lh by linarith
  qed
  with p m show ?thesis by (simp add: lh)
qed

lemma scale_total: "vs \<noteq> [] \<Longrightarrow> \<exists>lo hi. scale vs = Inr (lo, hi)"
  by (simp add: scale_def Let_def)

lemma unit_fraction: "lo < hi \<Longrightarrow> lo \<le> v \<Longrightarrow> v \<le> hi \<Longrightarrow> 0 \<le> (v - lo) / (hi - lo) \<and> (v - lo) / (hi - lo) \<le> (1::real)"
  by (simp add: divide_le_eq_1)

lemma index_fraction: "i < n \<Longrightarrow> n \<noteq> 1 \<Longrightarrow> 0 \<le> real i / real (n - 1) \<and> real i / real (n - 1) \<le> 1"
  by (auto simp: divide_le_eq_1)

lemma xy_inside:
  assumes "i < n" and "lo < hi" and "lo \<le> v" and "v \<le> hi" and "padr \<le> 334"
  shows "inside padr (xy n i v lo hi padr)"
proof -
  obtain u where u: "(v - lo) / (hi - lo) = u" by blast
  have y: "0 \<le> u" "u \<le> 1" using unit_fraction [OF assms(2-4)] by (simp_all add: u)
  obtain t where t: "real i / real (n - 1) = t" by blast
  have "0 \<le> (334 - real_of_int padr) * t \<and> (334 - real_of_int padr) * t \<le> 334 - real_of_int padr" if "n \<noteq> 1"
    using index_fraction [OF assms(1) that] assms(5) mult_left_le [of t "334 - real_of_int padr"] unfolding t by simp
  then show ?thesis
    using y assms(5) unfolding inside_def xy_def u t fst_conv snd_conv by (cases "n = 1") (simp_all add: layout)
qed

text \<open>Later steps are drawn further right, larger values higher.\<close>

lemma xy_order:
  assumes "lo < hi" and "padr \<le> 334"
  shows "i \<le> j \<Longrightarrow> fst (xy n i v lo hi padr) \<le> fst (xy n j w lo hi padr)"
    and "v \<le> w \<Longrightarrow> snd (xy n j w lo hi padr) \<le> snd (xy n i v lo hi padr)"
proof -
  show "i \<le> j \<Longrightarrow> fst (xy n i v lo hi padr) \<le> fst (xy n j w lo hi padr)"
    using assms(2) by (auto simp: xy_def layout intro!: mult_left_mono divide_right_mono)
  show "v \<le> w \<Longrightarrow> snd (xy n j w lo hi padr) \<le> snd (xy n i v lo hi padr)"
    using assms(1) by (simp add: xy_def layout divide_right_mono)
qed

section \<open>Text\<close>

lemma escape_char_clean: "set (escape_char c) \<inter> {CHR ''<'', CHR ''>'', CHR 0x22, CHR 0x27} = {}"
  by simp

lemma escape_clean: "set (escape s) \<inter> {CHR ''<'', CHR ''>'', CHR 0x22, CHR 0x27} = {}"
  using escape_char_clean by (auto simp: escape_def simp del: escape_char.simps)

section \<open>Panels\<close>

fun svg_points :: "svg \<Rightarrow> (real \<times> real) list" where
  "svg_points (BandPolygon ps) = ps"
| "svg_points (Polyline ps k) = ps"
| "svg_points (Dot p k) = [p]"
| "svg_points _ = []"

definition drawn_inside :: "svg list \<Rightarrow> bool" where
  "drawn_inside parts \<longleftrightarrow> (\<forall>e \<in> set parts. \<forall>p \<in> set (svg_points e). inside PADR p)"

lemma drawn_inside_simps [simp]:
  "drawn_inside []" "drawn_inside (e # parts) \<longleftrightarrow> (\<forall>p \<in> set (svg_points e). inside PADR p) \<and> drawn_inside parts"
  "drawn_inside (xs @ ys) \<longleftrightarrow> drawn_inside xs \<and> drawn_inside ys"
  by (auto simp: drawn_inside_def)

lemma drawn_inside_concat: "(\<And>xs. xs \<in> set xss \<Longrightarrow> drawn_inside xs) \<Longrightarrow> drawn_inside (concat xss)"
  by (auto simp: drawn_inside_def)

definition fits :: "nat \<Rightarrow> real \<Rightarrow> real \<Rightarrow> real list \<Rightarrow> bool" where
  "fits n lo hi vs \<longleftrightarrow> length vs \<le> n \<and> (\<forall>v \<in> set vs. lo \<le> v \<and> v \<le> hi)"

lemma point_inside:
  "i < n \<Longrightarrow> lo < hi \<Longrightarrow> lo \<le> v \<Longrightarrow> v \<le> hi \<Longrightarrow> PADR \<le> padr \<Longrightarrow> padr \<le> 334 \<Longrightarrow>
    inside PADR (round_point (xy n i v lo hi padr))"
  by (rule inside_wider [OF inside_round [OF xy_inside]])

lemma points_inside:
  assumes "lo < hi" and "fits n lo hi vs" and "PADR \<le> padr" and "padr \<le> 334"
    and "p \<in> set (map (\<lambda>(i, v). xy n i v lo hi padr) (enumerate 0 vs))"
  shows "inside PADR (round_point p)"
proof -
  obtain i where i: "i < length vs" "p = xy n i (vs ! i) lo hi padr"
    using assms(5) by (auto simp: set_conv_nth nth_enumerate_eq)
  then show ?thesis using assms(1-4) nth_mem [of i vs] by (auto simp: fits_def intro!: point_inside)
qed

lemma series_drawn:
  assumes "lo < hi" and "fits n lo hi (se_values se)" and "PADR \<le> padr" and "padr \<le> 334"
    and "several \<Longrightarrow> se_values se \<noteq> []"
  shows "\<exists>parts. series_svg n lo hi padr several se = Inr parts \<and> drawn_inside parts"
proof -
  let ?pts = "map (\<lambda>(i, v). xy n i v lo hi padr) (enumerate 0 (se_values se))"
  have ins: "inside PADR (round_point p)" if "p \<in> set ?pts" for p by (rule points_inside [OF assms(1-4) that])
  then have line: "\<forall>p \<in> set (map round_point ?pts). inside PADR p" by auto
  have dot: "drawn_inside (if length ?pts = 1 then [Dot (round_point (hd ?pts)) (se_slot se)] else [])"
    using ins [of "hd ?pts"] by (cases ?pts) auto
  show ?thesis
  proof (cases several)
    case False
    then show ?thesis using line dot by (simp add: series_svg_def Let_def)
  next
    case True
    then have "?pts \<noteq> []" using assms(5) by (cases "se_values se") simp_all
    moreover obtain ex ey where "last ?pts = (ex, ey)" by fastforce
    ultimately show ?thesis using True line dot unfolding series_svg_def Let_def by simp
  qed
qed

lemma band_drawn:
  assumes "lo < hi" and "fits n lo hi b0" and "fits n lo hi b1" and "n \<le> length b0" and "n \<le> length b1"
    and "PADR \<le> padr" and "padr \<le> 334"
  shows "drawn_inside [band_svg n lo hi padr (b0, b1)]"
proof -
  have "lo \<le> b0 ! i \<and> b0 ! i \<le> hi" "lo \<le> b1 ! i \<and> b1 ! i \<le> hi" if "i < n" for i
    using that assms(2-5) nth_mem [of i b0] nth_mem [of i b1] by (auto simp: fits_def)
  then show ?thesis using assms(1,6,7) by (auto simp: band_svg_def intro!: point_inside)
qed

text \<open>What a panel needs: steps, some value, no more values than steps, and no empty series beside
  another one.\<close>

definition drawable :: "int list \<Rightarrow> series list \<Rightarrow> bool" where
  "drawable steps ss \<longleftrightarrow> steps \<noteq> [] \<and> (\<exists>se \<in> set ss. se_values se \<noteq> []) \<and>
     (\<forall>se \<in> set ss. length (se_values se) \<le> length steps \<and> (1 < length ss \<longrightarrow> se_values se \<noteq> []))"

lemma panel_drawn:
  assumes "drawable steps ss" and "PADR \<le> padr" and "padr \<le> 334"
    and "\<And>b0 b1. band = Some (b0, b1) \<Longrightarrow> length b0 = length steps \<and> length b1 = length steps"
  shows "\<exists>parts. panel_svg steps ss padr band = Inr parts \<and> drawn_inside parts"
proof -
  let ?n = "length steps"
  let ?vs = "concat (map se_values ss) @ (case band of None \<Rightarrow> [] | Some (b0, b1) \<Rightarrow> b0 @ b1)"
  have "?vs \<noteq> []" using assms(1) by (auto simp: drawable_def)
  then obtain lo hi where sc: "scale ?vs = Inr (lo, hi)" using scale_total by blast
  note rng = scale_range [OF sc]
  have fit: "fits ?n lo hi (se_values se)" if "se \<in> set ss" for se
    using that rng assms(1) by (auto simp: fits_def drawable_def)
  have "\<exists>parts. series_svg ?n lo hi padr (1 < length ss) se = Inr parts \<and> drawn_inside parts" if "se \<in> set ss" for se
    by (rule series_drawn) (use rng fit that assms(1-3) in \<open>auto simp: drawable_def\<close>)
  then obtain f where f: "\<And>se. se \<in> set ss \<Longrightarrow> series_svg ?n lo hi padr (1 < length ss) se = Inr (f se) \<and> drawn_inside (f se)"
    by metis
  have m: "mapE (series_svg ?n lo hi padr (1 < length ss)) ss = Inr (map f ss)" by (rule mapE_Inr) (use f in blast)
  have grd: "drawn_inside (grid lo hi padr)" by (simp add: grid_def Let_def)
  have bnd: "drawn_inside (case band of None \<Rightarrow> [] | Some b \<Rightarrow> [band_svg ?n lo hi padr b])"
  proof (cases band)
    case (Some b)
    obtain b0 b1 where b: "b = (b0, b1)" by fastforce
    have "fits ?n lo hi b0" "fits ?n lo hi b1" using rng assms(4) Some by (auto simp: fits_def b)
    then show ?thesis using band_drawn [of lo hi ?n b0 b1 padr] rng assms(2-4) Some by (simp add: b)
  qed simp
  have ok: "\<not> (case band of None \<Rightarrow> False | Some (b0, b1) \<Rightarrow> length b0 < ?n \<or> length b1 < ?n)"
    using assms(4) by (auto split: option.splits)
  have "steps \<noteq> []" using assms(1) by (simp add: drawable_def)
  then show ?thesis
    using sc ok m grd bnd f unfolding panel_svg_def by (auto intro!: drawn_inside_concat)
qed

text \<open>Without any value there is nothing to scale, and an empty series beside another has no last point.\<close>

lemma panel_no_values: "\<forall>se \<in> set ss. se_values se = [] \<Longrightarrow> panel_svg steps ss padr None = Inl DsValueError"
  by (simp add: panel_svg_def scale_def)

lemma panel_empty_series:
  assumes "se \<in> set ss" and "se_values se = []" and "1 < length ss"
  shows "\<exists>e. panel_svg steps ss padr None = Inl e"
proof -
  have "series_svg n lo hi padr True se = Inl DsIndexError" for n lo hi
    using assms(2) by (simp add: series_svg_def Let_def)
  then have bad: "mapE (series_svg n lo hi padr True) ss \<noteq> Inr pss" for n lo hi pss
    using assms(1) by (auto dest!: mapE_InrD simp: list_all2_conv_all_nth in_set_conv_nth) (metis sum.distinct(1))
  show ?thesis
    using assms(3) bad by (auto simp: panel_svg_def split: sum.splits)
qed

section \<open>The pages\<close>

lemma length_col [simp]: "length (col metrics key) = length metrics"
  by (simp add: col_def)

lemma col_empty [simp]: "col metrics key = [] \<longleftrightarrow> metrics = []"
  by (simp add: col_def)

lemma length_page_steps [simp]: "length (page_steps metrics) = length metrics"
  by (simp add: page_steps_def)

lemma page_steps_empty [simp]: "page_steps metrics = [] \<longleftrightarrow> metrics = []"
  by (metis length_page_steps length_0_conv)

definition good_card :: "card \<Rightarrow> bool" where
  "good_card c \<longleftrightarrow> drawn_inside (cr_svg c) \<and> set (cr_title c) \<inter> {CHR ''<'', CHR ''>'', CHR 0x22, CHR 0x27} = {} \<and>
     (\<forall>(lbl, k) \<in> set (cr_legend c). set lbl \<inter> {CHR ''<'', CHR ''>'', CHR 0x22, CHR 0x27} = {})"

lemma card_drawn:
  assumes "drawable steps ss" and "PADR \<le> padr" and "padr \<le> 334"
    and "\<And>b0 b1. band = Some (b0, b1) \<Longrightarrow> length b0 = length steps \<and> length b1 = length steps"
    and "\<forall>(lbl, k) \<in> set legend. \<exists>s. lbl = escape s"
  shows "\<exists>c. make_card ttl legend pid (panel_svg steps ss padr band) = Inr c \<and> good_card c"
  using panel_drawn [OF assms(1-4)] assms(5) escape_clean
  by (fastforce simp: make_card_def good_card_def split: sum.splits)

lemma mapE_all: "(\<And>x. x \<in> set xs \<Longrightarrow> \<exists>y. f x = Inr y \<and> P y) \<Longrightarrow> \<exists>ys. mapE f xs = Inr ys \<and> length ys = length xs \<and> list_all P ys"
proof (induction xs)
  case (Cons x xs)
  obtain y where "f x = Inr y" "P y" using Cons.prems [of x] by auto
  moreover obtain ys where "mapE f xs = Inr ys" "length ys = length xs" "list_all P ys" using Cons by fastforce
  ultimately show ?case by simp
qed simp

lemma pads: "PADR \<le> PADR" "PADR \<le> 334" "PADR \<le> PADR_COMP" "PADR_COMP \<le> 334"
  by (simp_all add: layout)

lemma single_drawable:
  "metrics \<noteq> [] \<Longrightarrow> drawable (page_steps metrics) [\<lparr>se_label = l, se_slot = k, se_values = col metrics key\<rparr>]"
  by (simp add: drawable_def)

lemma component_drawable:
  assumes "metrics \<noteq> []"
  shows "drawable (page_steps metrics) (component_series metrics)"
proof -
  have "\<forall>se \<in> set (component_series metrics). length (se_values se) = length metrics"
    by (simp add: component_series_def split_beta)
  moreover have "component_series metrics \<noteq> []" by (simp add: component_series_def CATEGORICAL_def)
  ultimately show ?thesis using assms unfolding drawable_def
    by (metis length_0_conv length_page_steps list.set_intros(1) neq_Nil_conv order_refl)
qed

lemma single_card:
  "metrics \<noteq> [] \<Longrightarrow> \<exists>c. make_card ttl [] pid (panel_svg (page_steps metrics)
      [\<lparr>se_label = l, se_slot = k, se_values = col metrics key\<rparr>] PADR None) = Inr c \<and> good_card c"
  by (rule card_drawn [OF single_drawable pads(1,2)]) simp_all

lemma reward_card:
  "metrics \<noteq> [] \<Longrightarrow> \<exists>c. make_card ttl [] pid (panel_svg (page_steps metrics)
      [\<lparr>se_label = l, se_slot = k, se_values = col metrics key\<rparr>] PADR (Some (std_band metrics))) = Inr c \<and> good_card c"
  by (rule card_drawn [OF single_drawable pads(1,2)]) (auto simp: std_band_def Let_def)

lemma component_card:
  assumes "metrics \<noteq> []"
  shows "\<exists>c. make_card ttl (map (\<lambda>(i, lbl). (escape lbl, i)) (enumerate 0 xs)) pid
      (panel_svg (page_steps metrics) (component_series metrics) PADR_COMP None) = Inr c \<and> good_card c"
  by (rule card_drawn [OF component_drawable [OF assms] pads(3,4)]) auto

lemma dashboard_drawn:
  assumes "metrics \<noteq> []"
  shows "\<exists>cards. dashboard_cards metrics = Inr cards \<and> length cards = 8 \<and> list_all good_card cards"
proof -
  have "\<exists>c. id x = Inr c \<and> good_card c" if "x \<in> set (dashboard_panels metrics)" for x
    using that reward_card [OF assms] component_card [OF assms] single_card [OF assms]
    by (auto simp only: dashboard_panels_def Let_def set_append list.set set_map id_apply)
  moreover have "length (dashboard_panels metrics) = 8" by (simp add: dashboard_panels_def SINGLE_def Let_def)
  ultimately show ?thesis
    unfolding dashboard_cards_def using mapE_all [of "dashboard_panels metrics" id good_card] by simp
qed

lemma dashboard_empty: "dashboard_cards [] = Inl DsValueError"
  by (simp add: dashboard_cards_def dashboard_panels_def Let_def panel_svg_def scale_def make_card_def std_band_def col_def)

section \<open>The overlay\<close>

lemma length_overlay_series: "length (overlay_series results key) = length results"
  by (simp add: overlay_series_def run_labels_def)

lemma overlay_series_values:
  "se \<in> set (overlay_series results key) \<Longrightarrow> \<exists>r \<in> set results. length (se_values se) = length (rr_metrics r)"
  by (auto simp: overlay_series_def dest!: in_set_enumerate_eq [THEN iffD1] set_zip_rightD nth_mem)

lemma overlay_series_of:
  assumes "r \<in> set results"
  shows "\<exists>se \<in> set (overlay_series results key). se_values se = col (rr_metrics r) key"
proof -
  obtain i where i: "i < length results" "r = results ! i" using assms by (auto simp: in_set_conv_nth)
  then have "overlay_series results key ! i \<in> set (overlay_series results key)"
    by (intro nth_mem) (simp add: length_overlay_series)
  moreover have "se_values (overlay_series results key ! i) = col (rr_metrics r) key"
    using i by (simp add: overlay_series_def nth_enumerate_eq run_labels_def)
  ultimately show ?thesis by blast
qed

lemma overlay_drawable:
  assumes "results \<noteq> []" and "\<forall>r \<in> set results. rr_metrics r \<noteq> []"
  shows "drawable (map int [0..<overlay_length results]) (overlay_series results key)"
proof -
  have len: "length (rr_metrics r) \<le> overlay_length results" if "r \<in> set results" for r
    using that by (auto simp: overlay_length_def)
  obtain r where r: "r \<in> set results" "rr_metrics r \<noteq> []" using assms by (cases results) auto
  have "0 < overlay_length results" using len [OF r(1)] r(2) by (cases "rr_metrics r") auto
  moreover obtain se0 where se0: "se0 \<in> set (overlay_series results key)" "se_values se0 = col (rr_metrics r) key"
    using overlay_series_of [OF r(1)] by blast
  moreover have "se_values se0 \<noteq> []" unfolding se0(2) col_empty by (rule r(2))
  moreover have "length (se_values se) \<le> overlay_length results \<and> se_values se \<noteq> []"
    if "se \<in> set (overlay_series results key)" for se
    using overlay_series_values [OF that] len assms(2) by fastforce
  ultimately show ?thesis unfolding drawable_def by auto
qed

lemma overlay_drawn:
  assumes "results \<noteq> []" and "\<forall>r \<in> set results. rr_metrics r \<noteq> []"
  shows "\<exists>cards. overlay_cards results = Inr cards \<and> length cards = 4 \<and> list_all good_card cards"
proof -
  let ?f = "\<lambda>(key, ttl). make_card ttl (map (\<lambda>(i, lbl). (escape lbl, i mod 5)) (enumerate 0 (run_labels results))) key
      (panel_svg (map int [0..<overlay_length results]) (overlay_series results key) PADR_COMP None)"
  have "\<exists>c. ?f x = Inr c \<and> good_card c" for x
  proof (cases x)
    case (Pair key ttl)
    show ?thesis unfolding Pair split
      by (rule card_drawn [OF overlay_drawable [OF assms] pads(3,4)]) auto
  qed
  from mapE_all [of OVERLAY_METRICS ?f good_card, OF this]
  obtain cards where "mapE ?f OVERLAY_METRICS = Inr cards" "length cards = length OVERLAY_METRICS" "list_all good_card cards"
    by blast
  then show ?thesis unfolding overlay_cards_def Let_def by (intro exI [of _ cards]) (simp add: OVERLAY_METRICS_def)
qed

text \<open>One run without logged steps beside others makes the whole overlay fail.\<close>

lemma overlay_fails:
  assumes "r \<in> set results" and "rr_metrics r = []" and "2 \<le> length results"
  shows "\<exists>e. overlay_cards results = Inl e"
proof -
  obtain se where se: "se \<in> set (overlay_series results ''reward_mean'')" "se_values se = []"
    using overlay_series_of [OF assms(1), of "''reward_mean''"] assms(2) by (auto simp: col_def)
  obtain e where "panel_svg (map int [0..<overlay_length results]) (overlay_series results ''reward_mean'') PADR_COMP None = Inl e"
    using panel_empty_series [OF se] assms(3) by (auto simp: length_overlay_series)
  then show ?thesis by (simp add: overlay_cards_def OVERLAY_METRICS_def make_card_def Let_def)
qed

section \<open>The property\<close>

lemma series_polyline:
  "series_svg n lo hi padr several se = Inr parts \<Longrightarrow>
    Polyline (map round_point (map (\<lambda>(i, v). xy n i v lo hi padr) (enumerate 0 (se_values se)))) (se_slot se) \<in> set parts"
  by (auto simp: series_svg_def Let_def split_beta split: if_splits)

lemma polyline_in_panel:
  assumes "panel_svg steps ss padr band = Inr parts" and "se \<in> set ss" and "padr \<le> 334"
  shows "\<exists>pts. Polyline pts (se_slot se) \<in> set parts \<and> length pts = length (se_values se) \<and>
    (\<forall>i < length pts. \<forall>j < length pts.
       (i \<le> j \<longrightarrow> fst (pts ! i) \<le> fst (pts ! j)) \<and> (se_values se ! i \<le> se_values se ! j \<longrightarrow> snd (pts ! j) \<le> snd (pts ! i)))"
proof -
  let ?n = "length steps"
  let ?vs = "concat (map se_values ss) @ (case band of None \<Rightarrow> [] | Some (b0, b1) \<Rightarrow> b0 @ b1)"
  obtain lo hi where sc: "scale ?vs = Inr (lo, hi)"
    using assms(1) by (cases "scale ?vs") (auto simp: panel_svg_def)
  obtain pss where m: "mapE (series_svg ?n lo hi padr (1 < length ss)) ss = Inr pss"
    using assms(1) sc
    by (cases "mapE (series_svg ?n lo hi padr (1 < length ss)) ss") (auto simp: panel_svg_def split: if_splits)
  have parts: "set (concat pss) \<subseteq> set parts"
    using assms(1) sc m by (auto simp: panel_svg_def split: if_splits)
  obtain k where k: "k < length ss" "se = ss ! k" using assms(2) by (auto simp: in_set_conv_nth)
  let ?pts = "map round_point (map (\<lambda>(i, v). xy ?n i v lo hi padr) (enumerate 0 (se_values se)))"
  have "series_svg ?n lo hi padr (1 < length ss) se = Inr (pss ! k)" and "k < length pss"
    using mapE_InrD [OF m] k by (auto simp: list_all2_conv_all_nth)
  then have "Polyline ?pts (se_slot se) \<in> set (pss ! k)"
    by (intro series_polyline)
  then have "Polyline ?pts (se_slot se) \<in> set parts" using parts \<open>k < length pss\<close> nth_mem by fastforce
  moreover have "(i \<le> j \<longrightarrow> fst (?pts ! i) \<le> fst (?pts ! j)) \<and>
      (se_values se ! i \<le> se_values se ! j \<longrightarrow> snd (?pts ! j) \<le> snd (?pts ! i))"
    if "i < length ?pts" "j < length ?pts" for i j
    using that xy_order [of lo hi padr] scale_range [OF sc] assms(3)
    by (auto simp: nth_enumerate_eq round_point_def intro!: py_round_mono)
  ultimately show ?thesis by (intro exI [of _ ?pts]) simp
qed



end
