(* ===== verification/Grpo_Trainer.thy ===== *)
theory Grpo_Trainer
  imports Engine_Props
begin

text \<open>
  \<^verbatim>\<open>src/shoprl/grpo/trainer.py\<close> and \<^verbatim>\<open>src/shoprl/train.py\<close>: the first GRPO trainer, with its own loop
  and periodic checkpoints.  The model has two switches, training mode and gradient checkpointing; what
  it generates and computes depends on them.  The model itself is a parameter; a forward pass that is not
  finite is \<open>None\<close>, as in \<open>Training\<close>.  Everything is proved equal to the trainer of
  \<^verbatim>\<open>src/shoprl/rl/base.py\<close> as long as the losses are finite.
\<close>

section \<open>The model and its switches\<close>

record model_mode =
  md_training :: bool
  md_checkpointing :: bool

record 'w net =
  nt_generate :: "model_mode \<Rightarrow> string list \<Rightarrow> int \<Rightarrow> int \<Rightarrow> 'w \<Rightarrow> 'w \<times> rollout_group list"
  nt_logits :: "model_mode \<Rightarrow> bool \<Rightarrow> nat list list \<Rightarrow> nat list list \<Rightarrow> 'w \<Rightarrow> real list list list option"
  nt_update :: "pyfloat \<Rightarrow> 'w \<Rightarrow> 'w \<times> pyfloat"
  nt_pad :: nat

text \<open>\<open>lg_saved\<close> are the checkpoint directories written, with the step in their
  \<open>train_state.json\<close>.\<close>

record 'w legacy =
  lg_world :: 'w
  lg_mode :: model_mode
  lg_log :: "train_row list"
  lg_saved :: "(string \<times> int) list"

datatype legacy_error = LgTrain train_error | LgZeroDivision | LgNotImplemented string

definition gradient_checkpointing_disable :: "'w legacy \<Rightarrow> 'w legacy" where
  "gradient_checkpointing_disable st = st\<lparr>lg_mode := (lg_mode st)\<lparr>md_checkpointing := False\<rparr>\<rparr>"

definition gradient_checkpointing_enable :: "'w legacy \<Rightarrow> 'w legacy" where
  "gradient_checkpointing_enable st = st\<lparr>lg_mode := (lg_mode st)\<lparr>md_checkpointing := True\<rparr>\<rparr>"

definition set_eval :: "'w legacy \<Rightarrow> 'w legacy" where
  "set_eval st = st\<lparr>lg_mode := (lg_mode st)\<lparr>md_training := False\<rparr>\<rparr>"

definition set_train :: "'w legacy \<Rightarrow> 'w legacy" where
  "set_train st = st\<lparr>lg_mode := (lg_mode st)\<lparr>md_training := True\<rparr>\<rparr>"

section \<open>One step\<close>

definition policy_logps ::
  "'w net \<Rightarrow> nat list list \<Rightarrow> nat list list \<Rightarrow> real list list \<Rightarrow> 'w legacy
    \<Rightarrow> (real list list \<times> real list list \<times> real) option" where
  "policy_logps nt ids attn mask_shift st =
     (case nt_logits nt (lg_mode st) False ids attn (lg_world st) of
        None \<Rightarrow> None
      | Some ref \<Rightarrow>
          (case nt_logits nt (lg_mode (set_train st)) True ids attn (lg_world st) of
             None \<Rightarrow> None
           | Some logits \<Rightarrow>
               Some (map2 token_logprobs logits ids, map2 token_logprobs ref ids, mean_entropy logits mask_shift)))"

text \<open>Backward pass, clipping and optimizer step; nothing looks at the loss first.\<close>

definition optimizer_step :: "'w net \<Rightarrow> pyfloat \<Rightarrow> 'w legacy \<Rightarrow> 'w legacy \<times> pyfloat" where
  "optimizer_step nt loss st =
     (let (w, gn) = nt_update nt loss (lg_world st) in (st\<lparr>lg_world := w\<rparr>, gn))"

definition learn ::
  "'w net \<Rightarrow> config \<Rightarrow> completion list \<Rightarrow> real list list \<Rightarrow> ('w legacy, legacy_error, opt_out) action" where
  "learn nt cfg completions rpg st0 =
     (let advantages = concat (batch_group_advantages rpg (1 / 10 ^ 4) True);
          st = set_train (gradient_checkpointing_enable st0) in
      case build_batch completions (nt_pad nt) of
        None \<Rightarrow> (st, Inl (LgTrain TrEmptyBatch))
      | Some (ids, attn, cmask) \<Rightarrow>
          (let mask_shift = map tl cmask in
           case policy_logps nt ids attn mask_shift st of
             None \<Rightarrow>
               (let (st', gn) = optimizer_step nt NaN (set_train st) in (st', Inr (nan_out (concat rpg) gn None)))
           | Some (pol, ref, ent) \<Rightarrow>
               (let s = grpo_loss pol pol ref advantages mask_shift (tc_clip_eps (cf_training cfg))
                          (tc_beta (cf_training cfg));
                    (st', gn) = optimizer_step nt (Fin (gs_loss s)) (set_train st)
                in (st', Inr (finite_out (concat rpg) s ent gn None)))))"

definition train_step ::
  "'w net \<Rightarrow> config \<Rightarrow> train_data \<Rightarrow> nat \<Rightarrow> ('w legacy, legacy_error, train_row) action" where
  "train_step nt cfg dt step st =
     (let exs = picks cfg dt step in
      case task_prompts dt exs of
        Inl e \<Rightarrow> (st, Inl (LgTrain e))
      | Inr prompts \<Rightarrow>
          (let st1 = set_eval (gradient_checkpointing_disable st);
               (w, groups) = nt_generate nt (lg_mode st1) prompts (ro_num_samples (cf_rollout cfg))
                 (xc_seed (cf_experiment cfg) + int step + 1) (lg_world st1);
               st2 = st1\<lparr>lg_world := w\<rparr>
           in case calculate_rewards cfg groups (map (context_of dt) exs) of
                Inl e \<Rightarrow> (st2, Inl (LgTrain e))
              | Inr (completions, rpg, bs) \<Rightarrow>
                  bindA (learn nt cfg completions rpg) (\<lambda>out'. ret (row_of_step step out' bs)) st2))"

section \<open>The loop\<close>

definition save_checkpoint :: "config \<Rightarrow> int \<Rightarrow> ('w legacy, legacy_error, string) action" where
  "save_checkpoint cfg step st =
     (let path = path_join (tc_ckpt_dir (cf_training cfg)) (''step-'' @ show_int step)
      in (st\<lparr>lg_saved := lg_saved st @ [(path, step)]\<rparr>, Inr path))"

definition log_metrics :: "train_row \<Rightarrow> ('w legacy, legacy_error, unit) action" where
  "log_metrics m st = (st\<lparr>lg_log := lg_log st @ [m]\<rparr>, Inr ())"

text \<open>Python's \<open>%\<close> raises on a zero divisor before the second test is looked at.\<close>

definition periodic_save :: "config \<Rightarrow> nat \<Rightarrow> ('w legacy, legacy_error, unit) action" where
  "periodic_save cfg step =
     (let every = tc_save_every (cf_training cfg) in
      if every = 0 then raiseA LgZeroDivision
      else if (int step + 1) mod every = 0 \<and> int step + 1 < tc_steps (cf_training cfg)
      then bindA (save_checkpoint cfg (int step + 1)) (\<lambda>_. ret ())
      else ret ())"

definition training_turn :: "'w net \<Rightarrow> config \<Rightarrow> train_data \<Rightarrow> nat \<Rightarrow> ('w legacy, legacy_error, unit) action" where
  "training_turn nt cfg dt step =
     bindA (train_step nt cfg dt step) (\<lambda>m. bindA (log_metrics m) (\<lambda>_. periodic_save cfg step))"

definition run_training :: "'w net \<Rightarrow> config \<Rightarrow> train_data \<Rightarrow> ('w legacy, legacy_error, string) action" where
  "run_training nt cfg dt st =
     bindA (mapA (training_turn nt cfg dt) [0..<nat (tc_steps (cf_training cfg))])
       (\<lambda>_. save_checkpoint cfg (tc_steps (cf_training cfg))) (st\<lparr>lg_log := []\<rparr>)"

text \<open>The entry point of \<open>train.py\<close>.\<close>

definition train_main :: "'w net \<Rightarrow> config \<Rightarrow> train_data \<Rightarrow> ('w legacy, legacy_error, string) action" where
  "train_main nt cfg dt =
     (if algorithm_value (cf_algorithm cfg) = ''grpo'' then run_training nt cfg dt
      else raiseA (LgNotImplemented (''algorithm '' @ py_repr (algorithm_value (cf_algorithm cfg))
        @ '' not implemented yet (GRPO only).'')))"

section \<open>The schedule of the checkpoints\<close>

definition periodic_steps :: "int \<Rightarrow> int \<Rightarrow> nat \<Rightarrow> nat \<Rightarrow> int list" where
  "periodic_steps every steps a b = filter (\<lambda>k. k mod every = 0 \<and> k < steps) (map (\<lambda>i. int i + 1) [a..<b])"

definition checkpoint_entry :: "config \<Rightarrow> int \<Rightarrow> string \<times> int" where
  "checkpoint_entry cfg k = (path_join (tc_ckpt_dir (cf_training cfg)) (''step-'' @ show_int k), k)"

lemma save_checkpoint_eq:
  "save_checkpoint cfg k st = (st\<lparr>lg_saved := lg_saved st @ [checkpoint_entry cfg k]\<rparr>, Inr (fst (checkpoint_entry cfg k)))"
  by (simp add: save_checkpoint_def checkpoint_entry_def Let_def)

lemma periodic_save_eq:
  "tc_save_every (cf_training cfg) \<noteq> 0 \<Longrightarrow> periodic_save cfg step st =
    (st\<lparr>lg_saved := lg_saved st @ map (checkpoint_entry cfg)
      (periodic_steps (tc_save_every (cf_training cfg)) (tc_steps (cf_training cfg)) step (Suc step))\<rparr>, Inr ())"
  by (simp add: periodic_save_def periodic_steps_def save_checkpoint_eq bindA_def ret_def Let_def)

end
