(* ===== verification/Trainer_Props.thy ===== *)
theory Trainer_Props
  imports Grpo_Trainer
begin

text \<open>
  The first GRPO trainer against the trainer of \<^verbatim>\<open>src/shoprl/rl/base.py\<close>: the same log, networks and
  errors, turn by turn, as long as every loss is finite.
\<close>

section \<open>The learner a model is\<close>

definition rollout_mode :: model_mode where
  "rollout_mode = \<lparr>md_training = False, md_checkpointing = False\<rparr>"

definition learn_mode :: model_mode where
  "learn_mode = \<lparr>md_training = True, md_checkpointing = True\<rparr>"

text \<open>What the newer trainer sees of the model: it samples in evaluation mode without checkpointing
  and computes in training mode with it.\<close>

definition learner_of :: "'w net \<Rightarrow> 'w learner" where
  "learner_of nt =
     \<lparr>ln_generate = nt_generate nt rollout_mode, ln_logits = nt_logits nt learn_mode,
      ln_values = (\<lambda>_ _ _. []), ln_update = (\<lambda>l. nt_update nt (Fin l)), ln_pad = nt_pad nt\<rparr>"

definition sim :: "'w legacy \<Rightarrow> 'w trainer \<Rightarrow> bool" where
  "sim ls ts \<longleftrightarrow> lg_world ls = tn_world ts \<and> lg_log ls = tn_log ts"

definition as_legacy :: "train_error + 'a \<Rightarrow> legacy_error + 'a" where
  "as_legacy r = (case r of Inl e \<Rightarrow> Inl (LgTrain e) | Inr x \<Rightarrow> Inr x)"

lemma as_legacy_simps [simp]: "as_legacy (Inl e) = Inl (LgTrain e)" "as_legacy (Inr x) = Inr x"
  by (simp_all add: as_legacy_def)

lemma modes [simp]:
  "lg_mode (set_eval (gradient_checkpointing_disable st)) = rollout_mode"
  "lg_mode (set_train (gradient_checkpointing_enable st)) = learn_mode"
  "lg_mode (set_train (set_train (gradient_checkpointing_enable st))) = learn_mode"
  by (simp_all add: set_eval_def set_train_def gradient_checkpointing_disable_def
      gradient_checkpointing_enable_def rollout_mode_def learn_mode_def)

lemma switches_keep [simp]:
  "lg_world (set_train st) = lg_world st" "lg_log (set_train st) = lg_log st" "lg_saved (set_train st) = lg_saved st"
  "lg_world (set_eval st) = lg_world st" "lg_log (set_eval st) = lg_log st" "lg_saved (set_eval st) = lg_saved st"
  "lg_world (gradient_checkpointing_enable st) = lg_world st"
  "lg_log (gradient_checkpointing_enable st) = lg_log st" "lg_saved (gradient_checkpointing_enable st) = lg_saved st"
  "lg_world (gradient_checkpointing_disable st) = lg_world st"
  "lg_log (gradient_checkpointing_disable st) = lg_log st" "lg_saved (gradient_checkpointing_disable st) = lg_saved st"
  by (simp_all add: set_eval_def set_train_def gradient_checkpointing_disable_def gradient_checkpointing_enable_def)

section \<open>One step\<close>

lemma policy_logps_eq:
  "lg_world st = w \<Longrightarrow> policy_logps nt ids attn msk (set_train (gradient_checkpointing_enable st))
    = forward_logps (learner_of nt) ids attn msk w"
  by (auto simp: policy_logps_def forward_logps_def learner_of_def split: option.splits)

lemma learn_sim:
  assumes "sim ls ts" and "cf_algorithm cfg = Grpo"
    and "optimize (learner_of nt) cfg cs rpg ts = (ts', r)" and "tn_failures ts' = tn_failures ts"
  shows "\<exists>ls'. learn nt cfg cs rpg ls = (ls', as_legacy r) \<and> sim ls' ts' \<and> lg_saved ls' = lg_saved ls"
proof (cases "build_batch cs (nt_pad nt)")
  case None
  then show ?thesis using assms
    by (auto simp: learn_def optimize_def critic_free_step_def learner_of_def sim_def)
next
  case (Some b)
  obtain ids attn cmask where b: "b = (ids, attn, cmask)" by (cases b)
  have w: "lg_world ls = tn_world ts" and l: "lg_log ls = tn_log ts" using assms(1) by (simp_all add: sim_def)
  show ?thesis
  proof (cases "forward_logps (learner_of nt) ids attn (map tl cmask) (tn_world ts)")
    case None
    with assms(2,3,4) Some b show ?thesis
      by (auto simp: optimize_def critic_free_step_def guarded_step_nan learner_of_def)
  next
    case f: (Some per)
    obtain pol ref ent where per: "per = (pol, ref, ent)" by (cases per)
    show ?thesis
      using assms(2,3) Some b f w l per policy_logps_eq [OF w, of nt ids attn "map tl cmask"]
      by (auto simp: optimize_def learn_def critic_free_step_def guarded_step_finite optimizer_step_def sim_def
          learner_of_def split_beta Let_def)
  qed
qed

lemma guarded_step_failures: "tn_failures st \<le> tn_failures (fst (guarded_step nn l st))"
  by (cases l) (simp_all add: guarded_step_def split_beta)

lemma optimize_failures: "optimize nn cfg cs rpg st = (st', r) \<Longrightarrow> tn_failures st \<le> tn_failures st'"
  using guarded_step_failures [of st nn]
  by (auto simp: optimize_def critic_free_step_def ppo_optimize_def Let_def split_beta
      split: algorithm.splits option.splits)

lemma guarded_step_log [simp]: "tn_log (fst (guarded_step nn l st)) = tn_log st"
  by (cases l) (simp_all add: guarded_step_def split_beta)

lemma optimize_log: "optimize nn cfg cs rpg st = (st', r) \<Longrightarrow> tn_log st' = tn_log st"
  by (auto simp: optimize_def critic_free_step_def ppo_optimize_def Let_def split_beta
      split: algorithm.splits option.splits)

lemma train_one_failures: "train_one nn cfg dt step st = (st', r) \<Longrightarrow> tn_failures st \<le> tn_failures st'"
  by (auto simp: train_one_def bindA_def lift_train_def log_row_def ret_def split: prod.splits sum.splits
      dest!: optimize_failures generate_rollouts_keeps)

lemma train_one_sim:
  assumes s: "sim ls ts" and g: "cf_algorithm cfg = Grpo" and e: "tc_save_every (cf_training cfg) \<noteq> 0"
    and t: "train_one (learner_of nt) cfg dt step ts = (ts', r)" and f: "tn_failures ts' = tn_failures ts"
  shows "\<exists>ls' r'. training_turn nt cfg dt step ls = (ls', r') \<and> sim ls' ts' \<and>
    (case r of
       Inl x \<Rightarrow> r' = Inl (LgTrain x) \<and> lg_saved ls' = lg_saved ls \<and> length (tn_log ts') = length (tn_log ts)
     | Inr _ \<Rightarrow> r' = Inr () \<and> length (tn_log ts') = Suc (length (tn_log ts)) \<and>
         lg_saved ls' = lg_saved ls @ map (checkpoint_entry cfg)
           (periodic_steps (tc_save_every (cf_training cfg)) (tc_steps (cf_training cfg)) step (Suc step)))"
proof (cases "task_prompts dt (picks cfg dt step)")
  case (Inl x)
  with t s show ?thesis
    by (auto simp: train_one_def generate_rollouts_def training_turn_def train_step_def bindA_def)
next
  case p: (Inr ps)
  obtain w gs where gen: "nt_generate nt rollout_mode ps (ro_num_samples (cf_rollout cfg))
      (xc_seed (cf_experiment cfg) + int step + 1) (tn_world ts) = (w, gs)" by fastforce
  define ts1 where "ts1 = ts\<lparr>tn_world := w\<rparr>"
  have gr: "generate_rollouts (learner_of nt) cfg dt step ts
      = (ts1, Inr (gs, map (context_of dt) (picks cfg dt step)))"
    using p gen by (simp add: generate_rollouts_def learner_of_def ts1_def Let_def)
  define ls1 where "ls1 = (set_eval (gradient_checkpointing_disable ls))\<lparr>lg_world := w\<rparr>"
  have s1: "sim ls1 ts1" and sv1: "lg_saved ls1 = lg_saved ls" using s by (simp_all add: sim_def ls1_def ts1_def)
  have step: "train_step nt cfg dt step ls =
      (case calculate_rewards cfg gs (map (context_of dt) (picks cfg dt step)) of
         Inl e \<Rightarrow> (ls1, Inl (LgTrain e))
       | Inr (cs, rpg, bs) \<Rightarrow> bindA (learn nt cfg cs rpg) (\<lambda>out'. ret (row_of_step step out' bs)) ls1)"
    unfolding ls1_def using p gen s by (simp add: train_step_def sim_def Let_def)
  show ?thesis
  proof (cases "calculate_rewards cfg gs (map (context_of dt) (picks cfg dt step))")
    case (Inl x)
    with t gr step s1 sv1 show ?thesis
      by (auto simp: train_one_def training_turn_def bindA_def lift_train_def ts1_def)
  next
    case c: (Inr crb)
    obtain cs rpg bs where crb: "crb = (cs, rpg, bs)" by (cases crb) auto
    obtain ts2 r2 where o': "optimize (learner_of nt) cfg cs rpg ts1 = (ts2, r2)" by fastforce
    have t2: "(ts', r) = (case r2 of Inl e \<Rightarrow> (ts2, Inl e)
        | Inr out' \<Rightarrow> (ts2\<lparr>tn_log := tn_log ts2 @ [row_of_step step out' bs]\<rparr>,
            Inr (row_of_step step out' bs, sum_list (map (length \<circ> co_ids) cs))))"
      using t gr c crb o' by (simp add: train_one_def lift_train_def bindA_def log_row_def ret_def split: sum.splits)
    then have "tn_failures ts' = tn_failures ts2" by (cases r2) auto
    then have f2: "tn_failures ts2 = tn_failures ts1" using f by (simp add: ts1_def)
    obtain ls2 where l: "learn nt cfg cs rpg ls1 = (ls2, as_legacy r2)" "sim ls2 ts2" "lg_saved ls2 = lg_saved ls1"
      using learn_sim [OF s1 g o' f2] by blast
    have log2: "tn_log ts2 = tn_log ts" using optimize_log [OF o'] by (simp add: ts1_def)
    show ?thesis
      using t2 l step c crb sv1 log2 e
      by (cases r2) (auto simp: training_turn_def bindA_def ret_def log_metrics_def periodic_save_eq sim_def)
  qed
qed

section \<open>The loop\<close>

lemma periodic_steps_self [simp]: "periodic_steps every steps a a = []"
  by (simp add: periodic_steps_def)

lemma periodic_steps_split:
  "periodic_steps every steps a (Suc a) @ periodic_steps every steps (Suc a) (Suc a + k)
    = periodic_steps every steps a (a + Suc k)"
  by (simp add: periodic_steps_def upt_conv_Cons del: upt_Suc)

lemma mapA_train_failures:
  "mapA (train_one nn cfg dt) xs st = (st', r) \<Longrightarrow> tn_failures st \<le> tn_failures st'"
proof (induction xs arbitrary: st st' r)
  case (Cons x xs)
  obtain st1 r1 where 1: "train_one nn cfg dt x st = (st1, r1)" by fastforce
  obtain st2 r2 where 2: "mapA (train_one nn cfg dt) xs st1 = (st2, r2)" by fastforce
  show ?case using Cons.prems 1 2 train_one_failures [OF 1] Cons.IH [OF 2]
    by (auto simp: bindA_def ret_def split: sum.splits)
qed (simp add: ret_def)

lemma mapA_rows:
  "mapA (train_one nn cfg dt) xs st = (st', Inr rs) \<Longrightarrow> tn_log st' = tn_log st @ map fst rs"
proof (induction xs arbitrary: st rs)
  case (Cons x xs)
  obtain st1 y where 1: "train_one nn cfg dt x st = (st1, Inr y)"
    using Cons.prems by (cases "train_one nn cfg dt x st") (auto simp: bindA_def split: sum.splits)
  obtain ys where 2: "mapA (train_one nn cfg dt) xs st1 = (st', Inr ys)" and rs: "rs = y # ys"
    using Cons.prems 1 by (auto simp: bindA_def ret_def split: prod.splits sum.splits)
  have "tn_log st1 = tn_log st @ [fst y]"
    using 1 by (auto simp: train_one_def bindA_def lift_train_def log_row_def ret_def split: prod.splits sum.splits
        dest!: optimize_log generate_rollouts_keeps)
  with Cons.IH [OF 2] rs show ?case by simp
qed (simp add: ret_def)

lemma turns_sim:
  assumes g: "cf_algorithm cfg = Grpo" and e: "tc_save_every (cf_training cfg) \<noteq> 0"
  shows "mapA (train_one (learner_of nt) cfg dt) [a..<b] ts = (ts', r) \<Longrightarrow> tn_failures ts' = tn_failures ts \<Longrightarrow>
    sim ls ts \<Longrightarrow> \<exists>ls' r' k. mapA (training_turn nt cfg dt) [a..<b] ls = (ls', r') \<and> sim ls' ts' \<and>
      length (tn_log ts') = length (tn_log ts) + k \<and>
      lg_saved ls' = lg_saved ls @ map (checkpoint_entry cfg)
        (periodic_steps (tc_save_every (cf_training cfg)) (tc_steps (cf_training cfg)) a (a + k)) \<and>
      (case r of Inl x \<Rightarrow> r' = Inl (LgTrain x) | Inr _ \<Rightarrow> (\<exists>us. r' = Inr us) \<and> k = b - a)"
proof (induction "b - a" arbitrary: a ts ts' r ls)
  case 0
  then have "[a..<b] = []" by simp
  with 0 show ?case by (intro exI [of _ ls] exI [of _ "Inr []"] exI [of _ 0]) (auto simp: ret_def)
next
  case (Suc n)
  then have ab: "[a..<b] = a # [Suc a..<b]" "a < b" by (simp_all add: upt_conv_Cons)
  have n: "n = b - Suc a" using Suc.hyps(2) by simp
  obtain ts1 r1 where 1: "train_one (learner_of nt) cfg dt a ts = (ts1, r1)" by fastforce
  obtain ts2 r2 where 2: "mapA (train_one (learner_of nt) cfg dt) [Suc a..<b] ts1 = (ts2, r2)" by fastforce
  have t: "(ts', r) = (case r1 of Inl x \<Rightarrow> (ts1, Inl x)
      | Inr y \<Rightarrow> (ts2, case r2 of Inl x \<Rightarrow> Inl x | Inr ys \<Rightarrow> Inr (y # ys)))"
    using Suc.prems(1) 1 2 ab(1) by (cases r1; cases r2) (auto simp: bindA_def ret_def)
  show ?case
  proof (cases r1)
    case (Inl x)
    with t have r: "ts' = ts1" "r = Inl x" by simp_all
    then obtain ls' where ls': "training_turn nt cfg dt a ls = (ls', Inl (LgTrain x))" "sim ls' ts1"
        "lg_saved ls' = lg_saved ls" "length (tn_log ts1) = length (tn_log ts)"
      using train_one_sim [OF Suc.prems(3) g e 1] Suc.prems(2) Inl by auto
    then show ?thesis
      unfolding r ab(1) by (intro exI [of _ ls'] exI [of _ "Inl (LgTrain x)"] exI [of _ 0]) (simp add: bindA_def)
  next
    case (Inr y)
    with t have r: "ts' = ts2" "r = (case r2 of Inl x \<Rightarrow> Inl x | Inr ys \<Rightarrow> Inr (y # ys))" by simp_all
    have f: "tn_failures ts1 = tn_failures ts" "tn_failures ts2 = tn_failures ts1"
      using train_one_failures [OF 1] mapA_train_failures [OF 2] Suc.prems(2) r(1) by simp_all
    obtain ls1 where ls1: "training_turn nt cfg dt a ls = (ls1, Inr ())" "sim ls1 ts1"
        "length (tn_log ts1) = Suc (length (tn_log ts))"
        "lg_saved ls1 = lg_saved ls @ map (checkpoint_entry cfg)
          (periodic_steps (tc_save_every (cf_training cfg)) (tc_steps (cf_training cfg)) a (Suc a))"
      using train_one_sim [OF Suc.prems(3) g e 1 f(1)] Inr by auto
    obtain ls2 r' k where ls2: "mapA (training_turn nt cfg dt) [Suc a..<b] ls1 = (ls2, r')" "sim ls2 ts2"
        "length (tn_log ts2) = length (tn_log ts1) + k"
        "lg_saved ls2 = lg_saved ls1 @ map (checkpoint_entry cfg)
          (periodic_steps (tc_save_every (cf_training cfg)) (tc_steps (cf_training cfg)) (Suc a) (Suc a + k))"
        "case r2 of Inl x \<Rightarrow> r' = Inl (LgTrain x) | Inr _ \<Rightarrow> (\<exists>us. r' = Inr us) \<and> k = b - Suc a"
      using Suc.hyps(1) [OF n 2 f(2) ls1(2)] by blast
    have saved: "lg_saved ls2 = lg_saved ls @ map (checkpoint_entry cfg)
        (periodic_steps (tc_save_every (cf_training cfg)) (tc_steps (cf_training cfg)) a (a + Suc k))"
      unfolding periodic_steps_split [symmetric] by (simp add: ls1(4) ls2(4))
    have run: "mapA (training_turn nt cfg dt) [a..<b] ls
        = (ls2, case r' of Inl x \<Rightarrow> Inl x | Inr us \<Rightarrow> Inr (() # us))"
      using ls1(1) ls2(1) ab(1) by (simp add: bindA_def ret_def split: sum.splits)
    show ?thesis
      using ls1(3) ls2(2,3,5) saved run r ab(2)
      by (intro exI [of _ ls2] exI [of _ "case r' of Inl x \<Rightarrow> Inl x | Inr us \<Rightarrow> Inr (() # us)"] exI [of _ "Suc k"])
        (auto split: sum.splits)
  qed
qed

section \<open>The property\<close>

text \<open>C35. The two trainers agree: started with the same networks, in whatever mode the model is, the
  first GRPO trainer logs the same rows as \<open>RLTrainer.train\<close> with the GRPO estimator over the model
  sampled in evaluation mode, and ends with the same networks and the same exception, provided no loss
  was skipped as non-finite and \<open>save_every\<close> is not zero.  Its checkpoints are one for every finished
  step whose number is a multiple of \<open>save_every\<close>, the last step excepted, and the final one, whose
  path it returns.\<close>

theorem trainers_agree:
  assumes "cf_algorithm cfg = Grpo" and "tc_save_every (cf_training cfg) \<noteq> 0" and "lg_world ls = tn_world ts"
    and "train (learner_of nt) cfg dt ts = (ts', r)" and "tn_failures ts' = tn_failures ts"
  shows "\<exists>ls' r'. train_main nt cfg dt ls = (ls', r') \<and>
    lg_log ls' = tn_log ts' \<and> lg_world ls' = tn_world ts' \<and>
    (case r of
       Inl e \<Rightarrow> r' = Inl (LgTrain e) \<and> lg_saved ls' = lg_saved ls @ map (checkpoint_entry cfg)
         (periodic_steps (tc_save_every (cf_training cfg)) (tc_steps (cf_training cfg)) 0 (length (lg_log ls')))
     | Inr (rows, n) \<Rightarrow> r' = Inr (fst (checkpoint_entry cfg (tc_steps (cf_training cfg)))) \<and> lg_log ls' = rows \<and>
         lg_saved ls' = lg_saved ls @ map (checkpoint_entry cfg)
           (periodic_steps (tc_save_every (cf_training cfg)) (tc_steps (cf_training cfg)) 0
              (nat (tc_steps (cf_training cfg))) @ [tc_steps (cf_training cfg)]))"
proof -
  let ?n = "nat (tc_steps (cf_training cfg))"
  obtain r1 where m: "mapA (train_one (learner_of nt) cfg dt) [0..<?n] (ts\<lparr>tn_log := []\<rparr>) = (ts', r1)"
    and r: "r = (case r1 of Inl e \<Rightarrow> Inl e | Inr rs \<Rightarrow> Inr (map fst rs, sum_list (map snd rs)))"
    using assms(4)
    by (cases "mapA (train_one (learner_of nt) cfg dt) [0..<?n] (ts\<lparr>tn_log := []\<rparr>)")
      (auto simp: train_def bindA_def ret_def split: sum.splits)
  have rows: "map fst rs = tn_log ts'" if "r1 = Inr rs" for rs
    using mapA_rows [OF m [unfolded that]] by simp
  have s: "sim (ls\<lparr>lg_log := []\<rparr>) (ts\<lparr>tn_log := []\<rparr>)" using assms(3) by (simp add: sim_def)
  have f: "tn_failures ts' = tn_failures (ts\<lparr>tn_log := []\<rparr>)" using assms(5) by simp
  obtain ls1 q k where "mapA (training_turn nt cfg dt) [0..<?n] (ls\<lparr>lg_log := []\<rparr>) = (ls1, q)" "sim ls1 ts'"
      "length (tn_log ts') = length (tn_log (ts\<lparr>tn_log := []\<rparr>)) + k"
      "lg_saved ls1 = lg_saved (ls\<lparr>lg_log := []\<rparr>) @ map (checkpoint_entry cfg)
        (periodic_steps (tc_save_every (cf_training cfg)) (tc_steps (cf_training cfg)) 0 (0 + k))"
      "case r1 of Inl x \<Rightarrow> q = Inl (LgTrain x) | Inr _ \<Rightarrow> (\<exists>us. q = Inr us) \<and> k = ?n - 0"
    using turns_sim [OF assms(1,2) m f s] by blast
  then have l: "mapA (training_turn nt cfg dt) [0..<?n] (ls\<lparr>lg_log := []\<rparr>) = (ls1, q)" "sim ls1 ts'"
      "length (tn_log ts') = k"
      "lg_saved ls1 = lg_saved ls @ map (checkpoint_entry cfg)
        (periodic_steps (tc_save_every (cf_training cfg)) (tc_steps (cf_training cfg)) 0 k)"
      "case r1 of Inl x \<Rightarrow> q = Inl (LgTrain x) | Inr _ \<Rightarrow> (\<exists>us. q = Inr us) \<and> k = ?n"
    by (simp_all cong del: sum.case_cong_weak)
  have run: "train_main nt cfg dt ls = (case q of Inl x \<Rightarrow> (ls1, Inl x)
      | Inr us \<Rightarrow> save_checkpoint cfg (tc_steps (cf_training cfg)) ls1)"
    using l(1) assms(1) by (simp add: train_main_def run_training_def bindA_def)
  show ?thesis
    using l(2,3,4,5) rows unfolding run r
    by (cases r1) (auto simp: save_checkpoint_eq sim_def)
qed

section \<open>A run without skipped steps, and the missing guard\<close>

lemma optimize_steady:
  assumes "\<And>b ids attn w. ln_logits nn b ids attn w \<noteq> None" and "cf_algorithm cfg = Grpo"
    and "optimize nn cfg cs rpg st = (st', r)"
  shows "tn_failures st' = tn_failures st"
proof -
  have f: "forward_logps nn ids attn m w \<noteq> None" for ids attn m w
    using assms(1) [of False ids attn w] assms(1) [of True ids attn w]
    by (auto simp: forward_logps_def split: option.splits)
  obtain advs where "critic_free_step nn cfg cs rpg advs st = (st', r)"
    using assms(2,3) by (simp add: optimize_def)
  then show ?thesis
    by (auto simp: critic_free_step_def guarded_step_finite Let_def split_beta f split: option.splits)
qed

lemma train_steady:
  assumes "\<And>b ids attn w. ln_logits nn b ids attn w \<noteq> None" and "cf_algorithm cfg = Grpo"
  shows "tn_failures (fst (train nn cfg dt st)) = tn_failures st"
proof -
  have one: "tn_failures (fst (train_one nn cfg dt k st)) = tn_failures st" for k st
    by (auto simp: train_one_def bindA_def lift_train_def log_row_def ret_def split: prod.splits sum.splits
        dest!: optimize_steady [OF assms] generate_rollouts_keeps)
  have "tn_failures (fst (mapA (train_one nn cfg dt) xs st)) = tn_failures st" for xs st
  proof (induction xs arbitrary: st)
    case (Cons x xs)
    obtain st1 r1 where 1: "train_one nn cfg dt x st = (st1, r1)" by fastforce
    have "tn_failures st1 = tn_failures st" using one [of x st] 1 by simp
    with 1 Cons.IH [of st1] show ?case by (auto simp: bindA_def ret_def split: prod.splits sum.splits)
  qed (simp add: ret_def)
  then have m: "mapA (train_one nn cfg dt) xs (st\<lparr>tn_log := []\<rparr>) = (st1, r1) \<Longrightarrow> tn_failures st1 = tn_failures st"
    for xs st1 r1 by (metis fst_conv trainer.select_convs(2) trainer.surjective trainer.update_convs(3))
  show ?thesis by (auto simp: train_def bindA_def ret_def split: prod.splits sum.splits dest!: m)
qed

text \<open>A model that answers every prompt with \<open>hi\<close> and knows four tokens; it counts its updates.\<close>

definition steady_net :: "nat net" where
  "steady_net =
     \<lparr>nt_generate = (\<lambda>md ps n seed w. (w, map (\<lambda>p. \<lparr>gr_prompt = p,
        gr_completions = [\<lparr>co_prompt = p, co_text = ''hi'', co_prompt_ids = [3], co_ids = [2]\<rparr>]\<rparr>) ps)),
      nt_logits = (\<lambda>md b ids attn w. Some (map (map (\<lambda>_. [0, 0, 1, 0])) ids)),
      nt_update = (\<lambda>l w. (w + 1, Fin 1)), nt_pad = 0\<rparr>"

lemma trainers_agree_witness:
  "lg_log (fst (train_main steady_net default_settings tiny_data
      \<lparr>lg_world = 0, lg_mode = learn_mode, lg_log = [], lg_saved = []\<rparr>))
    = tn_log (fst (train (learner_of steady_net) default_settings tiny_data \<lparr>tn_world = 0, tn_failures = 0, tn_log = []\<rparr>))"
proof -
  let ?ts = "\<lparr>tn_world = 0, tn_failures = 0, tn_log = []\<rparr> :: nat trainer"
  let ?ls = "\<lparr>lg_world = 0, lg_mode = learn_mode, lg_log = [], lg_saved = []\<rparr> :: nat legacy"
  have g: "cf_algorithm default_settings = Grpo" "tc_save_every (cf_training default_settings) \<noteq> 0"
    by (simp_all add: default_settings_def default_training_def)
  obtain ts' r where t: "train (learner_of steady_net) default_settings tiny_data ?ts = (ts', r)" by fastforce
  have "tn_failures ts' = tn_failures ?ts"
    using train_steady [of "learner_of steady_net" default_settings tiny_data ?ts] t g(1)
    by (simp add: learner_of_def steady_net_def)
  from trainers_agree [OF g _ t this, of ?ls] t show ?thesis by auto
qed

text \<open>The first trainer has no guard: a loss that is not finite still updates the networks.\<close>

lemma nan_loss_updates:
  assumes "build_batch cs (nt_pad nt) = Some (ids, attn, cmask)"
    and "policy_logps nt ids attn (map tl cmask) (set_train (gradient_checkpointing_enable st)) = None"
  shows "lg_world (fst (learn nt cfg cs rpg st)) = fst (nt_update nt NaN (lg_world st))"
  using assms by (simp add: learn_def optimizer_step_def Let_def split_beta)


end
