(* ===== verification/Bench.thy ===== *)
theory Bench
  imports Engine_Props
begin

text \<open>
  \<^verbatim>\<open>src/shoprl/bench/profiler.py\<close> and \<^verbatim>\<open>src/shoprl/bench/harness.py\<close>: phase timing, the share of
  padding in a batch, and the benchmark loop over the trainer.  The clock is a parameter; a phase is a
  pair of readings, and the readings that threads make do not interleave.  With prefetching the rollout of the next step runs beside the learner; as one
  sampler serves both, it is modelled as run when it is submitted.
\<close>

section \<open>The phase timer\<close>

record phase_timer =
  pt_times :: "(string \<times> real) list"
  pt_counts :: "(string \<times> nat) list"

definition new_timer :: phase_timer where
  "new_timer = \<lparr>pt_times = [], pt_counts = []\<rparr>"

text \<open>A \<open>defaultdict\<close>: a missing name counts as zero and is added at the end.\<close>

definition bump :: "string \<Rightarrow> 'a::{zero,plus} \<Rightarrow> (string \<times> 'a) list \<Rightarrow> (string \<times> 'a) list" where
  "bump k x d = AList.update k ((case map_of d k of None \<Rightarrow> 0 | Some y \<Rightarrow> y) + x) d"

definition phase :: "string \<Rightarrow> real \<Rightarrow> real \<Rightarrow> phase_timer \<Rightarrow> phase_timer" where
  "phase name t0 t1 pt =
     pt\<lparr>pt_times := bump name (t1 - t0) (pt_times pt), pt_counts := bump name 1 (pt_counts pt)\<rparr>"

record phase_row =
  pb_seconds :: real
  pb_pct :: real
  pb_calls :: nat

record timing =
  tg_total :: real
  tg_breakdown :: "(string \<times> phase_row) list"
  tg_tokens_per_sec :: "real option"

definition phase_total :: "phase_timer \<Rightarrow> real" where
  "phase_total pt = sum_list (map snd (pt_times pt))"

definition phase_share :: "phase_timer \<Rightarrow> real \<Rightarrow> real" where
  "phase_share pt sec = (if phase_total pt = 0 then 0 else 100 * sec / phase_total pt)"

definition timer_report :: "nat option \<Rightarrow> phase_timer \<Rightarrow> timing" where
  "timer_report total_tokens pt =
     (let total' = phase_total pt in
      \<lparr>tg_total = py_round 3 total',
       tg_breakdown = map (\<lambda>(name, sec). (name,
           \<lparr>pb_seconds = py_round 3 sec, pb_pct = py_round 1 (phase_share pt sec),
            pb_calls = (case map_of (pt_counts pt) name of None \<Rightarrow> 0 | Some n \<Rightarrow> n)\<rparr>))
         (sort_key (\<lambda>kv. - snd kv) (pt_times pt)),
       tg_tokens_per_sec = (case total_tokens of None \<Rightarrow> None
         | Some n \<Rightarrow> if total' > 0 then Some (py_round 1 (real n / total')) else None)\<rparr>)"

section \<open>Throughput and padding\<close>

record throughput =
  th_completions :: nat
  th_requests_per_sec :: "real option"
  th_latency_ms :: "real option"
  th_iteration_s :: "real option"
  th_ttft_ms :: "real option"

definition rollout_metrics :: "nat \<Rightarrow> real \<Rightarrow> nat \<Rightarrow> real \<Rightarrow> real option \<Rightarrow> throughput" where
  "rollout_metrics n_completions rollout_seconds steps total_s ttft =
     \<lparr>th_completions = n_completions,
      th_requests_per_sec = (if rollout_seconds > 0 then Some (py_round 2 (real n_completions / rollout_seconds)) else None),
      th_latency_ms = (if n_completions \<noteq> 0 then Some (py_round 1 (rollout_seconds / real n_completions * 1000)) else None),
      th_iteration_s = (if steps \<noteq> 0 then Some (py_round 3 (total_s / real steps)) else None),
      th_ttft_ms = ttft\<rparr>"

text \<open>\<open>attention_mask\<close> by rows.\<close>

definition padding_waste :: "nat list list \<Rightarrow> real" where
  "padding_waste attn =
     (let total' = sum_list (map length attn); used = sum_list (map sum_list attn)
      in if total' = 0 then 0 else 1 - real used / real total')"

section \<open>Rewards on a thread pool\<close>

text \<open>The jobs are numbered by group; the results come back in the order of the jobs, and the first
  exception in that order is the one raised.\<close>

definition reward_jobs :: "reward_ctx list \<Rightarrow> rollout_group list \<Rightarrow> (nat \<times> reward_ctx \<times> completion) list" where
  "reward_jobs contexts groups =
     concat (map (\<lambda>(gi, ctx, g). map (\<lambda>c. (gi, ctx, c)) (gr_completions g)) (enumerate 0 (zip contexts groups)))"

definition add_reward :: "(nat \<times> real) \<Rightarrow> real list list \<Rightarrow> real list list" where
  "add_reward gr rpg = rpg[fst gr := rpg ! fst gr @ [snd gr]]"

definition parallel_rewards ::
  "config \<Rightarrow> rollout_group list \<Rightarrow> reward_ctx list \<Rightarrow> train_error + completion list \<times> real list list" where
  "parallel_rewards cfg groups contexts =
     (let jobs = reward_jobs contexts groups in
      case mapE (\<lambda>(gi, ctx, c). score cfg ctx c) jobs of
        Inl e \<Rightarrow> Inl e
      | Inr rs \<Rightarrow>
          Inr (map (snd \<circ> snd) jobs,
               fold add_reward (zip (map fst jobs) (map rb_total rs)) (map (\<lambda>_. []) groups)))"

section \<open>The benchmark\<close>

record bench_options =
  bo_steps :: nat
  bo_reward_workers :: int
  bo_pack :: bool
  bo_async :: bool
  bo_rollout_only :: bool

text \<open>\<open>bn_next\<close> is the prefetched batch; \<open>bn_reads\<close> counts the readings of the clock.\<close>

record 'w bench =
  bn_trainer :: "'w trainer"
  bn_timer :: phase_timer
  bn_reads :: nat
  bn_next :: "(train_error + rollout_group list \<times> reward_ctx list) option"
  bn_tokens :: nat
  bn_completions :: nat
  bn_pad :: "real list"
  bn_packed :: "real list"

type_synonym ('w, 'a) bench_action = "('w bench, train_error, 'a) action"

text \<open>\<open>with pt.phase(name)\<close> around a call on the trainer; the time counts when it raises, too.\<close>

definition timed :: "(nat \<Rightarrow> real) \<Rightarrow> string \<Rightarrow> ('w trainer, train_error, 'a) action \<Rightarrow> ('w, 'a) bench_action" where
  "timed clock name m st =
     (let (t, r) = m (bn_trainer st); k = bn_reads st in
      (st\<lparr>bn_trainer := t, bn_timer := phase name (clock k) (clock (k + 1)) (bn_timer st), bn_reads := k + 2\<rparr>, r))"

text \<open>The batch of a step, and the submission of the next one; an exception of a prefetched rollout
  surfaces where its result is taken.\<close>

definition fetch :: "(nat \<Rightarrow> real) \<Rightarrow> 'w learner \<Rightarrow> config \<Rightarrow> train_data \<Rightarrow> bench_options \<Rightarrow> nat
    \<Rightarrow> ('w, rollout_group list \<times> reward_ctx list) bench_action" where
  "fetch clock nn cfg dt opts step st =
     (case (if bo_async opts then bn_next st else None) of
        Some r \<Rightarrow> timed clock ''rollout_wait'' (lift_train r) st
      | None \<Rightarrow> timed clock ''rollout'' (generate_rollouts nn cfg dt step) st)"

definition submit_next :: "'w learner \<Rightarrow> config \<Rightarrow> train_data \<Rightarrow> bench_options \<Rightarrow> nat \<Rightarrow> ('w, unit) bench_action" where
  "submit_next nn cfg dt opts step st =
     (if bo_async opts
      then (let (t, r) = generate_rollouts nn cfg dt (step + 1) (bn_trainer st)
            in (st\<lparr>bn_trainer := t, bn_next := Some r\<rparr>, Inr ()))
      else (st, Inr ()))"

definition bench_rewards :: "config \<Rightarrow> bench_options \<Rightarrow> rollout_group list \<Rightarrow> reward_ctx list
    \<Rightarrow> train_error + completion list \<times> real list list" where
  "bench_rewards cfg opts groups contexts =
     (if bo_reward_workers opts > 1 then parallel_rewards cfg groups contexts
      else (case calculate_rewards cfg groups contexts of Inl e \<Rightarrow> Inl e | Inr (cs, rpg, _) \<Rightarrow> Inr (cs, rpg)))"

definition packed_order :: "completion list \<Rightarrow> completion list" where
  "packed_order cs = sort_key (\<lambda>c. length (co_prompt_ids c) + length (co_ids c)) cs"

text \<open>The padding of the batch in its own order and sorted by length.\<close>

definition note_padding :: "nat \<Rightarrow> completion list \<Rightarrow> ('w, unit) bench_action" where
  "note_padding pad completions st =
     (let st1 = st\<lparr>bn_tokens := bn_tokens st + sum_list (map (length \<circ> co_ids) completions),
                   bn_completions := bn_completions st + length completions\<rparr> in
      case (build_batch completions pad, build_batch (packed_order completions) pad) of
        (Some (_, attn, _), Some (_, attn_p, _)) \<Rightarrow>
          (st1\<lparr>bn_pad := bn_pad st @ [padding_waste attn], bn_packed := bn_packed st @ [padding_waste attn_p]\<rparr>, Inr ())
      | _ \<Rightarrow> (st1, Inl TrEmptyBatch))"

definition bench_step :: "(nat \<Rightarrow> real) \<Rightarrow> 'w learner \<Rightarrow> config \<Rightarrow> train_data \<Rightarrow> bench_options \<Rightarrow> nat
    \<Rightarrow> ('w, unit) bench_action" where
  "bench_step clock nn cfg dt opts step =
     bindA (fetch clock nn cfg dt opts step) (\<lambda>(groups, contexts).
     bindA (submit_next nn cfg dt opts step) (\<lambda>_.
     bindA (timed clock ''reward'' (lift_train (bench_rewards cfg opts groups contexts))) (\<lambda>(completions, rpg).
     bindA (note_padding (ln_pad nn) completions) (\<lambda>_.
       if bo_rollout_only opts then ret ()
       else bindA (timed clock ''optimize'' (optimize nn cfg completions rpg)) (\<lambda>_. ret ())))))"

record bench_report =
  br_timing :: timing
  br_throughput :: throughput
  br_padding :: real
  br_padding_packed :: real
  br_batch :: int
  br_pack :: bool

text \<open>The report; \<open>statistics.mean\<close> of no step is the StatisticsError.\<close>

definition bench_report :: "config \<Rightarrow> bench_options \<Rightarrow> real option \<Rightarrow> ('w, bench_report) bench_action" where
  "bench_report cfg opts ttft st =
     (let rep = timer_report (Some (bn_tokens st)) (bn_timer st);
          spent = (\<lambda>k. case map_of (pt_times (bn_timer st)) k of None \<Rightarrow> 0 | Some x \<Rightarrow> x);
          rollout_seconds = spent ''rollout'' + spent ''rollout_wait'' in
      if bn_pad st = [] then (st, Inl TrEmptyBatch)
      else (st, Inr
        \<lparr>br_timing = rep,
         br_throughput = rollout_metrics (bn_completions st) rollout_seconds (bo_steps opts) (tg_total rep) ttft,
         br_padding = py_round 3 (list_mean (bn_pad st)), br_padding_packed = py_round 3 (list_mean (bn_packed st)),
         br_batch = tc_prompts_per_step (cf_training cfg) * ro_num_samples (cf_rollout cfg), br_pack = bo_pack opts\<rparr>))"

definition benchmark :: "(nat \<Rightarrow> real) \<Rightarrow> 'w learner \<Rightarrow> config \<Rightarrow> train_data \<Rightarrow> bench_options \<Rightarrow> real option
    \<Rightarrow> ('w, bench_report) bench_action" where
  "benchmark clock nn cfg dt opts ttft =
     bindA (mapA (bench_step clock nn cfg dt opts) [0..<bo_steps opts]) (\<lambda>_. bench_report cfg opts ttft)"

definition start_bench :: "'w trainer \<Rightarrow> 'w bench" where
  "start_bench tr =
     \<lparr>bn_trainer = tr, bn_timer = new_timer, bn_reads = 0, bn_next = None, bn_tokens = 0, bn_completions = 0,
      bn_pad = [], bn_packed = []\<rparr>"

end
