(* ===== verification/Bench_Props.thy ===== *)
theory Bench_Props
  imports Bench
begin

text \<open>
  What the benchmark may conclude: scoring on a pool changes nothing but the time, the reported shares
  are a partition of the measured time, and sorting a batch cannot change its padding.
\<close>

section \<open>Rewards on a pool\<close>

lemma mapE_map: "mapE f (map g xs) = mapE (\<lambda>x. f (g x)) xs"
  by (induction xs) (auto split: sum.splits)

lemma mapE_enumerate: "mapE (\<lambda>(i, x). h x) (enumerate k xs) = mapE h xs"
  by (induction xs arbitrary: k) (auto split: sum.splits)

lemma mapE_concat:
  "mapE f (concat xss) = (case mapE (mapE f) xss of Inl e \<Rightarrow> Inl e | Inr yss \<Rightarrow> Inr (concat yss))"
  by (induction xss) (simp_all add: mapE_append split: sum.splits)

lemma fold_add_one:
  "i < length acc \<Longrightarrow> fold add_reward (map (Pair i) ys) acc = acc[i := acc ! i @ ys]"
  by (induction ys arbitrary: acc) (simp_all add: add_reward_def)

lemma fold_add_groups:
  "length acc = k + length yss \<Longrightarrow> \<forall>i \<in> {k..<length acc}. acc ! i = [] \<Longrightarrow>
    fold add_reward (concat (map (\<lambda>(i, ys). map (Pair i) ys) (enumerate k yss))) acc = take k acc @ yss"
proof (induction yss arbitrary: k acc)
  case (Cons ys yss)
  define acc' where "acc' = acc[k := ys]"
  have k: "k < length acc" "acc ! k = []" using Cons.prems by simp_all
  have "fold add_reward (concat (map (\<lambda>(i, ys). map (Pair i) ys) (enumerate (Suc k) yss))) acc' = take (Suc k) acc' @ yss"
    using Cons.prems k by (intro Cons.IH) (simp_all add: acc'_def)
  moreover have "take (Suc k) acc' = take k acc @ [ys]" using k by (simp add: acc'_def take_Suc_conv_app_nth)
  ultimately show ?case using k by (simp add: fold_add_one acc'_def)
qed simp

lemma job_rewards:
  "list_all2 (\<lambda>cg bs. length bs = length (gr_completions (snd cg))) cgs bss \<Longrightarrow>
    zip (map fst (concat (map (\<lambda>(gi, ctx, g). map (\<lambda>c. (gi, ctx, c)) (gr_completions g)) (enumerate k cgs))))
      (map rb_total (concat bss))
    = concat (map (\<lambda>(i, ys). map (Pair i) ys) (enumerate k (map (map rb_total) bss)))"
proof (induction arbitrary: k rule: list_all2_induct)
  case (Cons cg cgs bs bss)
  obtain ctx g where cg: "cg = (ctx, g)" by fastforce
  have "zip (map (\<lambda>_. k) (gr_completions g)) (map rb_total bs) = map (Pair k) (map rb_total bs)"
    using Cons.hyps(1) by (simp add: cg list_eq_iff_nth_eq)
  then show ?case using Cons by (simp add: cg comp_def)
qed simp

lemma parallel_rewards_eq:
  assumes "length contexts = length groups"
  shows "parallel_rewards cfg groups contexts =
    (case calculate_rewards cfg groups contexts of Inl e \<Rightarrow> Inl e | Inr (cs, rpg, _) \<Rightarrow> Inr (cs, rpg))"
proof -
  let ?cgs = "zip contexts groups" and ?f = "\<lambda>(ctx, g). mapE (score cfg ctx) (gr_completions g)"
  have "mapE (\<lambda>(gi, ctx, c). score cfg ctx c) (reward_jobs contexts groups)
      = (case mapE (\<lambda>(gi, cg). ?f cg) (enumerate 0 ?cgs) of Inl e \<Rightarrow> Inl e | Inr bss \<Rightarrow> Inr (concat bss))"
    unfolding reward_jobs_def mapE_concat mapE_map by (simp add: mapE_map case_prod_beta')
  then have m: "mapE (\<lambda>(gi, ctx, c). score cfg ctx c) (reward_jobs contexts groups)
      = (case mapE ?f ?cgs of Inl e \<Rightarrow> Inl e | Inr bss \<Rightarrow> Inr (concat bss))"
    unfolding mapE_enumerate .
  show ?thesis
  proof (cases "mapE ?f ?cgs")
    case (Inl e)
    then show ?thesis by (simp add: parallel_rewards_def calculate_rewards_def m)
  next
    case (Inr bss)
    have l: "list_all2 (\<lambda>cg bs. length bs = length (gr_completions (snd cg))) ?cgs bss"
      using mapE_InrD [OF Inr] by (rule list_all2_mono) (auto dest!: mapE_InrD list_all2_lengthD)
    have cs: "map (snd \<circ> snd) (reward_jobs contexts groups) = concat (map (gr_completions \<circ> snd) ?cgs)"
      unfolding reward_jobs_def map_concat map_map
      by (rule arg_cong [where f = concat], rule nth_equalityI) (auto simp: nth_enumerate_eq comp_def split_beta)
    have "length bss = length groups" using list_all2_lengthD [OF l] assms by simp
    then have "fold add_reward (zip (map fst (reward_jobs contexts groups)) (map rb_total (concat bss))) (map (\<lambda>_. []) groups)
        = map (map rb_total) bss"
      unfolding reward_jobs_def job_rewards [OF l] by (subst fold_add_groups) simp_all
    with Inr cs show ?thesis by (simp add: parallel_rewards_def calculate_rewards_def m)
  qed
qed

section \<open>Padding\<close>

definition seq_len :: "completion \<Rightarrow> nat" where
  "seq_len c = length (co_prompt_ids c) + length (co_ids c)"

lemma batch_attention:
  assumes "build_batch cs pad = Some (ids, attn, cmask)"
  shows "sum_list (map length attn) = length cs * Max (seq_len ` set cs) \<and>
    sum_list (map sum_list attn) = sum_list (map seq_len cs)"
proof -
  define T where "T = Max (seq_len ` set cs)"
  have attn: "attn = map (\<lambda>c. pad_to T 0 (replicate (seq_len c) 1)) cs"
    using assms by (auto simp: build_batch_def Let_def T_def seq_len_def image_image comp_def split: if_splits)
  have le: "seq_len c \<le> T" if "c \<in> set cs" for c using that by (simp add: T_def)
  then have "map length attn = map (\<lambda>_. T) cs" by (simp add: attn pad_to_def)
  moreover have "map sum_list attn = map seq_len cs" by (simp add: attn pad_to_def sum_list_replicate)
  ultimately show ?thesis by (simp add: T_def sum_list_triv)
qed

lemma waste_of_batch:
  assumes "build_batch cs pad = Some (ids, attn, cmask)"
  shows "padding_waste attn = (let total' = length cs * Max (seq_len ` set cs) in
    if total' = 0 then 0 else 1 - real (sum_list (map seq_len cs)) / real total')"
  using batch_attention [OF assms] by (simp add: padding_waste_def)

text \<open>A batch is padded to its longest sequence, so its order does not matter.\<close>

lemma packing_saves_nothing:
  assumes "build_batch cs pad = Some (ids, attn, cmask)"
    and "build_batch (packed_order cs) pad = Some (ids', attn', cmask')"
  shows "padding_waste attn' = padding_waste attn"
proof -
  have "mset (packed_order cs) = mset cs" by (simp add: packed_order_def)
  then have "sum_list (map seq_len (packed_order cs)) = sum_list (map seq_len cs)"
    by (metis mset_map sum_mset_sum_list)
  then show ?thesis
    unfolding waste_of_batch [OF assms(1)] waste_of_batch [OF assms(2)] by (simp add: packed_order_def)
qed

lemma packed_batch_exists: "build_batch (packed_order cs) pad = None \<longleftrightarrow> build_batch cs pad = None"
proof -
  have "length (packed_order cs) = length cs" by (simp add: packed_order_def)
  then have "packed_order cs = [] \<longleftrightarrow> cs = []" by (metis length_0_conv)
  then show ?thesis by (simp add: build_batch_def Let_def)
qed

lemma share_range: "u \<le> f \<Longrightarrow> (w :: real) = (if f = 0 then 0 else 1 - real u / real f) \<Longrightarrow> 0 \<le> w \<and> w \<le> 1"
  by (simp split: if_splits)

lemma used_le: "sum_list (map seq_len cs) \<le> length cs * Max (seq_len ` set cs)"
proof -
  have "sum_list (map seq_len cs) \<le> sum_list (map (\<lambda>_. Max (seq_len ` set cs)) cs)"
    by (rule sum_list_mono) (rule Max_ge, auto)
  also have "\<dots> = length cs * Max (seq_len ` set cs)" unfolding sum_list_triv of_nat_id ..
  finally show ?thesis .
qed

lemma waste_range:
  "build_batch cs pad = Some (ids, attn, cmask) \<Longrightarrow> 0 \<le> padding_waste attn \<and> padding_waste attn \<le> 1"
  by (rule share_range [OF used_le]) (simp only: waste_of_batch Let_def)

section \<open>The timer\<close>

lemma shares_add_up: "phase_total pt \<noteq> 0 \<Longrightarrow> sum_list (map (phase_share pt \<circ> snd) (pt_times pt)) = 100"
proof -
  assume t: "phase_total pt \<noteq> 0"
  then have "map (phase_share pt \<circ> snd) (pt_times pt) = map (\<lambda>kv. snd kv * (100 / phase_total pt)) (pt_times pt)"
    by (simp add: phase_share_def)
  then have "sum_list (map (phase_share pt \<circ> snd) (pt_times pt)) = sum_list (map snd (pt_times pt)) * (100 / phase_total pt)"
    by (simp only: sum_list_mult_const)
  then show ?thesis using t by (simp add: phase_total_def)
qed

section \<open>The benchmark\<close>

definition batch_fits :: "train_error + rollout_group list \<times> reward_ctx list \<Rightarrow> bool" where
  "batch_fits r \<longleftrightarrow> (case r of Inl e \<Rightarrow> True | Inr (groups, contexts) \<Rightarrow> length contexts = length groups)"

definition bench_inv :: "'w bench \<Rightarrow> bool" where
  "bench_inv st \<longleftrightarrow> (\<forall>r. bn_next st = Some r \<longrightarrow> batch_fits r) \<and>
     bn_packed st = bn_pad st \<and> (\<forall>x \<in> set (bn_pad st). 0 \<le> x \<and> x \<le> 1)"

definition answers_all :: "'w learner \<Rightarrow> bool" where
  "answers_all nn \<longleftrightarrow> (\<forall>ps n seed w. length (snd (ln_generate nn ps n seed w)) = length ps)"

lemma generated_fit:
  assumes "answers_all nn"
  shows "batch_fits (snd (generate_rollouts nn cfg dt step st))"
proof (cases "task_prompts dt (picks cfg dt step)")
  case (Inr ps)
  obtain w gs where g: "ln_generate nn ps (ro_num_samples (cf_rollout cfg)) (xc_seed (cf_experiment cfg) + int step + 1) (tn_world st) = (w, gs)"
    by fastforce
  have "length gs = length ps" using assms g unfolding answers_all_def by (metis snd_conv)
  then show ?thesis
    using Inr g task_prompts_length [OF Inr] by (simp add: generate_rollouts_def batch_fits_def Let_def)
qed (simp add: generate_rollouts_def batch_fits_def)

lemma timed_fields:
  "timed clock name m st = (st', r) \<Longrightarrow> bn_next st' = bn_next st \<and> bn_pad st' = bn_pad st \<and> bn_packed st' = bn_packed st"
  by (auto simp: timed_def Let_def split_beta)

lemma timed_inv: "timed clock name m st = (st', r) \<Longrightarrow> bench_inv st \<Longrightarrow> bench_inv st'"
  by (drule timed_fields) (simp add: bench_inv_def)

lemma timed_result: "timed clock name m st = (st', r) \<Longrightarrow> r = snd (m (bn_trainer st))"
  by (auto simp: timed_def Let_def split_beta)

lemma fetch_inv:
  assumes "answers_all nn" and "bench_inv st" and "fetch clock nn cfg dt opts step st = (st', r)"
  shows "bench_inv st' \<and> batch_fits r"
proof (cases "if bo_async opts then bn_next st else None")
  case None
  then have t: "timed clock ''rollout'' (generate_rollouts nn cfg dt step) st = (st', r)"
    using assms(3) by (simp add: fetch_def)
  show ?thesis using timed_inv [OF t assms(2)] timed_result [OF t] generated_fit [OF assms(1)] by simp
next
  case (Some b)
  then have t: "timed clock ''rollout_wait'' (lift_train b) st = (st', r)" and "bn_next st = Some b"
    using assms(3) by (simp_all add: fetch_def split: if_splits)
  then show ?thesis
    using timed_inv [OF t assms(2)] timed_result [OF t] assms(2) by (simp add: bench_inv_def lift_train_def)
qed

lemma submit_inv:
  "answers_all nn \<Longrightarrow> bench_inv st \<Longrightarrow> submit_next nn cfg dt opts step st = (st', r) \<Longrightarrow> bench_inv st'"
  using generated_fit [of nn cfg dt "step + 1" "bn_trainer st"]
  by (auto simp: submit_next_def bench_inv_def Let_def split_beta split: if_splits)

lemma note_padding_inv:
  assumes "bench_inv st" and "note_padding pad cs st = (st', r)"
  shows "bench_inv st'"
proof (cases "build_batch cs pad")
  case None
  with assms show ?thesis by (auto simp: note_padding_def bench_inv_def Let_def)
next
  case (Some b)
  obtain ids attn cmask where b: "build_batch cs pad = Some (ids, attn, cmask)" using Some by (cases b) simp
  obtain ids' attn' cmask' where b': "build_batch (packed_order cs) pad = Some (ids', attn', cmask')"
    using b packed_batch_exists [of cs pad] by (cases "build_batch (packed_order cs) pad") auto
  from assms b b' packing_saves_nothing [OF b b'] waste_range [OF b] show ?thesis
    by (auto simp: note_padding_def bench_inv_def Let_def)
qed

lemma bench_rewards_workers:
  assumes "batch_fits (Inr (groups, contexts))"
  shows "bench_rewards cfg opts groups contexts = bench_rewards cfg (opts\<lparr>bo_reward_workers := n\<rparr>) groups contexts"
  using assms parallel_rewards_eq [of contexts groups cfg] by (simp add: bench_rewards_def batch_fits_def)

text \<open>Two actions that agree and keep an invariant, one after the other.\<close>

definition agree :: "('s \<Rightarrow> bool) \<Rightarrow> ('s, 'e, 'a) action \<Rightarrow> ('s, 'e, 'a) action \<Rightarrow> ('e + 'a \<Rightarrow> bool) \<Rightarrow> bool" where
  "agree I m m' Q \<longleftrightarrow> (\<forall>st. I st \<longrightarrow> m st = m' st \<and> I (fst (m st)) \<and> Q (snd (m st)))"

lemma agree_bind:
  assumes "agree I m m' Q" and "\<And>x. Q (Inr x) \<Longrightarrow> agree I (f x) (f' x) R" and "\<And>e. R (Inl e)"
  shows "agree I (bindA m f) (bindA m' f') R"
proof -
  have "bindA m f st = bindA m' f' st \<and> I (fst (bindA m f st)) \<and> R (snd (bindA m f st))" if "I st" for st
  proof (cases "m st")
    case (Pair st1 r)
    with assms(1) that have m: "m' st = (st1, r)" "I st1" "Q r" unfolding agree_def by force+
    show ?thesis
    proof (cases r)
      case (Inl e)
      with m Pair assms(3) show ?thesis by (simp add: bindA_def)
    next
      case (Inr x)
      with m assms(2) have "agree I (f x) (f' x) R" by simp
      then have "f x st1 = f' x st1 \<and> I (fst (f x st1)) \<and> R (snd (f x st1))" using m(2) unfolding agree_def by blast
      then have "f x st1 = f' x st1" and "I (fst (f' x st1))" and "R (snd (f' x st1))" by auto
      with m(1) Inr Pair show ?thesis by (simp add: bindA_def)
    qed
  qed
  then show ?thesis unfolding agree_def by blast
qed

lemma agree_ret: "Q (Inr x) \<Longrightarrow> agree I (ret x) (ret x) Q"
  by (simp add: agree_def ret_def)

lemma agree_mapA: "(\<And>x. agree I (f x) (f' x) (\<lambda>_. True)) \<Longrightarrow> agree I (mapA f xs) (mapA f' xs) (\<lambda>_. True)"
proof (induction xs)
  case Nil
  then show ?case by (simp add: agree_def ret_def)
next
  case (Cons x xs)
  show ?case
    unfolding mapA.simps by (intro agree_bind [OF Cons.prems] agree_bind [OF Cons.IH [OF Cons.prems]] agree_ret) simp_all
qed

lemma agreeI:
  "(\<And>st st' r. I st \<Longrightarrow> m st = (st', r) \<Longrightarrow> I st' \<and> Q r) \<Longrightarrow> agree I m m Q"
  unfolding agree_def by (metis prod.collapse)

lemma agree_timed: "agree bench_inv (timed clock nm m) (timed clock nm m) (\<lambda>_. True)"
  by (rule agreeI) (simp add: timed_inv)

lemma bench_step_workers:
  assumes "answers_all nn"
  shows "agree bench_inv (bench_step clock nn cfg dt opts k)
    (bench_step clock nn cfg dt (opts\<lparr>bo_reward_workers := n\<rparr>) k) (\<lambda>_. True)"
proof -
  let ?o = "opts\<lparr>bo_reward_workers := n\<rparr>"
  have fetch: "fetch clock nn cfg dt ?o k = fetch clock nn cfg dt opts k"
    by (simp add: fetch_def fun_eq_iff)
  have submit: "submit_next nn cfg dt ?o k = submit_next nn cfg dt opts k"
    by (simp add: submit_next_def fun_eq_iff)
  have opt: "agree bench_inv
      (if bo_rollout_only opts then ret () else bindA (timed clock ''optimize'' (optimize nn cfg cs rpg)) (\<lambda>_. ret ()))
      (if bo_rollout_only ?o then ret () else bindA (timed clock ''optimize'' (optimize nn cfg cs rpg)) (\<lambda>_. ret ()))
      (\<lambda>_. True)" for cs rpg
    by (auto intro!: agree_bind [OF agree_timed] agree_ret)
  have pad: "agree bench_inv (note_padding (ln_pad nn) cs) (note_padding (ln_pad nn) cs) (\<lambda>_. True)" for cs
    by (rule agreeI) (simp add: note_padding_inv)
  have rew: "agree bench_inv (timed clock ''reward'' (lift_train (bench_rewards cfg opts groups contexts)))
      (timed clock ''reward'' (lift_train (bench_rewards cfg ?o groups contexts))) (\<lambda>_. True)"
    if "batch_fits (Inr (groups, contexts))" for groups contexts
    unfolding bench_rewards_workers [OF that, of cfg opts n] by (rule agree_timed)
  have sub: "agree bench_inv (submit_next nn cfg dt opts k) (submit_next nn cfg dt opts k) (\<lambda>_. True)"
    by (rule agreeI) (simp add: submit_inv [OF assms])
  have ft: "agree bench_inv (fetch clock nn cfg dt opts k) (fetch clock nn cfg dt opts k) batch_fits"
    by (rule agreeI) (simp add: fetch_inv [OF assms])
  show ?thesis
    unfolding bench_step_def fetch submit
  proof (rule agree_bind [OF ft], goal_cases)
    case (1 x)
    obtain groups contexts where x: "x = (groups, contexts)" by fastforce
    show ?case
      unfolding x split
    proof (rule agree_bind [OF sub], rule agree_bind [OF rew], goal_cases)
      case 1
      then show ?case using \<open>batch_fits (Inr x)\<close> by (simp add: x)
    next
      case (2 _ y)
      obtain cs rpg where y: "y = (cs, rpg)" by fastforce
      show ?case unfolding y split by (rule agree_bind [OF pad opt]) simp
    qed simp_all
  qed simp
qed

section \<open>The property\<close>

text \<open>C38. What the benchmark measures: with a sampler that answers every prompt, scoring on any number
  of threads gives the same completions, rewards and exceptions as scoring in place, so the whole
  benchmark reports the same; the reported padding is a fraction and sorting the batch by length never
  changes it; and the shares of the phases add up to the whole.\<close>

theorem benchmark_attribution:
  assumes "answers_all nn"
  shows "benchmark clock nn cfg dt opts ttft (start_bench tr)
      = benchmark clock nn cfg dt (opts\<lparr>bo_reward_workers := n\<rparr>) ttft (start_bench tr) \<and>
    (length contexts = length groups \<longrightarrow> parallel_rewards cfg groups contexts =
      (case calculate_rewards cfg groups contexts of Inl e \<Rightarrow> Inl e | Inr (cs, rpg, _) \<Rightarrow> Inr (cs, rpg))) \<and>
    (benchmark clock nn cfg dt opts ttft (start_bench tr) = (st', Inr rep) \<longrightarrow>
      br_padding_packed rep = br_padding rep \<and> (\<forall>x \<in> set (bn_pad st'). 0 \<le> x \<and> x \<le> 1)) \<and>
    (phase_total pt \<noteq> 0 \<longrightarrow> sum_list (map (phase_share pt \<circ> snd) (pt_times pt)) = 100)"
proof -
  let ?o = "opts\<lparr>bo_reward_workers := n\<rparr>"
  have i: "bench_inv (start_bench tr)" by (simp add: bench_inv_def start_bench_def)
  note steps = agree_mapA [where f = "bench_step clock nn cfg dt opts" and xs = "[0..<bo_steps opts]",
      OF bench_step_workers [OF assms, of clock cfg dt opts _ n]]
  have rep: "bench_report cfg ?o ttft st = bench_report cfg opts ttft st" for st :: "'a bench"
    by (simp add: bench_report_def Let_def)
  have "benchmark clock nn cfg dt opts ttft (start_bench tr) = benchmark clock nn cfg dt ?o ttft (start_bench tr)"
    using steps i unfolding agree_def benchmark_def bindA_def by (simp add: rep)
  moreover have "br_padding_packed rep = br_padding rep \<and> (\<forall>x \<in> set (bn_pad st'). 0 \<le> x \<and> x \<le> 1)"
    if b: "benchmark clock nn cfg dt opts ttft (start_bench tr) = (st', Inr rep)"
  proof -
    obtain st1 us where m: "mapA (bench_step clock nn cfg dt opts) [0..<bo_steps opts] (start_bench tr) = (st1, Inr us)"
      and r: "bench_report cfg opts ttft st1 = (st', Inr rep)"
      using b by (auto simp: benchmark_def bindA_def split: prod.splits sum.splits)
    have "bench_inv st1" using steps i m unfolding agree_def by force
    with r show ?thesis by (auto simp: bench_report_def bench_inv_def Let_def split: if_splits)
  qed
  ultimately show ?thesis using parallel_rewards_eq shares_add_up by blast
qed

lemma benchmark_attribution_witness:
  "benchmark real nan_learner default_settings tiny_data
      \<lparr>bo_steps = 2, bo_reward_workers = 1, bo_pack = False, bo_async = True, bo_rollout_only = True\<rparr> None
      (start_bench \<lparr>tn_world = (), tn_failures = 0, tn_log = []\<rparr>)
    = benchmark real nan_learner default_settings tiny_data
      \<lparr>bo_steps = 2, bo_reward_workers = 4, bo_pack = False, bo_async = True, bo_rollout_only = True\<rparr> None
      (start_bench \<lparr>tn_world = (), tn_failures = 0, tn_log = []\<rparr>)"
proof -
  have "answers_all nan_learner" by (simp add: answers_all_def nan_learner_def)
  from benchmark_attribution [OF this, of real default_settings tiny_data
      "\<lparr>bo_steps = 2, bo_reward_workers = 1, bo_pack = False, bo_async = True, bo_rollout_only = True\<rparr>" None _ 4]
  show ?thesis by simp
qed

end
