(* ===== verification/Platform_Run.thy ===== *)
theory Platform_Run
  imports Prompt_Registry Control
begin

text \<open>
  \<^verbatim>\<open>src/shoprl/platform/integration.py\<close> and \<open>run_through_platform\<close> of \<^verbatim>\<open>src/shoprl/rl/run.py\<close>: one
  training run through preflight, the registries and the stores.  The state is the stores below one
  root and the orchestrator's own fields.  The runner (the training core), the JSON of its result, the
  fresh ids and the clock are parameters; a counter says how many ids and times were drawn.
\<close>

section \<open>State and parameters\<close>

record 'w plat =
  pr_exp :: run_table
  pr_prompts :: prompt_fs
  pr_ckpts :: ckpt_fs
  pr_policies :: policy_fs
  pr_artifacts :: artifact_db
  pr_traj :: traj_table
  pr_run :: "run_record option"
  pr_version :: "int option"
  pr_dataset_art :: "artifact option"
  pr_ckpt_art :: "artifact option"
  pr_drawn :: nat
  pr_world :: 'w

record 'g plat_env =
  en_gen :: "'g gen_env"
  en_codec :: prompt_codec
  en_sha :: "string \<Rightarrow> string"
  en_parse_policy :: "string \<Rightarrow> policy_version option"
  en_commit :: "string option"
  en_dump :: "config \<Rightarrow> string"
  en_dump_rewards :: "reward_config \<Rightarrow> string"
  en_id :: "nat \<Rightarrow> string"
  en_clock :: "nat \<Rightarrow> real"

datatype plat_exc =
    PxPreflight check_result
  | PxChecks "string preflight_exn"
  | PxDataset dataset_error
  | PxRun run_error
  | PxArtifact artifact_error
  | PxCkpt ckpt_error
  | PxPolicy policy_error
  | PxTrajectory
  | PxStale string
  | PxNoRun
  | PxRunner string
  | PxAbort

type_synonym ('w, 'a) plat_action = "('w plat, plat_exc, 'a) action"

text \<open>The constructor: the stores below the root are opened as they are, the fields start empty.\<close>

definition open_platform :: "'w plat \<Rightarrow> 'w plat" where
  "open_platform st =
     st\<lparr>pr_run := None, pr_version := None, pr_dataset_art := None, pr_ckpt_art := None\<rparr>"

definition draw :: "'g plat_env \<Rightarrow> ('w, string \<times> real) plat_action" where
  "draw env st = (st\<lparr>pr_drawn := pr_drawn st + 1\<rparr>, Inr (en_id env (pr_drawn st), en_clock env (pr_drawn st)))"

text \<open>An action on one of the stores.\<close>

definition on_exp :: "(run_table, run_error, 'a) action \<Rightarrow> ('w, 'a) plat_action" where
  "on_exp m st = (case m (pr_exp st) of
     (t, Inl e) \<Rightarrow> (st\<lparr>pr_exp := t\<rparr>, Inl (PxRun e)) | (t, Inr x) \<Rightarrow> (st\<lparr>pr_exp := t\<rparr>, Inr x))"

definition on_prompts :: "(prompt_fs, dataset_error, 'a) action \<Rightarrow> ('w, 'a) plat_action" where
  "on_prompts m st = (case m (pr_prompts st) of
     (t, Inl e) \<Rightarrow> (st\<lparr>pr_prompts := t\<rparr>, Inl (PxDataset e)) | (t, Inr x) \<Rightarrow> (st\<lparr>pr_prompts := t\<rparr>, Inr x))"

definition on_ckpts :: "(ckpt_fs, ckpt_error, 'a) action \<Rightarrow> ('w, 'a) plat_action" where
  "on_ckpts m st = (case m (pr_ckpts st) of
     (t, Inl e) \<Rightarrow> (st\<lparr>pr_ckpts := t\<rparr>, Inl (PxCkpt e)) | (t, Inr x) \<Rightarrow> (st\<lparr>pr_ckpts := t\<rparr>, Inr x))"

definition on_policies :: "(policy_fs, policy_error, 'a) action \<Rightarrow> ('w, 'a) plat_action" where
  "on_policies m st = (case m (pr_policies st) of
     (t, Inl e) \<Rightarrow> (st\<lparr>pr_policies := t\<rparr>, Inl (PxPolicy e)) | (t, Inr x) \<Rightarrow> (st\<lparr>pr_policies := t\<rparr>, Inr x))"

definition on_artifacts :: "(artifact_db, artifact_error, 'a) action \<Rightarrow> ('w, 'a) plat_action" where
  "on_artifacts m st = (case m (pr_artifacts st) of
     (t, Inl e) \<Rightarrow> (st\<lparr>pr_artifacts := t\<rparr>, Inl (PxArtifact e)) | (t, Inr x) \<Rightarrow> (st\<lparr>pr_artifacts := t\<rparr>, Inr x))"

definition save_run :: "run_record \<Rightarrow> ('w, unit) plat_action" where
  "save_run r st = (st\<lparr>pr_exp := run_save r (pr_exp st)\<rparr>, Inr ())"

definition set_run :: "run_record \<Rightarrow> ('w, unit) plat_action" where
  "set_run r st = (st\<lparr>pr_run := Some r\<rparr>, Inr ())"

text \<open>\<open>self.run.run_id\<close>; without a run it is an AttributeError.\<close>

definition run_id_of :: "('w, string) plat_action" where
  "run_id_of st = (case pr_run st of None \<Rightarrow> (st, Inl PxNoRun) | Some r \<Rightarrow> (st, Inr (rr_id r)))"

definition get_run :: "string \<Rightarrow> ('w, run_record) plat_action" where
  "get_run rid st = (case run_get (pr_exp st) rid of
     None \<Rightarrow> (st, Inl (PxRun (RunNotFound rid))) | Some r \<Rightarrow> (st, Inr r))"

definition parents_of :: "artifact option \<Rightarrow> string list" where
  "parents_of a = (case a of None \<Rightarrow> [] | Some x \<Rightarrow> [ar_id x])"

section \<open>The six stages\<close>

definition pr_preflight ::
  "'g plat_env \<Rightarrow> (string + backward_out) option \<Rightarrow> config \<Rightarrow> real option \<Rightarrow> (string + completion list) option
    \<Rightarrow> (string + backward_out) option \<Rightarrow> ('w, report) plat_action" where
  "pr_preflight env torch cfg gpu rollout_fn backward_fn st =
     (st, case run_preflight (en_gen env) torch cfg gpu None rollout_fn backward_fn of
        Inl e \<Rightarrow> Inl (PxChecks e)
      | Inr rep \<Rightarrow> (case raise_if_failed rep of Inl c \<Rightarrow> Inl (PxPreflight c) | Inr rep' \<Rightarrow> Inr rep'))"

definition pr_start :: "'g plat_env \<Rightarrow> config \<Rightarrow> int \<Rightarrow> ('w, run_record) plat_action" where
  "pr_start env cfg n_prompts =
     bindA (draw env) (\<lambda>(i, t).
     bindA (on_prompts (materialize (en_gen env) (en_codec env) i t (tc_catalog_size (cf_training cfg)) n_prompts
              (xc_seed (cf_experiment cfg)) [])) (\<lambda>meta.
     bindA (draw env) (\<lambda>(rid, now).
     (let r = record_from_config (en_sha env) (en_commit env) rid now
                (run_config_of (en_dump env) (en_dump_rewards env) cfg)
                (\<lambda>r. r\<lparr>rr_dataset_version := dm_version meta\<rparr>) in
      bindA (set_run r) (\<lambda>_.
      bindA (save_run r) (\<lambda>_.
      bindA (draw env) (\<lambda>(_, now').
      bindA (on_exp (run_start None now' rid)) (\<lambda>_.
      bindA (draw env) (\<lambda>(aid, ta).
      bindA (on_artifacts (register_prompt_dataset aid ta (dataset_meta.truncate meta) (Some rid))) (\<lambda>art.
      bindA (\<lambda>st. (st\<lparr>pr_dataset_art := Some art\<rparr>, Inr ())) (\<lambda>_.
        get_run rid)))))))))))"

definition pr_register_checkpoint ::
  "'g plat_env \<Rightarrow> (string \<times> string) list \<Rightarrow> int \<Rightarrow> ('w, ckpt_manifest) plat_action" where
  "pr_register_checkpoint env files step =
     bindA (draw env) (\<lambda>(hex8, now). bindA (draw env) (\<lambda>(tmp8, now').
     bindA (on_ckpts (save (en_sha env) hex8 tmp8 now now' step (Some (''step-'' @ show_int step)) [] files)) (\<lambda>manifest.
     bindA run_id_of (\<lambda>rid.
     bindA (draw env) (\<lambda>(aid, ta) st.
       bindA (on_artifacts (register_checkpoint aid ta manifest (Some rid) (parents_of (pr_dataset_art st))))
         (\<lambda>art st'. (st'\<lparr>pr_ckpt_art := Some art\<rparr>, Inr manifest)) st)))))"

definition pr_publish_policy ::
  "'g plat_env \<Rightarrow> (string \<times> string) list \<Rightarrow> dict \<Rightarrow> ('w, policy_version) plat_action" where
  "pr_publish_policy env files md =
     bindA (draw env) (\<lambda>(tmp8, now). bindA (draw env) (\<lambda>(_, now').
     bindA (on_policies (publish (en_sha env) (en_parse_policy env) tmp8 now now' files md)) (\<lambda>pv.
     bindA (\<lambda>st. (st\<lparr>pr_version := Some (pv_version pv)\<rparr>, Inr ())) (\<lambda>_.
     bindA run_id_of (\<lambda>rid.
     bindA (draw env) (\<lambda>(aid, ta) st.
       bindA (on_artifacts (register_policy aid ta pv (Some rid) (parents_of (pr_ckpt_art st)))) (\<lambda>_.
       bindA (get_run rid) (\<lambda>r.
         (let r' = r\<lparr>rr_policy_version := Some (pv_version pv)\<rparr> in
          bindA (set_run r') (\<lambda>_. bindA (save_run r') (\<lambda>_. ret pv))))) st))))))"

text \<open>\<open>self.policy_version or gen_v\<close>: a zero is falsy.\<close>

definition version_or :: "int option \<Rightarrow> int \<Rightarrow> int" where
  "version_or v gen = (case v of None \<Rightarrow> gen | Some x \<Rightarrow> if x = 0 then gen else x)"

record tag_args =
  ta_components :: json
  ta_advantage :: "real option"
  ta_prompt_id :: "string option"
  ta_generated :: "int option"
  ta_max_staleness :: int
  ta_mode :: string

definition pr_tag_trajectory ::
  "'g plat_env \<Rightarrow> config \<Rightarrow> tag_args \<Rightarrow> string \<Rightarrow> string \<Rightarrow> real \<Rightarrow> ('w, trajectory) plat_action" where
  "pr_tag_trajectory env cfg ta prompt response reward st =
     (let gen_v = (case (case ta_generated ta of None \<Rightarrow> pr_version st | Some g \<Rightarrow> Some g) of None \<Rightarrow> 0 | Some g \<Rightarrow> g) in
      case staleness_gate (version_or (pr_version st) gen_v) gen_v (ta_max_staleness ta) (ta_mode ta) of
        Inl msg \<Rightarrow> (st, Inl (PxStale msg))
      | Inr (s, warn) \<Rightarrow>
          bindA run_id_of (\<lambda>rid. bindA (draw env) (\<lambda>(tid, now) st'.
            (case Option.bind (make_step 0 response '''' (Some (Fin reward)) None) (\<lambda>step.
               make_trajectory tid SingleTurn prompt [step] (Some (Fin reward))
                 \<lparr>ln_policy_id = ''v'' @ show_int gen_v, ln_job_id = Some rid, ln_prompt_id = ta_prompt_id ta,
                  ln_seed = Some (xc_seed (cf_experiment cfg)), ln_parent_id = None\<rparr> now
                 [(''reward_components'', ta_components ta), (''advantage'', opt_json JNum (ta_advantage ta)),
                  (''staleness'', JInt s), (''staleness_warning'', opt_json JStr warn)]) of
               None \<Rightarrow> (st', Inl PxTrajectory)
             | Some t \<Rightarrow> (st'\<lparr>pr_traj := traj_put t (pr_traj st')\<rparr>, Inr t)))) st)"

definition pr_finish ::
  "'g plat_env \<Rightarrow> run_status \<Rightarrow> dict option \<Rightarrow> string option \<Rightarrow> dict option \<Rightarrow> ('w, unit) plat_action" where
  "pr_finish env fin eval_result best cost =
     bindA run_id_of (\<lambda>rid. bindA (draw env) (\<lambda>(_, now).
     bindA (on_exp (run_finish None now fin eval_result best cost rid)) (\<lambda>r.
     bindA (set_run r) (\<lambda>_.
       (case (if fin = RsSucceeded then eval_result else None) of
          None \<Rightarrow> ret ()
        | Some ev \<Rightarrow>
            bindA (draw env) (\<lambda>(aid, ta) st.
              bindA (on_artifacts (register_eval_report aid ta (''eval-'' @ rr_id r) None (Some (rr_id r))
                       (parents_of (pr_ckpt_art st)) ev)) (\<lambda>_. ret ()) st))))))"

definition pr_fail :: "'g plat_env \<Rightarrow> string \<Rightarrow> ('w, unit) plat_action" where
  "pr_fail env err st =
     (case pr_run st of
        None \<Rightarrow> (st, Inr ())
      | Some r \<Rightarrow>
          bindA (draw env) (\<lambda>(_, now).
          bindA (on_exp (run_finish None now RsFailed (Some [(''error'', JStr err)]) None None (rr_id r))) (\<lambda>r'.
            set_run r')) st)"

definition cost_estimate :: "real option \<Rightarrow> real \<Rightarrow> dict option" where
  "cost_estimate train_time rate =
     (case train_time of
        None \<Rightarrow> None
      | Some s \<Rightarrow> if s = 0 then None
          else Some [(''gpu_hours'', JNum (py_round 4 (s / 3600))), (''usd'', JNum (py_round 4 (s / 3600 * rate))),
                     (''rate_usd_per_hr'', JNum rate), (''note'', JStr ''ESTIMATE'')])"

section \<open>A run\<close>

record run_sample =
  sm_prompt :: string
  sm_response :: string
  sm_reward :: real
  sm_components :: json
  sm_prompt_id :: string

record run_out =
  ro_files :: "(string \<times> string) list"
  ro_result :: dict
  ro_train_time :: "real option"
  ro_samples :: "run_sample list"

text \<open>How a call of the runner ends: a result, a TypeError, another exception (its \<open>repr\<close>), or an
  exception that is no \<open>Exception\<close>.\<close>

datatype runner_outcome = RReturn run_out | RTypeError string | RRaise string | RAbort

definition runner_result :: "runner_outcome \<Rightarrow> ('w, run_out) plat_action" where
  "runner_result o' = (case o' of
     RReturn out' \<Rightarrow> ret out' | RTypeError s \<Rightarrow> raiseA (PxRunner s) | RRaise s \<Rightarrow> raiseA (PxRunner s)
   | RAbort \<Rightarrow> raiseA PxAbort)"

text \<open>The call with the resume argument, and on a TypeError the call without it.\<close>

definition call_runner :: "(bool \<Rightarrow> 'w \<Rightarrow> 'w \<times> runner_outcome) \<Rightarrow> ('w, run_out) plat_action" where
  "call_runner runner st =
     (case runner True (pr_world st) of
        (w, RTypeError _) \<Rightarrow>
          (case runner False w of (w', o') \<Rightarrow> runner_result o' (st\<lparr>pr_world := w'\<rparr>))
      | (w, o') \<Rightarrow> runner_result o' (st\<lparr>pr_world := w\<rparr>))"

definition tag_sample :: "'g plat_env \<Rightarrow> config \<Rightarrow> run_sample \<Rightarrow> ('w, trajectory) plat_action" where
  "tag_sample env cfg s =
     pr_tag_trajectory env cfg
       \<lparr>ta_components = sm_components s, ta_advantage = None, ta_prompt_id = Some (sm_prompt_id s),
        ta_generated = None, ta_max_staleness = 0, ta_mode = ''warn''\<rparr>
       (sm_prompt s) (sm_response s) (sm_reward s)"

record run_ref =
  rf_run_id :: string
  rf_best_checkpoint :: string
  rf_version :: int
  rf_result :: dict

definition run_body ::
  "'g plat_env \<Rightarrow> (string + backward_out) option \<Rightarrow> (bool \<Rightarrow> 'w \<Rightarrow> 'w \<times> runner_outcome) \<Rightarrow> config \<Rightarrow> int
    \<Rightarrow> real option \<Rightarrow> bool \<Rightarrow> ('w, run_ref) plat_action" where
  "run_body env torch runner cfg n_prompts gpu skip =
     bindA (if skip then ret [] else pr_preflight env torch cfg gpu None None) (\<lambda>_.
     bindA (pr_start env cfg n_prompts) (\<lambda>_.
     bindA (call_runner runner) (\<lambda>out'.
     bindA (pr_register_checkpoint env (ro_files out') (tc_steps (cf_training cfg))) (\<lambda>manifest.
     bindA (pr_publish_policy env (ro_files out')
              [(''step'', JInt (tc_steps (cf_training cfg))), (''algorithm'', JStr (algorithm_value (cf_algorithm cfg)))]) (\<lambda>pv.
     bindA (mapA (tag_sample env cfg) (ro_samples out')) (\<lambda>_.
     bindA (pr_finish env RsSucceeded (Some (ro_result out')) (Some (ck_id manifest))
              (cost_estimate (ro_train_time out') (40/100))) (\<lambda>_.
     bindA run_id_of (\<lambda>rid.
       ret \<lparr>rf_run_id = rid, rf_best_checkpoint = ck_id manifest, rf_version = pv_version pv,
            rf_result = ro_result out'\<rparr>))))))))"

text \<open>\<open>except Exception\<close>: the run is marked as failed and the exception raised again; \<open>repr_exc\<close>
  renders it.\<close>

definition run_through_platform ::
  "(plat_exc \<Rightarrow> string) \<Rightarrow> 'g plat_env \<Rightarrow> (string + backward_out) option \<Rightarrow> (bool \<Rightarrow> 'w \<Rightarrow> 'w \<times> runner_outcome)
    \<Rightarrow> config \<Rightarrow> int \<Rightarrow> real option \<Rightarrow> bool \<Rightarrow> ('w, run_ref) plat_action" where
  "run_through_platform repr_exc env torch runner cfg n_prompts gpu skip st =
     tryA (run_body env torch runner cfg n_prompts gpu skip)
       (\<lambda>e. if e = PxAbort then raiseA e else bindA (pr_fail env (repr_exc e)) (\<lambda>_. raiseA e))
       (open_platform st)"

end
