(* ===== verification/Platform_Props.thy ===== *)
theory Platform_Props
  imports Platform_Run
begin

text \<open>
  How a training run leaves the experiment registry.  The stages are chained with Hoare triples over
  two fields of the state, the run table and the orchestrator's current run; the stages that write the
  other stores keep every predicate of these two.
\<close>

section \<open>Predicates of the run table and the current run\<close>

text \<open>The run \<open>rid\<close> is current, its row satisfies \<open>F\<close>, and the rows of the other runs are as
  in \<open>t0\<close>.\<close>

definition registered ::
  "run_table \<Rightarrow> string \<Rightarrow> (run_record \<Rightarrow> bool) \<Rightarrow> run_table \<Rightarrow> run_record option \<Rightarrow> bool" where
  "registered t0 rid F t p \<longleftrightarrow>
     (\<exists>r. p = Some r \<and> rr_id r = rid) \<and> (\<exists>r. run_get t rid = Some r \<and> rr_id r = rid \<and> F r) \<and>
     (\<forall>k. k \<noteq> rid \<longrightarrow> run_get t k = run_get t0 k)"

definition unregistered :: "run_table \<Rightarrow> run_table \<Rightarrow> run_record option \<Rightarrow> bool" where
  "unregistered t0 t p \<longleftrightarrow> t = t0 \<and> p = None"

definition stopped :: "run_table \<Rightarrow> plat_exc \<Rightarrow> 'w plat \<Rightarrow> bool" where
  "stopped t0 e st \<longleftrightarrow>
     (if e = PxAbort then \<exists>rid. registered t0 rid (\<lambda>r. rr_status r = RsRunning) (pr_exp st) (pr_run st)
      else unregistered t0 (pr_exp st) (pr_run st) \<or>
           (\<exists>rid. registered t0 rid (\<lambda>_. True) (pr_exp st) (pr_run st)))"

abbreviation is_running :: "run_record \<Rightarrow> bool" where
  "is_running r \<equiv> rr_status r = RsRunning"

text \<open>A predicate of the two fields under which an ordinary exception is \<open>stopped\<close>.\<close>

definition framed :: "run_table \<Rightarrow> (run_table \<Rightarrow> run_record option \<Rightarrow> bool) \<Rightarrow> bool" where
  "framed t0 J \<longleftrightarrow> (\<forall>t p. J t p \<longrightarrow> unregistered t0 t p \<or> (\<exists>rid. registered t0 rid (\<lambda>_. True) t p))"

lemma framed_unregistered [simp]: "framed t0 (unregistered t0)"
  by (simp add: framed_def)

lemma framed_registered [simp]: "framed t0 (registered t0 rid F)"
  by (auto simp: framed_def registered_def)

lemma framed_stopped: "framed t0 J \<Longrightarrow> J (pr_exp st) (pr_run st) \<Longrightarrow> e \<noteq> PxAbort \<Longrightarrow> stopped t0 e st"
  by (simp add: framed_def stopped_def)

lemma registered_save:
  "registered t0 rid F t p \<Longrightarrow> rr_id r = rid \<Longrightarrow> G r \<Longrightarrow> registered t0 rid G (run_save r t) p"
  by (auto simp: registered_def runs.get_put)

section \<open>Stages that leave both fields alone\<close>

lemma draw_frame: "triple (\<lambda>st. J (pr_exp st) (pr_run st)) (draw env) (\<lambda>_ st. J (pr_exp st) (pr_run st)) E"
  by (simp add: triple_def draw_def)

lemma store_frames:
  assumes "framed t0 J"
  shows "triple (\<lambda>st. J (pr_exp st) (pr_run st)) (on_prompts m1) (\<lambda>_ st. J (pr_exp st) (pr_run st)) (stopped t0)"
    and "triple (\<lambda>st. J (pr_exp st) (pr_run st)) (on_ckpts m2) (\<lambda>_ st. J (pr_exp st) (pr_run st)) (stopped t0)"
    and "triple (\<lambda>st. J (pr_exp st) (pr_run st)) (on_policies m3) (\<lambda>_ st. J (pr_exp st) (pr_run st)) (stopped t0)"
    and "triple (\<lambda>st. J (pr_exp st) (pr_run st)) (on_artifacts m4) (\<lambda>_ st. J (pr_exp st) (pr_run st)) (stopped t0)"
  by (auto simp: triple_def on_prompts_def on_ckpts_def on_policies_def on_artifacts_def
      split: prod.splits sum.splits intro!: framed_stopped [OF assms])

lemma run_id_frame:
  "triple (\<lambda>st. registered t0 rid F (pr_exp st) (pr_run st)) run_id_of
     (\<lambda>x st. x = rid \<and> registered t0 rid F (pr_exp st) (pr_run st)) E"
  by (auto simp: triple_def run_id_of_def registered_def)

lemma get_run_frame:
  "triple (\<lambda>st. registered t0 rid F (pr_exp st) (pr_run st)) (get_run rid)
     (\<lambda>r st. rr_id r = rid \<and> F r \<and> registered t0 rid F (pr_exp st) (pr_run st)) E"
  by (auto simp: triple_def get_run_def registered_def)

section \<open>The stages of a run\<close>

abbreviation at_run ::
  "run_table \<Rightarrow> string \<Rightarrow> (run_record \<Rightarrow> bool) \<Rightarrow> 'w plat \<Rightarrow> bool" where
  "at_run t0 rid F st \<equiv> registered t0 rid F (pr_exp st) (pr_run st)"

lemma preflight_stage:
  "triple (\<lambda>st. unregistered t0 (pr_exp st) (pr_run st)) (if skip then ret [] else pr_preflight env torch cfg gpu None None)
     (\<lambda>_ st. unregistered t0 (pr_exp st) (pr_run st)) (stopped t0)"
  by (auto simp: triple_def pr_preflight_def split: sum.splits intro!: framed_stopped [OF framed_unregistered])

lemma set_run_stage:
  "triple (at_run t0 rid F) (set_run r) (\<lambda>_. at_run t0 rid F) E" if "rr_id r = rid"
  using that by (auto simp: triple_def set_run_def registered_def)

lemma save_run_stage:
  "triple (at_run t0 rid F) (save_run r) (\<lambda>_. at_run t0 rid G) E" if "rr_id r = rid" and "G r"
  using that by (auto simp: triple_def save_run_def intro: registered_save)

text \<open>The first write of a new run.\<close>

lemma new_run_stage:
  "triple (\<lambda>st. unregistered t0 (pr_exp st) (pr_run st)) (bindA (set_run r) (\<lambda>_. bindA (save_run r) f)) Q E"
  if "triple (at_run t0 (rr_id r) (\<lambda>_. True)) (f ()) Q E"
  using that
  by (auto simp: triple_def set_run_def save_run_def unregistered_def registered_def runs.get_put bindA_def)

lemma update_stage:
  "triple (at_run t0 rid F) (on_exp (run_update h rid)) (\<lambda>r st. rr_id r = rid \<and> G r \<and> at_run t0 rid (\<lambda>x. x = r) st) E"
  if "\<And>r. rr_id (h r) = rr_id r" and "\<And>r. F r \<Longrightarrow> G (h r)"
  using that by (auto simp: triple_def on_exp_def run_update_def registered_def runs.get_put)

lemmas draw_bind = triple_bind [OF draw_frame, OF triple_split]

lemma registered_mono: "registered t0 rid F t p \<Longrightarrow> (\<And>r. F r \<Longrightarrow> G r) \<Longrightarrow> registered t0 rid G t p"
  by (auto simp: registered_def)

lemma dataset_stage:
  "triple (at_run t0 rid F) (bindA (draw env) (\<lambda>(aid, ta).
      bindA (on_artifacts (register_prompt_dataset aid ta meta (Some rid))) (\<lambda>art.
      bindA (\<lambda>st. (st\<lparr>pr_dataset_art := Some art\<rparr>, Inr ())) (\<lambda>_. get_run rid))))
    (\<lambda>_. at_run t0 rid F) (stopped t0)"
proof (rule draw_bind, rule triple_bind [OF store_frames(4)])
  fix aid ta art
  show "triple (at_run t0 rid F) (bindA (\<lambda>st. (st\<lparr>pr_dataset_art := Some art\<rparr>, Inr ())) (\<lambda>_. get_run rid))
    (\<lambda>_. at_run t0 rid F) (stopped t0)"
  proof (rule triple_bind)
    show "triple (at_run t0 rid F) (\<lambda>st. (st\<lparr>pr_dataset_art := Some art\<rparr>, Inr ())) (\<lambda>_. at_run t0 rid F) (stopped t0)"
      by (simp add: triple_def)
    show "triple (at_run t0 rid F) (get_run rid) (\<lambda>_. at_run t0 rid F) (stopped t0)"
      by (rule triple_post [OF get_run_frame]) simp
  qed
qed simp

lemma start_stage:
  "triple (\<lambda>st. unregistered t0 (pr_exp st) (pr_run st)) (pr_start env cfg n)
     (\<lambda>_ st. \<exists>rid. at_run t0 rid is_running st) (stopped t0)"
proof -
  have start: "triple (at_run t0 rid (\<lambda>_. True)) (on_exp (run_start None now rid)) (\<lambda>_. at_run t0 rid is_running) (stopped t0)"
    for rid now
    unfolding run_start_def
    by (rule triple_post [OF update_stage [where G = is_running]]) (auto intro: registered_mono)
  have rest: "triple (at_run t0 rid (\<lambda>_. True)) (bindA (draw env) (\<lambda>(u, now').
      bindA (on_exp (run_start None now' rid)) (\<lambda>_. bindA (draw env) (\<lambda>(aid, ta).
      bindA (on_artifacts (register_prompt_dataset aid ta meta (Some rid))) (\<lambda>art.
      bindA (\<lambda>st. (st\<lparr>pr_dataset_art := Some art\<rparr>, Inr ())) (\<lambda>_. get_run rid))))))
      (\<lambda>_ st. \<exists>rid. at_run t0 rid is_running st) (stopped t0)" for rid meta
    by (rule draw_bind, rule triple_bind [OF start], rule triple_post [OF dataset_stage]) blast
  show ?thesis
    unfolding pr_start_def Let_def
  proof (rule draw_bind, rule triple_bind [OF store_frames(1)], simp, rule draw_bind, rule new_run_stage)
    fix meta rid and now :: real
    let ?r = "record_from_config (en_sha env) (en_commit env) rid now
                (run_config_of (en_dump env) (en_dump_rewards env) cfg)
                (\<lambda>r. r\<lparr>rr_dataset_version := dm_version meta\<rparr>)"
    have "rr_id ?r = rid" by (simp add: record_from_config_def new_run_def)
    then show "triple (at_run t0 (rr_id ?r) (\<lambda>_. True)) (bindA (draw env) (\<lambda>(u, now').
      bindA (on_exp (run_start None now' rid)) (\<lambda>_. bindA (draw env) (\<lambda>(aid, ta).
      bindA (on_artifacts (register_prompt_dataset aid ta (dataset_meta.truncate meta) (Some rid))) (\<lambda>art.
      bindA (\<lambda>st. (st\<lparr>pr_dataset_art := Some art\<rparr>, Inr ())) (\<lambda>_. get_run rid))))))
      (\<lambda>_ st. \<exists>rid. at_run t0 rid is_running st) (stopped t0)"
      using rest by simp
  qed
qed

lemma runner_stage:
  "triple (at_run t0 rid is_running) (call_runner runner) (\<lambda>_. at_run t0 rid is_running) (stopped t0)"
proof -
  have fr: "framed t0 (registered t0 rid is_running)" by simp
  show ?thesis
    by (auto simp: triple_def call_runner_def runner_result_def ret_def raiseA_def stopped_def
        split: prod.splits sum.splits runner_outcome.splits intro: registered_mono)
qed

lemma artifact_stage:
  assumes "\<And>a. triple (at_run t0 rid F) (h a) Q (stopped t0)"
  shows "triple (at_run t0 rid F) (\<lambda>st. bindA (on_artifacts (g st)) h st) Q (stopped t0)"
proof (rule tripleI)
  fix s
  have "triple (at_run t0 rid F) (bindA (on_artifacts (g s)) h) Q (stopped t0)"
    by (rule triple_bind [OF store_frames(4)]) (simp_all add: assms)
  moreover assume "at_run t0 rid F s"
  ultimately show "case bindA (on_artifacts (g s)) h s of
      (s', Inl e) \<Rightarrow> stopped t0 e s' | (s', Inr x) \<Rightarrow> Q x s'"
    by (simp add: triple_def)
qed

lemma checkpoint_stage:
  "triple (at_run t0 rid F) (pr_register_checkpoint env files step)
     (\<lambda>m st. ck_id m \<noteq> [] \<and> at_run t0 rid F st) (stopped t0)"
  unfolding pr_register_checkpoint_def
proof (rule draw_bind, rule draw_bind, rule triple_bind, rule_tac [2] triple_pure, rule_tac [2] triple_bind [OF run_id_frame],
    rule_tac [2] triple_pure, rule_tac [2] draw_bind, rule_tac [2] artifact_stage)
  fix hex8 tmp8 and now now' :: real
  show "triple (at_run t0 rid F)
      (on_ckpts (save (en_sha env) hex8 tmp8 now now' step (Some (''step-'' @ show_int step)) [] files))
      (\<lambda>m st. ck_id m \<noteq> [] \<and> at_run t0 rid F st) (stopped t0)"
    by (auto simp: triple_def on_ckpts_def save_def Let_def make_manifest_def ckpt_id_of_def
        split: prod.splits sum.splits intro!: framed_stopped [OF framed_registered])
qed (simp add: triple_def)

text \<open>Writing a changed copy of the current run.\<close>

lemma rewrite_stage:
  assumes "rr_id r = rid"
  shows "triple (at_run t0 rid F) (bindA (set_run r) (\<lambda>_. bindA (save_run r) (\<lambda>_. ret x)))
    (\<lambda>y st. y = x \<and> at_run t0 rid (\<lambda>z. z = r) st) E"
  by (rule triple_bind [OF set_run_stage [OF assms]], rule triple_bind [OF save_run_stage [OF assms, where G = "\<lambda>z. z = r"]])
    (auto intro: triple_intros)

lemma publish_stage:
  "triple (at_run t0 rid F) (pr_publish_policy env files md)
     (\<lambda>pv. at_run t0 rid (\<lambda>r. rr_policy_version r = Some (pv_version pv))) (stopped t0)"
  unfolding pr_publish_policy_def Let_def
proof (rule draw_bind, rule draw_bind, rule triple_bind [OF store_frames(3) [OF framed_registered]],
    rule triple_bind [where R = "\<lambda>_. at_run t0 rid F"], rule_tac [2] triple_bind [OF run_id_frame],
    rule_tac [2] triple_pure, rule_tac [2] draw_bind, rule_tac [2] artifact_stage)
  fix pv :: policy_version and rid'
  show "triple (at_run t0 rid F) (\<lambda>st. (st\<lparr>pr_version := Some (pv_version pv)\<rparr>, Inr ())) (\<lambda>_. at_run t0 rid F) (stopped t0)"
    by (simp add: triple_def)
  assume "rid' = rid"
  moreover have "triple (at_run t0 rid F) (bindA (get_run rid) (\<lambda>r.
        bindA (set_run (r\<lparr>rr_policy_version := Some (pv_version pv)\<rparr>))
          (\<lambda>_. bindA (save_run (r\<lparr>rr_policy_version := Some (pv_version pv)\<rparr>)) (\<lambda>_. ret pv))))
      (\<lambda>pv. at_run t0 rid (\<lambda>r. rr_policy_version r = Some (pv_version pv))) (stopped t0)"
    by (rule triple_bind [OF get_run_frame], rule triple_pure, rule triple_pure, rule triple_post [OF rewrite_stage])
      (auto intro: registered_mono)
  ultimately show "triple (at_run t0 rid F) (bindA (get_run rid') (\<lambda>r.
        bindA (set_run (r\<lparr>rr_policy_version := Some (pv_version pv)\<rparr>))
          (\<lambda>_. bindA (save_run (r\<lparr>rr_policy_version := Some (pv_version pv)\<rparr>)) (\<lambda>_. ret pv))))
      (\<lambda>pv. at_run t0 rid (\<lambda>r. rr_policy_version r = Some (pv_version pv))) (stopped t0)" by simp
qed

lemma tag_stage: "triple (at_run t0 rid F) (tag_sample env cfg s) (\<lambda>_. at_run t0 rid F) (stopped t0)"
  by (auto simp: triple_def tag_sample_def pr_tag_trajectory_def Let_def run_id_of_def draw_def bindA_def
      split: sum.splits prod.splits option.splits intro!: framed_stopped [OF framed_registered])

text \<open>The finished row is the current run.\<close>

definition finished ::
  "run_table \<Rightarrow> (run_record \<Rightarrow> bool) \<Rightarrow> run_table \<Rightarrow> run_record option \<Rightarrow> bool" where
  "finished t0 F t p \<longleftrightarrow> (\<exists>r. p = Some r \<and> run_get t (rr_id r) = Some r \<and> F r \<and>
     (\<forall>k. k \<noteq> rr_id r \<longrightarrow> run_get t k = run_get t0 k))"

lemma framed_finished [simp]: "framed t0 (finished t0 F)"
  by (auto simp: framed_def finished_def registered_def)

lemma set_finished_stage:
  "triple (\<lambda>st. at_run t0 rid (\<lambda>x. x = r) st) (set_run r)
     (\<lambda>_ st. finished t0 (\<lambda>x. x = r) (pr_exp st) (pr_run st)) E" if "rr_id r = rid"
  using that by (auto simp: triple_def set_run_def registered_def finished_def)

text \<open>The artifacts of a finished run.\<close>

lemma eval_stage:
  "triple (\<lambda>st. finished t0 G (pr_exp st) (pr_run st))
     (\<lambda>st. bindA (on_artifacts (g st)) (\<lambda>_. ret ()) st) (\<lambda>_ st. finished t0 G (pr_exp st) (pr_run st)) (stopped t0)"
  by (auto simp: triple_def bindA_def on_artifacts_def split: prod.splits sum.splits
      intro!: framed_stopped [OF framed_finished])

lemma finish_id [simp]: "rr_id (finish_with fin ev ckpt cost t r) = rr_id r"
  by (simp add: finish_with_def)

lemma finish_stage:
  assumes "\<And>t r. F r \<Longrightarrow> G (finish_with RsSucceeded (Some ev) ckpt cost t r)"
  shows "triple (at_run t0 rid F) (pr_finish env RsSucceeded (Some ev) ckpt cost)
     (\<lambda>_ st. finished t0 G (pr_exp st) (pr_run st)) (stopped t0)"
  unfolding pr_finish_def run_finish_def if_P [OF refl] option.case
proof (rule triple_bind [OF run_id_frame], rule triple_pure, clarify, rule draw_bind,
    rule triple_bind [OF update_stage [where G = G]])
  fix now r
  have stored: "triple (at_run t0 rid (\<lambda>x. x = r)) (bindA (set_run r) (\<lambda>_. bindA (draw env) (\<lambda>(aid, ta) st.
      bindA (on_artifacts (register_eval_report aid ta (''eval-'' @ rr_id r) None (Some (rr_id r))
         (parents_of (pr_ckpt_art st)) ev)) (\<lambda>_. ret ()) st)))
      (\<lambda>_ st. finished t0 G (pr_exp st) (pr_run st)) (stopped t0)" if "rr_id r = rid" and "G r"
  proof (rule triple_bind [OF triple_post [OF set_finished_stage]])
    show "finished t0 G (pr_exp s) (pr_run s)" if "finished t0 (\<lambda>x. x = r) (pr_exp s) (pr_run s)" for s
      using that \<open>G r\<close> by (auto simp: finished_def)
  qed (fact that(1), rule draw_bind, rule eval_stage)
  show "triple (\<lambda>st. rr_id r = rid \<and> G r \<and> at_run t0 rid (\<lambda>x. x = r) st) (bindA (set_run r) (\<lambda>_. bindA (draw env) (\<lambda>(aid, ta) st.
      bindA (on_artifacts (register_eval_report aid ta (''eval-'' @ rr_id r) None (Some (rr_id r))
         (parents_of (pr_ckpt_art st)) ev)) (\<lambda>_. ret ()) st)))
      (\<lambda>_ st. finished t0 G (pr_exp st) (pr_run st)) (stopped t0)"
    by (intro triple_pure, rule stored)
qed (simp_all add: assms)

lemma fail_stage:
  fixes E :: "plat_exc \<Rightarrow> 'w plat \<Rightarrow> bool"
  assumes "e \<noteq> PxAbort"
  shows "triple (stopped t0 e) (pr_fail env err) (\<lambda>_ st. unregistered t0 (pr_exp st) (pr_run st) \<or>
       finished t0 (\<lambda>r. rr_status r = RsFailed \<and> rr_eval_result r = Some [(''error'', JStr err)]) (pr_exp st) (pr_run st)) E"
proof (rule tripleI)
  fix s :: "'w plat"
  assume "stopped t0 e s"
  then consider "unregistered t0 (pr_exp s) (pr_run s)" | rid where "at_run t0 rid (\<lambda>_. True) s"
    using assms by (auto simp: stopped_def)
  then show "case pr_fail env err s of (s', Inl e') \<Rightarrow> E e' s'
    | (s', Inr x) \<Rightarrow> unregistered t0 (pr_exp s') (pr_run s') \<or>
       finished t0 (\<lambda>r. rr_status r = RsFailed \<and> rr_eval_result r = Some [(''error'', JStr err)]) (pr_exp s') (pr_run s')"
  proof cases
    case 1
    then show ?thesis by (simp add: pr_fail_def unregistered_def)
  next
    case 2
    then show ?thesis
      by (auto simp: pr_fail_def registered_def finished_def draw_def bindA_def on_exp_def run_finish_def
          run_update_def set_run_def runs.get_put finish_with_def)
  qed
qed

section \<open>A whole run\<close>

definition succeeded_as :: "run_ref \<Rightarrow> run_record \<Rightarrow> bool" where
  "succeeded_as ref r \<longleftrightarrow> rr_id r = rf_run_id ref \<and> rr_status r = RsSucceeded \<and>
     rr_best_checkpoint r = Some (rf_best_checkpoint ref) \<and> rr_policy_version r = Some (rf_version ref) \<and>
     rr_eval_result r = Some (rf_result ref)"

lemma run_stage:
  "triple (\<lambda>st. unregistered t0 (pr_exp st) (pr_run st)) (run_body env torch runner cfg n gpu skip)
     (\<lambda>ref st. finished t0 (succeeded_as ref) (pr_exp st) (pr_run st)) (stopped t0)"
  unfolding run_body_def
proof (rule triple_bind [OF preflight_stage], rule triple_bind [OF start_stage], rule triple_ex,
    rule triple_bind [OF runner_stage], rule triple_bind [OF checkpoint_stage], rule triple_pure,
    rule triple_bind [OF publish_stage], rule triple_bind [OF triple_mapA [OF tag_stage]], rule triple_bind)
  fix rid out' manifest pv
  assume "ck_id manifest \<noteq> []"
  then show "triple (at_run t0 rid (\<lambda>r. rr_policy_version r = Some (pv_version pv)))
      (pr_finish env RsSucceeded (Some (ro_result out')) (Some (ck_id manifest)) (cost_estimate (ro_train_time out') (40/100)))
      (\<lambda>_ st. finished t0 (\<lambda>r. rr_status r = RsSucceeded \<and> rr_best_checkpoint r = Some (ck_id manifest) \<and>
         rr_policy_version r = Some (pv_version pv) \<and> rr_eval_result r = Some (ro_result out')) (pr_exp st) (pr_run st)) (stopped t0)"
    by (intro finish_stage) (simp add: finish_with_def)
  show "triple (\<lambda>st. finished t0 (\<lambda>r. rr_status r = RsSucceeded \<and> rr_best_checkpoint r = Some (ck_id manifest) \<and>
         rr_policy_version r = Some (pv_version pv) \<and> rr_eval_result r = Some (ro_result out')) (pr_exp st) (pr_run st))
      (bindA run_id_of (\<lambda>rid. ret \<lparr>rf_run_id = rid, rf_best_checkpoint = ck_id manifest, rf_version = pv_version pv,
            rf_result = ro_result out'\<rparr>))
      (\<lambda>ref st. finished t0 (succeeded_as ref) (pr_exp st) (pr_run st)) (stopped t0)"
    by (auto simp: triple_def run_id_of_def finished_def succeeded_as_def bindA_def)
qed

text \<open>C22. A training run driven through the platform never leaves its experiment record open.  When
  the call returns, the record of the returned run is SUCCEEDED with the returned checkpoint, policy
  version and result.  When it raises, either no run was recorded (and the table is untouched) or the
  record is FAILED with the exception's text; only an exception that is no \<open>Exception\<close>, an
  interrupt of the runner, passes the handler by and leaves the record RUNNING.  The rows of other
  runs stay as they were in every case.\<close>

theorem platform_run_settles:
  fixes st :: "'w plat"
  shows "case run_through_platform repr_exc env torch runner cfg n gpu skip st of
     (st', Inr ref) \<Rightarrow> finished (pr_exp st) (succeeded_as ref) (pr_exp st') (pr_run st')
   | (st', Inl e) \<Rightarrow>
       if e = PxAbort then \<exists>rid. registered (pr_exp st) rid is_running (pr_exp st') (pr_run st')
       else unregistered (pr_exp st) (pr_exp st') (pr_run st') \<or>
         finished (pr_exp st) (\<lambda>r. rr_status r = RsFailed \<and> rr_eval_result r = Some [(''error'', JStr (repr_exc e))])
           (pr_exp st') (pr_run st')"
proof -
  define E where "E = (\<lambda>e st'. if e = PxAbort then \<exists>rid. registered (pr_exp st) rid is_running (pr_exp st') (pr_run st')
       else unregistered (pr_exp st) (pr_exp st') (pr_run st') \<or>
         finished (pr_exp st) (\<lambda>r. rr_status r = RsFailed \<and> rr_eval_result r = Some [(''error'', JStr (repr_exc e))])
           (pr_exp (st' :: 'w plat)) (pr_run st'))"
  have "triple (\<lambda>st'. unregistered (pr_exp st) (pr_exp st') (pr_run st'))
      (tryA (run_body env torch runner cfg n gpu skip)
        (\<lambda>e. if e = PxAbort then raiseA e else bindA (pr_fail env (repr_exc e)) (\<lambda>_. raiseA e)))
      (\<lambda>ref st'. finished (pr_exp st) (succeeded_as ref) (pr_exp st') (pr_run st')) E"
  proof (rule triple_try [OF run_stage])
    fix e
    show "triple (stopped (pr_exp st) e) (if e = PxAbort then raiseA e else bindA (pr_fail env (repr_exc e)) (\<lambda>_. raiseA e))
      (\<lambda>ref st'. finished (pr_exp st) (succeeded_as ref) (pr_exp st') (pr_run st')) E"
    proof (cases "e = PxAbort")
      case True
      then show ?thesis by (simp add: triple_def E_def stopped_def)
    next
      case False
      then show ?thesis
        by (simp, intro triple_bind [OF fail_stage]) (auto simp: triple_def E_def)
    qed
  qed
  moreover have "unregistered (pr_exp st) (pr_exp (open_platform st)) (pr_run (open_platform st))"
    by (simp add: unregistered_def open_platform_def)
  ultimately show ?thesis
    by (simp add: triple_def run_through_platform_def E_def)
qed

end
