(* ===== verification/Api_Client.thy ===== *)
theory Api_Client
  imports Api
begin

text \<open>
  \<^verbatim>\<open>src/shoprl/platform/api_client.py\<close>: the client through which the operations console sees the
  platform.  A method is a request to the handlers of \<open>Api\<close>, over the application in the same
  process (Starlette's test client, which lets a server's exception through) or over the network.
  Identifiers are put into the path as they are; they are taken to be one segment of it.
\<close>

section \<open>The server\<close>

text \<open>What lies behind the API: the databases and registries, and per request the files it reads, the
  fresh id, the clock and the writes of other processes.\<close>

record web =
  wb_pf :: platform
  wb_runs :: run_table
  wb_policies :: policy_fs
  wb_artifacts :: artifact_db

record web_env =
  we_root :: string
  we_ckpt :: ckpt_env
  we_loads :: "string \<Rightarrow> json option"
  we_policy :: "string \<Rightarrow> policy_version option"
  we_metrics :: "string \<Rightarrow> string option"
  we_run_dirs :: "(string \<times> bool) list option"
  we_comparisons :: "(string \<times> string option) list option"
  we_traj_db :: bool
  we_other :: "store \<Rightarrow> store"
  we_fresh :: string
  we_now :: real
  we_gpu :: "real option"

definition at_jobs :: "(store, 'a) handler_fn \<Rightarrow> (web, 'a) handler_fn" where
  "at_jobs h w = (case h (pf_jobs (wb_pf w)) of (s, r) \<Rightarrow> (w\<lparr>wb_pf := (wb_pf w)\<lparr>pf_jobs := s\<rparr>\<rparr>, r))"

definition at_traj :: "(traj_table, 'a) handler_fn \<Rightarrow> (web, 'a) handler_fn" where
  "at_traj h w = (case h (pf_traj (wb_pf w)) of (s, r) \<Rightarrow> (w\<lparr>wb_pf := (wb_pf w)\<lparr>pf_traj := s\<rparr>\<rparr>, r))"

definition at_ckpts :: "(ckpt_fs, 'a) handler_fn \<Rightarrow> (web, 'a) handler_fn" where
  "at_ckpts h w = (case h (pf_ckpts (wb_pf w)) of (s, r) \<Rightarrow> (w\<lparr>wb_pf := (wb_pf w)\<lparr>pf_ckpts := s\<rparr>\<rparr>, r))"

definition at_platform :: "(platform, 'a) handler_fn \<Rightarrow> (web, 'a) handler_fn" where
  "at_platform h w = (case h (wb_pf w) of (s, r) \<Rightarrow> (w\<lparr>wb_pf := s\<rparr>, r))"

definition at_recovery :: "(recovery_state, 'a) handler_fn \<Rightarrow> (web, 'a) handler_fn" where
  "at_recovery h w =
     (case h \<lparr>rc_store = pf_jobs (wb_pf w), rc_log = pf_events (wb_pf w)\<rparr> of
        (rs, r) \<Rightarrow> (w\<lparr>wb_pf := (wb_pf w)\<lparr>pf_jobs := rc_store rs, pf_events := rc_log rs\<rparr>\<rparr>, r))"

definition at_runs :: "(run_table, 'a) handler_fn \<Rightarrow> (web, 'a) handler_fn" where
  "at_runs h w = (case h (wb_runs w) of (s, r) \<Rightarrow> (w\<lparr>wb_runs := s\<rparr>, r))"

definition at_policies :: "(policy_fs, 'a) handler_fn \<Rightarrow> (web, 'a) handler_fn" where
  "at_policies h w = (case h (wb_policies w) of (s, r) \<Rightarrow> (w\<lparr>wb_policies := s\<rparr>, r))"

definition at_artifacts :: "(artifact_db, 'a) handler_fn \<Rightarrow> (web, 'a) handler_fn" where
  "at_artifacts h w = (case h (wb_artifacts w) of (s, r) \<Rightarrow> (w\<lparr>wb_artifacts := s\<rparr>, r))"

definition reads :: "'a http \<Rightarrow> (web, 'a) handler_fn" where
  "reads r w = (w, r)"

section \<open>Requests\<close>

text \<open>\<open>Remote False\<close>: no server answers there.\<close>

datatype transport = InProcess | Remote bool

datatype client_exn =
    HTTPStatusError nat
  | ServerException
  | ConnectError

text \<open>\<open>raise_for_status\<close>.\<close>

fun accept :: "transport \<Rightarrow> 'a http \<Rightarrow> client_exn + 'a" where
  "accept tr (Reply n x) = (if 400 \<le> n then Inl (HTTPStatusError n) else Inr x)"
| "accept tr (HttpError n _) = Inl (HTTPStatusError n)"
| "accept tr Invalid = Inl (HTTPStatusError 422)"
| "accept tr Unhandled = Inl (if tr = InProcess then ServerException else HTTPStatusError 500)"

type_synonym 'a request = "(web, client_exn, 'a) action"

definition request :: "transport \<Rightarrow> (web, 'a) handler_fn \<Rightarrow> 'a request" where
  "request tr h w =
     (if tr = Remote False then (w, Inl ConnectError)
      else (case h w of (w', r) \<Rightarrow> (w', accept tr r)))"

definition request_optional :: "transport \<Rightarrow> (web, 'a) handler_fn \<Rightarrow> 'a option request" where
  "request_optional tr h w =
     (if tr = Remote False then (w, Inl ConnectError)
      else (case h w of (w', r) \<Rightarrow>
              (w', if status_of r = 404 then Inr None
                   else (case accept tr r of Inl e \<Rightarrow> Inl e | Inr x \<Rightarrow> Inr (Some x)))))"

section \<open>Methods that read\<close>

definition c_health :: "web_env \<Rightarrow> transport \<Rightarrow> (string \<times> string) request" where
  "c_health we tr = request tr (reads (health (we_root we)))"

definition c_overview :: "web_env \<Rightarrow> transport \<Rightarrow> dash_snapshot request" where
  "c_overview we tr = request tr (at_platform (overview (we_ckpt we) (we_loads we)))"

definition c_scheduler :: "web_env \<Rightarrow> transport \<Rightarrow> sched_status request" where
  "c_scheduler we tr = request tr (at_jobs scheduler_status)"

text \<open>A text in the query is parsed to the enumeration; 422 for another word.\<close>

definition job_states_all :: "job_state list" where
  "job_states_all = [PENDING, RUNNING, PAUSED, RETRYING, SUCCEEDED, FAILED, DEAD_LETTER, CANCELLED]"

definition parse_query :: "('k \<Rightarrow> string) \<Rightarrow> 'k list \<Rightarrow> string option \<Rightarrow> 'k option option" where
  "parse_query val ks q = (case q of None \<Rightarrow> Some None | Some x \<Rightarrow> map_option Some (find (\<lambda>k. val k = x) ks))"

definition c_jobs :: "transport \<Rightarrow> string option \<Rightarrow> string option \<Rightarrow> job_out list request" where
  "c_jobs tr st resource =
     request tr (case parse_query state_value job_states_all st of
        None \<Rightarrow> reads Invalid | Some x \<Rightarrow> at_jobs (api_list_jobs x resource 200))"

definition c_job :: "transport \<Rightarrow> string \<Rightarrow> job_out request" where
  "c_job tr jid = request tr (at_jobs (api_get_job jid))"

definition c_checkpoints :: "web_env \<Rightarrow> transport \<Rightarrow> ckpt_view list request" where
  "c_checkpoints we tr = request tr (at_platform (api_checkpoints (we_ckpt we) (we_loads we)))"

definition c_trajectories ::
  "web_env \<Rightarrow> transport \<Rightarrow> int \<Rightarrow> (string \<times> string \<times> real option \<times> traj_kind) list request" where
  "c_trajectories we tr limit = request tr (at_traj (api_list_trajectories (we_traj_db we) limit))"

definition c_trajectory :: "transport \<Rightarrow> string \<Rightarrow> traj_detail request" where
  "c_trajectory tr tid = request tr (at_traj (api_get_trajectory tid))"

definition c_runs :: "transport \<Rightarrow> run_record list request" where
  "c_runs tr = request tr (at_runs (api_list_runs None None))"

definition c_run :: "transport \<Rightarrow> string \<Rightarrow> run_record request" where
  "c_run tr rid = request tr (at_runs (api_get_run rid))"

definition c_run_metrics :: "web_env \<Rightarrow> transport \<Rightarrow> string \<Rightarrow> run_metrics_out option request" where
  "c_run_metrics we tr rid = request_optional tr (reads (run_metrics (we_loads we) (we_metrics we) rid))"

definition c_run_alerts :: "web_env \<Rightarrow> transport \<Rightarrow> string \<Rightarrow> alerts_out option request" where
  "c_run_alerts we tr rid = request_optional tr (reads (run_alerts (we_loads we) (we_metrics we) rid))"

definition c_metrics_runs :: "web_env \<Rightarrow> transport \<Rightarrow> string list request" where
  "c_metrics_runs we tr = request tr (reads (Reply 200 (metrics_runs (we_run_dirs we))))"

definition c_comparisons :: "web_env \<Rightarrow> transport \<Rightarrow> comparison_out list request" where
  "c_comparisons we tr = request tr (reads (api_comparisons (we_loads we) (we_comparisons we)))"

definition c_compare_runs :: "transport \<Rightarrow> string list \<Rightarrow> comparison request" where
  "c_compare_runs tr ids = request tr (at_runs (api_compare_runs (join '','' ids)))"

definition c_policies :: "web_env \<Rightarrow> transport \<Rightarrow> policy_version list request" where
  "c_policies we tr = request tr (at_policies (api_list_policies (we_policy we)))"

definition c_policy_latest :: "web_env \<Rightarrow> transport \<Rightarrow> policy_version option request" where
  "c_policy_latest we tr = request_optional tr (at_policies (api_latest_policy (we_policy we)))"

definition c_policy_staleness :: "web_env \<Rightarrow> transport \<Rightarrow> (int \<times> (nat + staleness_summary)) option request" where
  "c_policy_staleness we tr = request_optional tr
     (\<lambda>w. (w, policy_staleness (we_policy we) (pf_traj (wb_pf w)) (wb_policies w)))"

definition artifact_types_all :: "artifact_type list" where
  "artifact_types_all = [CHECKPOINT, PROMPT_DATASET, POLICY, BENCHMARK, EVAL_REPORT]"

definition c_artifacts :: "transport \<Rightarrow> string option \<Rightarrow> string option \<Rightarrow> artifact list request" where
  "c_artifacts tr ty rid =
     request tr (case parse_query artifact_type_value artifact_types_all ty of
        None \<Rightarrow> reads Invalid | Some x \<Rightarrow> at_artifacts (api_list_artifacts x rid))"

section \<open>Methods that act\<close>

definition c_pause :: "web_env \<Rightarrow> transport \<Rightarrow> string \<Rightarrow> job_out request" where
  "c_pause we tr jid = request tr (at_jobs (pause_job (we_other we) (we_now we) jid))"

definition c_resume :: "web_env \<Rightarrow> transport \<Rightarrow> string \<Rightarrow> job_out request" where
  "c_resume we tr jid = request tr (at_jobs (resume_job (we_other we) (we_now we) jid))"

definition c_cancel :: "web_env \<Rightarrow> transport \<Rightarrow> string \<Rightarrow> job_out request" where
  "c_cancel we tr jid = request tr (at_jobs (cancel_job (we_other we) (we_now we) jid))"

definition c_kill_worker :: "web_env \<Rightarrow> transport \<Rightarrow> kill_report request" where
  "c_kill_worker we tr = request tr (at_jobs (dev_kill_worker (we_fresh we) (we_now we)))"

definition c_replay :: "web_env \<Rightarrow> transport \<Rightarrow> string \<Rightarrow> (string \<times> string) request" where
  "c_replay we tr tid = request tr (at_traj (dev_replay (we_fresh we) (we_now we) tid))"

definition c_corrupt_checkpoint :: "web_env \<Rightarrow> transport \<Rightarrow> corrupt_report request" where
  "c_corrupt_checkpoint we tr = request tr (at_ckpts (dev_corrupt_checkpoint (we_ckpt we)))"

definition c_sim_oom :: "web_env \<Rightarrow> transport \<Rightarrow> oom_report request" where
  "c_sim_oom we tr w =
     request tr (at_recovery (dev_oom (ce_parse (we_ckpt we)) (pf_ckpts (wb_pf w))
       (path_join (we_root we) ''recovery_events.jsonl'') (we_fresh we) (we_gpu we) (we_now we))) w"

end
