(* ===== verification/Ops_Console.thy ===== *)
theory Ops_Console
  imports Api_Client
begin

text \<open>
  \<^verbatim>\<open>src/shoprl/platform/ops_console.py\<close>: the operations console.  One run of the script draws
  widgets, in order, from the client's replies and from what the user has entered, and a pressed button
  of the sidebar sends one request.  A widget carries the values it shows: a message is its kind, its
  topic (the wording is left out) and its values; the dash of an absent value is \<open>JNull\<close>; columns
  and dividers of the layout are left out.
\<close>

section \<open>Widgets and the script's state\<close>

datatype notice = Note_Info | Note_Success | Note_Warning | Note_Error | Note_Caption

datatype widget =
    Heading string
  | Notice notice string "json list"
  | Metric string json "json option"
  | Table "dict list"
  | Chart string "(json \<times> json list) list"
  | Bars dict
  | Code string json
  | Tree dict
  | Tab string

record ui =
  ui_web :: web
  ui_drawn :: "widget list"

text \<open>\<open>UiTypeError\<close>: a TypeError, or the ValueError or AttributeError of a value of another type.\<close>

datatype ui_exn = UiClient client_exn | UiTypeError | UiKeyError

type_synonym 'a ui_action = "(ui, ui_exn, 'a) action"

definition draw :: "widget list \<Rightarrow> unit ui_action" where
  "draw ws u = (u\<lparr>ui_drawn := ui_drawn u @ ws\<rparr>, Inr ())"

definition ask :: "'a request \<Rightarrow> 'a ui_action" where
  "ask m u = (case m (ui_web u) of
     (w, Inl e) \<Rightarrow> (u\<lparr>ui_web := w\<rparr>, Inl (UiClient e)) | (w, Inr x) \<Rightarrow> (u\<lparr>ui_web := w\<rparr>, Inr x))"

text \<open>What the user has entered: texts (label and default to entry), choices among options, several of
  them, boxes ticked and the buttons pressed in this run.\<close>

record user =
  us_text :: "string \<Rightarrow> string \<Rightarrow> string"
  us_choice :: "string \<Rightarrow> string list \<Rightarrow> nat"
  us_picked :: "string list \<Rightarrow> string list"
  us_ticked :: "string \<Rightarrow> bool"
  us_pressed :: "string \<Rightarrow> bool"
  us_interval :: nat

text \<open>\<open>st.selectbox\<close> over options.\<close>

definition selected :: "user \<Rightarrow> string \<Rightarrow> string list \<Rightarrow> string option" where
  "selected us label opts =
     (if opts = [] then None else Some (opts ! (us_choice us label opts mod length opts)))"

definition jopt :: "('a \<Rightarrow> json) \<Rightarrow> 'a option \<Rightarrow> json" where
  "jopt f v = (case v of None \<Rightarrow> JNull | Some x \<Rightarrow> f x)"

definition jget :: "dict \<Rightarrow> string \<Rightarrow> json" where
  "jget d k = (case map_of d k of None \<Rightarrow> JNull | Some j \<Rightarrow> j)"

section \<open>Session and client\<close>

record session =
  se_mode :: "string option"
  se_root :: "string option"
  se_runs :: "string option"
  se_url :: "string option"

text \<open>The environment variables SHOPRL_ROOT and SHOPRL_RUNS.\<close>

record console_env =
  cn_root :: "string option"
  cn_runs :: "string option"

datatype client = InProcessClient string string | HttpClient string

definition default_url :: string where
  "default_url = ''http://127.0.0.1:8000''"

definition or_else :: "string option \<Rightarrow> string \<Rightarrow> string" where
  "or_else v d = (case v of None \<Rightarrow> d | Some x \<Rightarrow> x)"

definition get_client :: "console_env \<Rightarrow> session \<Rightarrow> client" where
  "get_client ce se =
     (if or_else (se_mode se) ''embedded'' = ''embedded''
      then InProcessClient (or_else (se_root se) (or_else (cn_root ce) ''runs/pipeline''))
             (or_else (se_runs se) (or_else (cn_runs ce) ''runs''))
      else HttpClient (or_else (se_url se) default_url))"

text \<open>\<open>a or b\<close> on texts.\<close>

definition text_or :: "string option \<Rightarrow> string \<Rightarrow> string" where
  "text_or v d = (case v of None \<Rightarrow> d | Some x \<Rightarrow> if x = [] then d else x)"

text \<open>\<open>_try\<close>: a failing request is reported, not raised.\<close>

definition try_ui :: "'a request \<Rightarrow> string \<Rightarrow> 'a option ui_action" where
  "try_ui m ok u =
     (case ask m u of
        (u', Inr r) \<Rightarrow> bindA (draw [Notice Note_Success ok []]) (\<lambda>_. ret (Some r)) u'
      | (u', Inl (UiClient (HTTPStatusError n))) \<Rightarrow>
          bindA (draw [Notice Note_Error ''HTTPStatusError'' [JInt (int n)]]) (\<lambda>_. ret None) u'
      | (u', Inl _) \<Rightarrow> bindA (draw [Notice Note_Error ''Exception'' []]) (\<lambda>_. ret None) u')"

definition whenA :: "bool \<Rightarrow> unit ui_action \<Rightarrow> unit ui_action" where
  "whenA b m = (if b then m else ret ())"

definition report :: "'a option \<Rightarrow> ('a \<Rightarrow> widget list) \<Rightarrow> unit ui_action" where
  "report r f = draw (case r of None \<Rightarrow> [] | Some x \<Rightarrow> f x)"

text \<open>A disabled button is never pressed.\<close>

definition job_controls :: "web_env \<Rightarrow> transport \<Rightarrow> user \<Rightarrow> unit ui_action" where
  "job_controls we tr us =
     (let jid = us_text us ''Job id (pause/resume/cancel)'' []; on = (jid \<noteq> []) in
      bindA (whenA (on \<and> us_pressed us ''Pause'') (bindA (try_ui (c_pause we tr jid) ''paused'') (\<lambda>_. ret ()))) (\<lambda>_.
      bindA (whenA (on \<and> us_pressed us ''Resume'') (bindA (try_ui (c_resume we tr jid) ''resumed'') (\<lambda>_. ret ()))) (\<lambda>_.
      whenA (on \<and> us_pressed us ''Cancel'') (bindA (try_ui (c_cancel we tr jid) ''cancelled'') (\<lambda>_. ret ())))))"

definition fault_controls :: "web_env \<Rightarrow> transport \<Rightarrow> user \<Rightarrow> unit ui_action" where
  "fault_controls we tr us =
     bindA (whenA (us_ticked us ''kill a worker'' \<and> us_pressed us ''Kill worker'')
       (bindA (try_ui (c_kill_worker we tr) ''worker killed'') (\<lambda>r.
          report r (\<lambda>k. [Notice Note_Info ''requeued'' [JStr (kr_state k)]])))) (\<lambda>_.
     bindA (whenA (us_ticked us ''corrupt the latest checkpoint'' \<and> us_pressed us ''Corrupt checkpoint'')
       (bindA (try_ui (c_corrupt_checkpoint we tr) ''checkpoint tampered'') (\<lambda>r.
          report r (\<lambda>k. [Notice Note_Info ''integrity'' [JStr (cp_id k), JStr (cp_integrity k)]])))) (\<lambda>_.
     bindA (whenA (us_ticked us ''simulate an OOM'' \<and> us_pressed us ''Trigger OOM'')
       (bindA (try_ui (c_sim_oom we tr) ''OOM handled'') (\<lambda>r.
          report r (\<lambda>k. [Notice Note_Info ''SIMULATION'' [JStr (or_action k), jopt JInt (fst (or_microbatch k)),
             jopt JInt (snd (or_microbatch k)), jopt JStr (or_restored k)]])))) (\<lambda>_.
     (let tid = us_text us ''Trajectory id to replay'' [] in
      whenA (tid \<noteq> [] \<and> us_pressed us ''Replay trajectory'')
        (bindA (try_ui (c_replay we tr tid) ''replayed'') (\<lambda>r.
          report r (\<lambda>(parent, copy). [Notice Note_Info ''SIMULATION'' [JStr (take 8 copy)]])))))))"

definition dev_controls :: "web_env \<Rightarrow> transport \<Rightarrow> user \<Rightarrow> unit ui_action" where
  "dev_controls we tr us = bindA (job_controls we tr us) (\<lambda>_. fault_controls we tr us)"

text \<open>The entries of the sidebar become the session; \<open>net\<close> says what a client reaches.\<close>

definition entered :: "console_env \<Rightarrow> user \<Rightarrow> session \<Rightarrow> session" where
  "entered ce us se =
     (let mode = (case selected us ''API connection'' [''embedded'', ''http''] of Some m \<Rightarrow> m | None \<Rightarrow> []) in
      if mode = ''embedded''
      then se\<lparr>se_mode := Some mode,
              se_root := Some (us_text us ''Run root'' (text_or (se_root se) (or_else (cn_root ce) ''runs/pipeline''))),
              se_runs := Some (us_text us ''Runs dir'' (text_or (se_runs se) (or_else (cn_runs ce) ''runs'')))\<rparr>
      else se\<lparr>se_mode := Some mode, se_url := Some (us_text us ''API base URL'' default_url)\<rparr>)"

definition sidebar ::
  "console_env \<Rightarrow> web_env \<Rightarrow> (client \<Rightarrow> transport) \<Rightarrow> user \<Rightarrow> session \<Rightarrow> (session \<times> nat option) ui_action" where
  "sidebar ce we net us se =
     (let se' = entered ce us se in
      bindA (dev_controls we (net (get_client ce se')) us) (\<lambda>_.
        ret (se', if us_ticked us ''Live auto-refresh'' then Some (us_interval us) else None)))"

section \<open>Overview, recovery, scheduler and jobs\<close>

definition STAGES :: "string list" where
  "STAGES = [''pending'', ''running'', ''paused'', ''retrying'', ''succeeded'', ''failed'', ''dead_letter'', ''cancelled'']"

text \<open>\<open>s.replace("_", " ").title()\<close> of the words above.\<close>

definition stage_title :: "string \<Rightarrow> string" where
  "stage_title s = join '' '' (map (\<lambda>w. upper (take 1 w) @ lower (drop 1 w)) (split_on (CHR ''_'') s))"

text \<open>The counts of the reply, under the states' names.\<close>

definition count_of :: "(job_state \<times> nat) list \<Rightarrow> string \<Rightarrow> nat" where
  "count_of d s = (case find (\<lambda>(k, _). state_value k = s) d of None \<Rightarrow> 0 | Some (_, n) \<Rightarrow> n)"

definition overview_panel :: "web_env \<Rightarrow> transport \<Rightarrow> unit ui_action" where
  "overview_panel we tr =
     bindA (ask (c_overview we tr)) (\<lambda>ov.
       draw ([Heading ''Jobs''] @ map (\<lambda>s. Metric (stage_title s) (JInt (int (count_of (sn_job_counts ov) s))) None) STAGES
         @ (case sn_reward_stats ov of
              None \<Rightarrow> []
            | Some rs \<Rightarrow> [Notice Note_Caption ''rewards''
                [JInt (int (rs_count rs)), JNum (rs_mean rs), JNum (rs_min rs), JNum (rs_max rs)]])))"

definition event_row :: "recovery_event \<Rightarrow> dict" where
  "event_row e =
     [(''class'', JStr (ev_failure_class e)), (''action'', JStr (ev_action e)),
      (''microbatch'', case ev_mb_after e of
         None \<Rightarrow> JNull
       | Some a \<Rightarrow> JStr ((case ev_mb_before e of None \<Rightarrow> ''None'' | Some b \<Rightarrow> show_int b) @ ''->'' @ show_int a)),
      (''restored'', case ev_restored e of None \<Rightarrow> JNull | Some r \<Rightarrow> if r = [] then JNull else JStr r),
      (''result'', JStr (ev_resulting_state e)),
      (''trigger'', JStr (if ev_simulated e then ''SIMULATED'' else ''real''))]"

definition recovery_panel :: "web_env \<Rightarrow> transport \<Rightarrow> unit ui_action" where
  "recovery_panel we tr =
     bindA (draw [Heading ''Recovery events'']) (\<lambda>_.
     bindA (ask (c_overview we tr)) (\<lambda>ov.
       draw (if sn_events ov = [] then [Notice Note_Info ''No recovery events'' []]
             else [Table (map event_row (sn_events ov))])))"

definition slots_text :: "class_status \<Rightarrow> string" where
  "slots_text c = show_nat (st_used c) @ ''/'' @ show_int (st_slots c)"

definition queued_text :: "class_status \<Rightarrow> string" where
  "queued_text c = show_nat (st_queued c) @ '' queued''"

definition scheduler_panel :: "transport \<Rightarrow> web_env \<Rightarrow> unit ui_action" where
  "scheduler_panel tr we =
     bindA (draw [Heading ''Scheduler'']) (\<lambda>_.
     bindA (ask (c_scheduler we tr)) (\<lambda>s.
       draw ([Metric ''GPU'' (JStr (slots_text (st_gpu s))) (Some (JStr (queued_text (st_gpu s)))),
              Metric ''CPU workers'' (JStr (slots_text (st_cpu s))) (Some (JStr (queued_text (st_cpu s)))),
              Metric ''Running / max'' (JStr (show_nat (running_total s) @ ''/'' @ show_int (max_concurrent s))) None]
         @ (if at_capacity s then [Notice Note_Warning ''At capacity'' []] else []))))"

definition job_row :: "job_out \<Rightarrow> dict" where
  "job_row j =
     [(''id'', JStr (take 12 (jo_id j))), (''kind'', JStr (jo_kind j)), (''state'', JStr (jo_state j)),
      (''resource'', JStr (jo_resource j)), (''priority'', JInt (jo_priority j)), (''attempts'', JInt (jo_attempts j))]"

definition jobs_panel :: "transport \<Rightarrow> unit ui_action" where
  "jobs_panel tr =
     bindA (draw [Heading ''Jobs'']) (\<lambda>_.
     bindA (ask (c_jobs tr None None)) (\<lambda>jobs.
       draw (if jobs = [] then [Notice Note_Info ''No jobs'' []] else [Table (map job_row jobs)])))"

section \<open>Training health\<close>

text \<open>\<open>f"{v:.3f}"\<close> raises for what is not a number.\<close>

definition formats :: "json \<Rightarrow> bool" where
  "formats j = (case j of JNum _ \<Rightarrow> True | JInt _ \<Rightarrow> True | JBool _ \<Rightarrow> True | JPosInf \<Rightarrow> True | JNegInf \<Rightarrow> True
     | JNaN \<Rightarrow> True | _ \<Rightarrow> False)"

definition hashable :: "json \<Rightarrow> bool" where
  "hashable j = (case j of JArr _ \<Rightarrow> False | JObj _ \<Rightarrow> False | _ \<Rightarrow> True)"

definition alg_of :: "comparison_out \<Rightarrow> json" where
  "alg_of c = jopt id (cmo_algorithm c)"

definition comparison_row :: "comparison_out \<Rightarrow> dict" where
  "comparison_row c =
     [(''algorithm'', alg_of c), (''final_kl'', jopt id (cmo_final_kl c)), (''max_kl'', jopt id (cmo_max_kl c)),
      (''reward_gain'', jopt id (cmo_reward_gain c)), (''stability_failures'', jopt id (cmo_failures c)),
      (''critical_alerts'', JInt (int (cmo_critical c))), (''source'', jopt id (cmo_source c))]"

text \<open>A dict comprehension over the comparisons: a later entry for an algorithm replaces the earlier.\<close>

definition by_algorithm :: "(comparison_out \<Rightarrow> 'a) \<Rightarrow> comparison_out list \<Rightarrow> (json \<times> 'a) list" where
  "by_algorithm f cs = fold (\<lambda>c. AList.update (alg_of c) (f c)) cs []"

definition kl_caption :: "comparison_out list \<Rightarrow> unit ui_action" where
  "kl_caption cs =
     (let kl = by_algorithm (\<lambda>c. jopt id (cmo_final_kl c)) cs in
      case (map_of kl (JStr ''rloo''), map_of kl (JStr ''grpo''), map_of kl (JStr ''ppo'')) of
        (Some r, Some g, Some p) \<Rightarrow>
          if formats r \<and> formats g \<and> formats p then draw [Notice Note_Caption ''Measured final KL'' [r, g, p]]
          else raiseA UiTypeError
      | _ \<Rightarrow> ret ())"

definition ppo_alerts :: "comparison_out list \<Rightarrow> widget list" where
  "ppo_alerts cs =
     (case find (\<lambda>c. alg_of c = JStr ''ppo'') cs of
        None \<Rightarrow> []
      | Some c \<Rightarrow>
          if cmo_critical c \<noteq> 0
          then [Notice Note_Error ''PPO critical KL alerts''
                  [JInt (int (cmo_critical c)), JInt (int (dict_get (cmo_by_rule c) ''kl_blowup''))]]
          else [])"

definition step_rows :: "comparison_out \<Rightarrow> dict list" where
  "step_rows c = (case cmo_steps c of JArr xs \<Rightarrow> List.map_filter obj_of xs | _ \<Rightarrow> [])"

definition overlay_of :: "comparison_out list \<Rightarrow> string \<times> string \<Rightarrow> widget list" where
  "overlay_of cs ml =
     (case ml of (metric, label) \<Rightarrow>
        (let series = by_algorithm (\<lambda>c. map (\<lambda>m. jget m metric) (step_rows c))
               (filter (\<lambda>c. list_ex (\<lambda>m. jget m metric \<noteq> JNull) (step_rows c)) cs)
         in if series = [] then [] else [Chart label series]))"

definition OVERLAYS :: "(string \<times> string) list" where
  "OVERLAYS = [(''kl'', ''KL vs reference''), (''entropy'', ''Entropy''), (''clip_frac'', ''Clip fraction''),
     (''grad_norm'', ''Grad norm''), (''reward_mean'', ''Reward mean'')]"

definition comparison_section :: "web_env \<Rightarrow> transport \<Rightarrow> unit ui_action" where
  "comparison_section we tr =
     bindA (ask (c_comparisons we tr)) (\<lambda>cs.
       if cs = [] then draw [Notice Note_Info ''No comparison artifacts'' []]
       else bindA (draw [Table (map comparison_row cs)]) (\<lambda>_.
            if \<not> list_all (\<lambda>c. hashable (alg_of c)) cs then raiseA UiTypeError
            else bindA (kl_caption cs) (\<lambda>_. draw (ppo_alerts cs @ concat (map (overlay_of cs) OVERLAYS)))))"

text \<open>A data frame of the rows has a column per key, with gaps; sums of columns are taken of numbers.\<close>

definition has_column :: "dict list \<Rightarrow> string \<Rightarrow> bool" where
  "has_column rows k = list_ex (\<lambda>r. map_of r k \<noteq> None) rows"

definition column :: "dict list \<Rightarrow> string \<Rightarrow> json list" where
  "column rows k = map (\<lambda>r. jget r k) rows"

definition columns :: "dict list \<Rightarrow> string list \<Rightarrow> (json \<times> json list) list" where
  "columns rows ks = map (\<lambda>k. (JStr k, column rows k)) ks"

definition number_of :: "json \<Rightarrow> real option" where
  "number_of j = (case j of JNum x \<Rightarrow> Some x | JInt i \<Rightarrow> Some (of_int i) | _ \<Rightarrow> None)"

definition shifted :: "(real \<Rightarrow> real \<Rightarrow> real) \<Rightarrow> json \<Rightarrow> json \<Rightarrow> json" where
  "shifted f a b = (case (number_of a, number_of b) of (Some x, Some y) \<Rightarrow> JNum (f x y) | _ \<Rightarrow> JNull)"

definition reward_band :: "dict list \<Rightarrow> widget list" where
  "reward_band rows =
     (if \<not> has_column rows ''reward_mean'' then []
      else (let m = column rows ''reward_mean''; s = column rows ''reward_std'' in
            [Chart ''Reward mean'' ((JStr ''reward_mean'', m) #
               (if has_column rows ''reward_std''
                then [(JStr ''reward_+std'', map2 (shifted (+)) m s), (JStr ''reward_-std'', map2 (shifted (-)) m s)]
                else []))]))"

definition SINGLES :: "(string \<times> string) list" where
  "SINGLES = [(''kl'', ''KL vs reference''), (''entropy'', ''Entropy''), (''clip_frac'', ''Clip fraction''),
     (''grad_norm'', ''Grad norm'')]"

definition COMPONENT_KEYS :: "string list" where
  "COMPONENT_KEYS = [''reward_budget'', ''reward_groundedness'', ''reward_coverage'', ''reward_quality_format'',
     ''reward_quality_comparison'']"

definition GPU_KEYS :: "string list" where
  "GPU_KEYS = [''gpu_mem_allocated_gb'', ''gpu_mem_reserved_gb'', ''gpu_mem_max_allocated_gb'']"

definition run_charts :: "dict list \<Rightarrow> widget list" where
  "run_charts rows =
     (let present = filter (has_column rows) in
      reward_band rows
      @ map (\<lambda>(k, l). Chart l (columns rows [k])) (filter (\<lambda>(k, _). has_column rows k) SINGLES)
      @ (if present COMPONENT_KEYS \<noteq> [] then [Chart ''Per-component rewards'' (columns rows (present COMPONENT_KEYS))] else [])
      @ (if present GPU_KEYS \<noteq> [] then [Chart ''GPU memory (GB)'' (columns rows (present GPU_KEYS))]
         else [Notice Note_Caption ''GPU memory: not recorded'' []]))"

text \<open>The text of an alert is not modelled.\<close>

definition alert_row :: "alert \<Rightarrow> dict" where
  "alert_row a =
     [(''level'', JStr (level_value (al_level a))), (''rule'', JStr (al_rule a)), (''step'', jopt JInt (al_step a)),
      (''value'', jopt (\<lambda>v. case v of Fin x \<Rightarrow> JNum x | PosInf \<Rightarrow> JPosInf | NegInf \<Rightarrow> JNegInf | NaN \<Rightarrow> JNaN) (al_value a))]"

definition alerts_shown :: "alerts_out option \<Rightarrow> widget list" where
  "alerts_shown al =
     (case al of
        None \<Rightarrow> []
      | Some a \<Rightarrow>
          if ao_n_alerts a \<noteq> 0
          then [Notice Note_Error ''alerts'' [JInt (int (ao_n_alerts a)), jopt (\<lambda>l. JStr (level_value l)) (ao_max_level a)],
                Table (map alert_row (ao_alerts a))]
          else [Notice Note_Success ''No alerts'' []])"

definition metrics_of_reply :: "run_metrics_out option \<Rightarrow> dict list" where
  "metrics_of_reply m = (case m of None \<Rightarrow> [] | Some x \<Rightarrow> rm_metrics x)"

definition single_run_section :: "web_env \<Rightarrow> transport \<Rightarrow> user \<Rightarrow> unit ui_action" where
  "single_run_section we tr us =
     bindA (ask (c_metrics_runs we tr)) (\<lambda>runs.
       case selected us ''Run (from metrics.jsonl)'' runs of
         None \<Rightarrow> draw [Notice Note_Info ''No run metrics.jsonl found'' []]
       | Some sel \<Rightarrow>
           bindA (ask (c_run_metrics we tr sel)) (\<lambda>m.
           bindA (draw (if metrics_of_reply m = [] then [] else run_charts (metrics_of_reply m))) (\<lambda>_.
           bindA (ask (c_run_alerts we tr sel)) (\<lambda>al. draw (alerts_shown al)))))"

definition training_health_panel :: "web_env \<Rightarrow> transport \<Rightarrow> user \<Rightarrow> unit ui_action" where
  "training_health_panel we tr us =
     bindA (draw [Heading ''Training Health'']) (\<lambda>_.
     bindA (comparison_section we tr) (\<lambda>_. single_run_section we tr us))"

end
