(* ===== verification/Ops_Panels.thy ===== *)
theory Ops_Panels
  imports Ops_Console
begin

text \<open>
  The rest of \<^verbatim>\<open>src/shoprl/platform/ops_console.py\<close>: policies, experiments, checkpoints and
  trajectories, and the script that puts the panels into tabs.  An exception of a panel ends the run of
  the script.
\<close>

section \<open>Policies\<close>

definition staleness_shown :: "(int \<times> (nat + staleness_summary)) option \<Rightarrow> widget list" where
  "staleness_shown st =
     (case st of
        Some (cur, Inr s) \<Rightarrow>
          if sr_n s = 0 then []
          else [Metric ''Rollout staleness (max behind latest)'' (JInt (sr_max s)) None,
                Notice Note_Caption ''staleness'' [JInt cur, JInt (int (sr_on_policy s)), JInt (int (sr_stale s)), JInt (int (sr_n s))]]
      | _ \<Rightarrow> [])"

definition policies_panel :: "web_env \<Rightarrow> transport \<Rightarrow> unit ui_action" where
  "policies_panel we tr =
     bindA (draw [Heading ''Policy versions'']) (\<lambda>_.
     bindA (ask (c_policies we tr)) (\<lambda>pols.
       if pols = [] then draw [Notice Note_Info ''No policies published'' []]
       else bindA (draw [Table (map (\<lambda>p. [(''version'', JInt (pv_version p)), (''fingerprint'', JStr (pv_fingerprint p))]) pols)]) (\<lambda>_.
            bindA (ask (c_policy_staleness we tr)) (\<lambda>st. draw (staleness_shown st)))))"

section \<open>Experiments\<close>

definition run_row :: "run_record \<Rightarrow> dict" where
  "run_row r =
     [(''run_id'', JStr (rr_id r)), (''algorithm'', JStr (rr_algorithm r)),
      (''status'', JStr (run_status_value (rr_status r))), (''config_hash'', JStr (rr_config_hash r)),
      (''policy_version'', jopt JInt (rr_policy_version r)), (''final_kl'', jget (or_empty (rr_eval_result r)) ''final_kl'')]"

definition compared_row :: "compare_row \<Rightarrow> dict" where
  "compared_row r =
     [(''run_id'', JStr (cr_run_id r)), (''algorithm'', JStr (cr_algorithm r)), (''status'', JStr (cr_status r)),
      (''config_hash'', JStr (cr_config_hash r)), (''git_commit'', jopt JStr (cr_git_commit r)),
      (''reward_gain'', jopt id (cr_reward_gain r)), (''final_kl'', jopt id (cr_final_kl r)),
      (''max_kl'', jopt id (cr_max_kl r)), (''cost_usd'', jopt id (cr_cost_usd r)),
      (''best_checkpoint'', jopt JStr (cr_best_checkpoint r))]"

definition comparison_shown :: "comparison \<Rightarrow> widget list" where
  "comparison_shown c =
     [Notice Note_Caption (if cmp_comparable c then ''comparable'' else ''NOT comparable'') [],
      Table (map compared_row (cmp_rows c))]"

definition run_chart :: "string \<Rightarrow> run_metrics_out option \<Rightarrow> widget list" where
  "run_chart sel m =
     (let rows = metrics_of_reply m in
      if rows = [] then [Notice Note_Info ''No metrics.jsonl for run'' [JStr sel]]
      else (let ks = filter (has_column rows) [''reward_mean'', ''kl'', ''entropy'', ''grad_norm''] in
            if ks = [] then [] else [Chart '''' (columns rows ks)]))"

definition experiments_panel :: "web_env \<Rightarrow> transport \<Rightarrow> user \<Rightarrow> unit ui_action" where
  "experiments_panel we tr us =
     bindA (draw [Heading ''Experiments'']) (\<lambda>_.
     bindA (ask (c_runs tr)) (\<lambda>runs.
       (let ids = map rr_id runs; picked = us_picked us (take (min 3 (length ids)) ids) in
        case selected us ''Run metrics'' ids of
          None \<Rightarrow> draw [Notice Note_Info ''No registered runs'' []]
        | Some sel \<Rightarrow>
            bindA (draw [Table (map run_row runs)]) (\<lambda>_.
            bindA (if length picked \<ge> 2 then bindA (ask (c_compare_runs tr picked)) (\<lambda>c. draw (comparison_shown c)) else ret ()) (\<lambda>_.
            bindA (ask (c_run_metrics we tr sel)) (\<lambda>m.
            bindA (draw (run_chart sel m)) (\<lambda>_.
            bindA (ask (c_run_alerts we tr sel)) (\<lambda>al. draw (alerts_shown al)))))))))"

section \<open>Checkpoints\<close>

definition ckpt_row :: "ckpt_view \<Rightarrow> dict" where
  "ckpt_row c =
     [(''ckpt_id'', JStr (cv_id c)), (''step'', JInt (cv_step c)), (''reward_mean'', jopt id (cv_reward_mean c)),
      (''n_files'', JInt (int (cv_n_files c))), (''integrity'', JStr (cv_integrity c))]"

definition integrity_notice :: "ckpt_view list \<Rightarrow> widget" where
  "integrity_notice cks =
     (let bad = map cv_id (filter (\<lambda>c. cv_integrity c \<noteq> ''OK'') cks) in
      if bad \<noteq> [] then Notice Note_Error ''CORRUPT'' (map JStr bad)
      else Notice Note_Success ''All checkpoints verify OK'' [])"

definition checkpoints_panel :: "web_env \<Rightarrow> transport \<Rightarrow> unit ui_action" where
  "checkpoints_panel we tr =
     bindA (draw [Heading ''Checkpoints'']) (\<lambda>_.
     bindA (ask (c_checkpoints we tr)) (\<lambda>cks.
       draw (if cks = [] then [Notice Note_Info ''No checkpoints'' []]
             else [Table (map ckpt_row cks), integrity_notice cks])))"

section \<open>Trajectories\<close>

definition traj_label :: "string \<times> string \<times> real option \<times> traj_kind \<Rightarrow> string" where
  "traj_label t =
     (case t of (tid, pol, r, _) \<Rightarrow>
        take 8 tid @ '' '' @ [CHR 0xB7] @ '' '' @ pol
        @ (case r of None \<Rightarrow> '''' | Some x \<Rightarrow> '' '' @ [CHR 0xB7] @ '' r='' @ show_fixed 3 x))"

text \<open>The labels of the select box: a label that occurs again keeps its place and takes the later id.\<close>

definition traj_labels :: "(string \<times> string \<times> real option \<times> traj_kind) list \<Rightarrow> (string \<times> string) list" where
  "traj_labels ts = fold (\<lambda>t. AList.update (traj_label t) (fst t)) ts []"

definition or_dash :: "string \<Rightarrow> json" where
  "or_dash x = (if x = [] then JNull else JStr x)"

definition detail_head :: "traj_detail \<Rightarrow> widget list" where
  "detail_head d =
     [Code ''Prompt'' (or_dash (td_prompt d)), Code ''Response'' (or_dash (td_response d)),
      Metric ''Total reward'' (jopt JNum (td_total_reward d)) None]"

definition advantage_shown :: "traj_detail \<Rightarrow> unit ui_action" where
  "advantage_shown d =
     (case td_advantage d of
        None \<Rightarrow> draw [Metric ''Advantage'' JNull None]
      | Some JNull \<Rightarrow> draw [Metric ''Advantage'' JNull None]
      | Some j \<Rightarrow> if formats j then draw [Metric ''Advantage'' j None] else raiseA UiTypeError)"

definition components_shown :: "traj_detail \<Rightarrow> unit ui_action" where
  "components_shown d =
     (case td_components d of
        None \<Rightarrow> ret ()
      | Some (JObj comps) \<Rightarrow>
          (if comps = [] then ret () else draw [Bars (filter (\<lambda>(_, v). formats v) comps)])
      | Some j \<Rightarrow> if falsy j then ret () else raiseA UiTypeError)"

definition lineage_tree :: "traj_detail \<Rightarrow> dict" where
  "lineage_tree d =
     (let l = td_lineage d in
      [(''policy_id'', JStr (ln_policy_id l)), (''job_id'', jopt JStr (ln_job_id l)),
       (''prompt_id'', jopt JStr (ln_prompt_id l)), (''parent_id'', jopt JStr (ln_parent_id l)),
       (''ancestry'', JArr (map JStr (td_ancestry d)))])"

definition trajectory_panel :: "web_env \<Rightarrow> transport \<Rightarrow> user \<Rightarrow> unit ui_action" where
  "trajectory_panel we tr us =
     bindA (draw [Heading ''Trajectory explorer'']) (\<lambda>_.
     bindA (ask (c_trajectories we tr 300)) (\<lambda>ts.
       (let labels = traj_labels ts in
        case selected us ''Select'' (map fst labels) of
          None \<Rightarrow> draw [Notice Note_Info ''No trajectories'' []]
        | Some pick \<Rightarrow>
            (case map_of labels pick of
               None \<Rightarrow> raiseA UiKeyError
             | Some tid \<Rightarrow>
                 bindA (ask (c_trajectory tr tid)) (\<lambda>d.
                 bindA (draw (detail_head d)) (\<lambda>_.
                 bindA (advantage_shown d) (\<lambda>_.
                 bindA (draw [Metric ''KL'' JNull None]) (\<lambda>_.
                 bindA (components_shown d) (\<lambda>_.
                   draw [Tree (lineage_tree d)])))))))))"

section \<open>The script\<close>

definition in_tab :: "string \<Rightarrow> unit ui_action \<Rightarrow> bool option \<Rightarrow> unit ui_action" where
  "in_tab name panel badge =
     bindA (draw [Tab name]) (\<lambda>_. bindA panel (\<lambda>_.
       draw (case badge of None \<Rightarrow> [] | Some live \<Rightarrow> [Notice Note_Caption (if live then ''live'' else ''paused'') []])))"

definition panels :: "web_env \<Rightarrow> transport \<Rightarrow> user \<Rightarrow> bool \<Rightarrow> unit ui_action" where
  "panels we tr us live =
     bindA (in_tab ''Overview'' (bindA (overview_panel we tr) (\<lambda>_. scheduler_panel tr we)) (Some live)) (\<lambda>_.
     bindA (in_tab ''Jobs'' (jobs_panel tr) (Some live)) (\<lambda>_.
     bindA (in_tab ''Training Health'' (training_health_panel we tr us) (Some live)) (\<lambda>_.
     bindA (in_tab ''Experiments'' (experiments_panel we tr us) None) (\<lambda>_.
     bindA (in_tab ''Policies'' (policies_panel we tr) (Some live)) (\<lambda>_.
     bindA (in_tab ''Checkpoints'' (checkpoints_panel we tr) (Some live)) (\<lambda>_.
     bindA (in_tab ''Trajectories'' (trajectory_panel we tr us) None) (\<lambda>_.
     in_tab ''Recovery'' (recovery_panel we tr) (Some live))))))))"

text \<open>\<open>main\<close>; the health request is the only one whose failure is caught.\<close>

definition console_main ::
  "console_env \<Rightarrow> web_env \<Rightarrow> (client \<Rightarrow> transport) \<Rightarrow> user \<Rightarrow> session \<Rightarrow> session ui_action" where
  "console_main ce we net us se =
     bindA (sidebar ce we net us se) (\<lambda>(se', every).
       (let tr = net (get_client ce se') in
        bindA (tryA (bindA (ask (c_health we tr)) (\<lambda>(_, dir).
                       bindA (draw [Notice Note_Caption ''API OK'' [JStr dir]]) (\<lambda>_. ret True)))
                    (\<lambda>_. bindA (draw [Notice Note_Error ''API unreachable'' []]) (\<lambda>_. ret False))) (\<lambda>up.
        if up then bindA (panels we tr us (every \<noteq> None)) (\<lambda>_. ret se') else ret se')))"

end
