(* ===== verification/Console_Props.thy ===== *)
theory Console_Props
  imports Ops_Panels Job_Props Checkpoint_Props
begin

text \<open>
  The operations console: looking changes nothing, the sidebar's buttons change jobs along legal
  transitions only and leave the registries alone, and the panels' numbers are those of the stores.
\<close>

section \<open>Panels only look\<close>

definition on_web :: "(web \<Rightarrow> web \<Rightarrow> bool) \<Rightarrow> ui \<Rightarrow> ui \<Rightarrow> bool" where
  "on_web R u u' \<longleftrightarrow> R (ui_web u) (ui_web u')"

lemma reflp_on_web: "reflp R \<Longrightarrow> reflp (on_web R)"
  by (simp add: reflp_def on_web_def)

lemma transp_on_web: "transp R \<Longrightarrow> transp (on_web R)"
  unfolding transp_def on_web_def by blast

lemma keeps_mono: "keeps R m \<Longrightarrow> (\<And>s s'. R s s' \<Longrightarrow> R' s s') \<Longrightarrow> keeps R' m"
  by (simp add: keeps_def)

lemma keeps_draw: "reflp R \<Longrightarrow> keeps (on_web R) (draw ws)"
  by (simp add: keeps_def draw_def on_web_def reflp_def)

lemma keeps_ask: "keeps R m \<Longrightarrow> keeps (on_web R) (ask m)"
  by (auto simp: keeps_def ask_def on_web_def split: prod.splits sum.splits) (metis fst_conv)+

lemma keeps_request: "reflp R \<Longrightarrow> (\<And>w. R w (fst (h w))) \<Longrightarrow> keeps R (request tr h)"
  by (auto simp: keeps_def request_def reflp_def split: prod.splits) (metis fst_conv)

lemma keeps_request_optional: "reflp R \<Longrightarrow> (\<And>w. R w (fst (h w))) \<Longrightarrow> keeps R (request_optional tr h)"
  by (auto simp: keeps_def request_optional_def reflp_def split: prod.splits) (metis fst_conv)

text \<open>A request that only reads.\<close>

abbreviation looks :: "'a request \<Rightarrow> bool" where
  "looks m \<equiv> keeps (=) m"

lemmas look_simps = at_jobs_def at_traj_def at_platform_def at_runs_def at_policies_def at_artifacts_def reads_def
  overview_def scheduler_status_def api_checkpoints_def api_list_jobs_def api_list_trajectories_def
  api_get_trajectory_def api_list_runs_def api_compare_runs_def api_list_policies_def

lemma reading_requests:
  "looks (c_health we tr)" "looks (c_overview we tr)" "looks (c_scheduler we tr)" "looks (c_jobs tr None None)"
  "looks (c_checkpoints we tr)" "looks (c_trajectories we tr n)" "looks (c_trajectory tr tid)" "looks (c_runs tr)"
  "looks (c_run_metrics we tr rid)" "looks (c_run_alerts we tr rid)" "looks (c_metrics_runs we tr)"
  "looks (c_comparisons we tr)" "looks (c_compare_runs tr ids)" "looks (c_policies we tr)" "looks (c_policy_staleness we tr)"
  unfolding c_health_def c_overview_def c_scheduler_def c_jobs_def parse_query_def c_checkpoints_def c_trajectories_def
    c_trajectory_def c_runs_def c_run_metrics_def c_run_alerts_def c_metrics_runs_def c_comparisons_def
    c_compare_runs_def c_policies_def c_policy_staleness_def
  by (rule keeps_request keeps_request_optional; simp add: look_simps Let_def split: sum.splits run_error.splits)+

lemma web_relation [simp]: "reflp (on_web (=))" "transp (on_web (=))"
  by (auto simp: reflp_def transp_def on_web_def)

abbreviation views :: "'a ui_action \<Rightarrow> bool" where
  "views m \<equiv> keeps (on_web (=)) m"

lemma views_basic: "views (draw ws)" "views (ret x)" "views (raiseA e)" "looks m \<Longrightarrow> views (ask m)"
  by (rule keeps_draw keeps_ret keeps_raise keeps_ask; simp)+

lemma views_bind: "views m \<Longrightarrow> (\<And>x. views (f x)) \<Longrightarrow> views (bindA m f)"
  by (rule keeps_bind) simp_all

lemma views_if: "(b \<Longrightarrow> views m) \<Longrightarrow> (\<not> b \<Longrightarrow> views m') \<Longrightarrow> views (if b then m else m')"
  by simp

lemma views_option: "views m \<Longrightarrow> (\<And>x. views (f x)) \<Longrightarrow> views (case v of None \<Rightarrow> m | Some x \<Rightarrow> f x)"
  by (simp split: option.split)

lemmas view_intros = views_basic views_bind views_if views_option reading_requests

lemma panel_views:
  "views (overview_panel we tr)" "views (recovery_panel we tr)" "views (scheduler_panel tr we)" "views (jobs_panel tr)"
  "views (policies_panel we tr)" "views (checkpoints_panel we tr)"
  unfolding overview_panel_def recovery_panel_def scheduler_panel_def jobs_panel_def policies_panel_def checkpoints_panel_def
  by (intro view_intros)+

lemma health_views: "views (training_health_panel we tr us)"
proof -
  have "views (kl_caption cs)" for cs
    by (auto simp: kl_caption_def Let_def intro: view_intros split: option.splits)
  then show ?thesis
    unfolding training_health_panel_def comparison_section_def single_run_section_def by (intro view_intros)
qed

lemma experiments_views: "views (experiments_panel we tr us)"
  unfolding experiments_panel_def Let_def by (intro view_intros)

lemma trajectory_views: "views (trajectory_panel we tr us)"
proof -
  have "views (advantage_shown d)" "views (components_shown d)" for d
    by (auto simp: advantage_shown_def components_shown_def intro: view_intros split: option.splits json.splits)
  then show ?thesis unfolding trajectory_panel_def Let_def by (intro view_intros)
qed

lemma panels_view: "views (panels we tr us live)"
  unfolding panels_def in_tab_def
  by (intro view_intros panel_views health_views experiments_views trajectory_views)

section \<open>What a button may change\<close>

definition others :: "string \<Rightarrow> traj_table \<Rightarrow> traj_table" where
  "others fresh rows = filter (\<lambda>t. tr_id t \<noteq> fresh) rows"

definition ops_change :: "string \<Rightarrow> bool \<Rightarrow> web \<Rightarrow> web \<Rightarrow> bool" where
  "ops_change fresh corrupt w w' \<longleftrightarrow>
     evolves (pf_jobs (wb_pf w)) (pf_jobs (wb_pf w')) \<and>
     wb_runs w' = wb_runs w \<and> wb_policies w' = wb_policies w \<and> wb_artifacts w' = wb_artifacts w \<and>
     pf_pipeline (wb_pf w') = pf_pipeline (wb_pf w) \<and> (\<exists>es. pf_events (wb_pf w') = pf_events (wb_pf w) @ es) \<and>
     others fresh (pf_traj (wb_pf w')) = others fresh (pf_traj (wb_pf w)) \<and>
     map fst (published (pf_ckpts (wb_pf w'))) = map fst (published (pf_ckpts (wb_pf w))) \<and>
     (corrupt \<or> pf_ckpts (wb_pf w') = pf_ckpts (wb_pf w))"

lemma ops_change_refl: "ops_change fresh c w w"
  by (simp add: ops_change_def)

lemma ops_reflp: "reflp (ops_change fresh c)"
  by (simp add: reflp_def ops_change_refl)

lemma ops_transp: "transp (ops_change fresh c)"
  by (rule transpI) (auto simp: ops_change_def dest: transpD [OF transp_evolves])

lemma control_evolves:
  assumes "\<And>s. evolves s (other s)"
  shows "evolves s (fst (api_transition other now jid to from verb s))"
proof -
  have "evolves s (fst (transition now jid to None False (other s)))"
    using assms [of s] keepsD [OF keeps_transition, of "other s"] by (rule transpD [OF transp_evolves])
  then show ?thesis
    by (auto simp: api_transition_def get_job_def split: option.splits prod.splits sum.splits store_error.splits)
qed

lemma keeps_get [keeps_intros]: "keeps evolves (get_job jid)"
  by (auto simp: keeps_def get_job_def split: option.splits)

lemma keeps_reap_at: "keeps evolves (reap_at now clock)"
proof
  fix s
  show "evolves s (fst (reap_at now clock s))"
    unfolding reap_at_def by (rule keepsD) (auto intro!: keeps_intros)
qed

lemma kill_evolves: "evolves s (fst (dev_kill_worker fresh t s))"
proof -
  have "keeps evolves (sim_kill_worker fresh t)"
    unfolding sim_kill_worker_def by (auto intro!: keeps_intros keeps_reap_at)
  from keepsD [OF this, of s] show ?thesis
    by (cases "sim_kill_worker fresh t s") (auto simp: dev_kill_worker_def split: sum.splits)
qed

definition recovery_change :: "recovery_state \<Rightarrow> recovery_state \<Rightarrow> bool" where
  "recovery_change rs rs' \<longleftrightarrow> evolves (rc_store rs) (rc_store rs') \<and> (\<exists>es. rc_log rs' = rc_log rs @ es)"

lemma recovery_relation [simp]: "reflp recovery_change" "transp recovery_change"
  by (auto simp: reflp_def recovery_change_def intro!: transpI dest: transpD [OF transp_evolves])

lemma keeps_on_store: "keeps evolves m \<Longrightarrow> keeps recovery_change (on_store m)"
  by (auto simp: keeps_def on_store_def recovery_change_def split: prod.splits sum.splits) (metis fst_conv)+

lemma keeps_persist: "keeps recovery_change (persist ct ev)"
  by (auto simp: keeps_def persist_def recovery_change_def split: option.splits)

lemma keeps_dead: "keeps evolves (dead_letter_now now jid err)"
  unfolding dead_letter_now_def by (auto intro!: keeps_intros)

lemma keeps_handle: "keeps recovery_change (handle parse ct gpu now ts j e)"
proof -
  have "keeps recovery_change (handle_oom parse ct now j err)" for err
    unfolding handle_oom_def
    by (auto simp: Let_def intro!: keeps_intros keeps_on_store keeps_dead split: option.splits sum.splits)
  then have "keeps recovery_change (handle_branch parse ct now j e)"
    unfolding handle_branch_def Let_def by (auto intro!: keeps_intros keeps_on_store keeps_dead)
  then show ?thesis unfolding handle_def by (auto intro!: keeps_intros keeps_persist)
qed

lemma oom_changes: "recovery_change rs (fst (dev_oom parse fs p fresh gpu t rs))"
proof -
  have "keeps recovery_change (sim_oom parse fs p fresh gpu t)"
    unfolding sim_oom_def by (auto intro!: keeps_intros keeps_on_store keeps_handle)
  from keepsD [OF this, of rs] show ?thesis
    by (cases "sim_oom parse fs p fresh gpu t rs") (auto simp: dev_oom_def split: sum.splits)
qed

lemma jobs_change: "(\<And>s. evolves s (fst (h s))) \<Longrightarrow> ops_change fresh c w (fst (at_jobs h w))"
  by (cases "h (pf_jobs (wb_pf w))") (auto simp: at_jobs_def ops_change_def, metis fst_conv)

lemma replay_changes: "ops_change fresh c w (fst (at_traj (dev_replay fresh t tid) w))"
proof -
  let ?rows = "pf_traj (wb_pf w)"
  have "others fresh (fst (dev_replay fresh t tid ?rows)) = others fresh ?rows"
    by (auto simp: dev_replay_def sim_duplicate_trajectory_def Let_def others_def traj_put_def insert_or_replace_def derive_def
        split: option.splits)
  then show ?thesis by (cases "dev_replay fresh t tid ?rows") (simp add: at_traj_def ops_change_def)
qed

lemma keys_map_entry: "map fst (AList.map_entry k f al) = map fst al"
  by (induction al) auto

lemma corrupt_changes: "c \<Longrightarrow> ops_change fresh c w (fst (at_ckpts (dev_corrupt_checkpoint ce) w))"
proof -
  let ?fs = "pf_ckpts (wb_pf w)"
  have "map fst (published (fst (dev_corrupt_checkpoint ce ?fs))) = map fst (published ?fs)"
    by (auto simp: dev_corrupt_checkpoint_def sim_corrupt_checkpoint_def Let_def tamper_def keys_map_entry
        split: option.splits sum.splits ckpt_error.splits)
  then show "c \<Longrightarrow> ?thesis" by (cases "dev_corrupt_checkpoint ce ?fs") (simp add: at_ckpts_def ops_change_def)
qed

lemma recovery_changes:
  "(\<And>rs. recovery_change rs (fst (h rs))) \<Longrightarrow> ops_change fresh c w (fst (at_recovery h w))"
  by (cases "h \<lparr>rc_store = pf_jobs (wb_pf w), rc_log = pf_events (wb_pf w)\<rparr>")
    (auto simp: at_recovery_def ops_change_def recovery_change_def dest: spec, (metis fst_conv recovery_state.simps)+)

lemma acting_requests:
  assumes "\<And>s. evolves s (we_other we s)"
  shows "keeps (ops_change (we_fresh we) c) (c_pause we tr jid)" "keeps (ops_change (we_fresh we) c) (c_resume we tr jid)"
    "keeps (ops_change (we_fresh we) c) (c_cancel we tr jid)" "keeps (ops_change (we_fresh we) c) (c_kill_worker we tr)"
    "keeps (ops_change (we_fresh we) c) (c_replay we tr tid)" "keeps (ops_change (we_fresh we) c) (c_sim_oom we tr)"
    "c \<Longrightarrow> keeps (ops_change (we_fresh we) c) (c_corrupt_checkpoint we tr)"
  by (rule keepsI; simp add: c_pause_def c_resume_def c_cancel_def c_kill_worker_def c_replay_def c_sim_oom_def
      c_corrupt_checkpoint_def; rule keepsD [OF keeps_request]; (rule ops_reflp)?;
      intro jobs_change replay_changes corrupt_changes recovery_changes;
      simp add: pause_job_def resume_job_def cancel_job_def control_evolves assms kill_evolves oom_changes)+

section \<open>The script\<close>

lemma keeps_try_ui:
  assumes "reflp R" and "transp R" and "keeps R m"
  shows "keeps (on_web R) (try_ui m ok)"
proof
  fix u
  have "on_web R u (fst (ask m u))" by (rule keepsD [OF keeps_ask [OF assms(3)]])
  moreover have "on_web R u' (u'\<lparr>ui_drawn := ws\<rparr>)" for u' ws using assms(1) by (simp add: on_web_def reflp_def)
  ultimately have "on_web R u ((fst (ask m u))\<lparr>ui_drawn := ws\<rparr>)" for ws
    using transpD [OF transp_on_web [OF assms(2)]] by blast
  then show "on_web R u (fst (try_ui m ok u))"
    by (cases "ask m u") (auto simp: try_ui_def draw_def split: sum.splits ui_exn.splits client_exn.splits)
qed

text \<open>What a pressed button is allowed to do: without any, nothing.\<close>

definition pressed_any :: "user \<Rightarrow> bool" where
  "pressed_any us \<longleftrightarrow> (\<exists>b \<in> {''Pause'', ''Resume'', ''Cancel'', ''Kill worker'', ''Corrupt checkpoint'',
     ''Trigger OOM'', ''Replay trajectory''}. us_pressed us b)"

definition may_corrupt :: "user \<Rightarrow> bool" where
  "may_corrupt us \<longleftrightarrow> us_ticked us ''corrupt the latest checkpoint'' \<and> us_pressed us ''Corrupt checkpoint''"

definition allowed :: "web_env \<Rightarrow> user \<Rightarrow> web \<Rightarrow> web \<Rightarrow> bool" where
  "allowed we us w w' \<longleftrightarrow> (if pressed_any us then ops_change (we_fresh we) (may_corrupt us) w w' else w' = w)"

lemma allowed_relation: "reflp (allowed we us)" "transp (allowed we us)"
proof -
  show "reflp (allowed we us)" by (simp add: reflp_def allowed_def ops_change_refl)
  show "transp (allowed we us)"
  proof (rule transpI)
    fix x y z assume "allowed we us x y" "allowed we us y z"
    then show "allowed we us x z"
      using transpD [OF ops_transp, of "we_fresh we" "may_corrupt us" x y z] by (auto simp: allowed_def split: if_splits)
  qed
qed

lemma allowed_eq: "w = w' \<Longrightarrow> allowed we us w w'"
  using allowed_relation(1) by (simp add: reflp_def)

lemma keeps_button:
  assumes "b \<in> {''Pause'', ''Resume'', ''Cancel'', ''Kill worker'', ''Corrupt checkpoint'', ''Trigger OOM'', ''Replay trajectory''}"
    and "P \<Longrightarrow> us_pressed us b \<Longrightarrow> keeps (ops_change (we_fresh we) (may_corrupt us)) m"
    and "\<And>r. views (f r)"
  shows "keeps (on_web (allowed we us)) (whenA (P \<and> us_pressed us b) (bindA (try_ui m ok) f))"
proof (cases "P \<and> us_pressed us b")
  case True
  then have "pressed_any us" using assms(1) by (auto simp: pressed_any_def)
  then have eq: "allowed we us = ops_change (we_fresh we) (may_corrupt us)" by (intro ext) (simp add: allowed_def)
  have "keeps (ops_change (we_fresh we) (may_corrupt us)) m" using True assms(2) by blast
  then have "keeps (on_web (allowed we us)) (try_ui m ok)"
    unfolding eq by (rule keeps_try_ui [OF ops_reflp ops_transp])
  moreover have "keeps (on_web (allowed we us)) (f r)" for r
    by (rule keeps_mono [OF assms(3)]) (simp add: on_web_def allowed_eq)
  ultimately have "keeps (on_web (allowed we us)) (bindA (try_ui m ok) f)"
    by (rule keeps_bind [OF transp_on_web [OF allowed_relation(2)]])
  with True show ?thesis by (simp add: whenA_def)
next
  case False
  then show ?thesis by (simp only: whenA_def if_False) (rule keeps_ret [OF reflp_on_web [OF allowed_relation(1)]])
qed

lemma controls_allowed:
  assumes "\<And>s. evolves s (we_other we s)"
  shows "keeps (on_web (allowed we us)) (dev_controls we tr us)"
proof -
  note bind = keeps_bind [OF transp_on_web [OF allowed_relation(2)]]
  have rep: "views (report r f)" for r :: "'a option" and f unfolding report_def by (rule views_basic)
  have job: "keeps (on_web (allowed we us)) (job_controls we tr us)"
    unfolding job_controls_def Let_def by (intro bind keeps_button views_basic acting_requests assms) simp_all
  have "keeps (on_web (allowed we us)) (fault_controls we tr us)"
    unfolding fault_controls_def Let_def
    by (intro bind keeps_button acting_requests assms rep) (simp_all add: may_corrupt_def)
  with job show ?thesis unfolding dev_controls_def by (rule bind)
qed

lemma main_allowed:
  assumes "\<And>s. evolves s (we_other we s)"
  shows "keeps (on_web (allowed we us)) (console_main ce we net us se)"
proof -
  note bind = keeps_bind [OF transp_on_web [OF allowed_relation(2)]]
  have weak: "views m \<Longrightarrow> keeps (on_web (allowed we us)) m" for m :: "'a ui_action"
    by (erule keeps_mono) (simp add: on_web_def allowed_eq)
  have tried: "views m \<Longrightarrow> (\<And>e. views (h e)) \<Longrightarrow> views (tryA m h)" for m :: "bool ui_action" and h
    by (rule keeps_try) simp_all
  have side: "keeps (on_web (allowed we us)) (sidebar ce we net us se)"
    unfolding sidebar_def Let_def by (intro bind controls_allowed [OF assms] weak views_basic)
  show ?thesis
    unfolding console_main_def Let_def split_beta
    by (intro bind [OF side] weak views_bind tried views_if view_intros panels_view)
qed

section \<open>What the panels show\<close>

lemma state_value_inject: "state_value a = state_value b \<longleftrightarrow> a = b"
  by (cases a; cases b) simp_all

lemma count_of_state: "count_of d (state_value st) = dict_get d st"
  by (induction d) (auto simp: count_of_def dict_get_def state_value_inject)

definition in_state :: "store \<Rightarrow> job_state \<Rightarrow> nat" where
  "in_state s st = length (filter (\<lambda>j. job_state j = st) (jobs_table s))"

lemma shown_count: "count_of (counts s) (state_value st) = in_state s st"
  by (simp add: count_of_state counts_def dict_get_group_count in_state_def)

lemma stages_states: "STAGES = map state_value job_states_all"
  by (simp add: STAGES_def job_states_all_def)

lemma states_cover: "sum_list (map (in_state s) job_states_all) = length (jobs_table s)"
proof -
  have "st \<in> set job_states_all" for st by (cases st) (simp_all add: job_states_all_def)
  then show ?thesis unfolding in_state_def by (intro sum_filter_counts) (auto simp: job_states_all_def)
qed

definition sound_ckpt :: "ckpt_env \<Rightarrow> ckpt_fs \<Rightarrow> string \<Rightarrow> bool" where
  "sound_ckpt ce fs cid \<longleftrightarrow> \<not> isl (ck_verify (ce_sha ce) (ce_render ce) (ce_parse ce) fs cid)"

definition view_of :: "ckpt_env \<Rightarrow> ckpt_fs \<Rightarrow> ckpt_manifest \<Rightarrow> ckpt_view" where
  "view_of ce fs m =
     \<lparr>cv_id = ck_id m, cv_step = ck_step m, cv_reward_mean = map_of (ck_metadata m) ''reward_mean'',
      cv_n_files = length (ck_files m), cv_integrity = (if sound_ckpt ce fs (ck_id m) then ''OK'' else ''CORRUPT'')\<rparr>"

lemma view_total:
  assumes "ck_wf fs" and "(n, d) \<in> set (published fs)"
  shows "ckpt_view_of ce fs (doc_of d) = Inr (view_of ce fs (doc_of d))"
  using ck_get_wf [OF assms]
  by (auto simp: ckpt_view_of_def view_of_def sound_ckpt_def ck_verify_def Let_def split: sum.splits)

definition readable :: "web_env \<Rightarrow> web \<Rightarrow> bool" where
  "readable we w \<longleftrightarrow> ck_wf (pf_ckpts (wb_pf w)) \<and> read_jsonl (we_loads we) (pf_pipeline (wb_pf w)) \<noteq> None"

definition manifests :: "web \<Rightarrow> ckpt_manifest list" where
  "manifests w = sort_key ck_created (map (doc_of \<circ> snd) (published (pf_ckpts (wb_pf w))))"

lemma snapshot_true:
  assumes "readable we w"
  shows "\<exists>sn. snapshot (we_ckpt we) (we_loads we) None (wb_pf w) = Inr sn \<and>
    sn_job_counts sn = counts (pf_jobs (wb_pf w)) \<and> sn_reward_stats sn = reward_stats (pf_traj (wb_pf w)) \<and>
    sn_events sn = pf_events (wb_pf w) \<and>
    sn_checkpoints sn = map (view_of (we_ckpt we) (pf_ckpts (wb_pf w))) (manifests w)"
proof -
  let ?fs = "pf_ckpts (wb_pf w)"
  have wf: "ck_wf ?fs" using assms by (simp add: readable_def)
  have "mapE (ckpt_view_of (we_ckpt we) ?fs) (manifests w) = Inr (map (view_of (we_ckpt we) ?fs) (manifests w))"
    by (rule mapE_Inr) (use view_total [OF wf] in \<open>auto simp: manifests_def\<close>)
  then show ?thesis
    using assms by (auto simp: snapshot_def readable_def ck_list_wf [OF wf] manifests_def [symmetric])
qed

lemma overview_true:
  assumes "tr \<noteq> Remote False" and "readable we (ui_web u)"
  shows "overview_panel we tr u = (u\<lparr>ui_drawn := ui_drawn u @ [Heading ''Jobs'']
      @ map (\<lambda>st. Metric (stage_title (state_value st)) (JInt (int (in_state (pf_jobs (wb_pf (ui_web u))) st))) None) job_states_all
      @ (case reward_stats (pf_traj (wb_pf (ui_web u))) of
           None \<Rightarrow> []
         | Some rs \<Rightarrow> [Notice Note_Caption ''rewards''
             [JInt (int (rs_count rs)), JNum (rs_mean rs), JNum (rs_min rs), JNum (rs_max rs)]])\<rparr>, Inr ())"
proof -
  obtain sn where sn: "snapshot (we_ckpt we) (we_loads we) None (wb_pf (ui_web u)) = Inr sn"
    "sn_job_counts sn = counts (pf_jobs (wb_pf (ui_web u)))" "sn_reward_stats sn = reward_stats (pf_traj (wb_pf (ui_web u)))"
    using snapshot_true [OF assms(2)] by blast
  have "ask (c_overview we tr) u = (u, Inr sn)"
    using assms(1) by (simp add: ask_def c_overview_def request_def at_platform_def overview_def sn(1))
  then show ?thesis
    by (simp add: overview_panel_def draw_def sn(2,3) stages_states shown_count comp_def)
qed

lemma checkpoints_true:
  assumes "tr \<noteq> Remote False" and "readable we (ui_web u)"
  shows "checkpoints_panel we tr u = (u\<lparr>ui_drawn := ui_drawn u @ [Heading ''Checkpoints''] @
     (let w = ui_web u; ce = we_ckpt we; ids = map ck_id (manifests w);
          bad = filter (\<lambda>i. \<not> sound_ckpt ce (pf_ckpts (wb_pf w)) i) ids in
      if ids = [] then [Notice Note_Info ''No checkpoints'' []]
      else [Table (map (ckpt_row \<circ> view_of ce (pf_ckpts (wb_pf w))) (manifests w)),
            if bad \<noteq> [] then Notice Note_Error ''CORRUPT'' (map JStr bad)
            else Notice Note_Success ''All checkpoints verify OK'' []])\<rparr>, Inr ())"
proof -
  let ?v = "view_of (we_ckpt we) (pf_ckpts (wb_pf (ui_web u)))"
  obtain sn where sn: "snapshot (we_ckpt we) (we_loads we) None (wb_pf (ui_web u)) = Inr sn"
    "sn_checkpoints sn = map ?v (manifests (ui_web u))"
    using snapshot_true [OF assms(2)] by blast
  have ask: "ask (c_checkpoints we tr) (u\<lparr>ui_drawn := ws\<rparr>) = (u\<lparr>ui_drawn := ws\<rparr>, Inr (map ?v (manifests (ui_web u))))" for ws
    using assms(1) by (simp add: ask_def c_checkpoints_def request_def at_platform_def api_checkpoints_def sn)
  have bad: "map cv_id (filter (\<lambda>c. cv_integrity c \<noteq> ''OK'') (map ?v ms)) =
      filter (\<lambda>i. \<not> sound_ckpt (we_ckpt we) (pf_ckpts (wb_pf (ui_web u))) i) (map ck_id ms)" for ms
    by (induction ms) (simp_all add: view_of_def)
  show ?thesis
    unfolding checkpoints_panel_def by (simp add: draw_def ask integrity_notice_def Let_def bad)
qed

text \<open>What a run of the script may do to the platform.\<close>

definition harmless :: "web_env \<Rightarrow> user \<Rightarrow> web \<Rightarrow> web \<Rightarrow> bool" where
  "harmless we us w w' \<longleftrightarrow>
     evolves (pf_jobs (wb_pf w)) (pf_jobs (wb_pf w')) \<and>
     wb_runs w' = wb_runs w \<and> wb_policies w' = wb_policies w \<and> wb_artifacts w' = wb_artifacts w \<and>
     (\<exists>es. pf_events (wb_pf w') = pf_events (wb_pf w) @ es) \<and>
     others (we_fresh we) (pf_traj (wb_pf w')) = others (we_fresh we) (pf_traj (wb_pf w)) \<and>
     map fst (published (pf_ckpts (wb_pf w'))) = map fst (published (pf_ckpts (wb_pf w))) \<and>
     (may_corrupt us \<or> pf_ckpts (wb_pf w') = pf_ckpts (wb_pf w))"

lemma allowed_harmless: "allowed we us w w' \<Longrightarrow> (pressed_any us \<or> w' = w) \<and> harmless we us w w'"
  by (cases "pressed_any us") (simp_all add: allowed_def ops_change_def harmless_def)


definition sample_web :: web where
  "sample_web =
     \<lparr>wb_pf = \<lparr>pf_jobs = sample_store, pf_traj = [], pf_ckpts = empty_ckpts, pf_events = [], pf_pipeline = None\<rparr>,
      wb_runs = [], wb_policies = \<lparr>published = [], staging = []\<rparr>, wb_artifacts = \<lparr>artifacts = [], edges = []\<rparr>\<rparr>"

definition sample_web_env :: web_env where
  "sample_web_env =
     \<lparr>we_root = ''runs/pipeline'', we_ckpt = \<lparr>ce_sha = sum_sha, ce_render = (\<lambda>_. []), ce_parse = no_parse\<rparr>,
      we_loads = (\<lambda>_. None), we_policy = (\<lambda>_. None), we_metrics = (\<lambda>_. None), we_run_dirs = None,
      we_comparisons = None, we_traj_db = True, we_other = (\<lambda>s. s), we_fresh = ''f'', we_now = 2, we_gpu = None\<rparr>"

definition pausing :: user where
  "pausing =
     \<lparr>us_text = (\<lambda>l d. if l = ''Job id (pause/resume/cancel)'' then ''b'' else d), us_choice = (\<lambda>_ _. 0),
      us_picked = (\<lambda>d. d), us_ticked = (\<lambda>_. False), us_pressed = (\<lambda>b. b = ''Pause''), us_interval = 4\<rparr>"


end
