(* ===== verification/Reports.thy ===== *)
theory Reports
  imports Api Eval
begin

text \<open>
  The command line tools around the trainer: the dataset builder
  (\<^verbatim>\<open>src/shoprl/data/build.py\<close> with the JSONL files of \<^verbatim>\<open>src/shoprl/data/catalog.py\<close> and
  \<^verbatim>\<open>prompts.py\<close>), the smoke test (\<^verbatim>\<open>src/shoprl/cli.py\<close>), the comparison table
  (\<^verbatim>\<open>src/shoprl/rl/report.py\<close>) and the GPU telemetry (\<^verbatim>\<open>src/shoprl/platform/gpu.py\<close>).
  What a command prints is a list of lines; JSON texts and what torch and NVML answer are parameters.
\<close>

section \<open>JSONL files\<close>

definition product_dict :: "product \<Rightarrow> dict" where
  "product_dict p =
     [(''sku'', JStr (p_sku p)), (''name'', JStr (p_name p)), (''price'', JNum (p_price p)), (''ram_gb'', JInt (p_ram p)),
      (''weight_lbs'', JNum (p_weight p)), (''battery_hrs'', JInt (p_battery p)), (''brand'', JStr (p_brand p))]"

definition prompt_dict :: "prompt_example \<Rightarrow> dict" where
  "prompt_dict e =
     [(''prompt_id'', JStr (pe_id e)), (''prompt'', JStr (pe_prompt e)),
      (''constraints'', JObj (map (\<lambda>(k, x). (k, JNum x)) (pe_constraints e))),
      (''answer_skus'', JArr (map JStr (pe_answers e)))]"

definition write_jsonl :: "(dict \<Rightarrow> string) \<Rightarrow> ('a \<Rightarrow> dict) \<Rightarrow> 'a list \<Rightarrow> string" where
  "write_jsonl dumps f xs = concat (map (\<lambda>x. dumps (f x) @ [CHR 0x0A]) xs)"

text \<open>\<open>model_validate_json\<close>: the fields with their types, an int where a float is expected, a float without
  fraction where an int is; \<open>None\<close> is the ValidationError.\<close>

definition str_field :: "dict \<Rightarrow> string \<Rightarrow> string option" where
  "str_field d k = (case map_of d k of Some (JStr x) \<Rightarrow> Some x | _ \<Rightarrow> None)"

definition float_field :: "dict \<Rightarrow> string \<Rightarrow> real option" where
  "float_field d k = (case map_of d k of Some (JNum x) \<Rightarrow> Some x | Some (JInt i) \<Rightarrow> Some (of_int i) | _ \<Rightarrow> None)"

definition whole_field :: "dict \<Rightarrow> string \<Rightarrow> int option" where
  "whole_field d k =
     (case map_of d k of
        Some (JInt i) \<Rightarrow> Some i | Some (JNum x) \<Rightarrow> (if of_int \<lfloor>x\<rfloor> = x then Some \<lfloor>x\<rfloor> else None) | _ \<Rightarrow> None)"

definition product_of :: "json \<Rightarrow> product option" where
  "product_of j =
     (case obj_of j of
        None \<Rightarrow> None
      | Some d \<Rightarrow>
          (case (str_field d ''sku'', str_field d ''name'', float_field d ''price'', whole_field d ''ram_gb'',
                 float_field d ''weight_lbs'', whole_field d ''battery_hrs'', str_field d ''brand'') of
             (Some s, Some n, Some p, Some r, Some w, Some b, Some br) \<Rightarrow>
               Some \<lparr>p_sku = s, p_name = n, p_price = p, p_ram = r, p_weight = w, p_battery = b, p_brand = br\<rparr>
           | _ \<Rightarrow> None))"

text \<open>\<open>read_jsonl\<close>; \<open>None\<close> is the exception of a bad line.\<close>

definition read_products :: "(string \<Rightarrow> json option) \<Rightarrow> string \<Rightarrow> product list option" where
  "read_products loads body =
     all_some (map (\<lambda>l. Option.bind (loads l) product_of) (filter (\<lambda>l. strip l \<noteq> []) (file_lines_acc [] body)))"

section \<open>The dataset builder\<close>

text \<open>The two files, the number of products and examples and the average number of answers.\<close>

record build_out =
  bd_catalog :: string
  bd_prompts :: string
  bd_counts :: "nat \<times> nat"
  bd_avg_answers :: real

definition build_dataset :: "'g gen_env \<Rightarrow> (dict \<Rightarrow> string) \<Rightarrow> int \<Rightarrow> int \<Rightarrow> int \<Rightarrow> build_out option" where
  "build_dataset ge dumps n_catalog n_prompts seed =
     (let products = generate_catalog (ge_rng ge) (ge_mk ge) (nat n_catalog) seed in
      case prompts_of ge products n_prompts seed of
        None \<Rightarrow> None
      | Some examples \<Rightarrow>
          Some \<lparr>bd_catalog = write_jsonl dumps product_dict products,
                bd_prompts = write_jsonl dumps prompt_dict examples,
                bd_counts = (length products, length examples),
                bd_avg_answers = real (sum_list (map (\<lambda>e. length (pe_answers e)) examples))
                  / real (max 1 (length examples))\<rparr>)"

definition build_report :: "string \<Rightarrow> build_out \<Rightarrow> string list" where
  "build_report dir b =
     [''wrote '' @ show_nat (fst (bd_counts b)) @ '' products -> '' @ path_join dir ''catalog.jsonl'',
      ''wrote '' @ show_nat (snd (bd_counts b)) @ '' prompts  -> '' @ path_join dir ''prompts.jsonl'',
      ''avg ground-truth answers/prompt: '' @ show_fixed 1 (bd_avg_answers b)]"

section \<open>The smoke test\<close>

definition SAMPLE_PROMPTS :: "string list" where
  "SAMPLE_PROMPTS =
     [''User wants wireless earbuds under $80 for running. Recommend one product.'',
      ''User needs a durable water bottle for hiking. Recommend one product.'']"

definition group_lines :: "rollout_group \<Rightarrow> string list" where
  "group_lines g =
     ['''', ''PROMPT: '' @ gr_prompt g]
     @ map (\<lambda>(i, c). ''  ['' @ show_nat i @ ''] '' @ co_text c) (enumerate 0 (gr_completions g))"

text \<open>\<open>cmd_rollout\<close> with the engine that the configuration names.\<close>

definition cmd_rollout :: "config \<Rightarrow> (engine_kind \<Rightarrow> 's engine) \<Rightarrow> ('s, string, string list) action" where
  "cmd_rollout cfg engines =
     bindA (engines (ro_engine (cf_rollout cfg)) SAMPLE_PROMPTS (ro_num_samples (cf_rollout cfg)) None) (\<lambda>groups.
       ret ((''[experiment] '' @ xc_name (cf_experiment cfg) @ '' | engine='' @ engine_value (ro_engine (cf_rollout cfg)))
            # concat (map group_lines groups)))"

section \<open>The comparison table\<close>

text \<open>\<open>_fmt\<close> with the formats of the table; \<open>None\<close> is the exception for what is not a number.\<close>

definition number_text :: "(real \<Rightarrow> string) \<Rightarrow> json \<Rightarrow> string option" where
  "number_text f v =
     (case v of
        JNum x \<Rightarrow> Some (f x) | JInt i \<Rightarrow> Some (f (of_int i)) | JBool b \<Rightarrow> Some (f (if b then 1 else 0))
      | JPosInf \<Rightarrow> Some ''inf'' | JNegInf \<Rightarrow> Some ''-inf'' | JNaN \<Rightarrow> Some ''nan'' | _ \<Rightarrow> None)"

definition fmt :: "(real \<Rightarrow> string) \<Rightarrow> json \<Rightarrow> string option" where
  "fmt f v = (if v = JNull then Some ''n/a'' else number_text f v)"

text \<open>\<open>{:+.3f}\<close>.\<close>

definition fmt_signed :: "json \<Rightarrow> string option" where
  "fmt_signed v =
     (case v of
        JPosInf \<Rightarrow> Some ''+inf'' | JNaN \<Rightarrow> Some ''+nan''
      | _ \<Rightarrow> fmt (\<lambda>x. (if x < 0 then '''' else ''+'') @ show_fixed 3 x) v)"

definition COLUMNS :: "string list" where
  "COLUMNS = [''algo'', ''steps'', ''before'', ''after'', ''gain'', ''final_KL'', ''max_KL'', ''time_s'', ''tok/s'',
     ''peak_GB'', ''rollout_std'', ''fails'']"

definition table_line :: "string list \<Rightarrow> string" where
  "table_line cells = ''| '' @ join '' | '' cells @ '' |''"

definition held_out :: "dict \<Rightarrow> string \<Rightarrow> json option" where
  "held_out r k = (case map_of r k of Some (JObj d) \<Rightarrow> map_of d ''reward_mean'' | _ \<Rightarrow> None)"

text \<open>The cells of a result, \<open>str_of\<close> being \<open>str\<close> of a JSON value; \<open>None\<close> is the exception of a missing
  key or of a value that does not format.\<close>

definition result_cells :: "(json \<Rightarrow> string) \<Rightarrow> dict \<Rightarrow> string list option" where
  "result_cells str_of r =
     (let num = (\<lambda>k f. Option.bind (map_of r k) (fmt f)) in
      all_some
        [str_field r ''algorithm'', map_option str_of (map_of r ''steps''),
         Option.bind (held_out r ''held_out_before'') (fmt (show_fixed 3)),
         Option.bind (held_out r ''held_out_after'') (fmt (show_fixed 3)),
         Option.bind (map_of r ''reward_gain'') fmt_signed,
         num ''final_kl'' (show_fixed 3), num ''max_kl'' (show_fixed 3), num ''train_time_s'' show_real0,
         num ''tokens_per_sec'' (show_fixed 1), num ''peak_mem_gb'' (show_fixed 1),
         num ''mean_rollout_reward_std'' (show_fixed 3), map_option str_of (map_of r ''stability_failures'')])"

definition result_table :: "(json \<Rightarrow> string) \<Rightarrow> dict list \<Rightarrow> string list option" where
  "result_table str_of rs =
     map_option (\<lambda>rows. [table_line COLUMNS, ''|'' @ join ''|'' (map (\<lambda>_. ''---'') COLUMNS) @ ''|''] @ map table_line rows)
       (all_some (map (result_cells str_of) rs))"

section \<open>GPU telemetry\<close>

text \<open>What torch answers about the current device, in bytes; \<open>None\<close> without CUDA.\<close>

record cuda =
  cu_name :: string
  cu_allocated :: int
  cu_reserved :: int
  cu_peak :: int

text \<open>NVML's reading (\<open>None\<close> if it raises), else what nvidia-smi exits with and prints (\<open>None\<close> if it cannot
  be run); \<open>parse\<close> is \<open>float\<close> on a text.\<close>

definition nvml_utilization :: "(string \<Rightarrow> json option) \<Rightarrow> real option \<Rightarrow> (int \<times> string) option \<Rightarrow> json" where
  "nvml_utilization parse nvml smi =
     (case nvml of
        Some x \<Rightarrow> JNum x
      | None \<Rightarrow>
          (case smi of
             None \<Rightarrow> JNull
           | Some (rc, printed) \<Rightarrow>
               if rc \<noteq> 0 then JNull
               else (case splitlines (strip printed) of
                       [] \<Rightarrow> JNull
                     | l # _ \<Rightarrow> (case parse l of None \<Rightarrow> JNull | Some v \<Rightarrow> v))))"

definition gigabytes :: "int \<Rightarrow> json" where
  "gigabytes b = JNum (py_round 3 (of_int b / 10 ^ 9))"

text \<open>\<open>torch\<close> is absent, or says whether there is a device.\<close>

definition gpu_telemetry :: "cuda option option \<Rightarrow> json \<Rightarrow> dict" where
  "gpu_telemetry torch util =
     (case torch of
        None \<Rightarrow> [(''available'', JBool False), (''reason'', JStr ''torch not installed'')]
      | Some None \<Rightarrow> [(''available'', JBool False), (''reason'', JStr ''no CUDA device'')]
      | Some (Some c) \<Rightarrow>
          [(''available'', JBool True), (''device_name'', JStr (cu_name c)),
           (''mem_allocated_gb'', gigabytes (cu_allocated c)), (''mem_reserved_gb'', gigabytes (cu_reserved c)),
           (''peak_mem_gb'', gigabytes (cu_peak c)), (''utilization_pct'', util)])"

section \<open>Facts\<close>

lemma code_newline: "code c = 10 \<longleftrightarrow> c = CHR 0x0A" "code c = 13 \<longleftrightarrow> c = CHR 0x0D"
  using of_char_eq_iff [of c "CHR 0x0A", where 'a = nat] of_char_eq_iff [of c "CHR 0x0D", where 'a = nat]
  by (simp_all add: code_def)

lemma file_line:
  "CHR 0x0A \<notin> set l \<Longrightarrow> CHR 0x0D \<notin> set l \<Longrightarrow>
    file_lines_acc acc (l @ CHR 0x0A # rest) = (rev acc @ l) # file_lines_acc [] rest"
proof (induction l arbitrary: acc)
  case Nil
  then show ?case by (simp add: code_def)
next
  case (Cons c l)
  have "code c \<noteq> 10" "code c \<noteq> 13"
    using Cons.prems by (auto simp: code_newline)
  with Cons show ?case by simp
qed

lemma product_fields: "product_of (JObj (product_dict p)) = Some p"
  by (simp add: product_of_def obj_of_def product_dict_def str_field_def float_field_def whole_field_def)

text \<open>\<open>json.dumps\<close> writes one line of text, and \<open>json.loads\<close> reads it back.\<close>

definition one_line :: "string \<Rightarrow> bool" where
  "one_line l \<longleftrightarrow> CHR 0x0A \<notin> set l \<and> CHR 0x0D \<notin> set l \<and> strip l \<noteq> []"

lemma written_lines:
  assumes "\<forall>x \<in> set xs. one_line (dumps (f x))"
  shows "filter (\<lambda>l. strip l \<noteq> []) (file_lines_acc [] (write_jsonl dumps f xs)) = map (\<lambda>x. dumps (f x)) xs"
  using assms by (induction xs) (auto simp: write_jsonl_def one_line_def file_line)

lemma catalog_roundtrip:
  assumes "\<forall>p \<in> set ps. one_line (dumps (product_dict p)) \<and> loads (dumps (product_dict p)) = Some (JObj (product_dict p))"
  shows "read_products loads (write_jsonl dumps product_dict ps) = Some ps"
proof -
  have rows: "map (\<lambda>l. Option.bind (loads l) product_of) (map (\<lambda>p. dumps (product_dict p)) ps) = map Some ps"
    using assms by (auto simp: product_fields)
  have ls: "filter (\<lambda>l. strip l \<noteq> []) (file_lines_acc [] (write_jsonl dumps product_dict ps)) = map (\<lambda>p. dumps (product_dict p)) ps"
    using assms by (intro written_lines) blast
  show ?thesis
    unfolding read_products_def ls rows by (simp add: all_some_def image_iff comp_def)
qed

text \<open>Nothing is measured without a device.\<close>

lemma telemetry_honest:
  "(map_of (gpu_telemetry torch util) ''available'' = Some (JBool True)) = (\<exists>c. torch = Some (Some c)) \<and>
   (map_of (gpu_telemetry torch util) ''peak_mem_gb'' \<noteq> None \<longrightarrow> (\<exists>c. torch = Some (Some c)))"
  by (auto simp: gpu_telemetry_def split: option.splits)

end
