(* ===== verification/Spec2Isabelle.thy ===== *)
theory Spec2Isabelle
  imports Scheduler_Props Pool_Once Pipeline_Props Checkpoint_Props Policy_Props Failure_Props Control_Props Lineage_Props Catalog_Props Reward_Props Env_Props Advantages Grpo_Loss Alerts Preflight_Props Dash_Props Dashboard_Props Trainer_Props Bench_Props Baseline_Props Platform_Props Console_Props Reports
begin

text \<open>
  A model of ShopRL Fabric (the Python package \<^verbatim>\<open>src/shoprl\<close>): reinforcement
  learning from verifiable rewards for a shopping assistant, and the platform that runs, recovers and
  records the training jobs.  Definitions are translated from the source, one theory per module or
  pair of modules; a theory \<open>X_Props\<close> states what holds of theory \<open>X\<close>.

  \<^bold>\<open>Parts and how they interact.\<close>

  The platform is built on a job database.  A job moves along a transition graph (\<open>Jobs\<close>,
  \<^verbatim>\<open>platform/jobs.py\<close>); the store (\<open>Job_Store\<close>, \<^verbatim>\<open>platform/store.py\<close>) is the two
  tables as lists of rows, each SQL statement an update of the rows that its WHERE clause selects.  The
  scheduler (\<open>Scheduler\<close>) admits waiting jobs per resource class; workers (\<open>Workers\<close>, and as
  interleaved processes \<open>Worker_Pool\<close>) claim and run them with a handler; failures are classified,
  logged and requeued or dead-lettered (\<open>Failures\<close>); the control plane (\<open>Control\<close>) serves
  scheduled training jobs with out-of-memory recovery.  Checkpoints, policy versions and prompt
  datasets are published by the crash-safe directory ingest of \<^verbatim>\<open>platform/_atomic.py\<close>
  (\<open>Atomic_Ingest\<close>, used by \<open>Checkpoints\<close>, \<open>Policy\<close>, \<open>Prompt_Registry\<close>).  Provenance is
  kept in four tables: trajectories (\<open>Trajectory\<close>, \<open>Traj_Store\<close>), artifacts
  (\<open>Artifacts\<close>), runs (\<open>Exp_Registry\<close>) and the ledger of job results.  \<open>Preflight\<close> checks
  a configuration (\<open>Config\<close>) before it runs, \<open>Platform_Run\<close> drives one training run through
  all stores (\<^verbatim>\<open>platform/integration.py\<close>), \<open>Pipeline\<close> drives rollout and optimize jobs
  through a pool of workers (\<^verbatim>\<open>platform/pipeline.py\<close>).  \<open>Dash_Data\<close>, \<open>Api\<close>,
  \<open>Alerts\<close> and \<open>Dashboard\<close> are what the outside sees of it, the operations console
  (\<open>Ops_Console\<close>, \<open>Ops_Panels\<close>) through the HTTP client (\<open>Api_Client\<close>).

  The learning side: a catalog, prompts with ground truth and shortlists (\<open>Catalog\<close>), the parser
  of answers and the composite reward (\<open>Reward_Parse\<close>, \<open>Rewards\<close>), a multi-turn shopping
  environment (\<open>Shop_Env\<close>), three rollout engines behind one contract (\<open>Stub_Engine\<close>,
  \<open>Engines\<close>), advantage estimators and the clipped loss (\<open>Advantages\<close>, \<open>Grpo_Loss\<close>), the
  trainer of \<^verbatim>\<open>rl/\<close> for GRPO, RLOO and PPO (\<open>Training\<close>) and the first GRPO trainer
  (\<open>Grpo_Trainer\<close>, \<^verbatim>\<open>grpo/trainer.py\<close>), evaluations (\<open>Eval\<close>) and the benchmark
  (\<open>Bench\<close>).

  \<^bold>\<open>How the code is represented.\<close>  \<open>Shop_Prelude\<close> holds the shared vocabulary: an operation
  with effects is a function from the state to the state reached and either an exception or a result
  (\<open>action\<close>, composed with \<open>bindA\<close>, \<open>mapA\<close>, \<open>catch\<close>), so that an exception keeps the
  effects made before it; JSON values and dictionaries (association lists in insertion order); rows
  of a table.  \<open>Text\<close> and \<open>Lexing\<close> hold Python's string functions and the regular expressions
  the code uses, over the code points up to U+00FF.  Python's floats are real numbers; NaN and the
  infinities exist where the code tests for them (\<open>pyfloat\<close>), rounding is written out as
  \<open>py_round\<close>.  Clocks, fresh identifiers and random numbers are arguments.  What is not under
  \<^verbatim>\<open>src/\<close> is a parameter as well: SHA-256, JSON printing and parsing, the tokenizer, the language
  model and its gradients, SQLite's storage, FastAPI's request parsing; the hypotheses on them (the hash
  is injective on the documents that are compared, parsing inverts printing) stand in the theorems
  and locales that need them.

  \<^bold>\<open>What the lemmas show.\<close>

  \<^item> \<open>Job_Lifecycle\<close>, \<open>Job_Invariants\<close>, \<open>Job_Props\<close>: every store call as one abstract write; the
    step relation \<open>store_step\<close> with its reachable stores, the bookkeeping invariant and the fact that
    jobs only evolve along the graph; exact behaviour of claim, fail and reap.
  \<^item> \<open>Scheduler\<close>, \<open>Scheduler_Props\<close>: capacity, work conservation and priority of a scheduling
    pass, through the locale \<open>admission_queue\<close>.
  \<^item> \<open>Worker_Props\<close>, \<open>Worker_Pool\<close>, \<open>Pool_Props\<close>, \<open>Pool_Once\<close>: one turn of a worker; a pool under
    every interleaving: mutual exclusion, termination, and each job run exactly once.
  \<^item> \<open>Pool_Fair\<close>, \<open>Rollout_Props\<close>, \<open>Rollout_Stage\<close>, \<open>Pipeline_Props\<close>: fair schedules join a pool;
    the rollout handler never raises on the driver's payloads; the end-to-end pipeline completes with the
    same report under every fair schedule.
  \<^item> \<open>Atomic_Ingest\<close> (locale \<open>manifest_registry\<close>, interpreted for checkpoints and policies),
    \<open>Checkpoint_Props\<close>, \<open>Policy_Props\<close>: crash safety, round trip, tamper detection, retention,
    version numbering.
  \<^item> \<open>Failure_Props\<close>, \<open>Control_Props\<close>, \<open>Platform_Props\<close>: recovery settles a job in every branch,
    no slot leaks, a driven run ends settled in the registry (Hoare triples over the run table).
  \<^item> \<open>Traj_Store\<close> (locale \<open>keyed_store\<close>, interpreted for trajectories and runs), \<open>Lineage_Props\<close>:
    derivation chains and lineage views are complete and repetition free.
  \<^item> \<open>Api_Props\<close> (locale \<open>simulation\<close>), \<open>Dash_Props\<close>, \<open>Dashboard_Props\<close>: the job endpoints refine
    an automaton, what fault injections do, when and where a dashboard is drawn.
  \<^item> \<open>Console_Props\<close>: what the console may change (by \<open>keeps\<close>, the relational invariant of an
    action) and that its numbers are those of the stores; \<open>Reports\<close>: the dataset files read back.
  \<^item> \<open>Catalog_Props\<close>, \<open>Reward_Parse\<close>, \<open>Reward_Props\<close>, \<open>Env_Props\<close>: ground truth, parsing against
    a reference description, ranges of rewards, honesty pays, accounts of an episode.
  \<^item> \<open>Advantages\<close> (locale \<open>advantage_estimator\<close>), \<open>Grpo_Loss\<close>, \<open>Engine_Props\<close> (locale
    \<open>rollout_engine\<close>, three interpretations), \<open>Training_Props\<close>, \<open>Trainer_Props\<close>: estimators
    compared, the loss, aligned batches, what a training run logs, equivalence of both trainers.
  \<^item> \<open>Eval_Props\<close>, \<open>Baseline_Props\<close>, \<open>Bench_Props\<close>, \<open>Preflight_Props\<close>: evaluations, benchmark and
    preflight reports say what was measured.

  \<^bold>\<open>Bounds.\<close>  The \<open>while True\<close> of \<open>claim\<close> has a bound on its rounds (\<open>claim_rounds\<close>);
  \<open>claim_rounds_enough\<close> shows that the first round decides, whatever the bound.  \<open>oom_loop\<close> counts down
  the retries of the code.  The loops \<open>admit_while\<close>, \<open>ancestors_loop\<close>, \<open>ancestry_walk\<close> and \<open>find_skus\<close>
  are functions with a termination proof: free slots, unseen identifiers, remaining text.  A pool runs
  along a schedule, a finite list of turns; \<open>pool_terminates\<close> bounds the effective turns of every
  schedule, so that fair schedules reach the end.

  \<^bold>\<open>Not modelled.\<close>  Argument parsing and the \<open>main\<close> functions that only parse arguments, the
  deployment script \<^verbatim>\<open>modal_app.py\<close>, the web frontend (TypeScript), package initialisers and tests:
  they hold no state and decide nothing.  Of the modelled modules the tensor kernels (the forward pass
  and the gradients) are parameters, log messages, the HTML template and the wording of the console are
  left out, and SQLite transactions are atomic steps.
\<close>

end
